(* ===== verification/Prelude.thy ===== *)
theory Prelude
  imports Main "HOL-Library.List_Lexorder" "HOL-Library.Char_ord" "HOL-Library.Sublist"
    "HOL-Library.Multiset"
begin

section \<open>Shared vocabulary: the JavaScript library the agent is written in\<close>

text \<open>
  The generic part of the development: what the TypeScript sources use of the language's own
  library, and the facts about it that several components share.

  A JavaScript string is a list of UTF-16 code units; here it is a \<^typ>\<open>string\<close>, whose
  characters stand for the code units 0 to 255. Every length, index and comparison of the
  sources counts code units, and so does the model.

  Three services of the host are not fixed by the code: the SHA-256 implementation of
  \<open>node:crypto\<close>, the collation behind \<open>String.prototype.localeCompare\<close> (implementation-defined in
  ECMA-402) and the reading of date strings that are not in the canonical form (left to the
  implementation by ECMA-262). They are the fields of the record \<open>js_env\<close>, the first argument of
  every definition that depends on them.
\<close>

subsection \<open>The host environment\<close>

record js_env =
  sha256_hex :: "string \<Rightarrow> string"
  localeCompare :: "string \<Rightarrow> string \<Rightarrow> int"
  dateFallback :: "string \<Rightarrow> int option"

subsection \<open>Results: a thrown error is \<open>Inl\<close>, a returned value is \<open>Inr\<close>\<close>

fun bind_result :: "'e + 'a \<Rightarrow> ('a \<Rightarrow> 'e + 'b) \<Rightarrow> 'e + 'b" where
  "bind_result (Inl e) f = Inl e"
| "bind_result (Inr a) f = f a"

fun map_result :: "('a \<Rightarrow> 'b) \<Rightarrow> 'e + 'a \<Rightarrow> 'e + 'b" where
  "map_result f (Inl e) = Inl e"
| "map_result f (Inr a) = Inr (f a)"

text \<open>The results of a loop that stops at the first exception.\<close>

fun collect :: "('e + 'a) list \<Rightarrow> 'e + 'a list" where
  "collect [] = Inr []"
| "collect (Inl e # rs) = Inl e"
| "collect (Inr a # rs) = map_result (\<lambda>as. a # as) (collect rs)"

definition throw_if :: "bool \<Rightarrow> 'e \<Rightarrow> 'e + unit" where
  "throw_if b e = (if b then Inl e else Inr ())"

text \<open>A missing value, a caught error and a reported problem, each thrown as the given error.\<close>

fun require :: "'e \<Rightarrow> 'a option \<Rightarrow> 'e + 'a" where
  "require e None = Inl e"
| "require e (Some a) = Inr a"

fun rethrow :: "'f \<Rightarrow> 'e + 'a \<Rightarrow> 'f + 'a" where
  "rethrow f (Inl e) = Inl f"
| "rethrow f (Inr a) = Inr a"

fun checked :: "'e option \<Rightarrow> 'e + unit" where
  "checked None = Inr ()"
| "checked (Some e) = Inl e"

lemma require_Inr [simp]: "require e x = Inr a \<longleftrightarrow> x = Some a"
  by (cases x) auto

lemma rethrow_Inr [simp]: "rethrow f r = Inr a \<longleftrightarrow> r = Inr a"
  by (cases r) auto

lemma checked_Inr [simp]: "checked x = Inr u \<longleftrightarrow> x = None"
  by (cases x) auto

lemma bind_result_Inr [simp]:
  "bind_result m f = Inr b \<longleftrightarrow> (\<exists>a. m = Inr a \<and> f a = Inr b)"
  by (cases m) auto

lemma map_result_Inr [simp]:
  "map_result f m = Inr b \<longleftrightarrow> (\<exists>a. m = Inr a \<and> f a = b)"
  by (cases m) auto

lemma map_result_Inl [simp]: "map_result f m = Inl e \<longleftrightarrow> m = Inl e"
  by (cases m) auto

lemma throw_if_Inr [simp]: "throw_if b e = Inr u \<longleftrightarrow> \<not> b"
  by (simp add: throw_if_def)

lemma throw_if_simps [simp]:
  "throw_if True e = Inl e" "throw_if False e = Inr ()"
  by (simp_all add: throw_if_def)

lemma collect_map_Inr [simp]: "collect (map (\<lambda>x. Inr (f x)) xs) = Inr (map f xs)"
  by (induction xs) auto

lemma collect_Inr_iff: "collect rs = Inr as \<longleftrightarrow> rs = map Inr as"
proof (induction rs arbitrary: as rule: collect.induct)
  case (3 a rs)
  then show ?case by (cases as) auto
qed auto

lemma collect_Inl_iff: "(\<exists>e. collect rs = Inl e) \<longleftrightarrow> (\<exists>e. Inl e \<in> set rs)"
  by (induction rs rule: collect.induct) auto

subsection \<open>Lists with one marked element\<close>

lemma unique_split:
  assumes "\<forall>y \<in> set A. \<not> P y" "\<forall>y \<in> set B. \<not> P y" "P e'" "A @ e # B = pre @ e' # post"
  shows "pre = A \<and> e' = e \<and> post = B"
  using assms
proof (induction A arbitrary: pre)
  case Nil
  then show ?case by (cases pre) auto
next
  case (Cons a A)
  then show ?case by (cases pre) auto
qed

subsection \<open>Optional values\<close>

text \<open>An optional string is \<open>truthy\<close> when it is present and not empty.\<close>

fun truthy :: "string option \<Rightarrow> bool" where
  "truthy None = False"
| "truthy (Some s) = (s \<noteq> [])"

fun or_else :: "'a option \<Rightarrow> 'a \<Rightarrow> 'a" where
  "or_else None d = d"
| "or_else (Some a) d = a"

subsection \<open>\<open>new Set(values)\<close>: duplicates dropped, first occurrences kept in order\<close>

fun dedupe_from :: "'a list \<Rightarrow> 'a list \<Rightarrow> 'a list" where
  "dedupe_from seen [] = []"
| "dedupe_from seen (x # xs) =
     (if x \<in> set seen then dedupe_from seen xs else x # dedupe_from (x # seen) xs)"

definition dedupe :: "'a list \<Rightarrow> 'a list" where
  "dedupe xs = dedupe_from [] xs"

lemma set_dedupe_from: "set (dedupe_from seen xs) = set xs - set seen"
  by (induction seen xs rule: dedupe_from.induct) auto

lemma set_dedupe [simp]: "set (dedupe xs) = set xs"
  by (simp add: dedupe_def set_dedupe_from)

lemma distinct_dedupe_from: "distinct (dedupe_from seen xs)"
  by (induction seen xs rule: dedupe_from.induct) (auto simp: set_dedupe_from)

lemma distinct_dedupe [simp]: "distinct (dedupe xs)"
  by (simp add: dedupe_def distinct_dedupe_from)

lemma dedupe_from_distinct:
  "distinct xs \<Longrightarrow> set xs \<inter> set seen = {} \<Longrightarrow> dedupe_from seen xs = xs"
  by (induction seen xs rule: dedupe_from.induct) auto

lemma dedupe_id [simp]: "distinct xs \<Longrightarrow> dedupe xs = xs"
  by (simp add: dedupe_def dedupe_from_distinct)

subsection \<open>\<open>Array.prototype.sort\<close>: a stable sort by a comparator\<close>

fun js_insert :: "('a \<Rightarrow> 'a \<Rightarrow> int) \<Rightarrow> 'a \<Rightarrow> 'a list \<Rightarrow> 'a list" where
  "js_insert cmp x [] = [x]"
| "js_insert cmp x (y # ys) =
     (if cmp x y \<le> 0 then x # y # ys else y # js_insert cmp x ys)"

fun js_sort :: "('a \<Rightarrow> 'a \<Rightarrow> int) \<Rightarrow> 'a list \<Rightarrow> 'a list" where
  "js_sort cmp [] = []"
| "js_sort cmp (x # xs) = js_insert cmp x (js_sort cmp xs)"

lemma mset_js_insert [simp]: "mset (js_insert cmp x xs) = add_mset x (mset xs)"
  by (induction xs) auto

lemma mset_js_sort [simp]: "mset (js_sort cmp xs) = mset xs"
  by (induction xs) auto

lemma set_js_sort [simp]: "set (js_sort cmp xs) = set xs"
  by (metis mset_js_sort set_mset_mset)

lemma length_js_sort [simp]: "length (js_sort cmp xs) = length xs"
  by (metis mset_js_sort size_mset)

lemma distinct_js_sort [simp]: "distinct (js_sort cmp xs) = distinct xs"
  by (metis mset_js_sort mset_eq_imp_distinct_iff)

lemma js_sort_Nil [simp]: "js_sort cmp xs = [] \<longleftrightarrow> xs = []"
  by (metis length_0_conv length_js_sort)

lemma js_sort_sorted_id:
  "sorted_wrt (\<lambda>a b. cmp a b \<le> 0) xs \<Longrightarrow> js_sort cmp xs = xs"
proof (induction xs)
  case (Cons x xs)
  then show ?case by (cases xs) auto
qed simp

text \<open>
  What ECMA-262 asks of a comparator (a \<^emph>\<open>consistent\<close> one): antisymmetric and transitive in
  the sense of a total preorder. Under it the sort returns the ordered list.
\<close>

locale comparator =
  fixes cmp :: "'a \<Rightarrow> 'a \<Rightarrow> int"
  assumes cmp_sym: "0 \<le> cmp a b \<longleftrightarrow> cmp b a \<le> 0"
    and cmp_trans: "cmp a b \<le> 0 \<Longrightarrow> cmp b c \<le> 0 \<Longrightarrow> cmp a c \<le> 0"
begin

lemma cmp_refl: "cmp a a \<le> 0"
  using cmp_sym [of a a] by linarith

lemma cmp_flip: "\<not> cmp a b \<le> 0 \<Longrightarrow> cmp b a \<le> 0"
  using cmp_sym [of a b] by linarith

lemma sorted_js_insert:
  "sorted_wrt (\<lambda>a b. cmp a b \<le> 0) ys \<Longrightarrow> sorted_wrt (\<lambda>a b. cmp a b \<le> 0) (js_insert cmp x ys)"
proof (induction ys)
  case (Cons y ys)
  have "set (js_insert cmp x ys) = insert x (set ys)"
    by (metis mset_js_insert set_mset_add_mset_insert set_mset_mset)
  with Cons show ?case by (auto intro: cmp_trans dest: cmp_flip)
qed simp

lemma sorted_js_sort: "sorted_wrt (\<lambda>a b. cmp a b \<le> 0) (js_sort cmp xs)"
  by (induction xs) (simp_all add: sorted_js_insert)

lemma js_sort_idem: "js_sort cmp (js_sort cmp xs) = js_sort cmp xs"
  by (rule js_sort_sorted_id [OF sorted_js_sort])

end

subsection \<open>The order of code units, and the comparators built on it\<close>

definition cmp_units :: "string \<Rightarrow> string \<Rightarrow> int" where
  "cmp_units a b = (if a < b then -1 else if b < a then 1 else 0)"

interpretation units: comparator cmp_units
proof unfold_locales
  show "0 \<le> cmp_units a b \<longleftrightarrow> cmp_units b a \<le> 0" for a b
    by (auto simp: cmp_units_def)
  show "cmp_units a b \<le> 0 \<Longrightarrow> cmp_units b c \<le> 0 \<Longrightarrow> cmp_units a c \<le> 0" for a b c
    by (auto simp: cmp_units_def split: if_splits)
qed

lemma cmp_units_le [simp]: "cmp_units a b \<le> 0 \<longleftrightarrow> a \<le> b"
  by (auto simp: cmp_units_def)

lemma sorted_units: "sorted (js_sort cmp_units xs)"
  using units.sorted_js_sort [of xs] by simp

text \<open>A comparator on a key is a comparator.\<close>

lemma comparator_key: "comparator cmp \<Longrightarrow> comparator (\<lambda>a b. cmp (f a) (f b))"
  unfolding comparator_def by blast

subsection \<open>Strings\<close>

definition is_ws :: "char \<Rightarrow> bool" where
  "is_ws c \<longleftrightarrow> of_char c \<in> {9::nat, 10, 11, 12, 13, 32, 160}"

definition trim :: "string \<Rightarrow> string" where
  "trim s = rev (dropWhile is_ws (rev (dropWhile is_ws s)))"

definition is_control :: "char \<Rightarrow> bool" where
  "is_control c \<longleftrightarrow> of_char c < (32::nat) \<or> of_char c = (127::nat)"

definition lower_char :: "char \<Rightarrow> char" where
  "lower_char c =
     (let n = (of_char c :: nat)
      in if 65 \<le> n \<and> n \<le> 90 \<or> 192 \<le> n \<and> n \<le> 222 \<and> n \<noteq> 215
         then char_of (n + 32) else c)"

definition toLowerCase :: "string \<Rightarrow> string" where
  "toLowerCase s = map lower_char s"

definition startsWith :: "string \<Rightarrow> string \<Rightarrow> bool" where
  "startsWith s p \<longleftrightarrow> take (length p) s = p"

definition endsWith :: "string \<Rightarrow> string \<Rightarrow> bool" where
  "endsWith s p \<longleftrightarrow> startsWith (rev s) (rev p)"

fun str_includes :: "string \<Rightarrow> string \<Rightarrow> bool" where
  "str_includes [] p = (p = [])"
| "str_includes (c # s) p = (startsWith (c # s) p \<or> str_includes s p)"

definition slice :: "nat \<Rightarrow> nat \<Rightarrow> string \<Rightarrow> string" where
  "slice i j s = take (j - i) (drop i s)"

text \<open>\<open>s.split(sep)\<close> for a one-character separator, and \<open>parts.join(sep)\<close>.\<close>

fun split_on :: "char \<Rightarrow> string \<Rightarrow> string list" where
  "split_on c [] = [[]]"
| "split_on c (x # s) =
     (if x = c then [] # split_on c s
      else (case split_on c s of p # ps \<Rightarrow> (x # p) # ps | [] \<Rightarrow> [[x]]))"

fun join :: "string \<Rightarrow> string list \<Rightarrow> string" where
  "join sep [] = []"
| "join sep [s] = s"
| "join sep (s # t # ts) = s @ sep @ join sep (t # ts)"

lemma startsWith_iff: "startsWith s p \<longleftrightarrow> prefix p s"
  by (metis prefix_def append_take_drop_id append_eq_conv_conj startsWith_def)

lemma str_includes_iff: "str_includes s p \<longleftrightarrow> sublist p s"
  by (induction s p rule: str_includes.induct)
    (auto simp: startsWith_iff sublist_Cons_right)

lemma trim_Nil [simp]: "trim [] = []"
  by (simp add: trim_def)

lemma trim_nonempty: "trim s \<noteq> [] \<longleftrightarrow> (\<exists>c \<in> set s. \<not> is_ws c)"
  by (auto simp: trim_def dropWhile_eq_Nil_conv dest: set_dropWhileD)
    (metis dropWhile_eq_Nil_conv hd_dropWhile hd_in_set)+

text \<open>Decimal digits of a number, as \<open>String(n)\<close> prints an integer.\<close>

definition digit_char :: "nat \<Rightarrow> char" where
  "digit_char d = char_of (48 + d)"

fun show_nat :: "nat \<Rightarrow> string" where
  "show_nat n = (if n < 10 then [digit_char n] else show_nat (n div 10) @ [digit_char (n mod 10)])"

declare show_nat.simps [simp del]

definition show_int :: "int \<Rightarrow> string" where
  "show_int i = (if i < 0 then ''-'' @ show_nat (nat (- i)) else show_nat (nat i))"

definition bool_text :: "bool \<Rightarrow> string" where
  "bool_text b = (if b then ''true'' else ''false'')"

definition is_digit :: "char \<Rightarrow> bool" where
  "is_digit c \<longleftrightarrow> 48 \<le> (of_char c :: nat) \<and> of_char c \<le> (57::nat)"

definition digit_val :: "char \<Rightarrow> nat" where
  "digit_val c = of_char c - 48"

fun read_nat :: "nat \<Rightarrow> string \<Rightarrow> nat" where
  "read_nat acc [] = acc"
| "read_nat acc (c # s) = read_nat (10 * acc + digit_val c) s"

lemma digit_char_digit [simp]: "d < 10 \<Longrightarrow> is_digit (digit_char d)"
  by (simp add: digit_char_def is_digit_def)

lemma digit_val_char [simp]: "d < 10 \<Longrightarrow> digit_val (digit_char d) = d"
  by (simp add: digit_char_def digit_val_def)

lemma show_nat_digits: "\<forall>c \<in> set (show_nat n). is_digit c"
proof (induction n rule: show_nat.induct)
  case (1 n)
  then show ?case by (subst show_nat.simps) auto
qed

lemma show_nat_nonempty [simp]: "show_nat n \<noteq> []"
  by (subst show_nat.simps) simp

lemma read_nat_append: "read_nat acc (s @ t) = read_nat (read_nat acc s) t"
  by (induction acc s rule: read_nat.induct) auto

lemma read_show_nat: "read_nat 0 (show_nat n) = n"
proof (induction n rule: show_nat.induct)
  case (1 n)
  then show ?case by (subst show_nat.simps) (auto simp: read_nat_append)
qed

lemma show_nat_inj [simp]: "show_nat m = show_nat n \<longleftrightarrow> m = n"
  by (metis read_show_nat)

text \<open>\<open>formatCount\<close> of \<open>src/text/format-count.ts\<close>, with its default plural.\<close>

text \<open>\<open>Number.MAX_SAFE_INTEGER\<close>\<close>

definition MAX_SAFE_INTEGER :: int where
  "MAX_SAFE_INTEGER = 9007199254740991"

definition formatCount :: "nat \<Rightarrow> string \<Rightarrow> string" where
  "formatCount n singular =
     show_nat n @ '' '' @ (if n = 1 then singular else singular @ ''s'')"

end
