(* ===== verification/JsDate.thy ===== *)
theory JsDate
  imports Prelude
begin

section \<open>Instants: \<open>Date.parse\<close> and \<open>Date.prototype.toISOString\<close>\<close>

text \<open>
  The part of ECMA-262's date arithmetic the agent's contracts use. A time value is a number of
  milliseconds since 1970 (an \<^typ>\<open>int\<close>); \<open>toISO\<close> prints it in the canonical form
  \<open>YYYY-MM-DDTHH:mm:ss.sssZ\<close> and \<open>parse_canonical\<close> reads exactly that form back. Any other
  spelling that an implementation may accept is the \<open>dateFallback\<close> of the host environment.
\<close>

definition day_from_year :: "int \<Rightarrow> int" where
  "day_from_year y =
     365 * (y - 1970) + (y - 1969) div 4 - (y - 1901) div 100 + (y - 1601) div 400"

definition leap_year :: "int \<Rightarrow> bool" where
  "leap_year y \<longleftrightarrow> y mod 4 = 0 \<and> (y mod 100 \<noteq> 0 \<or> y mod 400 = 0)"

definition year_guess :: "int \<Rightarrow> int" where
  "year_guess d = 1970 + (400 * d) div 146097"

definition year_from_day :: "int \<Rightarrow> int" where
  "year_from_day d =
     (let y = year_guess d
      in if d < day_from_year y then y - 1
         else if day_from_year (y + 1) \<le> d then y + 1 else y)"

definition month_start :: "bool \<Rightarrow> int \<Rightarrow> int" where
  "month_start leap m =
     (let l = (if leap then 1 else 0)
      in if m = 1 then 0 else if m = 2 then 31 else if m = 3 then 59 + l
         else if m = 4 then 90 + l else if m = 5 then 120 + l else if m = 6 then 151 + l
         else if m = 7 then 181 + l else if m = 8 then 212 + l else if m = 9 then 243 + l
         else if m = 10 then 273 + l else if m = 11 then 304 + l
         else if m = 12 then 334 + l else 365 + l)"

definition month_of_day :: "bool \<Rightarrow> int \<Rightarrow> int" where
  "month_of_day leap d =
     (if d < month_start leap 2 then 1 else if d < month_start leap 3 then 2
      else if d < month_start leap 4 then 3 else if d < month_start leap 5 then 4
      else if d < month_start leap 6 then 5 else if d < month_start leap 7 then 6
      else if d < month_start leap 8 then 7 else if d < month_start leap 9 then 8
      else if d < month_start leap 10 then 9 else if d < month_start leap 11 then 10
      else if d < month_start leap 12 then 11 else 12)"

abbreviation ms_per_day :: int where
  "ms_per_day \<equiv> 86400000"

definition digits :: "nat \<Rightarrow> int \<Rightarrow> string" where
  "digits k n = map (\<lambda>i. digit_char (nat (n div 10 ^ (k - 1 - i) mod 10))) [0..<k]"

definition iso_fields :: "int \<Rightarrow> int \<Rightarrow> int \<Rightarrow> int \<Rightarrow> int \<Rightarrow> int \<Rightarrow> int \<Rightarrow> string" where
  "iso_fields y mo d h mi s ms =
     digits 4 y @ ''-'' @ digits 2 mo @ ''-'' @ digits 2 d @ ''T'' @ digits 2 h @ '':''
     @ digits 2 mi @ '':'' @ digits 2 s @ ''.'' @ digits 3 ms @ ''Z''"

text \<open>Years outside 0 to 9999 are printed in the expanded form, with a sign and six digits, which is never canonical here.\<close>

definition toISO :: "int \<Rightarrow> string" where
  "toISO t =
     (let d = t div ms_per_day; r = t mod ms_per_day; y = year_from_day d;
          yd = d - day_from_year y; mo = month_of_day (leap_year y) yd
      in (if 0 \<le> y \<and> y \<le> 9999 then [] else (if y < 0 then ''-'' else ''+'') @ digits 2 (\<bar>y\<bar> div 10000))
         @ iso_fields \<bar>y\<bar> mo (yd - month_start (leap_year y) mo + 1)
             (r div 3600000) (r div 60000 mod 60) (r div 1000 mod 60) (r mod 1000))"

definition read_digits :: "string \<Rightarrow> int" where
  "read_digits s = int (read_nat 0 s)"

definition parse_canonical :: "string \<Rightarrow> int option" where
  "parse_canonical s =
     (let y = read_digits (slice 0 4 s); mo = read_digits (slice 5 7 s);
          d = read_digits (slice 8 10 s); h = read_digits (slice 11 13 s);
          mi = read_digits (slice 14 16 s); sec = read_digits (slice 17 19 s);
          ms = read_digits (slice 20 23 s);
          t = (day_from_year y + month_start (leap_year y) mo + d - 1) * ms_per_day
              + h * 3600000 + mi * 60000 + sec * 1000 + ms
      in if s = iso_fields y mo d h mi sec ms \<and> 1 \<le> mo \<and> mo \<le> 12 \<and> 1 \<le> d
            \<and> d \<le> month_start (leap_year y) (mo + 1) - month_start (leap_year y) mo
            \<and> h \<le> 23 \<and> mi \<le> 59 \<and> sec \<le> 59
         then Some t else None)"

text \<open>\<open>Date.parse\<close>; \<open>None\<close> is \<open>NaN\<close>.\<close>

definition date_parse :: "js_env \<Rightarrow> string \<Rightarrow> int option" where
  "date_parse E s =
     (case parse_canonical s of Some t \<Rightarrow> Some t | None \<Rightarrow> dateFallback E s)"

text \<open>The check that recurs in the sources: \<open>new Date(parsed).toISOString() === value\<close>.\<close>

definition exact_instant :: "js_env \<Rightarrow> string \<Rightarrow> int option" where
  "exact_instant E s =
     (case date_parse E s of None \<Rightarrow> None | Some t \<Rightarrow> if toISO t = s then Some t else None)"

subsection \<open>The calendar\<close>

lemma div_step:
  fixes a k :: int
  assumes "0 < k"
  shows "(a + 1) div k = a div k + (if k dvd a + 1 then 1 else 0)"
proof (cases "k dvd a + 1")
  case True
  then obtain m where m: "a + 1 = k * m" by blast
  then have "a = k * (m - 1) + (k - 1)" by (simp add: algebra_simps)
  then have "a div k = m - 1"
    using assms by (intro int_div_pos_eq [of a k "m - 1" "k - 1"]) auto
  with m assms True show ?thesis by simp
next
  case False
  have "(a + 1) div k = a div k"
  proof (rule int_div_pos_eq)
    show "a + 1 = k * (a div k) + (a mod k + 1)" by simp
    show "0 \<le> a mod k + 1" using assms by (simp add: add_nonneg_nonneg)
    have "a mod k + 1 \<noteq> k"
    proof
      assume "a mod k + 1 = k"
      then have "a + 1 = k * (a div k + 1)"
        using mult_div_mod_eq [of k a] by (simp only: distrib_left)
      with False show False by simp
    qed
    with assms show "a mod k + 1 < k"
      using pos_mod_bound [of k a] by linarith
  qed
  with False show ?thesis by simp
qed

lemma dvd_shift: "(k::int) dvd c \<Longrightarrow> k dvd y - c \<longleftrightarrow> k dvd y"
  by (metis diff_add_cancel dvd_add_left_iff)

lemma leap_year_dvd: "leap_year y \<longleftrightarrow> 4 dvd y \<and> (\<not> 100 dvd y \<or> 400 dvd y)"
  by (simp add: leap_year_def dvd_eq_mod_eq_0)

lemma day_from_year_Suc: "day_from_year (y + 1) = day_from_year y + (if leap_year y then 366 else 365)"
proof -
  have 4: "(y + 1 - 1969) div 4 = (y - 1969) div 4 + (if 4 dvd y then 1 else 0)"
    using div_step [of 4 "y - 1969"] dvd_shift [of 4 1968 y] by simp
  have 100: "(y + 1 - 1901) div 100 = (y - 1901) div 100 + (if 100 dvd y then 1 else 0)"
    using div_step [of 100 "y - 1901"] dvd_shift [of 100 1900 y] by simp
  have 400: "(y + 1 - 1601) div 400 = (y - 1601) div 400 + (if 400 dvd y then 1 else 0)"
    using div_step [of 400 "y - 1601"] dvd_shift [of 400 1600 y] by simp
  have "400 dvd y \<Longrightarrow> 100 dvd y" "100 dvd y \<Longrightarrow> 4 dvd y"
    by (auto elim!: dvd_trans [rotated])
  moreover define q4 q100 q400 where "q4 = (y - 1969) div 4"
    and "q100 = (y - 1901) div 100" and "q400 = (y - 1601) div 400"
  ultimately show ?thesis
    unfolding day_from_year_def leap_year_dvd 4 100 400
    by (cases "4 dvd y"; cases "100 dvd y"; cases "400 dvd y"; simp only: if_True if_False simp_thms)
      (simp_all only: q4_def [symmetric] q100_def [symmetric] q400_def [symmetric], auto)
qed

lemma div_bounds:
  fixes a k :: int
  assumes "0 < k"
  shows "k * (a div k) \<le> a" "a < k * (a div k) + k"
  using assms pos_mod_bound [of k a] pos_mod_sign [of k a] mult_div_mod_eq [of k a]
  by linarith+

lemma day_from_year_bounds:
  shows "400 * day_from_year y \<le> 146097 * (y - 1970) + 1000"
    and "146097 * (y - 1970) - 1000 \<le> 400 * day_from_year y"
proof -
  define q4 q100 q400 where q: "q4 = (y - 1969) div 4" "q100 = (y - 1901) div 100"
    "q400 = (y - 1601) div 400"
  have "4 * q4 \<le> y - 1969" "y - 1969 < 4 * q4 + 4"
    "100 * q100 \<le> y - 1901" "y - 1901 < 100 * q100 + 100"
    "400 * q400 \<le> y - 1601" "y - 1601 < 400 * q400 + 400"
    unfolding q by (rule div_bounds; simp)+
  moreover have "day_from_year y = 365 * (y - 1970) + q4 - q100 + q400"
    by (simp add: day_from_year_def q)
  ultimately have "400 * day_from_year y \<le> 146097 * (y - 1970) + 1000
    \<and> 146097 * (y - 1970) - 1000 \<le> 400 * day_from_year y"
    by (simp add: algebra_simps)
  then show "400 * day_from_year y \<le> 146097 * (y - 1970) + 1000"
    and "146097 * (y - 1970) - 1000 \<le> 400 * day_from_year y"
    by blast+
qed

lemma year_guess_close:
  shows "day_from_year (year_guess d - 1) \<le> d" "d < day_from_year (year_guess d + 2)"
proof -
  define q where "q = (400 * d) div 146097"
  have q: "146097 * q \<le> 400 * d" "400 * d < 146097 * q + 146097"
    unfolding q_def by (rule div_bounds; simp)+
  have g: "year_guess d = 1970 + q"
    by (simp add: year_guess_def q_def)
  have "400 * day_from_year (year_guess d - 1) \<le> 146097 * (q - 1) + 1000"
    using day_from_year_bounds(1) [of "year_guess d - 1"] by (simp add: g)
  with q(1) show "day_from_year (year_guess d - 1) \<le> d"
    by (simp add: algebra_simps)
  have "146097 * (q + 2) - 1000 \<le> 400 * day_from_year (year_guess d + 2)"
    using day_from_year_bounds(2) [of "year_guess d + 2"] by (simp add: g)
  with q(2) show "d < day_from_year (year_guess d + 2)"
    by (simp add: algebra_simps)
qed

lemma year_from_day:
  "day_from_year (year_from_day d) \<le> d \<and> d < day_from_year (year_from_day d + 1)"
  using year_guess_close [of d]
  by (auto simp: year_from_day_def Let_def add.commute [of _ 2] add.assoc)

lemma month_of_day:
  assumes "0 \<le> d" and "d < (if leap then 366 else 365)"
  shows "1 \<le> month_of_day leap d" "month_of_day leap d \<le> 12"
    "month_start leap (month_of_day leap d) \<le> d"
    "d < month_start leap (month_of_day leap d + 1)"
  using assms by (cases leap; simp add: month_of_day_def month_start_def)+

lemma day_from_year_less: "y < z \<Longrightarrow> day_from_year y < day_from_year z"
proof (induction z rule: int_gr_induct)
  case base
  then show ?case by (simp add: day_from_year_Suc)
next
  case (step z)
  then show ?case by (simp add: day_from_year_Suc split: if_splits)
qed

lemma year_from_day_unique:
  assumes "day_from_year y \<le> d" and "d < day_from_year (y + 1)"
  shows "year_from_day d = y"
proof (rule ccontr)
  assume "year_from_day d \<noteq> y"
  then consider "y + 1 \<le> year_from_day d" | "year_from_day d + 1 \<le> y" by linarith
  then show False
  proof cases
    case 1
    then have "day_from_year (y + 1) \<le> day_from_year (year_from_day d)"
      using day_from_year_less [of "y + 1" "year_from_day d"] by (cases "y + 1 = year_from_day d") auto
    with assms(2) year_from_day [of d] show False by linarith
  next
    case 2
    then have "day_from_year (year_from_day d + 1) \<le> day_from_year y"
      using day_from_year_less [of "year_from_day d + 1" y] by (cases "year_from_day d + 1 = y") auto
    with assms(1) year_from_day [of d] show False by linarith
  qed
qed

lemma month_of_day_unique:
  assumes "1 \<le> m" "m \<le> 12" "month_start l m \<le> d" "d < month_start l (m + 1)"
  shows "month_of_day l d = m"
proof -
  have "m = 1 \<or> m = 2 \<or> m = 3 \<or> m = 4 \<or> m = 5 \<or> m = 6 \<or> m = 7 \<or> m = 8 \<or> m = 9 \<or> m = 10
    \<or> m = 11 \<or> m = 12"
    using assms(1,2) by arith
  then show ?thesis
    using assms(3,4) by (elim disjE; cases l; simp add: month_of_day_def month_start_def)
qed

lemma year_length: "day_from_year (y + 1) - day_from_year y = month_start (leap_year y) 13"
  by (simp add: day_from_year_Suc month_start_def)

subsection \<open>Digits\<close>

lemma digits_2: "digits 2 n = [digit_char (nat (n div 10 mod 10)), digit_char (nat (n mod 10))]"
  by (simp add: digits_def numeral_eq_Suc)

lemma digits_3: "digits 3 n =
  [digit_char (nat (n div 100 mod 10)), digit_char (nat (n div 10 mod 10)), digit_char (nat (n mod 10))]"
  by (simp add: digits_def numeral_3_eq_3)

lemma digits_4: "digits 4 n =
  [digit_char (nat (n div 1000 mod 10)), digit_char (nat (n div 100 mod 10)),
   digit_char (nat (n div 10 mod 10)), digit_char (nat (n mod 10))]"
  by (simp add: digits_def upt_rec)

lemmas digits_simps = digits_2 digits_3 digits_4

lemma nat_mod_10 [simp]: "nat (n mod 10) < 10" for n :: int
  by (simp add: nat_less_iff)

lemma digit_sum:
  fixes n :: int
  shows "10 * (n div 10) + n mod 10 = n"
    and "100 * (n div 100) + 10 * (n div 10 mod 10) = 10 * (n div 10)"
    and "1000 * (n div 1000) + 100 * (n div 100 mod 10) = 100 * (n div 100)"
proof -
  show "10 * (n div 10) + n mod 10 = n" by simp
  have "n div 100 = n div 10 div 10" "n div 1000 = n div 100 div 10"
    by (simp_all add: zdiv_zmult2_eq [symmetric])
  then show "100 * (n div 100) + 10 * (n div 10 mod 10) = 10 * (n div 10)"
    "1000 * (n div 1000) + 100 * (n div 100 mod 10) = 100 * (n div 100)"
    using mult_div_mod_eq [of 10 "n div 10"] mult_div_mod_eq [of 10 "n div 100"] by linarith+
qed

lemma digit_sum_100: "100 * (n div 100) + 10 * (n div 10 mod 10) + n mod 10 = n" for n :: int
  using digit_sum [of n] by linarith

lemma digit_sum_1000:
  "1000 * (n div 1000) + 100 * (n div 100 mod 10) + 10 * (n div 10 mod 10) + n mod 10 = n" for n :: int
  using digit_sum [of n] by linarith

lemma read_digits_2: "0 \<le> n \<Longrightarrow> n < 100 \<Longrightarrow> read_digits (digits 2 n) = n"
  by (simp add: digits_2 read_digits_def pos_imp_zdiv_nonneg_iff)

lemma read_digits_3: "0 \<le> n \<Longrightarrow> n < 1000 \<Longrightarrow> read_digits (digits 3 n) = n"
  by (simp add: digits_3 read_digits_def pos_imp_zdiv_nonneg_iff digit_sum_100)

lemma read_digits_4: "0 \<le> n \<Longrightarrow> n < 10000 \<Longrightarrow> read_digits (digits 4 n) = n"
  by (simp add: digits_4 read_digits_def pos_imp_zdiv_nonneg_iff digit_sum_1000)

lemma slice_fields:
  "slice 0 4 (iso_fields y mo d h mi s ms) = digits 4 y"
  "slice 5 7 (iso_fields y mo d h mi s ms) = digits 2 mo"
  "slice 8 10 (iso_fields y mo d h mi s ms) = digits 2 d"
  "slice 11 13 (iso_fields y mo d h mi s ms) = digits 2 h"
  "slice 14 16 (iso_fields y mo d h mi s ms) = digits 2 mi"
  "slice 17 19 (iso_fields y mo d h mi s ms) = digits 2 s"
  "slice 20 23 (iso_fields y mo d h mi s ms) = digits 3 ms"
  by (simp_all add: iso_fields_def slice_def digits_simps)

subsection \<open>Printing and reading are inverse\<close>

definition in_canonical_years :: "int \<Rightarrow> bool" where
  "in_canonical_years t \<longleftrightarrow>
     0 \<le> year_from_day (t div ms_per_day) \<and> year_from_day (t div ms_per_day) \<le> 9999"

lemma toISO_canonical:
  assumes "in_canonical_years t"
  defines "d \<equiv> t div ms_per_day" and "r \<equiv> t mod ms_per_day"
  defines "y \<equiv> year_from_day d" and "yd \<equiv> d - day_from_year (year_from_day d)"
  defines "mo \<equiv> month_of_day (leap_year y) yd"
  shows "toISO t = iso_fields y mo (yd - month_start (leap_year y) mo + 1)
    (r div 3600000) (r div 60000 mod 60) (r div 1000 mod 60) (r mod 1000)"
  using assms(1) unfolding assms(2-) in_canonical_years_def toISO_def Let_def by simp

lemma time_of_day:
  fixes r :: int
  assumes "0 \<le> r" "r < ms_per_day"
  shows "0 \<le> r div 3600000" "r div 3600000 \<le> 23"
    "r div 3600000 * 3600000 + r div 60000 mod 60 * 60000 + r div 1000 mod 60 * 1000 + r mod 1000 = r"
proof -
  show "0 \<le> r div 3600000" "r div 3600000 \<le> 23"
    using assms by linarith+
  have "r div 3600000 = r div 60000 div 60" "r div 60000 = r div 1000 div 60"
    by (simp_all add: zdiv_zmult2_eq [symmetric])
  then show "r div 3600000 * 3600000 + r div 60000 mod 60 * 60000 + r div 1000 mod 60 * 1000
      + r mod 1000 = r"
    using mult_div_mod_eq [of 60 "r div 60000"] mult_div_mod_eq [of 60 "r div 1000"]
      mult_div_mod_eq [of 1000 r] by linarith
qed

lemma parse_canonical_fields:
  assumes "0 \<le> y" "y \<le> 9999" "1 \<le> mo" "mo \<le> 12" "1 \<le> d"
    "d \<le> month_start (leap_year y) (mo + 1) - month_start (leap_year y) mo"
    "0 \<le> h" "h \<le> 23" "0 \<le> mi" "mi \<le> 59" "0 \<le> sec" "sec \<le> 59" "0 \<le> ms" "ms \<le> 999"
  shows "parse_canonical (iso_fields y mo d h mi sec ms) =
    Some ((day_from_year y + month_start (leap_year y) mo + d - 1) * ms_per_day
      + h * 3600000 + mi * 60000 + sec * 1000 + ms)"
proof -
  have "month_start (leap_year y) (mo + 1) - month_start (leap_year y) mo < 100"
    using assms(3,4) by (simp add: month_start_def split: if_splits)
  with assms(6) have "d < 100" by linarith
  with assms show ?thesis
    by (simp add: parse_canonical_def slice_fields read_digits_2 read_digits_3 read_digits_4 Let_def)
qed

theorem parse_toISO:
  assumes "in_canonical_years t"
  shows "parse_canonical (toISO t) = Some t"
proof -
  define d r where "d = t div ms_per_day" and "r = t mod ms_per_day"
  define y where "y = year_from_day d"
  define yd where "yd = d - day_from_year y"
  define mo where "mo = month_of_day (leap_year y) yd"
  have t: "t = d * ms_per_day + r" by (simp add: d_def r_def)
  have r: "0 \<le> r" "r < ms_per_day" by (simp_all add: r_def)
  have y: "0 \<le> y" "y \<le> 9999"
    using assms by (simp_all add: in_canonical_years_def y_def d_def)
  have "0 \<le> yd" "yd < (if leap_year y then 366 else 365)"
    using year_from_day [of d] by (simp_all add: yd_def y_def day_from_year_Suc split: if_splits)
  note mo = month_of_day [OF this, folded mo_def]
  have "toISO t = iso_fields y mo (yd - month_start (leap_year y) mo + 1)
    (r div 3600000) (r div 60000 mod 60) (r div 1000 mod 60) (r mod 1000)"
    using toISO_canonical [OF assms] by (simp add: mo_def yd_def y_def d_def r_def)
  also have "parse_canonical \<dots> = Some ((day_from_year y + month_start (leap_year y) mo
      + (yd - month_start (leap_year y) mo + 1) - 1) * ms_per_day
      + r div 3600000 * 3600000 + r div 60000 mod 60 * 60000 + r div 1000 mod 60 * 1000 + r mod 1000)"
    by (rule parse_canonical_fields; insert y mo time_of_day(1,2) [OF r]
        pos_mod_bound [of 1000 r] pos_mod_bound [of 60 "r div 60000"]
        pos_mod_bound [of 60 "r div 1000"] pos_mod_sign [of 1000 r]
        pos_mod_sign [of 60 "r div 60000"] pos_mod_sign [of 60 "r div 1000"]; linarith)
  also have "\<dots> = Some t"
    using time_of_day(3) [OF r] by (simp add: yd_def t)
  finally show ?thesis .
qed

end
