(* ===== verification/Integrity.thy ===== *)
theory Integrity
  imports JsDate
begin

section \<open>Canonical JSON and digests: \<open>src/remediation/integrity.ts\<close>\<close>

text \<open>
  Every artifact of the governed-write chain is identified by the SHA-256 digest of its canonical
  JSON text. This theory models the canonicalisation as the code runs it, over a store of objects
  (so that cyclic values and class instances are values the function can meet), the canonical text,
  and the digest; and it shows that the canonical text determines the value, up to the one key the
  code loses.

  Numbers: the artifacts hold integers only, so a finite number is an \<^typ>\<open>int\<close>; the values that
  the code treats specially (\<open>NaN\<close>, the infinities and \<open>-0\<close>) are kept apart.
\<close>

subsection \<open>JavaScript values over a store\<close>

datatype jsnum = NaN | PosInf | NegInf | NegZero | Finite int

datatype jsval = VUndefined | VNull | VBool bool | VNum jsnum | VStr string
  | VBigint int | VFunction | VSymbol | VRef nat

text \<open>
  An object is an array, a plain object (prototype \<open>Object.prototype\<close> or \<open>null\<close>) with its own
  enumerable string keys, or an instance of a class.
\<close>

datatype jsobj = OArray "jsval list" | OPlain "(string \<times> jsval) list" | OInstance

type_synonym store = "jsobj list"

datatype json = JNull | JBool bool | JNum int | JStr string | JArr "json list"
  | JObj "(string \<times> json) list"

text \<open>Reading a field of a value; \<open>None\<close> is \<open>undefined\<close>.\<close>

fun obj_get :: "json \<Rightarrow> string \<Rightarrow> json option" where
  "obj_get (JObj kvs) k = map_of kvs k"
| "obj_get _ k = None"

fun str_of :: "json option \<Rightarrow> string option" where
  "str_of (Some (JStr s)) = Some s"
| "str_of _ = None"

datatype CanonicalizationError = NotFinite | Unsupported string | Circular | NotPlain | Dangling

subsection \<open>\<open>normalize\<close>\<close>

text \<open>
  Own keys that are array indices come first, in numeric order, whatever the order in which they
  were set (ECMA-262, OrdinaryOwnPropertyKeys).
\<close>

definition is_index_key :: "string \<Rightarrow> bool" where
  "is_index_key k \<longleftrightarrow> k \<noteq> [] \<and> list_all is_digit k \<and> (k = ''0'' \<or> hd k \<noteq> CHR ''0'')
     \<and> read_nat 0 k < 4294967295"

definition own_key_order :: "(string \<times> 'a) list \<Rightarrow> (string \<times> 'a) list" where
  "own_key_order kvs =
     sort_key (\<lambda>kv. read_nat 0 (fst kv)) (filter (\<lambda>kv. is_index_key (fst kv)) kvs)
     @ filter (\<lambda>kv. \<not> is_index_key (fst kv)) kvs"

text \<open>
  \<open>normalized[key] = v\<close> for the sorted keys. Assigning to \<open>__proto__\<close> reaches the accessor
  inherited from \<open>Object.prototype\<close> and creates no own property, so that key is not in the result.
\<close>

definition assign_all :: "(string \<times> 'a) list \<Rightarrow> (string \<times> 'a) list" where
  "assign_all kvs = own_key_order (filter (\<lambda>kv. fst kv \<noteq> ''__proto__'') kvs)"

definition obj_at :: "store \<Rightarrow> nat \<Rightarrow> jsobj option" where
  "obj_at h a = (if a < length h then Some (h ! a) else None)"

lemma card_without:
  "a < n \<Longrightarrow> a \<notin> set anc \<Longrightarrow>
   card ({..<n} - set (a # anc)) < card ({..<n} - set anc)" for n :: nat
  by (intro psubset_card_mono) auto

function normalize :: "store \<Rightarrow> nat list \<Rightarrow> jsval \<Rightarrow> CanonicalizationError + json" where
  "normalize h ancestors value =
     (case value of
        VNull \<Rightarrow> Inr JNull
      | VStr s \<Rightarrow> Inr (JStr s)
      | VBool b \<Rightarrow> Inr (JBool b)
      | VNum n \<Rightarrow>
          (case n of Finite i \<Rightarrow> Inr (JNum i) | NegZero \<Rightarrow> Inr (JNum 0) | _ \<Rightarrow> Inl NotFinite)
      | VUndefined \<Rightarrow> Inl (Unsupported ''undefined'')
      | VBigint _ \<Rightarrow> Inl (Unsupported ''bigint'')
      | VFunction \<Rightarrow> Inl (Unsupported ''function'')
      | VSymbol \<Rightarrow> Inl (Unsupported ''symbol'')
      | VRef a \<Rightarrow>
          (if a \<in> set ancestors then Inl Circular
           else case obj_at h a of
               None \<Rightarrow> Inl Dangling
             | Some (OArray vs) \<Rightarrow>
                 map_result JArr (collect (map (\<lambda>v. normalize h (a # ancestors) v) vs))
             | Some OInstance \<Rightarrow> Inl NotPlain
             | Some (OPlain kvs) \<Rightarrow>
                 map_result (\<lambda>fs. JObj (assign_all fs))
                   (collect (map (\<lambda>kv. map_result (Pair (fst kv)) (normalize h (a # ancestors) (snd kv)))
                     (sort_key fst kvs)))))"
  by pat_completeness auto
termination
proof (relation "measure (\<lambda>(h, anc, v). card ({..<length h} - set anc))", goal_cases)
  case 1
  show ?case by simp
next
  case (2 h anc v a obj vs w)
  then have "a < length h" "a \<notin> set anc" by (auto simp: obj_at_def split: if_splits)
  then show ?case using card_without [of a "length h" anc] by simp
next
  case (3 h anc v a obj kvs kv)
  then have "a < length h" "a \<notin> set anc" by (auto simp: obj_at_def split: if_splits)
  then show ?case using card_without [of a "length h" anc] by simp
qed

declare normalize.simps [simp del]

subsection \<open>\<open>JSON.stringify\<close> of a normalised value\<close>

definition hex_digit :: "nat \<Rightarrow> char" where
  "hex_digit n = (if n < 10 then char_of (48 + n) else char_of (87 + n))"

definition escape_char :: "char \<Rightarrow> string" where
  "escape_char c =
     (let n = (of_char c :: nat) in
      if n = 34 then [CHR 0x5C, CHR 0x22]
      else if n = 92 then [CHR 0x5C, CHR 0x5C]
      else if n = 8 then [CHR 0x5C, CHR ''b'']
      else if n = 12 then [CHR 0x5C, CHR ''f'']
      else if n = 10 then [CHR 0x5C, CHR ''n'']
      else if n = 13 then [CHR 0x5C, CHR ''r'']
      else if n = 9 then [CHR 0x5C, CHR ''t'']
      else if n < 32 then CHR 0x5C # ''u00'' @ [hex_digit (n div 16), hex_digit (n mod 16)]
      else [c])"

definition quote :: "string \<Rightarrow> string" where
  "quote s = CHR 0x22 # concat (map escape_char s) @ [CHR 0x22]"

fun stringify :: "json \<Rightarrow> string" where
  "stringify JNull = ''null''"
| "stringify (JBool b) = (if b then ''true'' else ''false'')"
| "stringify (JNum i) = show_int i"
| "stringify (JStr s) = quote s"
| "stringify (JArr vs) = ''['' @ join '','' (map stringify vs) @ '']''"
| "stringify (JObj kvs) =
     ''{'' @ join '','' (map (\<lambda>kv. quote (fst kv) @ '':'' @ stringify (snd kv)) kvs) @ ''}''"

subsection \<open>\<open>canonicalize\<close>, \<open>digest\<close> and \<open>verifyDigest\<close>\<close>

definition canonicalize :: "store \<Rightarrow> jsval \<Rightarrow> CanonicalizationError + string" where
  "canonicalize h v = map_result stringify (normalize h [] v)"

definition digest_value :: "js_env \<Rightarrow> store \<Rightarrow> jsval \<Rightarrow> CanonicalizationError + string" where
  "digest_value E h v = map_result (\<lambda>t. ''sha256:'' @ sha256_hex E t) (canonicalize h v)"

text \<open>
  The artifacts are trees of plain data. \<open>canon\<close> is what \<open>normalize\<close> does to such a tree
  (lemma \<open>normalize_tree\<close> below), so on them the digest is a total function.
\<close>

fun canon :: "json \<Rightarrow> json" where
  "canon (JArr vs) = JArr (map canon vs)"
| "canon (JObj kvs) = JObj (assign_all (sort_key fst (map (\<lambda>kv. (fst kv, canon (snd kv))) kvs)))"
| "canon v = v"

definition canonical_text :: "json \<Rightarrow> string" where
  "canonical_text v = stringify (canon v)"

definition digest :: "js_env \<Rightarrow> json \<Rightarrow> string" where
  "digest E v = ''sha256:'' @ sha256_hex E (canonical_text v)"

definition is_hex :: "char \<Rightarrow> bool" where
  "is_hex c \<longleftrightarrow> is_digit c \<or> 97 \<le> (of_char c :: nat) \<and> of_char c \<le> (102::nat)"

text \<open>The pattern \<open>/^sha256:[a-f0-9]{64}$/u\<close>.\<close>

definition is_sha256 :: "string \<Rightarrow> bool" where
  "is_sha256 s \<longleftrightarrow> startsWith s ''sha256:'' \<and> length s = 71 \<and> list_all is_hex (drop 7 s)"

definition verifyDigest :: "js_env \<Rightarrow> json \<Rightarrow> string \<Rightarrow> bool" where
  "verifyDigest E v expected \<longleftrightarrow> is_sha256 expected \<and> digest E v = expected"

text \<open>\<open>d.slice("sha256:".length, "sha256:".length + 24)\<close>, the short form in artifact ids.\<close>

definition short_digest :: "string \<Rightarrow> string" where
  "short_digest d = slice 7 31 d"

text \<open>What \<open>createHash("sha256") \<dots> .digest("hex")\<close> returns: 64 lower-case hexadecimal digits.\<close>

definition hex_sha256 :: "js_env \<Rightarrow> bool" where
  "hex_sha256 E \<longleftrightarrow> (\<forall>s. length (sha256_hex E s) = 64 \<and> list_all is_hex (sha256_hex E s))"

text \<open>What ECMA-262 promises of \<open>localeCompare\<close>: it is a consistent comparator.\<close>

definition consistent_collation :: "js_env \<Rightarrow> bool" where
  "consistent_collation E \<longleftrightarrow> comparator (localeCompare E)"

text \<open>\<open>no_collision E v w\<close>: the two canonical texts are not a collision of the hash.\<close>

definition no_collision :: "js_env \<Rightarrow> json \<Rightarrow> json \<Rightarrow> bool" where
  "no_collision E v w \<longleftrightarrow>
     (sha256_hex E (canonical_text v) = sha256_hex E (canonical_text w) \<longrightarrow>
      canonical_text v = canonical_text w)"

lemma is_sha256_digest: "hex_sha256 E \<Longrightarrow> is_sha256 (digest E v)"
  by (simp add: hex_sha256_def is_sha256_def digest_def startsWith_def)

lemma verifyDigest_digest [simp]: "hex_sha256 E \<Longrightarrow> verifyDigest E v (digest E v)"
  by (simp add: verifyDigest_def is_sha256_digest)

lemma verifyDigestD: "verifyDigest E v d \<Longrightarrow> d = digest E v"
  by (simp add: verifyDigest_def)

subsection \<open>The canonical text determines the normalised value\<close>

definition stops :: "string \<Rightarrow> bool" where
  "stops r \<longleftrightarrow> r = [] \<or> \<not> is_digit (hd r)"

lemma stops_simps [simp]:
  "stops []" "stops (c # r) \<longleftrightarrow> \<not> is_digit c"
  by (simp_all add: stops_def)

lemma digits_prefix:
  assumes "s @ r = t @ r'" "\<forall>c \<in> set s. is_digit c" "\<forall>c \<in> set t. is_digit c" "stops r" "stops r'"
  shows "s = t \<and> r = r'"
  using assms
proof (induction s arbitrary: t)
  case Nil
  then show ?case by (cases t) auto
next
  case (Cons c s)
  then show ?case by (cases t) auto
qed

lemma show_int_prefix:
  assumes "show_int i @ r = show_int j @ r'" "stops r" "stops r'"
  shows "i = j \<and> r = r'"
proof -
  have hd: "is_digit (hd (show_nat n))" for n
    using show_nat_digits [of n] hd_in_set [of "show_nat n"] by auto
  have minus: "show_nat n @ r \<noteq> CHR ''-'' # t" "CHR ''-'' # t \<noteq> show_nat n @ r" for n r t
    using hd [of n] by (cases "show_nat n"; auto simp: is_digit_def)+
  have nat: "show_nat m @ r = show_nat n @ r' \<Longrightarrow> m = n \<and> r = r'" for m n
    using digits_prefix [of "show_nat m" r "show_nat n" r'] show_nat_digits assms(2,3) by auto
  show ?thesis
    using assms(1) by (auto simp: show_int_def minus split: if_splits dest!: nat)
qed

text \<open>Reading one escaped character back.\<close>

definition hex_val :: "char \<Rightarrow> nat" where
  "hex_val c = (if (of_char c :: nat) < 58 then of_char c - 48 else of_char c - 87)"

definition unescape :: "string \<Rightarrow> char \<times> string" where
  "unescape s =
     (if hd s \<noteq> CHR 0x5C then (hd s, tl s)
      else let e = s ! 1; n = (of_char e :: nat) in
        if n = 117 then (char_of (16 * hex_val (s ! 4) + hex_val (s ! 5)), drop 6 s)
        else (char_of (if n = 98 then 8 else if n = 102 then 12 else if n = 110 then 10
                       else if n = 114 then 13 else if n = 116 then 9 else n), drop 2 s))"

lemma hex_val_digit: "n < 16 \<Longrightarrow> hex_val (hex_digit n) = n"
  by (simp add: hex_val_def hex_digit_def)

lemma of_char_eq: "(of_char c :: nat) = n \<Longrightarrow> c = char_of n"
  by auto

lemma of_char_less: "(of_char c :: nat) < 256"
  using nat_of_char_less_256 by simp

lemma unescape_u:
  assumes "(of_char c :: nat) < 32"
  shows "unescape (CHR 0x5C # CHR ''u'' # CHR ''0'' # CHR ''0'' #
    hex_digit (of_char c div 16) # hex_digit (of_char c mod 16) # r) = (c, r)"
proof -
  have "hex_val (hex_digit (of_char c div 16)) = of_char c div 16"
    "hex_val (hex_digit (of_char c mod 16)) = of_char c mod 16"
    using assms by (auto intro!: hex_val_digit)
  then show ?thesis by (simp add: unescape_def)
qed

lemma unescape_named:
  "unescape (CHR 0x5C # CHR 0x22 # r) = (char_of (34::nat), r)"
  "unescape (CHR 0x5C # CHR 0x5C # r) = (char_of (92::nat), r)"
  "unescape (CHR 0x5C # CHR ''b'' # r) = (char_of (8::nat), r)"
  "unescape (CHR 0x5C # CHR ''f'' # r) = (char_of (12::nat), r)"
  "unescape (CHR 0x5C # CHR ''n'' # r) = (char_of (10::nat), r)"
  "unescape (CHR 0x5C # CHR ''r'' # r) = (char_of (13::nat), r)"
  "unescape (CHR 0x5C # CHR ''t'' # r) = (char_of (9::nat), r)"
  by (simp_all add: unescape_def)

lemma unescape_plain: "(of_char c :: nat) \<noteq> 92 \<Longrightarrow> unescape (c # r) = (c, r)"
  by (auto simp: unescape_def)

lemma unescape_escape: "unescape (escape_char c @ r) = (c, r)"
proof -
  consider "(of_char c :: nat) \<in> {34, 92, 8, 12, 10, 13, 9}"
    | "(of_char c :: nat) \<notin> {34, 92, 8, 12, 10, 13, 9}" "(of_char c :: nat) < 32"
    | "(of_char c :: nat) \<notin> {34, 92, 8, 12, 10, 13, 9}" "\<not> (of_char c :: nat) < 32"
    by blast
  then show ?thesis
  proof cases
    case 1
    then show ?thesis
      by (auto simp: escape_char_def unescape_named dest!: of_char_eq)
  next
    case 2
    then show ?thesis
      using unescape_u [of c r] by (simp add: escape_char_def Let_def)
  next
    case 3
    then show ?thesis
      using unescape_plain [of c r] by (simp add: escape_char_def Let_def)
  qed
qed

lemma escape_char_prefix: "escape_char c @ r = escape_char d @ r' \<Longrightarrow> c = d \<and> r = r'"
  by (metis unescape_escape prod.inject)

lemma escape_char_hd: "escape_char c \<noteq> [] \<and> hd (escape_char c) \<noteq> CHR 0x22"
proof -
  have "c = CHR 0x22 \<Longrightarrow> (of_char c :: nat) = 34" by simp
  then show ?thesis by (auto simp: escape_char_def Let_def)
qed

lemma quote_prefix:
  assumes "quote s @ r = quote t @ r'"
  shows "s = t \<and> r = r'"
proof -
  have "concat (map escape_char s) @ CHR 0x22 # r = concat (map escape_char t) @ CHR 0x22 # r' \<Longrightarrow>
    s = t \<and> r = r'"
  proof (induction s arbitrary: t)
    case Nil
    show ?case
    proof (cases t)
      case Nil
      with Nil.prems show ?thesis by simp
    next
      case (Cons d u)
      with Nil.prems escape_char_hd [of d] show ?thesis by (cases "escape_char d") auto
    qed
  next
    case (Cons c s)
    show ?case
    proof (cases t)
      case Nil
      with Cons.prems escape_char_hd [of c] show ?thesis by (cases "escape_char c") auto
    next
      case (Cons d u)
      with Cons.prems Cons.IH [of u] show ?thesis
        using escape_char_prefix [of c _ d] by auto
    qed
  qed
  with assms show ?thesis by (simp add: quote_def)
qed

definition join_rest :: "('a \<Rightarrow> string) \<Rightarrow> 'a list \<Rightarrow> string" where
  "join_rest f zs = (if zs = [] then [] else CHR '','' # join '','' (map f zs))"

lemma join_Cons: "join '','' (map f (z # zs)) = f z @ join_rest f zs"
  by (cases zs) (simp_all add: join_rest_def)

lemma hd_nonempty_append: "s \<noteq> [] \<Longrightarrow> hd s \<noteq> c \<Longrightarrow> c # t \<noteq> s @ u \<and> s @ u \<noteq> c # t"
  by (cases s) auto

lemma join_prefix:
  assumes elem: "\<And>x y r r'. x \<in> set xs \<Longrightarrow> f x @ r = f y @ r' \<Longrightarrow> stops r \<Longrightarrow> stops r' \<Longrightarrow>
      x = y \<and> r = r'"
    and first: "\<And>y. f y \<noteq> [] \<and> hd (f y) \<noteq> close"
    and close: "close \<noteq> CHR '',''" "\<not> is_digit close"
    and eq: "join '','' (map f xs) @ close # r = join '','' (map f ys) @ close # r'"
  shows "xs = ys \<and> r = r'"
  using elem eq
proof (induction xs arbitrary: ys)
  case Nil
  show ?case
  proof (cases ys)
    case Nil
    with Nil.prems(2) show ?thesis by simp
  next
    case (Cons y zs)
    with Nil.prems(2) hd_nonempty_append [of "f y" close] first [of y] show ?thesis
      by (simp del: list.map(2) add: join_Cons)
  qed
next
  case (Cons x xs)
  note elem = Cons.prems(1) and eq = Cons.prems(2)
  show ?case
  proof (cases ys)
    case Nil
    with eq hd_nonempty_append [of "f x" close] first [of x] show ?thesis
      by (simp del: list.map(2) add: join_Cons)
  next
    case ys: (Cons y zs)
    have s: "stops (join_rest f zs @ close # t)" for zs t
      using close(2) by (simp add: join_rest_def is_digit_def)
    have xy: "x = y \<and> join_rest f xs @ close # r = join_rest f zs @ close # r'"
      using elem [of x "join_rest f xs @ close # r" y "join_rest f zs @ close # r'"] eq ys s
      by (simp del: list.map(2) add: join_Cons)
    show ?thesis
    proof (cases "xs = [] \<or> zs = []")
      case True
      with xy close(1) ys show ?thesis by (auto simp: join_rest_def split: if_splits)
    next
      case False
      with xy have "join '','' (map f xs) @ close # r = join '','' (map f zs) @ close # r'"
        by (simp add: join_rest_def)
      with Cons.IH [OF elem, of zs] xy ys show ?thesis by simp
    qed
  qed
qed

text \<open>The first character of the text tells the kind of the value.\<close>

fun kind :: "json \<Rightarrow> char" where
  "kind JNull = CHR ''n''"
| "kind (JBool b) = CHR ''t''"
| "kind (JNum i) = CHR ''0''"
| "kind (JStr s) = CHR 0x22"
| "kind (JArr vs) = CHR ''[''"
| "kind (JObj kvs) = CHR ''{''"

definition kind_of_hd :: "char \<Rightarrow> char" where
  "kind_of_hd c = (if is_digit c \<or> c = CHR ''-'' then CHR ''0'' else if c = CHR ''f'' then CHR ''t'' else c)"

lemma hd_show_nat: "is_digit (hd (show_nat n))"
  using show_nat_digits [of n] hd_in_set [of "show_nat n"] by auto

lemma kind_hd: "stringify v \<noteq> [] \<and> kind_of_hd (hd (stringify v)) = kind v"
proof (cases v)
  case (JNum i)
  then show ?thesis
    using hd_show_nat [of "nat i"] by (auto simp: show_int_def kind_of_hd_def is_digit_def)
qed (auto simp: quote_def kind_of_hd_def is_digit_def)

lemma kind_eq: "stringify v @ r = stringify w @ r' \<Longrightarrow> kind v = kind w"
  by (metis hd_append2 kind_hd)

lemma stringify_hd_close: "c \<in> {CHR '']'', CHR ''}''} \<Longrightarrow> stringify v \<noteq> [] \<and> hd (stringify v) \<noteq> c"
proof -
  assume c: "c \<in> {CHR '']'', CHR ''}''}"
  have "kind v \<noteq> kind_of_hd c"
    using c by (cases v) (auto simp: kind_of_hd_def is_digit_def)
  then show ?thesis using kind_hd [of v] by auto
qed

lemma stringify_prefix:
  "stringify v @ r = stringify w @ r' \<Longrightarrow> stops r \<Longrightarrow> stops r' \<Longrightarrow> v = w \<and> r = r'"
proof (induction v arbitrary: w r r')
  case JNull
  then show ?case using kind_eq [OF JNull.prems(1)] by (cases w) auto
next
  case (JBool b)
  then show ?case using kind_eq [OF JBool.prems(1)] by (cases w) (auto split: if_splits)
next
  case (JNum i)
  then show ?case using kind_eq [OF JNum.prems(1)] by (cases w) (auto dest: show_int_prefix)
next
  case (JStr s)
  then show ?case using kind_eq [OF JStr.prems(1)] by (cases w) (auto dest: quote_prefix)
next
  case (JArr vs)
  then obtain ws where w: "w = JArr ws"
    using kind_eq [OF JArr.prems(1)] by (cases w) auto
  with JArr.prems have eq: "join '','' (map stringify vs) @ CHR '']'' # r
      = join '','' (map stringify ws) @ CHR '']'' # r'"
    by simp
  have "vs = ws \<and> r = r'"
  proof (rule join_prefix [OF _ _ _ _ eq])
    show "x = y \<and> t = t'" if "x \<in> set vs" "stringify x @ t = stringify y @ t'" "stops t" "stops t'"
      for x y t t' using that by (rule JArr.IH)
  qed (use stringify_hd_close kind_hd in \<open>auto simp: is_digit_def\<close>)
  with w show ?case by simp
next
  case (JObj kvs)
  let ?f = "\<lambda>kv. quote (fst kv) @ '':'' @ stringify (snd kv)"
  from JObj.prems obtain kws where w: "w = JObj kws"
    using kind_eq [OF JObj.prems(1)] by (cases w) auto
  with JObj.prems have eq: "join '','' (map ?f kvs) @ CHR ''}'' # r = join '','' (map ?f kws) @ CHR ''}'' # r'"
    by simp
  have "kvs = kws \<and> r = r'"
  proof (rule join_prefix [OF _ _ _ _ eq])
    fix x y t t'
    assume x: "x \<in> set kvs" and e: "?f x @ t = ?f y @ t'" and st: "stops t" "stops t'"
    from e have "fst x = fst y \<and> stringify (snd x) @ t = stringify (snd y) @ t'"
      using quote_prefix [of "fst x" "'':'' @ stringify (snd x) @ t" "fst y"] by auto
    with JObj.IH [OF x, of "snd x" t "snd y" t'] st show "x = y \<and> t = t'"
      by (cases x; cases y) (auto simp: snds.simps)
  qed (simp_all add: quote_def is_digit_def)
  with w show ?case by simp
qed

lemma stringify_inj: "stringify v = stringify w \<longleftrightarrow> v = w"
  using stringify_prefix [of v "[]" w "[]"] by auto

subsection \<open>Key order and the lost key\<close>

lemma mset_own_key_order [simp]: "mset (own_key_order kvs) = mset kvs"
  by (simp add: own_key_order_def)

lemma mset_assign_all: "mset (assign_all kvs) = filter_mset (\<lambda>kv. fst kv \<noteq> ''__proto__'') (mset kvs)"
  by (simp add: assign_all_def)

lemma set_assign_all: "set (assign_all kvs) = {kv \<in> set kvs. fst kv \<noteq> ''__proto__''}"
  using arg_cong [OF mset_assign_all [of kvs], of set_mset] by (auto simp del: mset_filter)

abbreviation canon_fields :: "(string \<times> json) list \<Rightarrow> (string \<times> json) list" where
  "canon_fields kvs \<equiv> map (\<lambda>kv. (fst kv, canon (snd kv))) kvs"

lemma sort_fields_perm:
  fixes kvs kws :: "(string \<times> 'a) list"
  assumes "mset kvs = mset kws" "distinct (map fst kvs)"
  shows "sort_key fst kvs = sort_key fst kws"
proof (rule sort_key_inj_key_eq)
  show "mset kvs = mset (sort_key fst kws)" using assms(1) by simp
  show "inj_on fst (set kvs)" using assms(2) by (simp add: distinct_map)
  show "sorted (map fst (sort_key fst kws))" by simp
qed

lemma map_of_canon_fields: "map_of (canon_fields kvs) k = map_option canon (map_of kvs k)"
  by (induction kvs) auto

lemma map_of_eqI:
  assumes "distinct (map fst kvs)" "distinct (map fst kws)" "set kvs = set kws"
  shows "map_of kvs = map_of kws"
  by (rule map_of_inject_set [THEN iffD2, OF assms])

lemma fields_mset_eq:
  assumes "distinct (map fst kvs)" "distinct (map fst kws)" "set kvs = set kws"
  shows "mset kvs = mset kws"
proof -
  from assms(1,2) have "distinct kvs" "distinct kws" by (simp_all add: distinct_map)
  with assms(3) show ?thesis by (simp add: set_eq_iff_mset_eq_distinct)
qed

lemma map_of_filter_key:
  "map_of (filter (\<lambda>kv. P (fst kv)) kvs) k = (if P k then map_of kvs k else None)"
  by (induction kvs) auto

text \<open>What equal canonical forms say of two objects, field by field.\<close>

lemma canon_obj_lookup:
  assumes "canon (JObj kvs) = canon (JObj kws)"
    and "distinct (map fst kvs)" "distinct (map fst kws)" and "k \<noteq> ''__proto__''"
  shows "map_option canon (map_of kvs k) = map_option canon (map_of kws k)"
proof -
  let ?P = "\<lambda>kv. fst kv \<noteq> ''__proto__''"
  have "set (assign_all (sort_key fst (canon_fields kvs)))
      = set (assign_all (sort_key fst (canon_fields kws)))"
    using assms(1) by simp
  then have "set (filter ?P (canon_fields kvs)) = set (filter ?P (canon_fields kws))"
    unfolding set_assign_all set_filter set_sort .
  moreover have "distinct (map fst (filter ?P (canon_fields kvs)))"
    "distinct (map fst (filter ?P (canon_fields kws)))"
    using assms(2,3) by (simp_all add: distinct_map_filter o_def)
  ultimately have "map_of (filter ?P (canon_fields kvs)) = map_of (filter ?P (canon_fields kws))"
    by (intro map_of_eqI)
  then have "map_of (filter ?P (canon_fields kvs)) k = map_of (filter ?P (canon_fields kws)) k"
    by (rule arg_cong)
  with assms(4) show ?thesis
    by (simp add: map_of_filter_key [of "\<lambda>k. k \<noteq> ''__proto__''"] map_of_canon_fields)
qed

lemma canon_arr_strings [simp]: "canon (JArr (map JStr xs)) = JArr (map JStr xs)"
  by (simp add: o_def)

lemma map_JStr_inj [simp]: "map JStr xs = map JStr ys \<longleftrightarrow> xs = ys"
  by (simp add: inj_map_eq_map inj_def)

lemma canonical_text_eq: "canonical_text v = canonical_text w \<longleftrightarrow> canon v = canon w"
  by (simp add: canonical_text_def stringify_inj)

lemma digest_eqD: "digest E v = digest E w \<Longrightarrow> no_collision E v w \<Longrightarrow> canon v = canon w"
  by (simp add: digest_def no_collision_def canonical_text_eq)

subsection \<open>The data a JSON value stands for\<close>

text \<open>The specification: an object is a finite map from keys to data, its key order no part of it.\<close>

datatype data = DNull | DBool bool | DNum int | DStr string | DArr "data list"
  | DObj "string \<Rightarrow> data option"

fun data_of :: "json \<Rightarrow> data" where
  "data_of JNull = DNull"
| "data_of (JBool b) = DBool b"
| "data_of (JNum i) = DNum i"
| "data_of (JStr s) = DStr s"
| "data_of (JArr vs) = DArr (map data_of vs)"
| "data_of (JObj kvs) = DObj (map_of (map (\<lambda>kv. (fst kv, data_of (snd kv))) kvs))"

text \<open>A JavaScript object has one value per key; here it also has no own \<open>__proto__\<close>.\<close>

fun plain_keys :: "json \<Rightarrow> bool" where
  "plain_keys (JArr vs) = list_all plain_keys vs"
| "plain_keys (JObj kvs) = (distinct (map fst kvs) \<and> ''__proto__'' \<notin> set (map fst kvs)
     \<and> list_all (\<lambda>kv. plain_keys (snd kv)) kvs)"
| "plain_keys v = True"

lemma map_of_data_fields:
  "map_of (map (\<lambda>kv. (fst kv, data_of (snd kv))) kvs) k = map_option data_of (map_of kvs k)"
  by (induction kvs) auto

lemma data_of_obj_eq:
  assumes "\<And>v w. v \<in> snd ` set kvs \<Longrightarrow> w \<in> snd ` set kws \<Longrightarrow> data_of v = data_of w \<longleftrightarrow> canon v = canon w"
  shows "map_option data_of (map_of kvs k) = map_option data_of (map_of kws k)
    \<longleftrightarrow> map_option canon (map_of kvs k) = map_option canon (map_of kws k)"
proof (cases "map_of kvs k"; cases "map_of kws k")
  fix v w
  assume vw: "map_of kvs k = Some v" "map_of kws k = Some w"
  then have "v \<in> snd ` set kvs" "w \<in> snd ` set kws"
    by (force dest!: map_of_SomeD)+
  with vw show ?thesis using assms by simp
qed simp_all

lemma canon_obj_eqI:
  assumes "plain_keys (JObj kvs)" "plain_keys (JObj kws)"
    and "\<And>k. map_option canon (map_of kvs k) = map_option canon (map_of kws k)"
  shows "canon (JObj kvs) = canon (JObj kws)"
proof -
  have d: "distinct (map fst (canon_fields kvs))" "distinct (map fst (canon_fields kws))"
    using assms(1,2) by (simp_all add: o_def)
  have "map_of (canon_fields kvs) = map_of (canon_fields kws)"
    using assms(3) by (simp add: map_of_canon_fields fun_eq_iff)
  then have "set (canon_fields kvs) = set (canon_fields kws)"
    using map_of_inject_set [OF d] by simp
  then have "mset (canon_fields kvs) = mset (canon_fields kws)"
    using d by (rule fields_mset_eq [rotated 2])
  then show ?thesis
    using sort_fields_perm [OF _ d(1), of "canon_fields kws"] by (simp del: mset_map)
qed

lemma canon_eq_data: "plain_keys v \<Longrightarrow> plain_keys w \<Longrightarrow> data_of v = data_of w \<longleftrightarrow> canon v = canon w"
proof (induction v arbitrary: w)
  case (JArr vs)
  then show ?case
    by (cases w) (auto simp: list_all_iff list_eq_iff_nth_eq all_set_conv_all_nth)
next
  case (JObj kvs)
  show ?case
  proof (cases w)
    case w: (JObj kws)
    have elem: "data_of x = data_of y \<longleftrightarrow> canon x = canon y"
      if "x \<in> snd ` set kvs" "y \<in> snd ` set kws" for x y
      using that JObj.prems JObj.IH [of "(a, x)" x y for a] w by (force simp: list_all_iff)
    have "data_of (JObj kvs) = data_of w
        \<longleftrightarrow> (\<forall>k. map_option canon (map_of kvs k) = map_option canon (map_of kws k))"
      by (simp add: w fun_eq_iff map_of_data_fields data_of_obj_eq [OF elem])
    also have "\<dots> \<longleftrightarrow> canon (JObj kvs) = canon w"
    proof
      assume "\<forall>k. map_option canon (map_of kvs k) = map_option canon (map_of kws k)"
      then show "canon (JObj kvs) = canon w"
        using canon_obj_eqI [of kvs kws] JObj.prems w by blast
    next
      assume c: "canon (JObj kvs) = canon w"
      have "map_option canon (map_of kvs k) = map_option canon (map_of kws k)" for k
      proof (cases "k = ''__proto__''")
        case True
        then have "map_of kvs k = None" "map_of kws k = None"
          using JObj.prems w by (simp_all add: map_of_eq_None_iff)
        then show ?thesis by simp
      next
        case False
        with c w JObj.prems show ?thesis by (intro canon_obj_lookup) auto
      qed
      then show "\<forall>k. map_option canon (map_of kvs k) = map_option canon (map_of kws k)" by blast
    qed
    finally show ?thesis .
  qed auto
qed (case_tac [!] w, auto)

subsection \<open>Which values have a canonical text\<close>

text \<open>
  \<open>tree_of h v t\<close>: from value \<open>v\<close> the store unfolds, in finitely many steps, to the plain data
  \<open>t\<close>. A cyclic value, an instance of a class, \<open>undefined\<close> or a number that is not finite has none.
\<close>

inductive tree_of :: "store \<Rightarrow> jsval \<Rightarrow> json \<Rightarrow> bool" for h :: store where
  null: "tree_of h VNull JNull"
| bool: "tree_of h (VBool b) (JBool b)"
| str: "tree_of h (VStr s) (JStr s)"
| num: "tree_of h (VNum (Finite i)) (JNum i)"
| neg_zero: "tree_of h (VNum NegZero) (JNum 0)"
| array: "obj_at h a = Some (OArray vs) \<Longrightarrow> list_all2 (tree_of h) vs ts \<Longrightarrow> tree_of h (VRef a) (JArr ts)"
| plain: "obj_at h a = Some (OPlain kvs) \<Longrightarrow>
    list_all2 (\<lambda>kv kt. fst kv = fst kt \<and> tree_of h (snd kv) (snd kt)) kvs kts \<Longrightarrow>
    tree_of h (VRef a) (JObj kts)"

inductive_cases tree_of_RefE: "tree_of h (VRef a) t"

inductive_simps tree_of_simps:
  "tree_of h VNull t" "tree_of h (VBool b) t" "tree_of h (VStr s) t" "tree_of h (VNum n) t"
  "tree_of h VUndefined t" "tree_of h (VBigint i) t" "tree_of h VFunction t" "tree_of h VSymbol t"

lemma list_all2_unique:
  assumes "list_all2 (\<lambda>v t. \<forall>t'. R v t' \<longrightarrow> t = t') vs ts" "list_all2 R vs ts'"
  shows "ts = ts'"
  using assms by (induction vs ts arbitrary: ts' rule: list_all2_induct) (auto simp: list_all2_Cons1)

lemma tree_of_unique: "tree_of h v t \<Longrightarrow> tree_of h v t' \<Longrightarrow> t = t'"
proof (induction arbitrary: t' rule: tree_of.induct)
  case (array a vs ts)
  have "list_all2 (\<lambda>v t. \<forall>t'. tree_of h v t' \<longrightarrow> t = t') vs ts"
    using array.IH by (rule list_all2_mono) blast
  with array.prems array.hyps show ?case
    by (auto elim!: tree_of_RefE dest: list_all2_unique)
next
  case (plain a kvs kts)
  let ?R = "\<lambda>kv kt. fst kv = fst kt \<and> tree_of h (snd kv) (snd kt)"
  have "list_all2 (\<lambda>kv kt. \<forall>kt'. ?R kv kt' \<longrightarrow> kt = kt') kvs kts"
    using plain.IH by (rule list_all2_mono) (auto simp: prod_eq_iff)
  moreover from plain.prems plain.hyps obtain kts' where "t' = JObj kts'" "list_all2 ?R kvs kts'"
    by (auto elim!: tree_of_RefE)
  ultimately show ?case using list_all2_unique [of ?R kvs kts kts'] by blast
qed (simp_all add: tree_of_simps)

lemma collect_map2:
  "list_all2 (\<lambda>x y. f x = Inr (g y)) xs ys \<Longrightarrow> collect (map f xs) = Inr (map g ys)"
  by (induction xs ys rule: list_all2_induct) auto

lemma sort_key_map: "sort_key f (map g xs) = map g (sort_key (\<lambda>x. f (g x)) xs)"
proof -
  have ins: "insort_key f (g x) (map g ys) = map g (insort_key (\<lambda>x. f (g x)) x ys)" for x ys
    by (induction ys) auto
  show ?thesis by (induction xs) (auto simp: sort_key_def ins)
qed

lemma list_all2_insort:
  assumes "list_all2 (\<lambda>x y. f x = g y \<and> P x y) xs ys" "f x = g y" "P x y"
  shows "list_all2 (\<lambda>x y. f x = g y \<and> P x y) (insort_key f x xs) (insort_key g y ys)"
  using assms(1) assms(2,3) by (induction xs ys rule: list_all2_induct) auto

lemma list_all2_sort:
  "list_all2 (\<lambda>x y. f x = g y \<and> P x y) xs ys \<Longrightarrow>
   list_all2 (\<lambda>x y. f x = g y \<and> P x y) (sort_key f xs) (sort_key g ys)"
  by (induction xs ys rule: list_all2_induct) (auto simp: sort_key_def list_all2_insort)

text \<open>Every value on the path from the root holds a strictly larger tree, so no cycle is met.\<close>

lemma size_elem: "t \<in> set ts \<Longrightarrow> size t < size (JArr ts)"
  by (induction ts) auto

lemma size_field: "kt \<in> set kts \<Longrightarrow> size (snd kt) < size (JObj kts)"
  by (induction kts) (auto simp: size_prod_simp)

lemma normalize_tree:
  assumes "tree_of h v t"
    and "\<And>b. b \<in> set anc \<Longrightarrow> \<exists>tb. tree_of h (VRef b) tb \<and> size t < size tb"
  shows "normalize h anc v = Inr (canon t)"
  using assms
proof (induction arbitrary: anc rule: tree_of.induct)
  case (array a vs ts)
  have here: "tree_of h (VRef a) (JArr ts)"
    using array.hyps array.IH by (blast intro: tree_of.array list_all2_mono)
  then have fresh: "a \<notin> set anc" using array.prems tree_of_unique by blast
  have "list_all2 (\<lambda>v t. normalize h (a # anc) v = Inr (canon t)) vs ts"
    unfolding list_all2_conv_all_nth
  proof (intro conjI allI impI)
    fix i assume i: "i < length vs"
    then have t: "ts ! i \<in> set ts" using array.IH by (simp add: list_all2_lengthD [symmetric])
    have "\<exists>tb. tree_of h (VRef b) tb \<and> size (ts ! i) < size tb" if "b \<in> set (a # anc)" for b
      using that here array.prems [of b] size_elem [OF t] by (auto intro: less_trans)
    with list_all2_nthD [OF array.IH i] show "normalize h (a # anc) (vs ! i) = Inr (canon (ts ! i))"
      by blast
  qed (use array.IH list_all2_lengthD in auto)
  from collect_map2 [OF this] fresh array.hyps show ?case
    by (subst normalize.simps) simp
next
  case (plain a kvs kts)
  have here: "tree_of h (VRef a) (JObj kts)"
    using plain.hyps plain.IH by (blast intro: tree_of.plain list_all2_mono)
  then have fresh: "a \<notin> set anc" using plain.prems tree_of_unique by blast
  let ?n = "\<lambda>kv. map_result (Pair (fst kv)) (normalize h (a # anc) (snd kv))"
  let ?c = "\<lambda>kt. (fst kt, canon (snd kt))"
  have "list_all2 (\<lambda>kv kt. fst kv = fst kt \<and> ?n kv = Inr (?c kt)) kvs kts"
    unfolding list_all2_conv_all_nth
  proof (intro conjI allI impI)
    fix i assume i: "i < length kvs"
    then have t: "kts ! i \<in> set kts" using plain.IH by (simp add: list_all2_lengthD [symmetric])
    have "\<exists>tb. tree_of h (VRef b) tb \<and> size (snd (kts ! i)) < size tb" if "b \<in> set (a # anc)" for b
      using that here plain.prems [of b] size_field [OF t] by (auto intro: less_trans)
    with list_all2_nthD [OF plain.IH i]
    show "fst (kvs ! i) = fst (kts ! i)" "?n (kvs ! i) = Inr (?c (kts ! i))" by auto
  qed (use plain.IH list_all2_lengthD in auto)
  then have "list_all2 (\<lambda>kv kt. fst kv = fst kt \<and> ?n kv = Inr (?c kt)) (sort_key fst kvs) (sort_key fst kts)"
    by (rule list_all2_sort)
  then have "list_all2 (\<lambda>kv kt. ?n kv = Inr (?c kt)) (sort_key fst kvs) (sort_key fst kts)"
    by (rule list_all2_mono) blast
  from collect_map2 [OF this] fresh plain.hyps show ?case
    by (subst normalize.simps) (simp add: sort_key_map o_def)
qed (simp_all add: normalize.simps)

lemma collect_map_InrD:
  assumes "collect (map f xs) = Inr ys" "x \<in> set xs"
  shows "\<exists>y. f x = Inr y"
proof -
  have "f x \<in> set (map Inr ys)"
    using assms by (metis collect_Inr_iff image_eqI list.set_map)
  then show ?thesis by auto
qed

lemma list_all2_choice:
  "\<forall>x \<in> set xs. \<exists>y. R x y \<Longrightarrow> \<exists>ys. list_all2 R xs ys"
  by (induction xs) (auto simp: list_all2_Cons1)

lemma normalize_InrD: "normalize h anc v = Inr j \<Longrightarrow> \<exists>t. tree_of h v t"
proof (induction h anc v arbitrary: j rule: normalize.induct)
  case (1 h anc v)
  show ?case
  proof (cases v)
    case (VRef a)
    with "1.prems" obtain obj where a: "a \<notin> set anc" "obj_at h a = Some obj"
      by (subst (asm) normalize.simps) (auto split: if_splits option.splits)
    show ?thesis
    proof (cases obj)
      case (OArray vs)
      with "1.prems" VRef a obtain js where
        "collect (map (\<lambda>v. normalize h (a # anc) v) vs) = Inr js"
        by (subst (asm) normalize.simps) auto
      then have "\<forall>w \<in> set vs. \<exists>j. normalize h (a # anc) w = Inr j"
        by (blast dest: collect_map_InrD)
      then have "\<forall>w \<in> set vs. \<exists>t. tree_of h w t"
        using "1.IH"(1) [OF VRef a OArray] by blast
      then show ?thesis
        using list_all2_choice [of vs "tree_of h"] a OArray VRef by (blast intro: tree_of.array)
    next
      case (OPlain kvs)
      with "1.prems" VRef a obtain js where
        "collect (map (\<lambda>kv. map_result (Pair (fst kv)) (normalize h (a # anc) (snd kv)))
          (sort_key fst kvs)) = Inr js"
        by (subst (asm) normalize.simps) auto
      then have "\<forall>kv \<in> set (sort_key fst kvs). \<exists>j. normalize h (a # anc) (snd kv) = Inr j"
        by (fastforce dest: collect_map_InrD)
      then have "\<forall>kv \<in> set kvs. \<exists>t. tree_of h (snd kv) t"
        using "1.IH"(2) [OF VRef a OPlain] by fastforce
      then have "\<forall>kv \<in> set kvs. \<exists>kt. fst kv = fst kt \<and> tree_of h (snd kv) (snd kt)" by auto
      then show ?thesis
        using list_all2_choice [of kvs "\<lambda>kv kt. fst kv = fst kt \<and> tree_of h (snd kv) (snd kt)"]
          a OPlain VRef by (blast intro: tree_of.plain)
    next
      case OInstance
      with "1.prems" VRef a show ?thesis by (simp add: normalize.simps)
    qed
  qed (use "1.prems" in \<open>auto simp: normalize.simps intro: tree_of.intros split: jsnum.splits\<close>)
qed

subsection \<open>A concrete environment for the witnesses\<close>

definition demo_env :: js_env where
  "demo_env = \<lparr>sha256_hex = (\<lambda>s. replicate 64 (CHR ''a'')), localeCompare = cmp_units,
               dateFallback = (\<lambda>s. None)\<rparr>"

lemma demo_env_simps [simp]:
  "localeCompare demo_env = cmp_units" "dateFallback demo_env = (\<lambda>s. None)"
  "sha256_hex demo_env s = replicate 64 (CHR ''a'')"
  by (simp_all add: demo_env_def)

lemma hex_demo_env [simp]: "hex_sha256 demo_env"
  by (simp add: hex_sha256_def is_hex_def list_all_iff)

lemma collation_demo_env [simp]: "consistent_collation demo_env"
  by (simp add: consistent_collation_def units.comparator_axioms)

definition demo_digest :: string where
  "demo_digest = ''sha256:'' @ replicate 64 (CHR ''a'')"

lemma digest_demo_env [simp]: "digest demo_env v = demo_digest"
  by (simp add: digest_def demo_digest_def)

lemma is_sha256_demo [simp]: "is_sha256 demo_digest"
  using is_sha256_digest [OF hex_demo_env, of JNull] by simp

subsection \<open>Properties\<close>

lemma canonicalize_tree: "tree_of h v t \<Longrightarrow> canonicalize h v = Inr (canonical_text t)"
  using normalize_tree [of h v t "[]"] by (simp add: canonicalize_def canonical_text_def)

text \<open>
  C32: \<open>canonicalize\<close> returns on every value of every store, cyclic ones included; it returns a text
  exactly when the value unfolds to a finite tree of plain data, and then the text is that tree's
  canonical text (anything else is a \<open>CanonicalizationError\<close>).
\<close>

theorem canonicalize_iff_tree:
  "canonicalize h v = Inr s \<longleftrightarrow> (\<exists>t. tree_of h v t \<and> s = canonical_text t)"
proof
  assume "canonicalize h v = Inr s"
  then obtain t where "tree_of h v t"
    by (auto simp: canonicalize_def dest: normalize_InrD)
  then show "\<exists>t. tree_of h v t \<and> s = canonical_text t"
    using \<open>canonicalize h v = Inr s\<close> canonicalize_tree [of h v t] by auto
qed (auto simp: canonicalize_tree)

text \<open>
  the canonical text is a complete invariant of the data: two values whose objects have one value
  per key and no own \<open>__proto__\<close> key have the same canonical text exactly when they are the same data
  up to the order of keys.
\<close>

theorem canonical_text_iff_data:
  assumes "plain_keys v" and "plain_keys w"
  shows "canonical_text v = canonical_text w \<longleftrightarrow> data_of v = data_of w"
  using canon_eq_data [OF assms] by (simp add: canonical_text_eq)

theorem canonical_text_iff_data_witness:
  "canonical_text (JObj [(''b'', JNum 1), (''a'', JArr [JStr ''x''])])
   = canonical_text (JObj [(''a'', JArr [JStr ''x'']), (''b'', JNum 1)])"
proof -
  have "plain_keys (JObj [(''b'', JNum 1), (''a'', JArr [JStr ''x''])])"
    "plain_keys (JObj [(''a'', JArr [JStr ''x'']), (''b'', JNum 1)])" by simp_all
  from canonical_text_iff_data [OF this] show ?thesis by (simp add: fun_upd_twist)
qed

text \<open>
  an own \<open>__proto__\<close> key is lost: two different values, one with and one without it, have the
  same digest whatever the hash, so a digest does not vouch for that key.
\<close>

theorem digest_ignores_proto:
  "digest E (JObj ((''__proto__'', v) # kvs)) = digest E (JObj kvs)"
proof -
  have "assign_all (sort_key fst ((''__proto__'', canon v) # canon_fields kvs))
    = assign_all (sort_key fst (canon_fields kvs))"
    by (simp add: assign_all_def filter_insort_triv)
  then show ?thesis by (simp add: digest_def canonical_text_def)
qed

end
