(* ===== verification/Contracts.thy ===== *)
theory Contracts
  imports Integrity
begin

section \<open>The artifacts of the governed write: \<open>src/remediation/contracts.ts\<close>\<close>

text \<open>
  One record per interface, one datatype per union of string literals. String-literal fields that
  the code checks at run time (schema versions, tool names) stay strings, because an artifact read
  back from storage may carry anything there. Argument arrays stay lists for the same reason, though
  their declared types are one-element tuples. Optional fields are options.

  Each record has its JSON encoding, the value the code hands to \<open>digest\<close>; an absent optional
  field is an absent key.
\<close>

definition opt_field :: "string \<Rightarrow> ('a \<Rightarrow> json) \<Rightarrow> 'a option \<Rightarrow> (string \<times> json) list" where
  "opt_field k f v = (case v of None \<Rightarrow> [] | Some a \<Rightarrow> [(k, f a)])"

abbreviation strings_json :: "string list \<Rightarrow> json" where
  "strings_json xs \<equiv> JArr (map JStr xs)"

subsection \<open>Evidence\<close>

record TagProjection =
  tp_entityUrn :: string
  tp_columnPath :: string
  tp_tags :: "string list"
  tp_digest :: string

record G6FindingEvidence =
  g6_type :: string
  g6_severity :: string
  g6_subject :: string
  g6_ruleId :: string
  g6_unclassifiedFields :: "string list"

record ProvenanceEvidence =
  pv_sourceKind :: string
  pv_entityUrn :: string
  pv_aspect :: string
  pv_aspectVersion :: "int option"
  pv_pipelineName :: "string option"
  pv_runId :: "string option"
  pv_observedAt :: string
  pv_valueDigest :: string

record BlastRadius =
  br_downstreamUrns :: "string list"
  br_maxHops :: int
  br_truncated :: bool

record TrustedRemediationPolicyV1 =
  pol_schemaVersion :: string
  pol_policyId :: string
  pol_enabled :: bool
  pol_classificationTagUrn :: string
  pol_allowedEntityUrnPrefixes :: "string list"
  pol_digest :: string

record RemediationTarget =
  tg_entityUrn :: string
  tg_columnPath :: string

record EvidenceDossierV1 =
  dos_schemaVersion :: string
  dos_dossierId :: string
  dos_scanId :: string
  dos_findingDigest :: string
  dos_finding :: G6FindingEvidence
  dos_target :: RemediationTarget
  dos_provenance :: "ProvenanceEvidence list"
  dos_blastRadius :: BlastRadius
  dos_before :: TagProjection
  dos_policyDigest :: string
  dos_createdAt :: string
  dos_digest :: string

subsection \<open>Plan\<close>

record TagMutationArguments =
  arg_tag_urns :: "string list"
  arg_entity_urns :: "string list"
  arg_column_paths :: "string list"

record InverseAction =
  inv_tool :: string
  inv_arguments :: TagMutationArguments

record AddClassificationTagActionV1 =
  act_actionId :: string
  act_tool :: string
  act_arguments :: TagMutationArguments
  act_inverse :: InverseAction
  act_digest :: string

record RemediationPlanV1 =
  pln_schemaVersion :: string
  pln_planId :: string
  pln_dossierDigest :: string
  pln_policyDigest :: string
  pln_actionCatalogDigest :: string
  pln_action :: AddClassificationTagActionV1
  pln_expectedBefore :: TagProjection
  pln_expectedAfter :: TagProjection
  pln_risk :: string
  pln_requiresHumanApproval :: bool
  pln_digest :: string

datatype ManualOnlyReason = UNSUPPORTED_FINDING | NO_TRUSTED_TARGET | TAG_ALREADY_PRESENT
  | POLICY_NOT_APPLICABLE | AMBIGUOUS_EVIDENCE

datatype PlanningResult = ACTIONABLE EvidenceDossierV1 RemediationPlanV1
  | MANUAL_ONLY ManualOnlyReason

subsection \<open>Approval\<close>

record ApprovalRequestV1 =
  apr_schemaVersion :: string
  apr_approvalId :: string
  apr_dossierDigest :: string
  apr_planDigest :: string
  apr_actionCatalogDigest :: string
  apr_expectedBeforeDigest :: string
  apr_requestedAt :: string
  apr_expiresAt :: string
  apr_nonce :: string
  apr_digest :: string

record AuthenticatedApprover =
  au_subject :: string
  au_issuer :: string
  au_roles :: "string list"
  au_authenticated :: bool

datatype Decision = APPROVE | REJECT

record ApprovalDecisionV1 =
  dec_schemaVersion :: string
  dec_approvalId :: string
  dec_requestDigest :: string
  dec_planDigest :: string
  dec_decision :: Decision
  dec_approver :: AuthenticatedApprover
  dec_decidedAt :: string
  dec_digest :: string

subsection \<open>Execution\<close>

datatype ExecutionOutcome = VERIFIED | REJECTED | EXPIRED | STALE | MUTATION_FAILED
  | INDETERMINATE | VERIFICATION_FAILED

datatype CheckId = TARGET_UNCHANGED | PREEXISTING_TAGS_PRESERVED | POLICY_TAG_PRESENT
  | NO_UNEXPECTED_TAGS | APPROVAL_BINDING_VALID

record VerificationCheck =
  chk_checkId :: CheckId
  chk_passed :: bool
  chk_evidence :: string

record MutationAck =
  ack_requestDigest :: string
  ack_responseDigest :: string

datatype EventKind = DOSSIER_BOUND | PLAN_BOUND | APPROVAL_BOUND | PRECONDITION_CHECKED
  | MUTATION_INVOKED | POSTCONDITION_CHECKED | ROLLBACK_ANCHORED

record ReceiptEvent =
  ev_sequence :: nat
  ev_kind :: EventKind
  ev_occurredAt :: string
  ev_payloadDigest :: string
  ev_previousHash :: string
  ev_eventHash :: string

datatype Availability = ELIGIBLE | BLOCKED | NOT_APPLICABLE

record RollbackAnchor =
  ra_availability :: Availability
  ra_inverseActionDigest :: "string option"
  ra_restoreStateDigest :: "string option"
  ra_reason :: "string option"

record ExecutionReceiptV1 =
  rcp_schemaVersion :: string
  rcp_receiptId :: string
  rcp_executionId :: string
  rcp_outcome :: ExecutionOutcome
  rcp_dossierDigest :: string
  rcp_planDigest :: string
  rcp_approvalDecisionDigest :: "string option"
  rcp_action :: AddClassificationTagActionV1
  rcp_idempotencyKey :: string
  rcp_before :: "TagProjection option"
  rcp_after :: "TagProjection option"
  rcp_mutation :: "MutationAck option"
  rcp_checks :: "VerificationCheck list"
  rcp_rollback :: RollbackAnchor
  rcp_events :: "ReceiptEvent list"
  rcp_startedAt :: string
  rcp_completedAt :: string
  rcp_digest :: string

subsection \<open>Rollback\<close>

record RollbackProposalV1 =
  rbp_schemaVersion :: string
  rbp_rollbackId :: string
  rbp_originalReceiptDigest :: string
  rbp_expectedCurrentDigest :: string
  rbp_restoreStateDigest :: string
  rbp_inverseAction :: InverseAction
  rbp_requiresFreshApproval :: bool
  rbp_digest :: string

record RollbackApprovalV1 =
  rba_schemaVersion :: string
  rba_proposalDigest :: string
  rba_decision :: Decision
  rba_approver :: AuthenticatedApprover
  rba_decidedAt :: string
  rba_digest :: string

datatype RollbackOutcome = RB_VERIFIED | RB_REJECTED | RB_STALE | RB_INDETERMINATE
  | RB_VERIFICATION_FAILED

record RollbackReceiptV1 =
  rbr_schemaVersion :: string
  rbr_rollbackId :: string
  rbr_proposalDigest :: string
  rbr_approvalDigest :: string
  rbr_originalReceiptDigest :: string
  rbr_outcome :: RollbackOutcome
  rbr_before :: "TagProjection option"
  rbr_after :: "TagProjection option"
  rbr_mutation :: "MutationAck option"
  rbr_startedAt :: string
  rbr_completedAt :: string
  rbr_digest :: string

subsection \<open>Ports and the journal's answers\<close>

text \<open>The request of \<open>DataHubTagMutationPort.addTags\<close> and of \<open>removeTags\<close>.\<close>

record TagRequest =
  rq_tagUrns :: "string list"
  rq_entityUrns :: "string list"
  rq_columnPaths :: "string list"

datatype ExecutionClaim = CLAIMED nat | RECONCILE nat | COMPLETED ExecutionReceiptV1
  | IN_PROGRESS | APPROVAL_ALREADY_USED

record ClaimInput =
  ci_approvalId :: string
  ci_approvalDecisionDigest :: string
  ci_idempotencyKey :: string

record ExecutionJournalLease =
  ls_idempotencyKey :: string
  ls_fencingToken :: nat

subsection \<open>JSON encodings\<close>

definition tag_projection_payload :: "string \<Rightarrow> string \<Rightarrow> string list \<Rightarrow> json" where
  "tag_projection_payload e c ts =
     JObj [(''entityUrn'', JStr e), (''columnPath'', JStr c), (''tags'', strings_json ts)]"

definition tag_projection_json :: "TagProjection \<Rightarrow> json" where
  "tag_projection_json p =
     JObj [(''entityUrn'', JStr (tp_entityUrn p)), (''columnPath'', JStr (tp_columnPath p)),
           (''tags'', strings_json (tp_tags p)), (''digest'', JStr (tp_digest p))]"

definition finding_json :: "G6FindingEvidence \<Rightarrow> json" where
  "finding_json f =
     JObj [(''type'', JStr (g6_type f)), (''severity'', JStr (g6_severity f)),
           (''subject'', JStr (g6_subject f)), (''ruleId'', JStr (g6_ruleId f)),
           (''unclassifiedFields'', strings_json (g6_unclassifiedFields f))]"

definition provenance_json :: "ProvenanceEvidence \<Rightarrow> json" where
  "provenance_json p =
     JObj ([(''sourceKind'', JStr (pv_sourceKind p)), (''entityUrn'', JStr (pv_entityUrn p)),
            (''aspect'', JStr (pv_aspect p))]
           @ opt_field ''aspectVersion'' JNum (pv_aspectVersion p)
           @ opt_field ''pipelineName'' JStr (pv_pipelineName p)
           @ opt_field ''runId'' JStr (pv_runId p)
           @ [(''observedAt'', JStr (pv_observedAt p)), (''valueDigest'', JStr (pv_valueDigest p))])"

definition blast_radius_json :: "BlastRadius \<Rightarrow> json" where
  "blast_radius_json b =
     JObj [(''downstreamUrns'', strings_json (br_downstreamUrns b)), (''maxHops'', JNum (br_maxHops b)),
           (''truncated'', JBool (br_truncated b))]"

definition policy_payload :: "TrustedRemediationPolicyV1 \<Rightarrow> json" where
  "policy_payload p =
     JObj [(''schemaVersion'', JStr (pol_schemaVersion p)), (''policyId'', JStr (pol_policyId p)),
           (''enabled'', JBool (pol_enabled p)),
           (''classificationTagUrn'', JStr (pol_classificationTagUrn p)),
           (''allowedEntityUrnPrefixes'', strings_json (pol_allowedEntityUrnPrefixes p))]"

definition target_json :: "RemediationTarget \<Rightarrow> json" where
  "target_json t =
     JObj [(''entityUrn'', JStr (tg_entityUrn t)), (''columnPath'', JStr (tg_columnPath t))]"

definition dossier_payload :: "EvidenceDossierV1 \<Rightarrow> json" where
  "dossier_payload d =
     JObj [(''schemaVersion'', JStr (dos_schemaVersion d)), (''scanId'', JStr (dos_scanId d)),
           (''findingDigest'', JStr (dos_findingDigest d)), (''finding'', finding_json (dos_finding d)),
           (''target'', target_json (dos_target d)),
           (''provenance'', JArr (map provenance_json (dos_provenance d))),
           (''blastRadius'', blast_radius_json (dos_blastRadius d)),
           (''before'', tag_projection_json (dos_before d)),
           (''policyDigest'', JStr (dos_policyDigest d)), (''createdAt'', JStr (dos_createdAt d))]"

definition arguments_json :: "TagMutationArguments \<Rightarrow> json" where
  "arguments_json a =
     JObj [(''tag_urns'', strings_json (arg_tag_urns a)), (''entity_urns'', strings_json (arg_entity_urns a)),
           (''column_paths'', strings_json (arg_column_paths a))]"

definition inverse_json :: "InverseAction \<Rightarrow> json" where
  "inverse_json i = JObj [(''tool'', JStr (inv_tool i)), (''arguments'', arguments_json (inv_arguments i))]"

definition action_payload :: "AddClassificationTagActionV1 \<Rightarrow> json" where
  "action_payload a =
     JObj [(''actionId'', JStr (act_actionId a)), (''tool'', JStr (act_tool a)),
           (''arguments'', arguments_json (act_arguments a)), (''inverse'', inverse_json (act_inverse a))]"

definition action_json :: "AddClassificationTagActionV1 \<Rightarrow> json" where
  "action_json a =
     JObj [(''actionId'', JStr (act_actionId a)), (''tool'', JStr (act_tool a)),
           (''arguments'', arguments_json (act_arguments a)), (''inverse'', inverse_json (act_inverse a)),
           (''digest'', JStr (act_digest a))]"

definition plan_payload :: "RemediationPlanV1 \<Rightarrow> json" where
  "plan_payload p =
     JObj [(''schemaVersion'', JStr (pln_schemaVersion p)), (''dossierDigest'', JStr (pln_dossierDigest p)),
           (''policyDigest'', JStr (pln_policyDigest p)),
           (''actionCatalogDigest'', JStr (pln_actionCatalogDigest p)),
           (''action'', action_json (pln_action p)),
           (''expectedBefore'', tag_projection_json (pln_expectedBefore p)),
           (''expectedAfter'', tag_projection_json (pln_expectedAfter p)),
           (''risk'', JStr (pln_risk p)),
           (''requiresHumanApproval'', JBool (pln_requiresHumanApproval p))]"

definition approval_request_payload :: "ApprovalRequestV1 \<Rightarrow> json" where
  "approval_request_payload r =
     JObj [(''schemaVersion'', JStr (apr_schemaVersion r)), (''dossierDigest'', JStr (apr_dossierDigest r)),
           (''planDigest'', JStr (apr_planDigest r)),
           (''actionCatalogDigest'', JStr (apr_actionCatalogDigest r)),
           (''expectedBeforeDigest'', JStr (apr_expectedBeforeDigest r)),
           (''requestedAt'', JStr (apr_requestedAt r)), (''expiresAt'', JStr (apr_expiresAt r)),
           (''nonce'', JStr (apr_nonce r))]"

definition approver_json :: "AuthenticatedApprover \<Rightarrow> json" where
  "approver_json a =
     JObj [(''subject'', JStr (au_subject a)), (''issuer'', JStr (au_issuer a)),
           (''roles'', strings_json (au_roles a)), (''authenticated'', JBool (au_authenticated a))]"

fun decision_name :: "Decision \<Rightarrow> string" where
  "decision_name APPROVE = ''APPROVE''"
| "decision_name REJECT = ''REJECT''"

definition approval_decision_payload :: "ApprovalDecisionV1 \<Rightarrow> json" where
  "approval_decision_payload d =
     JObj [(''schemaVersion'', JStr (dec_schemaVersion d)), (''approvalId'', JStr (dec_approvalId d)),
           (''requestDigest'', JStr (dec_requestDigest d)), (''planDigest'', JStr (dec_planDigest d)),
           (''decision'', JStr (decision_name (dec_decision d))),
           (''approver'', approver_json (dec_approver d)), (''decidedAt'', JStr (dec_decidedAt d))]"

fun outcome_name :: "ExecutionOutcome \<Rightarrow> string" where
  "outcome_name VERIFIED = ''VERIFIED''"
| "outcome_name REJECTED = ''REJECTED''"
| "outcome_name EXPIRED = ''EXPIRED''"
| "outcome_name STALE = ''STALE''"
| "outcome_name MUTATION_FAILED = ''MUTATION_FAILED''"
| "outcome_name INDETERMINATE = ''INDETERMINATE''"
| "outcome_name VERIFICATION_FAILED = ''VERIFICATION_FAILED''"

fun check_name :: "CheckId \<Rightarrow> string" where
  "check_name TARGET_UNCHANGED = ''TARGET_UNCHANGED''"
| "check_name PREEXISTING_TAGS_PRESERVED = ''PREEXISTING_TAGS_PRESERVED''"
| "check_name POLICY_TAG_PRESENT = ''POLICY_TAG_PRESENT''"
| "check_name NO_UNEXPECTED_TAGS = ''NO_UNEXPECTED_TAGS''"
| "check_name APPROVAL_BINDING_VALID = ''APPROVAL_BINDING_VALID''"

definition check_json :: "VerificationCheck \<Rightarrow> json" where
  "check_json c =
     JObj [(''checkId'', JStr (check_name (chk_checkId c))), (''passed'', JBool (chk_passed c)),
           (''evidence'', JStr (chk_evidence c))]"

definition ack_json :: "MutationAck \<Rightarrow> json" where
  "ack_json a =
     JObj [(''requestDigest'', JStr (ack_requestDigest a)), (''responseDigest'', JStr (ack_responseDigest a))]"

fun event_kind_name :: "EventKind \<Rightarrow> string" where
  "event_kind_name DOSSIER_BOUND = ''DOSSIER_BOUND''"
| "event_kind_name PLAN_BOUND = ''PLAN_BOUND''"
| "event_kind_name APPROVAL_BOUND = ''APPROVAL_BOUND''"
| "event_kind_name PRECONDITION_CHECKED = ''PRECONDITION_CHECKED''"
| "event_kind_name MUTATION_INVOKED = ''MUTATION_INVOKED''"
| "event_kind_name POSTCONDITION_CHECKED = ''POSTCONDITION_CHECKED''"
| "event_kind_name ROLLBACK_ANCHORED = ''ROLLBACK_ANCHORED''"

fun availability_name :: "Availability \<Rightarrow> string" where
  "availability_name ELIGIBLE = ''ELIGIBLE''"
| "availability_name BLOCKED = ''BLOCKED''"
| "availability_name NOT_APPLICABLE = ''NOT_APPLICABLE''"

definition anchor_json :: "RollbackAnchor \<Rightarrow> json" where
  "anchor_json a =
     JObj ([(''availability'', JStr (availability_name (ra_availability a)))]
           @ opt_field ''inverseActionDigest'' JStr (ra_inverseActionDigest a)
           @ opt_field ''restoreStateDigest'' JStr (ra_restoreStateDigest a)
           @ opt_field ''reason'' JStr (ra_reason a))"

definition event_payload_json :: "nat \<Rightarrow> EventKind \<Rightarrow> string \<Rightarrow> string \<Rightarrow> string \<Rightarrow> json" where
  "event_payload_json n k occurred payload prev =
     JObj [(''sequence'', JNum (int n)), (''kind'', JStr (event_kind_name k)),
           (''occurredAt'', JStr occurred), (''payloadDigest'', JStr payload),
           (''previousHash'', JStr prev)]"

definition event_json :: "ReceiptEvent \<Rightarrow> json" where
  "event_json e =
     JObj [(''sequence'', JNum (int (ev_sequence e))), (''kind'', JStr (event_kind_name (ev_kind e))),
           (''occurredAt'', JStr (ev_occurredAt e)), (''payloadDigest'', JStr (ev_payloadDigest e)),
           (''previousHash'', JStr (ev_previousHash e)), (''eventHash'', JStr (ev_eventHash e))]"

definition receipt_payload :: "ExecutionReceiptV1 \<Rightarrow> json" where
  "receipt_payload r =
     JObj ([(''schemaVersion'', JStr (rcp_schemaVersion r)), (''executionId'', JStr (rcp_executionId r)),
            (''outcome'', JStr (outcome_name (rcp_outcome r))),
            (''dossierDigest'', JStr (rcp_dossierDigest r)), (''planDigest'', JStr (rcp_planDigest r))]
           @ opt_field ''approvalDecisionDigest'' JStr (rcp_approvalDecisionDigest r)
           @ [(''action'', action_json (rcp_action r)), (''idempotencyKey'', JStr (rcp_idempotencyKey r))]
           @ opt_field ''before'' tag_projection_json (rcp_before r)
           @ opt_field ''after'' tag_projection_json (rcp_after r)
           @ opt_field ''mutation'' ack_json (rcp_mutation r)
           @ [(''checks'', JArr (map check_json (rcp_checks r))), (''rollback'', anchor_json (rcp_rollback r)),
              (''events'', JArr (map event_json (rcp_events r))),
              (''startedAt'', JStr (rcp_startedAt r)), (''completedAt'', JStr (rcp_completedAt r))])"

definition rollback_proposal_payload :: "RollbackProposalV1 \<Rightarrow> json" where
  "rollback_proposal_payload p =
     JObj [(''schemaVersion'', JStr (rbp_schemaVersion p)),
           (''originalReceiptDigest'', JStr (rbp_originalReceiptDigest p)),
           (''expectedCurrentDigest'', JStr (rbp_expectedCurrentDigest p)),
           (''restoreStateDigest'', JStr (rbp_restoreStateDigest p)),
           (''inverseAction'', inverse_json (rbp_inverseAction p)),
           (''requiresFreshApproval'', JBool (rbp_requiresFreshApproval p))]"

definition rollback_approval_payload :: "RollbackApprovalV1 \<Rightarrow> json" where
  "rollback_approval_payload a =
     JObj [(''schemaVersion'', JStr (rba_schemaVersion a)), (''proposalDigest'', JStr (rba_proposalDigest a)),
           (''decision'', JStr (decision_name (rba_decision a))),
           (''approver'', approver_json (rba_approver a)), (''decidedAt'', JStr (rba_decidedAt a))]"

fun rollback_outcome_name :: "RollbackOutcome \<Rightarrow> string" where
  "rollback_outcome_name RB_VERIFIED = ''VERIFIED''"
| "rollback_outcome_name RB_REJECTED = ''REJECTED''"
| "rollback_outcome_name RB_STALE = ''STALE''"
| "rollback_outcome_name RB_INDETERMINATE = ''INDETERMINATE''"
| "rollback_outcome_name RB_VERIFICATION_FAILED = ''VERIFICATION_FAILED''"

definition rollback_receipt_payload :: "RollbackReceiptV1 \<Rightarrow> json" where
  "rollback_receipt_payload r =
     JObj ([(''schemaVersion'', JStr (rbr_schemaVersion r)), (''rollbackId'', JStr (rbr_rollbackId r)),
            (''proposalDigest'', JStr (rbr_proposalDigest r)), (''approvalDigest'', JStr (rbr_approvalDigest r)),
            (''originalReceiptDigest'', JStr (rbr_originalReceiptDigest r)),
            (''startedAt'', JStr (rbr_startedAt r)),
            (''outcome'', JStr (rollback_outcome_name (rbr_outcome r)))]
           @ opt_field ''before'' tag_projection_json (rbr_before r)
           @ opt_field ''after'' tag_projection_json (rbr_after r)
           @ opt_field ''mutation'' ack_json (rbr_mutation r)
           @ [(''completedAt'', JStr (rbr_completedAt r))])"

definition request_json :: "TagRequest \<Rightarrow> json" where
  "request_json q =
     JObj [(''tagUrns'', strings_json (rq_tagUrns q)), (''entityUrns'', strings_json (rq_entityUrns q)),
           (''columnPaths'', strings_json (rq_columnPaths q))]"

subsection \<open>Encodings lose nothing\<close>

text \<open>Two objects with the same fixed keys have equal canonical forms only if they agree field by field.\<close>

lemma canon_same_keys:
  assumes "canon (JObj kvs) = canon (JObj kws)" "map fst kvs = map fst kws"
    and "distinct (map fst kvs)" "''__proto__'' \<notin> set (map fst kvs)"
  shows "map (\<lambda>kv. canon (snd kv)) kvs = map (\<lambda>kv. canon (snd kv)) kws"
proof (rule nth_equalityI)
  show len: "length (map (\<lambda>kv. canon (snd kv)) kvs) = length (map (\<lambda>kv. canon (snd kv)) kws)"
    using assms(2) map_eq_imp_length_eq by force
  fix i
  assume "i < length (map (\<lambda>kv. canon (snd kv)) kvs)"
  then have i: "i < length kvs" "i < length kws" using len by simp_all
  let ?k = "fst (kvs ! i)"
  have k: "?k = fst (kws ! i)" using assms(2) i by (metis nth_map)
  have "map_of kvs ?k = Some (snd (kvs ! i))"
    using assms(3) i(1) by (simp add: map_of_eq_Some_iff)
  moreover have "map_of kws ?k = Some (snd (kws ! i))"
    using assms(2,3) i(2) k by (simp add: map_of_eq_Some_iff)
  moreover have "?k \<noteq> ''__proto__''" using assms(4) i(1) by (metis length_map nth_map nth_mem)
  ultimately show "map (\<lambda>kv. canon (snd kv)) kvs ! i = map (\<lambda>kv. canon (snd kv)) kws ! i"
    using canon_obj_lookup [OF assms(1) assms(3), of ?k] assms(2,3) i by simp
qed

lemma canon_JStr [simp]: "canon \<circ> JStr = JStr"
  by auto

lemma canon_map_inj:
  assumes "map (canon \<circ> f) xs = map (canon \<circ> f) ys"
    and "\<And>x y. canon (f x) = canon (f y) \<Longrightarrow> x = y"
  shows "xs = ys"
proof -
  have "inj (canon \<circ> f)" using assms(2) by (simp add: inj_def)
  with assms(1) show ?thesis by (simp add: inj_map_eq_map)
qed

lemma map_of_opt_field:
  "map_of (opt_field k f v) k' = (if k = k' then map_option f v else None)"
  by (cases v) (auto simp: opt_field_def)

lemma fst_opt_field: "map fst (opt_field k f v) = (case v of None \<Rightarrow> [] | Some a \<Rightarrow> [k])"
  by (cases v) (auto simp: opt_field_def)

declare canon.simps(2) [simp del]

lemma tag_projection_payload_inj:
  "canon (tag_projection_payload e c ts) = canon (tag_projection_payload e' c' ts')
   \<Longrightarrow> e = e' \<and> c = c' \<and> ts = ts'"
  unfolding tag_projection_payload_def by (drule canon_same_keys) auto

lemma tag_projection_inj: "canon (tag_projection_json p) = canon (tag_projection_json q) \<Longrightarrow> p = q"
  unfolding tag_projection_json_def by (drule canon_same_keys) (auto intro: TagProjection.equality)

lemma finding_inj: "canon (finding_json f) = canon (finding_json g) \<Longrightarrow> f = g"
  unfolding finding_json_def by (drule canon_same_keys) (auto intro: G6FindingEvidence.equality)

lemma target_inj: "canon (target_json f) = canon (target_json g) \<Longrightarrow> f = g"
  unfolding target_json_def by (drule canon_same_keys) (auto intro: RemediationTarget.equality)

lemma blast_radius_inj: "canon (blast_radius_json f) = canon (blast_radius_json g) \<Longrightarrow> f = g"
  unfolding blast_radius_json_def by (drule canon_same_keys) (auto intro: BlastRadius.equality)

lemma arguments_inj: "canon (arguments_json f) = canon (arguments_json g) \<Longrightarrow> f = g"
  unfolding arguments_json_def by (drule canon_same_keys) (auto intro: TagMutationArguments.equality)

lemma request_inj: "canon (request_json f) = canon (request_json g) \<Longrightarrow> f = g"
  unfolding request_json_def by (drule canon_same_keys) (auto intro: TagRequest.equality)

lemma inverse_inj: "canon (inverse_json f) = canon (inverse_json g) \<Longrightarrow> f = g"
  unfolding inverse_json_def
  by (drule canon_same_keys) (auto intro!: InverseAction.equality dest: arguments_inj)

lemma action_inj: "canon (action_json f) = canon (action_json g) \<Longrightarrow> f = g"
  unfolding action_json_def
  by (drule canon_same_keys)
    (auto intro!: AddClassificationTagActionV1.equality dest: arguments_inj inverse_inj)

lemma provenance_inj:
  assumes "canon (provenance_json p) = canon (provenance_json q)"
  shows "p = q"
proof -
  let ?kvs = "\<lambda>p. [(''sourceKind'', JStr (pv_sourceKind p)), (''entityUrn'', JStr (pv_entityUrn p)),
            (''aspect'', JStr (pv_aspect p))]
           @ opt_field ''aspectVersion'' JNum (pv_aspectVersion p)
           @ opt_field ''pipelineName'' JStr (pv_pipelineName p)
           @ opt_field ''runId'' JStr (pv_runId p)
           @ [(''observedAt'', JStr (pv_observedAt p)), (''valueDigest'', JStr (pv_valueDigest p))]"
  have d: "distinct (map fst (?kvs p))" for p
    by (simp add: opt_field_def split: option.split)
  have eq: "map_option canon (map_of (?kvs p) k) = map_option canon (map_of (?kvs q) k)"
    if "k \<noteq> ''__proto__''" for k
    using assms that canon_obj_lookup [OF _ d d] unfolding provenance_json_def by blast
  have opt: "map_option canon (map_option f a) = map_option canon (map_option f b) \<Longrightarrow> a = b"
    if "\<And>x y. canon (f x) = canon (f y) \<Longrightarrow> x = y" for f :: "'z \<Rightarrow> json" and a b
    using that by (cases a; cases b) auto
  have "map_option canon (map_option JNum (pv_aspectVersion p))
      = map_option canon (map_option JNum (pv_aspectVersion q))"
    using eq [of "''aspectVersion''"]
    by (cases "pv_aspectVersion p"; cases "pv_aspectVersion q") (simp_all add: map_of_opt_field map_add_def)
  then have "pv_aspectVersion p = pv_aspectVersion q" by (rule opt [rotated]) simp
  moreover have "map_option canon (map_option JStr (pv_pipelineName p))
      = map_option canon (map_option JStr (pv_pipelineName q))"
    using eq [of "''pipelineName''"]
    by (cases "pv_pipelineName p"; cases "pv_pipelineName q") (simp_all add: map_of_opt_field map_add_def)
  then have "pv_pipelineName p = pv_pipelineName q" by (rule opt [rotated]) simp
  moreover have "map_option canon (map_option JStr (pv_runId p))
      = map_option canon (map_option JStr (pv_runId q))"
    using eq [of "''runId''"]
    by (cases "pv_runId p"; cases "pv_runId q") (simp_all add: map_of_opt_field map_add_def)
  then have "pv_runId p = pv_runId q" by (rule opt [rotated]) simp
  moreover have "pv_sourceKind p = pv_sourceKind q" using eq [of "''sourceKind''"] by simp
  moreover have "pv_entityUrn p = pv_entityUrn q" using eq [of "''entityUrn''"] by simp
  moreover have "pv_aspect p = pv_aspect q" using eq [of "''aspect''"] by simp
  moreover have "pv_observedAt p = pv_observedAt q"
    using eq [of "''observedAt''"] by (simp add: map_of_opt_field map_add_def)
  moreover have "pv_valueDigest p = pv_valueDigest q"
    using eq [of "''valueDigest''"] by (simp add: map_of_opt_field map_add_def)
  ultimately show ?thesis by (simp add: ProvenanceEvidence.equality)
qed

lemma dossier_payload_inj:
  "canon (dossier_payload d) = canon (dossier_payload e) \<Longrightarrow>
   d\<lparr>dos_dossierId := i, dos_digest := x\<rparr> = e\<lparr>dos_dossierId := i, dos_digest := x\<rparr>"
  unfolding dossier_payload_def
  by (drule canon_same_keys)
    (auto intro!: EvidenceDossierV1.equality dest: finding_inj target_inj blast_radius_inj
      tag_projection_inj canon_map_inj [OF _ provenance_inj])

lemma plan_payload_inj:
  "canon (plan_payload p) = canon (plan_payload q) \<Longrightarrow>
   p\<lparr>pln_planId := i, pln_digest := x\<rparr> = q\<lparr>pln_planId := i, pln_digest := x\<rparr>"
  unfolding plan_payload_def
  by (drule canon_same_keys)
    (auto intro!: RemediationPlanV1.equality dest: action_inj tag_projection_inj)

lemma approval_request_payload_inj:
  "canon (approval_request_payload p) = canon (approval_request_payload q) \<Longrightarrow>
   p\<lparr>apr_approvalId := i, apr_digest := x\<rparr> = q\<lparr>apr_approvalId := i, apr_digest := x\<rparr>"
  unfolding approval_request_payload_def
  by (drule canon_same_keys) (auto intro!: ApprovalRequestV1.equality)

lemma approver_inj: "canon (approver_json f) = canon (approver_json g) \<Longrightarrow> f = g"
  unfolding approver_json_def by (drule canon_same_keys) (auto intro: AuthenticatedApprover.equality)

lemma decision_name_inj [simp]: "decision_name d = decision_name e \<longleftrightarrow> d = e"
  by (cases d; cases e) auto

lemma approval_decision_payload_inj:
  "canon (approval_decision_payload p) = canon (approval_decision_payload q) \<Longrightarrow>
   p\<lparr>dec_digest := x\<rparr> = q\<lparr>dec_digest := x\<rparr>"
  unfolding approval_decision_payload_def
  by (drule canon_same_keys) (auto intro!: ApprovalDecisionV1.equality dest: approver_inj)

lemma rollback_proposal_payload_inj:
  "canon (rollback_proposal_payload p) = canon (rollback_proposal_payload q) \<Longrightarrow>
   p\<lparr>rbp_rollbackId := i, rbp_digest := x\<rparr> = q\<lparr>rbp_rollbackId := i, rbp_digest := x\<rparr>"
  unfolding rollback_proposal_payload_def
  by (drule canon_same_keys) (auto intro!: RollbackProposalV1.equality dest: inverse_inj)

end
