(* ===== verification/Planner.thy ===== *)
theory Planner
  imports Contracts
begin

section \<open>Planning one G6 remediation: \<open>src/remediation/planner.ts\<close>\<close>

text \<open>
  From one G6 finding (a sensitive column without a classification tag), a verified pre-state and a
  trusted policy, the planner seals an evidence dossier and a plan whose one action adds the policy's
  tag to that column, or declines with a reason. The verifiers recompute every digest.
\<close>

definition ACTION_CATALOG_V1 :: json where
  "ACTION_CATALOG_V1 =
     JObj [(''schemaVersion'', JStr ''archon.action-catalog/v1''),
           (''actions'', JArr [JObj
              [(''actionId'', JStr ''datahub.add-classification-tag.v1''), (''findingRule'', JStr ''G6''),
               (''tool'', JStr ''add_tags''), (''rollbackTool'', JStr ''remove_tags''),
               (''maxEntities'', JNum 1), (''maxColumns'', JNum 1), (''maxTags'', JNum 1),
               (''entitySource'', JStr ''DATAHUB_EVIDENCE''), (''columnSource'', JStr ''DATAHUB_EVIDENCE''),
               (''tagSource'', JStr ''TRUSTED_POLICY'')]])]"

definition ACTION_CATALOG_DIGEST :: "js_env \<Rightarrow> string" where
  "ACTION_CATALOG_DIGEST E = digest E ACTION_CATALOG_V1"

definition uniqueSorted :: "js_env \<Rightarrow> string list \<Rightarrow> string list" where
  "uniqueSorted E values = js_sort (localeCompare E) (dedupe values)"

definition isNonEmptyString :: "string \<Rightarrow> bool" where
  "isNonEmptyString s \<longleftrightarrow> trim s \<noteq> []"

subsection \<open>The finding, read from untrusted data\<close>

fun strs_of :: "json list \<Rightarrow> string list option" where
  "strs_of [] = Some []"
| "strs_of (JStr s # vs) = map_option (\<lambda>ss. s # ss) (strs_of vs)"
| "strs_of _ = None"

fun str_array_of :: "json option \<Rightarrow> string list option" where
  "str_array_of (Some (JArr vs)) = strs_of vs"
| "str_array_of _ = None"

definition isG6Finding :: "json \<Rightarrow> bool" where
  "isG6Finding value \<longleftrightarrow>
     str_of (obj_get value ''type'') = Some ''governance_violation''
     \<and> str_of (obj_get value ''ruleId'') = Some ''G6''
     \<and> (case str_of (obj_get value ''subject'') of None \<Rightarrow> False | Some s \<Rightarrow> isNonEmptyString s)
     \<and> str_of (obj_get value ''severity'') \<in> {Some ''low'', Some ''medium'', Some ''high''}
     \<and> (case str_array_of (obj_get value ''unclassifiedFields'') of
          None \<Rightarrow> False | Some fs \<Rightarrow> list_all isNonEmptyString fs)"

definition sanitizeFinding :: "js_env \<Rightarrow> json \<Rightarrow> G6FindingEvidence" where
  "sanitizeFinding E finding =
     \<lparr>g6_type = ''governance_violation'',
      g6_severity = or_else (str_of (obj_get finding ''severity'')) [],
      g6_subject = or_else (str_of (obj_get finding ''subject'')) [],
      g6_ruleId = ''G6'',
      g6_unclassifiedFields =
        uniqueSorted E (or_else (str_array_of (obj_get finding ''unclassifiedFields'')) [])\<rparr>"

subsection \<open>Tag projections and the trusted policy\<close>

definition seal_projection :: "js_env \<Rightarrow> string \<Rightarrow> string \<Rightarrow> string list \<Rightarrow> TagProjection" where
  "seal_projection E e c ts =
     \<lparr>tp_entityUrn = e, tp_columnPath = c, tp_tags = ts,
      tp_digest = digest E (tag_projection_payload e c ts)\<rparr>"

definition createTagProjection ::
  "js_env \<Rightarrow> string \<Rightarrow> string \<Rightarrow> string list \<Rightarrow> string + TagProjection" where
  "createTagProjection E entityUrn columnPath tags =
     (if \<not> isNonEmptyString entityUrn \<or> \<not> isNonEmptyString columnPath
      then Inl ''A tag projection requires a non-empty entity URN and column path.''
      else if \<not> list_all isNonEmptyString tags
      then Inl ''A tag projection can contain only non-empty tag identifiers.''
      else Inr (seal_projection E entityUrn columnPath (uniqueSorted E tags)))"

definition projection_payload :: "TagProjection \<Rightarrow> json" where
  "projection_payload p = tag_projection_payload (tp_entityUrn p) (tp_columnPath p) (tp_tags p)"

definition verifyTagProjection :: "js_env \<Rightarrow> TagProjection \<Rightarrow> bool" where
  "verifyTagProjection E p \<longleftrightarrow>
     isNonEmptyString (tp_entityUrn p) \<and> isNonEmptyString (tp_columnPath p)
     \<and> list_all isNonEmptyString (tp_tags p)
     \<and> tp_tags p = uniqueSorted E (tp_tags p)
     \<and> verifyDigest E (projection_payload p) (tp_digest p)"

text \<open>The pattern \<open>/^urn:li:tag:[^,\s]+$/u\<close>.\<close>

definition is_tag_urn :: "string \<Rightarrow> bool" where
  "is_tag_urn s \<longleftrightarrow> startsWith s ''urn:li:tag:'' \<and> drop 11 s \<noteq> []
     \<and> list_all (\<lambda>c. c \<noteq> CHR '','' \<and> \<not> is_ws c) (drop 11 s)"

definition createTrustedRemediationPolicy ::
  "js_env \<Rightarrow> string \<Rightarrow> bool \<Rightarrow> string \<Rightarrow> string list option \<Rightarrow> string + TrustedRemediationPolicyV1" where
  "createTrustedRemediationPolicy E policyId enabled tag allowed =
     (if \<not> isNonEmptyString policyId then Inl ''A trusted policy requires a policyId.''
      else if \<not> is_tag_urn tag then Inl ''The classification tag must be a DataHub tag URN.''
      else let prefixes = uniqueSorted E (or_else allowed []) in
        if \<not> list_all isNonEmptyString prefixes
        then Inl ''Entity allowlist prefixes must be non-empty.''
        else let unsigned = \<lparr>pol_schemaVersion = ''archon.remediation-policy/v1'',
                             pol_policyId = policyId, pol_enabled = enabled,
                             pol_classificationTagUrn = tag,
                             pol_allowedEntityUrnPrefixes = prefixes, pol_digest = []\<rparr>
             in Inr (unsigned\<lparr>pol_digest := digest E (policy_payload unsigned)\<rparr>))"

definition verifyTrustedRemediationPolicy :: "js_env \<Rightarrow> TrustedRemediationPolicyV1 \<Rightarrow> bool" where
  "verifyTrustedRemediationPolicy E p \<longleftrightarrow>
     pol_schemaVersion p = ''archon.remediation-policy/v1''
     \<and> is_tag_urn (pol_classificationTagUrn p)
     \<and> pol_allowedEntityUrnPrefixes p = uniqueSorted E (pol_allowedEntityUrnPrefixes p)
     \<and> verifyDigest E (policy_payload p) (pol_digest p)"

subsection \<open>Normalised context\<close>

text \<open>A chain of comparisons joined by \<open>||\<close>: the first that is not zero decides.\<close>

fun cmp_chain :: "int list \<Rightarrow> int" where
  "cmp_chain [] = 0"
| "cmp_chain (c # cs) = (if c \<noteq> 0 then c else cmp_chain cs)"

definition normalizedProvenance :: "js_env \<Rightarrow> ProvenanceEvidence list \<Rightarrow> ProvenanceEvidence list" where
  "normalizedProvenance E values =
     js_sort (\<lambda>a b. cmp_chain
         [localeCompare E (pv_entityUrn a) (pv_entityUrn b),
          localeCompare E (pv_observedAt a) (pv_observedAt b),
          localeCompare E (or_else (pv_pipelineName a) []) (or_else (pv_pipelineName b) []),
          localeCompare E (or_else (pv_runId a) []) (or_else (pv_runId b) [])])
       (map (\<lambda>v. v\<lparr>pv_aspect := ''schemaMetadata''\<rparr>) values)"

record PartialBlastRadius =
  pbr_downstreamUrns :: "string list option"
  pbr_truncated :: "bool option"

definition normalizedBlastRadius :: "js_env \<Rightarrow> PartialBlastRadius option \<Rightarrow> BlastRadius" where
  "normalizedBlastRadius E value =
     \<lparr>br_downstreamUrns = uniqueSorted E (or_else (Option.bind value pbr_downstreamUrns) []),
      br_maxHops = 3,
      br_truncated = (Option.bind value pbr_truncated = Some True)\<rparr>"

subsection \<open>Verifiers\<close>

definition verifyEvidenceDossier :: "js_env \<Rightarrow> EvidenceDossierV1 \<Rightarrow> bool" where
  "verifyEvidenceDossier E d \<longleftrightarrow>
     (let expected = digest E (dossier_payload d) in
      dos_schemaVersion d = ''archon.evidence-dossier/v1''
      \<and> dos_dossierId d = ''dossier-'' @ short_digest expected
      \<and> dos_digest d = expected
      \<and> dos_findingDigest d = digest E (finding_json (dos_finding d))
      \<and> g6_type (dos_finding d) = ''governance_violation''
      \<and> g6_ruleId (dos_finding d) = ''G6''
      \<and> g6_subject (dos_finding d) = tg_entityUrn (dos_target d)
      \<and> tg_columnPath (dos_target d) \<in> set (g6_unclassifiedFields (dos_finding d))
      \<and> verifyTagProjection E (dos_before d)
      \<and> tp_entityUrn (dos_before d) = tg_entityUrn (dos_target d)
      \<and> tp_columnPath (dos_before d) = tg_columnPath (dos_target d))"

text \<open>\<open>xs[0]\<close>; \<open>None\<close> is \<open>undefined\<close>.\<close>

fun first :: "'a list \<Rightarrow> 'a option" where
  "first [] = None"
| "first (x # xs) = Some x"

definition verifyRemediationPlan :: "js_env \<Rightarrow> RemediationPlanV1 \<Rightarrow> bool" where
  "verifyRemediationPlan E p \<longleftrightarrow>
     (let expected = digest E (plan_payload p); act = pln_action p; args = act_arguments act;
          expectedAfterTags = map_option (\<lambda>t. uniqueSorted E (tp_tags (pln_expectedBefore p) @ [t]))
            (first (arg_tag_urns args)) in
      pln_schemaVersion p = ''archon.remediation-plan/v1''
      \<and> pln_planId p = ''plan-'' @ short_digest expected
      \<and> pln_digest p = expected
      \<and> pln_actionCatalogDigest p = ACTION_CATALOG_DIGEST E
      \<and> pln_requiresHumanApproval p
      \<and> pln_risk p = ''low''
      \<and> verifyDigest E (action_payload act) (act_digest act)
      \<and> act_actionId act = ''datahub.add-classification-tag.v1''
      \<and> act_tool act = ''add_tags''
      \<and> inv_tool (act_inverse act) = ''remove_tags''
      \<and> args = inv_arguments (act_inverse act)
      \<and> verifyTagProjection E (pln_expectedBefore p)
      \<and> verifyTagProjection E (pln_expectedAfter p)
      \<and> Some (tp_entityUrn (pln_expectedBefore p)) = first (arg_entity_urns args)
      \<and> Some (tp_columnPath (pln_expectedBefore p)) = first (arg_column_paths args)
      \<and> tp_entityUrn (pln_expectedAfter p) = tp_entityUrn (pln_expectedBefore p)
      \<and> tp_columnPath (pln_expectedAfter p) = tp_columnPath (pln_expectedBefore p)
      \<and> Some (tp_tags (pln_expectedAfter p)) = expectedAfterTags)"

subsection \<open>\<open>planG6Remediation\<close>\<close>

record PlanG6RemediationInput =
  pin_scanId :: string
  pin_finding :: json
  pin_columnPath :: string
  pin_before :: TagProjection
  pin_policy :: TrustedRemediationPolicyV1
  pin_observedAt :: string
  pin_provenance :: "ProvenanceEvidence list option"
  pin_blastRadius :: "PartialBlastRadius option"

definition seal_dossier :: "js_env \<Rightarrow> PlanG6RemediationInput \<Rightarrow> G6FindingEvidence \<Rightarrow> EvidenceDossierV1" where
  "seal_dossier E i finding =
     (let unsigned = \<lparr>dos_schemaVersion = ''archon.evidence-dossier/v1'', dos_dossierId = [],
            dos_scanId = pin_scanId i, dos_findingDigest = digest E (finding_json finding),
            dos_finding = finding,
            dos_target = \<lparr>tg_entityUrn = g6_subject finding, tg_columnPath = pin_columnPath i\<rparr>,
            dos_provenance = normalizedProvenance E (or_else (pin_provenance i) []),
            dos_blastRadius = normalizedBlastRadius E (pin_blastRadius i),
            dos_before = pin_before i, dos_policyDigest = pol_digest (pin_policy i),
            dos_createdAt = pin_observedAt i, dos_digest = []\<rparr>;
          dossierDigest = digest E (dossier_payload unsigned)
      in unsigned\<lparr>dos_dossierId := ''dossier-'' @ short_digest dossierDigest, dos_digest := dossierDigest\<rparr>)"

definition seal_action :: "js_env \<Rightarrow> TagMutationArguments \<Rightarrow> AddClassificationTagActionV1" where
  "seal_action E args =
     (let unsigned = \<lparr>act_actionId = ''datahub.add-classification-tag.v1'', act_tool = ''add_tags'',
            act_arguments = args,
            act_inverse = \<lparr>inv_tool = ''remove_tags'', inv_arguments = args\<rparr>, act_digest = []\<rparr>
      in unsigned\<lparr>act_digest := digest E (action_payload unsigned)\<rparr>)"

definition seal_plan :: "js_env \<Rightarrow> EvidenceDossierV1 \<Rightarrow> string \<Rightarrow> AddClassificationTagActionV1 \<Rightarrow>
    TagProjection \<Rightarrow> TagProjection \<Rightarrow> RemediationPlanV1" where
  "seal_plan E dossier policyDigest act before after =
     (let unsigned = \<lparr>pln_schemaVersion = ''archon.remediation-plan/v1'', pln_planId = [],
            pln_dossierDigest = dos_digest dossier, pln_policyDigest = policyDigest,
            pln_actionCatalogDigest = ACTION_CATALOG_DIGEST E, pln_action = act,
            pln_expectedBefore = before, pln_expectedAfter = after, pln_risk = ''low'',
            pln_requiresHumanApproval = True, pln_digest = []\<rparr>;
          planDigest = digest E (plan_payload unsigned)
      in unsigned\<lparr>pln_planId := ''plan-'' @ short_digest planDigest, pln_digest := planDigest\<rparr>)"

definition planG6Remediation :: "js_env \<Rightarrow> PlanG6RemediationInput \<Rightarrow> string + PlanningResult" where
  "planG6Remediation E i =
     (if \<not> isG6Finding (pin_finding i) then Inr (MANUAL_ONLY UNSUPPORTED_FINDING)
      else if \<not> verifyTrustedRemediationPolicy E (pin_policy i) \<or> \<not> pol_enabled (pin_policy i)
      then Inr (MANUAL_ONLY POLICY_NOT_APPLICABLE)
      else if \<not> verifyTagProjection E (pin_before i) then Inr (MANUAL_ONLY AMBIGUOUS_EVIDENCE)
      else let finding = sanitizeFinding E (pin_finding i); policy = pin_policy i; before = pin_before i in
      if \<not> isNonEmptyString (pin_scanId i) \<or> \<not> isNonEmptyString (pin_observedAt i)
         \<or> \<not> isNonEmptyString (pin_columnPath i)
         \<or> g6_subject finding \<noteq> tp_entityUrn before
         \<or> pin_columnPath i \<noteq> tp_columnPath before
         \<or> pin_columnPath i \<notin> set (g6_unclassifiedFields finding)
      then Inr (MANUAL_ONLY NO_TRUSTED_TARGET)
      else if pol_allowedEntityUrnPrefixes policy \<noteq> []
         \<and> \<not> list_ex (startsWith (g6_subject finding)) (pol_allowedEntityUrnPrefixes policy)
      then Inr (MANUAL_ONLY POLICY_NOT_APPLICABLE)
      else if pol_classificationTagUrn policy \<in> set (tp_tags before)
      then Inr (MANUAL_ONLY TAG_ALREADY_PRESENT)
      else let dossier = seal_dossier E i finding;
               act = seal_action E \<lparr>arg_tag_urns = [pol_classificationTagUrn policy],
                 arg_entity_urns = [g6_subject finding], arg_column_paths = [pin_columnPath i]\<rparr>
        in map_result
             (\<lambda>expectedAfter. ACTIONABLE dossier
                (seal_plan E dossier (pol_digest policy) act before expectedAfter))
             (createTagProjection E (tp_entityUrn before) (tp_columnPath before)
                (tp_tags before @ [pol_classificationTagUrn policy])))"

subsection \<open>Unique sorted lists\<close>

lemma set_uniqueSorted [simp]: "set (uniqueSorted E xs) = set xs"
  by (simp add: uniqueSorted_def)

lemma distinct_uniqueSorted [simp]: "distinct (uniqueSorted E xs)"
  by (simp add: uniqueSorted_def)

lemma uniqueSorted_Nil [simp]: "uniqueSorted E [] = []"
  by (simp add: uniqueSorted_def dedupe_def)

lemma uniqueSorted_idem:
  "consistent_collation E \<Longrightarrow> uniqueSorted E (uniqueSorted E xs) = uniqueSorted E xs"
  unfolding consistent_collation_def uniqueSorted_def
  by (simp add: comparator.js_sort_idem)

lemma list_all_uniqueSorted [simp]: "list_all P (uniqueSorted E xs) \<longleftrightarrow> list_all P xs"
  by (simp add: list_all_iff)

subsection \<open>Sealed artifacts verify\<close>

lemma tag_urn_nonempty: "is_tag_urn s \<Longrightarrow> isNonEmptyString s"
proof -
  assume "is_tag_urn s"
  then have "CHR ''u'' \<in> set s" by (auto simp: is_tag_urn_def startsWith_iff prefix_def)
  moreover have "\<not> is_ws (CHR ''u'')" by (simp add: is_ws_def)
  ultimately show ?thesis by (auto simp: isNonEmptyString_def trim_nonempty)
qed

lemma seal_projection_simps [simp]:
  "tp_entityUrn (seal_projection E e c ts) = e" "tp_columnPath (seal_projection E e c ts) = c"
  "tp_tags (seal_projection E e c ts) = ts"
  "tp_digest (seal_projection E e c ts) = digest E (tag_projection_payload e c ts)"
  by (simp_all add: seal_projection_def)

lemma verifyTagProjection_iff:
  assumes "hex_sha256 E" and "consistent_collation E"
  shows "verifyTagProjection E p \<longleftrightarrow>
    (\<exists>tags. createTagProjection E (tp_entityUrn p) (tp_columnPath p) tags = Inr p)"
proof
  assume v: "verifyTagProjection E p"
  then have "createTagProjection E (tp_entityUrn p) (tp_columnPath p) (tp_tags p) = Inr p"
    by (auto simp: verifyTagProjection_def createTagProjection_def seal_projection_def
        projection_payload_def dest!: verifyDigestD intro!: TagProjection.equality)
  then show "\<exists>tags. createTagProjection E (tp_entityUrn p) (tp_columnPath p) tags = Inr p" ..
next
  assume "\<exists>tags. createTagProjection E (tp_entityUrn p) (tp_columnPath p) tags = Inr p"
  then obtain tags where t: "list_all isNonEmptyString tags" "isNonEmptyString (tp_entityUrn p)"
      "isNonEmptyString (tp_columnPath p)"
    and p: "p = seal_projection E (tp_entityUrn p) (tp_columnPath p) (uniqueSorted E tags)"
    by (auto simp: createTagProjection_def split: if_splits)
  from t show "verifyTagProjection E p"
    by (subst p) (simp add: verifyTagProjection_def projection_payload_def assms uniqueSorted_idem)
qed

lemma createTagProjection_verifies:
  assumes "hex_sha256 E" "consistent_collation E" "createTagProjection E e c tags = Inr p"
  shows "verifyTagProjection E p \<and> tp_entityUrn p = e \<and> tp_columnPath p = c
    \<and> tp_tags p = uniqueSorted E tags"
proof -
  have f: "tp_entityUrn p = e" "tp_columnPath p = c" "tp_tags p = uniqueSorted E tags"
    using assms(3) by (auto simp: createTagProjection_def split: if_splits)
  with assms show ?thesis by (auto simp: verifyTagProjection_iff)
qed

lemma createTrustedRemediationPolicy_verifies:
  assumes "hex_sha256 E" "consistent_collation E"
    and "createTrustedRemediationPolicy E policyId enabled tag allowed = Inr p"
  shows "verifyTrustedRemediationPolicy E p"
proof -
  from assms show ?thesis
    by (auto simp: createTrustedRemediationPolicy_def verifyTrustedRemediationPolicy_def policy_payload_def
        uniqueSorted_idem Let_def split: if_splits)
qed

lemma sanitizeFinding_simps [simp]:
  "g6_type (sanitizeFinding E f) = ''governance_violation''"
  "g6_ruleId (sanitizeFinding E f) = ''G6''"
  by (simp_all add: sanitizeFinding_def)

lemma dossier_payload_ids [simp]:
  "dossier_payload (d\<lparr>dos_dossierId := i, dos_digest := x\<rparr>) = dossier_payload d"
  by (simp add: dossier_payload_def)

lemma action_payload_id [simp]: "action_payload (a\<lparr>act_digest := x\<rparr>) = action_payload a"
  by (simp add: action_payload_def)

lemma plan_payload_ids [simp]:
  "plan_payload (p\<lparr>pln_planId := i, pln_digest := x\<rparr>) = plan_payload p"
  by (simp add: plan_payload_def)

lemma seal_dossier_simps [simp]:
  "dos_schemaVersion (seal_dossier E i f) = ''archon.evidence-dossier/v1''"
  "dos_policyDigest (seal_dossier E i f) = pol_digest (pin_policy i)"
  "dos_target (seal_dossier E i f) = \<lparr>tg_entityUrn = g6_subject f, tg_columnPath = pin_columnPath i\<rparr>"
  "dos_finding (seal_dossier E i f) = f"
  "dos_findingDigest (seal_dossier E i f) = digest E (finding_json f)"
  "dos_before (seal_dossier E i f) = pin_before i"
  by (simp_all add: seal_dossier_def Let_def)

lemma seal_dossier_digest:
  "dos_digest (seal_dossier E i f) = digest E (dossier_payload (seal_dossier E i f))"
  "dos_dossierId (seal_dossier E i f)
     = ''dossier-'' @ short_digest (digest E (dossier_payload (seal_dossier E i f)))"
  by (simp_all add: seal_dossier_def Let_def dossier_payload_def)

lemma seal_dossier_verifies:
  assumes "g6_type f = ''governance_violation''" "g6_ruleId f = ''G6''"
    and "g6_subject f = tp_entityUrn (pin_before i)"
    and "pin_columnPath i = tp_columnPath (pin_before i)"
    and "pin_columnPath i \<in> set (g6_unclassifiedFields f)"
    and "verifyTagProjection E (pin_before i)"
  shows "verifyEvidenceDossier E (seal_dossier E i f)"
  using assms by (simp add: verifyEvidenceDossier_def seal_dossier_digest Let_def)

lemma seal_action_simps [simp]:
  "act_arguments (seal_action E args) = args"
  "act_inverse (seal_action E args) = \<lparr>inv_tool = ''remove_tags'', inv_arguments = args\<rparr>"
  "act_tool (seal_action E args) = ''add_tags''"
  "act_actionId (seal_action E args) = ''datahub.add-classification-tag.v1''"
  by (simp_all add: seal_action_def Let_def)

lemma seal_action_digest: "act_digest (seal_action E args) = digest E (action_payload (seal_action E args))"
  by (simp add: seal_action_def Let_def action_payload_def)

lemma seal_plan_simps [simp]:
  "pln_schemaVersion (seal_plan E d pd a b c) = ''archon.remediation-plan/v1''"
  "pln_dossierDigest (seal_plan E d pd a b c) = dos_digest d"
  "pln_policyDigest (seal_plan E d pd a b c) = pd"
  "pln_actionCatalogDigest (seal_plan E d pd a b c) = ACTION_CATALOG_DIGEST E"
  "pln_action (seal_plan E d pd a b c) = a"
  "pln_expectedBefore (seal_plan E d pd a b c) = b"
  "pln_expectedAfter (seal_plan E d pd a b c) = c"
  "pln_risk (seal_plan E d pd a b c) = ''low''"
  "pln_requiresHumanApproval (seal_plan E d pd a b c)"
  by (simp_all add: seal_plan_def Let_def)

lemma seal_plan_digest:
  "pln_digest (seal_plan E d pd a b c) = digest E (plan_payload (seal_plan E d pd a b c))"
  "pln_planId (seal_plan E d pd a b c)
     = ''plan-'' @ short_digest (digest E (plan_payload (seal_plan E d pd a b c)))"
  by (simp_all add: seal_plan_def Let_def plan_payload_def)

subsection \<open>Exactly when the planner offers an action\<close>

definition plannable :: "js_env \<Rightarrow> PlanG6RemediationInput \<Rightarrow> bool" where
  "plannable E i \<longleftrightarrow>
     (let f = sanitizeFinding E (pin_finding i); policy = pin_policy i; before = pin_before i in
      isG6Finding (pin_finding i)
      \<and> verifyTrustedRemediationPolicy E policy \<and> pol_enabled policy
      \<and> verifyTagProjection E before
      \<and> isNonEmptyString (pin_scanId i) \<and> isNonEmptyString (pin_observedAt i)
      \<and> g6_subject f = tp_entityUrn before \<and> pin_columnPath i = tp_columnPath before
      \<and> pin_columnPath i \<in> set (g6_unclassifiedFields f)
      \<and> (pol_allowedEntityUrnPrefixes policy = []
          \<or> list_ex (startsWith (tp_entityUrn before)) (pol_allowedEntityUrnPrefixes policy))
      \<and> pol_classificationTagUrn policy \<notin> set (tp_tags before))"

lemma verifyTagProjection_nonempty:
  "verifyTagProjection E p \<Longrightarrow> isNonEmptyString (tp_entityUrn p) \<and> isNonEmptyString (tp_columnPath p)
    \<and> list_all isNonEmptyString (tp_tags p)"
  by (simp add: verifyTagProjection_def)

lemma policy_tag: "verifyTrustedRemediationPolicy E p \<Longrightarrow> isNonEmptyString (pol_classificationTagUrn p)"
  by (simp add: verifyTrustedRemediationPolicy_def tag_urn_nonempty)

definition planned_after :: "js_env \<Rightarrow> PlanG6RemediationInput \<Rightarrow> TagProjection" where
  "planned_after E i =
     seal_projection E (tp_entityUrn (pin_before i)) (tp_columnPath (pin_before i))
       (uniqueSorted E (tp_tags (pin_before i) @ [pol_classificationTagUrn (pin_policy i)]))"

lemma planG6_actionable:
  assumes "plannable E i"
  defines "f \<equiv> sanitizeFinding E (pin_finding i)"
  shows "planG6Remediation E i = Inr (ACTIONABLE (seal_dossier E i f)
    (seal_plan E (seal_dossier E i f) (pol_digest (pin_policy i))
      (seal_action E \<lparr>arg_tag_urns = [pol_classificationTagUrn (pin_policy i)],
         arg_entity_urns = [g6_subject f], arg_column_paths = [pin_columnPath i]\<rparr>)
      (pin_before i) (planned_after E i)))"
proof -
  have "createTagProjection E (tp_entityUrn (pin_before i)) (tp_columnPath (pin_before i))
      (tp_tags (pin_before i) @ [pol_classificationTagUrn (pin_policy i)]) = Inr (planned_after E i)"
    using assms(1) policy_tag [of E "pin_policy i"] verifyTagProjection_nonempty [of E "pin_before i"]
    by (simp add: plannable_def Let_def createTagProjection_def planned_after_def)
  then show ?thesis
    using assms(1) verifyTagProjection_nonempty [of E "pin_before i"]
    unfolding f_def by (auto simp: planG6Remediation_def plannable_def Let_def)
qed

lemma planG6_manual:
  assumes "\<not> plannable E i"
  shows "\<exists>reason. planG6Remediation E i = Inr (MANUAL_ONLY reason)"
  using assms verifyTagProjection_nonempty [of E "pin_before i"]
  by (auto simp: planG6Remediation_def plannable_def Let_def)

lemma seal_plan_verifies:
  assumes "hex_sha256 E" "consistent_collation E"
    and "verifyTagProjection E before" "isNonEmptyString tag"
    and "arg_tag_urns args = tag # tags" "arg_entity_urns args = tp_entityUrn before # es"
    and "arg_column_paths args = tp_columnPath before # cs"
  shows "verifyRemediationPlan E (seal_plan E d pd (seal_action E args) before
    (seal_projection E (tp_entityUrn before) (tp_columnPath before)
      (uniqueSorted E (tp_tags before @ [tag]))))"
proof -
  have "verifyTagProjection E (seal_projection E (tp_entityUrn before) (tp_columnPath before)
      (uniqueSorted E (tp_tags before @ [tag])))"
    using assms(1-4) verifyTagProjection_nonempty [OF assms(3)]
    by (simp add: verifyTagProjection_def projection_payload_def uniqueSorted_idem)
  with assms show ?thesis
    by (simp add: verifyRemediationPlan_def seal_plan_digest seal_action_digest Let_def)
qed

lemma planned_verifies:
  assumes "hex_sha256 E" "consistent_collation E"
    and "planG6Remediation E i = Inr (ACTIONABLE d p)"
  shows "verifyEvidenceDossier E d \<and> verifyRemediationPlan E p"
proof -
  have pl: "plannable E i"
    using assms(3) planG6_manual [of E i] by (cases "plannable E i") auto
  define f where "f = sanitizeFinding E (pin_finding i)"
  have dp: "d = seal_dossier E i f"
    "p = seal_plan E d (pol_digest (pin_policy i))
      (seal_action E \<lparr>arg_tag_urns = [pol_classificationTagUrn (pin_policy i)],
         arg_entity_urns = [g6_subject f], arg_column_paths = [pin_columnPath i]\<rparr>)
      (pin_before i) (planned_after E i)"
    using assms(3) planG6_actionable [OF pl] unfolding f_def by auto
  have c: "verifyTagProjection E (pin_before i)" "g6_subject f = tp_entityUrn (pin_before i)"
    "pin_columnPath i = tp_columnPath (pin_before i)" "pin_columnPath i \<in> set (g6_unclassifiedFields f)"
    "verifyTrustedRemediationPolicy E (pin_policy i)"
    using pl unfolding plannable_def Let_def f_def [symmetric] by blast+
  have g: "g6_type f = ''governance_violation''" "g6_ruleId f = ''G6''"
    by (simp_all add: f_def)
  have "verifyEvidenceDossier E d"
    unfolding dp(1) by (rule seal_dossier_verifies [OF g c(2,3,4,1)])
  moreover have "verifyRemediationPlan E p"
    unfolding dp(2) planned_after_def
    by (rule seal_plan_verifies [OF assms(1,2) c(1) policy_tag [OF c(5)]]) (simp_all add: c(2,3))
  ultimately show ?thesis by simp
qed

subsection \<open>Concrete inputs for the witnesses\<close>

definition demo_before :: TagProjection where
  "demo_before = seal_projection demo_env ''urn:li:dataset:users'' ''email'' [''urn:li:tag:Core'']"

definition demo_policy :: TrustedRemediationPolicyV1 where
  "demo_policy = \<lparr>pol_schemaVersion = ''archon.remediation-policy/v1'', pol_policyId = ''p1'',
     pol_enabled = True, pol_classificationTagUrn = ''urn:li:tag:PII'',
     pol_allowedEntityUrnPrefixes = [''urn:li:dataset:''], pol_digest = demo_digest\<rparr>"

definition demo_finding :: json where
  "demo_finding = JObj [(''type'', JStr ''governance_violation''), (''severity'', JStr ''high''),
     (''subject'', JStr ''urn:li:dataset:users''), (''ruleId'', JStr ''G6''),
     (''unclassifiedFields'', JArr [JStr ''email''])]"

definition demo_input :: PlanG6RemediationInput where
  "demo_input = \<lparr>pin_scanId = ''scan-1'', pin_finding = demo_finding, pin_columnPath = ''email'',
     pin_before = demo_before, pin_policy = demo_policy,
     pin_observedAt = ''2026-01-01T00:00:00.000Z'', pin_provenance = None, pin_blastRadius = None\<rparr>"

lemma uniqueSorted_single [simp]: "uniqueSorted E [x] = [x]"
  by (simp add: uniqueSorted_def dedupe_def)

lemmas nonempty_eval = isNonEmptyString_def trim_def is_ws_def

lemma demo_before_verifies [simp]: "verifyTagProjection demo_env demo_before"
  by (simp add: verifyTagProjection_def demo_before_def projection_payload_def verifyDigest_def
      nonempty_eval)

lemma demo_policy_verifies [simp]: "verifyTrustedRemediationPolicy demo_env demo_policy"
  by (simp add: verifyTrustedRemediationPolicy_def demo_policy_def verifyDigest_def is_tag_urn_def
      startsWith_def is_ws_def)

lemma plannable_demo: "plannable demo_env demo_input"
  by (simp add: plannable_def demo_input_def Let_def isG6Finding_def sanitizeFinding_def demo_finding_def
      nonempty_eval)
    (simp add: demo_before_def demo_policy_def startsWith_def)

subsection \<open>Properties\<close>

text \<open>
  C13: what the planner offers is sound and bound: the dossier and the plan verify, the plan names
  exactly the dossier's digest and policy, its one action adds the policy's tag to the one entity and
  column of the verified pre-state (an unclassified field of a G6 finding about that entity, inside the
  policy's allow-list), the tag was absent, and the expected post-state is the pre-state plus that tag.
\<close>

theorem planned_action_sound:
  assumes "hex_sha256 E" and "consistent_collation E"
    and "planG6Remediation E i = Inr (ACTIONABLE d p)"
  shows "verifyEvidenceDossier E d \<and> verifyRemediationPlan E p
    \<and> pln_dossierDigest p = dos_digest d \<and> pln_policyDigest p = dos_policyDigest d
    \<and> pol_enabled (pin_policy i)
    \<and> act_arguments (pln_action p) = \<lparr>arg_tag_urns = [pol_classificationTagUrn (pin_policy i)],
        arg_entity_urns = [tp_entityUrn (pin_before i)], arg_column_paths = [tp_columnPath (pin_before i)]\<rparr>
    \<and> str_of (obj_get (pin_finding i) ''subject'') = Some (tp_entityUrn (pin_before i))
    \<and> (pol_allowedEntityUrnPrefixes (pin_policy i) \<noteq> [] \<longrightarrow>
        (\<exists>pre \<in> set (pol_allowedEntityUrnPrefixes (pin_policy i)). prefix pre (tp_entityUrn (pin_before i))))
    \<and> pln_expectedBefore p = pin_before i
    \<and> pol_classificationTagUrn (pin_policy i) \<notin> set (tp_tags (pin_before i))
    \<and> set (tp_tags (pln_expectedAfter p))
        = insert (pol_classificationTagUrn (pin_policy i)) (set (tp_tags (pin_before i)))"
proof -
  have pl: "plannable E i"
    using assms(3) planG6_manual [of E i] by (cases "plannable E i") auto
  define f where "f = sanitizeFinding E (pin_finding i)"
  have dp: "d = seal_dossier E i f"
    "p = seal_plan E d (pol_digest (pin_policy i))
      (seal_action E \<lparr>arg_tag_urns = [pol_classificationTagUrn (pin_policy i)],
         arg_entity_urns = [g6_subject f], arg_column_paths = [pin_columnPath i]\<rparr>)
      (pin_before i) (planned_after E i)"
    using assms(3) planG6_actionable [OF pl] unfolding f_def by auto
  have f: "g6_type f = ''governance_violation''" "g6_ruleId f = ''G6''"
    by (simp_all add: f_def)
  note c = pl [unfolded plannable_def Let_def, folded f_def]
  have subj: "str_of (obj_get (pin_finding i) ''subject'') = Some (tp_entityUrn (pin_before i))"
    using c by (auto simp: isG6Finding_def f_def sanitizeFinding_def split: option.splits)
  have vd: "verifyEvidenceDossier E d"
    using planned_verifies [OF assms] by simp
  have vp: "verifyRemediationPlan E p"
    using planned_verifies [OF assms] by simp
  have allowed: "\<exists>pre \<in> set (pol_allowedEntityUrnPrefixes (pin_policy i)). prefix pre (tp_entityUrn (pin_before i))"
    if "pol_allowedEntityUrnPrefixes (pin_policy i) \<noteq> []"
    using that c by (auto simp: list_ex_iff startsWith_iff)
  show ?thesis
    using vd vp subj allowed c by (simp add: dp planned_after_def)
qed

theorem planned_action_sound_witness:
  "\<exists>d p. planG6Remediation demo_env demo_input = Inr (ACTIONABLE d p) \<and> verifyRemediationPlan demo_env p
    \<and> arg_entity_urns (act_arguments (pln_action p)) = [''urn:li:dataset:users'']"
proof -
  from planG6_actionable [OF plannable_demo]
  obtain d p where dp: "planG6Remediation demo_env demo_input = Inr (ACTIONABLE d p)" by blast
  from planned_action_sound [OF hex_demo_env collation_demo_env dp] dp show ?thesis
    by (auto simp: demo_input_def demo_before_def)
qed

text \<open>
  the planner always answers (it never throws), and it offers an action exactly when the finding is
  a well-formed G6 finding about the verified pre-state, the policy is verified, enabled and admits the
  entity, the scan and the observation are named, and the tag is not there yet.
\<close>

theorem planner_offers_iff:
  "(\<exists>r. planG6Remediation E i = Inr r)
   \<and> ((\<exists>d p. planG6Remediation E i = Inr (ACTIONABLE d p)) \<longleftrightarrow> plannable E i)"
  using planG6_actionable [of E i] planG6_manual [of E i] by (cases "plannable E i") auto

text \<open>
  A plan's digest vouches for the plan: two plans that verify and carry the same digest are the same
  plan, field by field, unless their canonical texts are a SHA-256 collision.
\<close>

theorem plan_digest_binds:
  assumes "verifyRemediationPlan E p" and "verifyRemediationPlan E q"
    and "pln_digest p = pln_digest q" and "no_collision E (plan_payload p) (plan_payload q)"
  shows "p = q"
proof -
  have "digest E (plan_payload p) = digest E (plan_payload q)" "pln_planId p = pln_planId q"
    using assms(1-3) by (simp_all add: verifyRemediationPlan_def Let_def)
  with assms(4) have "canon (plan_payload p) = canon (plan_payload q)"
    by (blast dest: digest_eqD)
  from plan_payload_inj [OF this, of "pln_planId p" "pln_digest p"]
  show ?thesis using assms(3) \<open>pln_planId p = pln_planId q\<close> by (cases p; cases q) simp
qed

theorem plan_digest_binds_witness:
  "\<exists>p. verifyRemediationPlan demo_env p \<and> p = p\<lparr>pln_risk := pln_risk p\<rparr>"
proof -
  from planG6_actionable [OF plannable_demo]
  obtain d p where dp: "planG6Remediation demo_env demo_input = Inr (ACTIONABLE d p)" by blast
  then have v: "verifyRemediationPlan demo_env p" by (simp add: planned_verifies)
  have "no_collision demo_env (plan_payload p) (plan_payload p)" by (simp add: no_collision_def)
  from plan_digest_binds [OF v _ _ this] v show ?thesis by auto
qed

text \<open>
  C34: the verifier does not enforce the catalogue's limit of one entity, one column and one tag: a
  resealed plan whose argument lists carry any further entities, columns and tags after the first
  still verifies.
\<close>

theorem plan_verifier_ignores_extra_targets:
  assumes "hex_sha256 E" and "consistent_collation E" and "verifyTagProjection E before"
    and "isNonEmptyString tag"
  shows "verifyRemediationPlan E (seal_plan E d pd
      (seal_action E \<lparr>arg_tag_urns = tag # tags, arg_entity_urns = tp_entityUrn before # es,
         arg_column_paths = tp_columnPath before # cs\<rparr>) before
      (seal_projection E (tp_entityUrn before) (tp_columnPath before)
        (uniqueSorted E (tp_tags before @ [tag]))))"
  by (rule seal_plan_verifies [OF assms]) simp_all

theorem plan_verifier_ignores_extra_targets_witness:
  "verifyRemediationPlan demo_env (seal_plan demo_env (seal_dossier demo_env demo_input
      (sanitizeFinding demo_env demo_finding)) demo_digest
      (seal_action demo_env \<lparr>arg_tag_urns = [''urn:li:tag:PII''],
         arg_entity_urns = [tp_entityUrn demo_before, ''urn:li:dataset:orders''],
         arg_column_paths = [tp_columnPath demo_before]\<rparr>) demo_before
      (seal_projection demo_env (tp_entityUrn demo_before) (tp_columnPath demo_before)
        (uniqueSorted demo_env (tp_tags demo_before @ [''urn:li:tag:PII'']))))"
  by (rule plan_verifier_ignores_extra_targets) (simp_all add: nonempty_eval)

end
