(* ===== verification/Receipt.thy ===== *)
theory Receipt
  imports Planner
begin

section \<open>Execution receipts: \<open>src/remediation/receipt.ts\<close>\<close>

text \<open>
  A receipt records one execution: its outcome, the observed states, the checks and a hash chain of
  events. This theory models how receipts are issued (\<open>createExecutionReceipt\<close>) and verified
  (\<open>verifyExecutionReceipt\<close>, which lists every issue), and how a rollback is proposed from a verified
  receipt. An \<open>Error\<close> is \<open>Inl\<close> of its message. The \<open>MALFORMED_RECEIPT\<close> branch of the verifier catches the
  exceptions that values outside the declared types raise; the typed values here raise none.
\<close>

definition GENESIS_HASH :: "js_env \<Rightarrow> string" where
  "GENESIS_HASH E = digest E (JStr ''archon-execution-receipt-chain-genesis-v1'')"

definition actionValid :: "js_env \<Rightarrow> AddClassificationTagActionV1 \<Rightarrow> bool" where
  "actionValid E a \<longleftrightarrow>
     act_actionId a = ''datahub.add-classification-tag.v1''
     \<and> act_tool a = ''add_tags''
     \<and> inv_tool (act_inverse a) = ''remove_tags''
     \<and> act_arguments a = inv_arguments (act_inverse a)
     \<and> verifyDigest E (action_payload a) (act_digest a)"

text \<open>
  The interface \<open>CreateExecutionReceiptInput\<close>. A receipt has all its fields, so the code passes receipts
  where this interface is expected; \<open>input_of\<close> is that view.
\<close>

record CreateExecutionReceiptInput =
  cin_executionId :: string
  cin_outcome :: ExecutionOutcome
  cin_dossierDigest :: string
  cin_planDigest :: string
  cin_approvalDecisionDigest :: "string option"
  cin_action :: AddClassificationTagActionV1
  cin_idempotencyKey :: string
  cin_before :: "TagProjection option"
  cin_after :: "TagProjection option"
  cin_mutation :: "MutationAck option"
  cin_checks :: "VerificationCheck list"
  cin_rollback :: RollbackAnchor
  cin_startedAt :: string
  cin_completedAt :: string

definition input_of :: "ExecutionReceiptV1 \<Rightarrow> CreateExecutionReceiptInput" where
  "input_of r =
     \<lparr>cin_executionId = rcp_executionId r, cin_outcome = rcp_outcome r,
      cin_dossierDigest = rcp_dossierDigest r, cin_planDigest = rcp_planDigest r,
      cin_approvalDecisionDigest = rcp_approvalDecisionDigest r, cin_action = rcp_action r,
      cin_idempotencyKey = rcp_idempotencyKey r, cin_before = rcp_before r, cin_after = rcp_after r,
      cin_mutation = rcp_mutation r, cin_checks = rcp_checks r, cin_rollback = rcp_rollback r,
      cin_startedAt = rcp_startedAt r, cin_completedAt = rcp_completedAt r\<rparr>"

record ReceiptEventPayload =
  rep_kind :: EventKind
  rep_payload :: json
  rep_occurredAt :: string

text \<open>\<open>x ?? null\<close> on a digest.\<close>

fun str_or_null :: "string option \<Rightarrow> json" where
  "str_or_null None = JNull"
| "str_or_null (Some s) = JStr s"

definition eventPayloads :: "CreateExecutionReceiptInput \<Rightarrow> ReceiptEventPayload list" where
  "eventPayloads i =
     [\<lparr>rep_kind = DOSSIER_BOUND, rep_payload = JObj [(''dossierDigest'', JStr (cin_dossierDigest i))],
       rep_occurredAt = cin_startedAt i\<rparr>,
      \<lparr>rep_kind = PLAN_BOUND, rep_payload = JObj [(''planDigest'', JStr (cin_planDigest i))],
       rep_occurredAt = cin_startedAt i\<rparr>]
     @ (if truthy (cin_approvalDecisionDigest i)
        then [\<lparr>rep_kind = APPROVAL_BOUND,
               rep_payload = JObj [(''approvalDecisionDigest'', str_or_null (cin_approvalDecisionDigest i))],
               rep_occurredAt = cin_startedAt i\<rparr>]
        else [])
     @ [\<lparr>rep_kind = PRECONDITION_CHECKED,
         rep_payload = JObj [(''beforeDigest'', str_or_null (map_option tp_digest (cin_before i)))],
         rep_occurredAt = cin_startedAt i\<rparr>]
     @ (case cin_mutation i of None \<Rightarrow> []
        | Some m \<Rightarrow> [\<lparr>rep_kind = MUTATION_INVOKED, rep_payload = ack_json m,
                      rep_occurredAt = cin_completedAt i\<rparr>])
     @ (if cin_after i \<noteq> None \<or> cin_checks i \<noteq> []
        then [\<lparr>rep_kind = POSTCONDITION_CHECKED,
               rep_payload = JObj [(''afterDigest'', str_or_null (map_option tp_digest (cin_after i))),
                                   (''checks'', JArr (map check_json (cin_checks i)))],
               rep_occurredAt = cin_completedAt i\<rparr>]
        else [])
     @ [\<lparr>rep_kind = ROLLBACK_ANCHORED, rep_payload = anchor_json (cin_rollback i),
         rep_occurredAt = cin_completedAt i\<rparr>]"

text \<open>The body of the \<open>map\<close> in \<open>buildEvents\<close>, with its counter and the variable \<open>previousHash\<close> it threads.\<close>

fun buildEvents_from :: "js_env \<Rightarrow> nat \<Rightarrow> string \<Rightarrow> ReceiptEventPayload list \<Rightarrow> ReceiptEvent list" where
  "buildEvents_from E index previousHash [] = []"
| "buildEvents_from E index previousHash (v # vs) =
     (let payloadDigest = digest E (rep_payload v);
          eventHash = digest E (event_payload_json index (rep_kind v) (rep_occurredAt v)
                                  payloadDigest previousHash) in
      \<lparr>ev_sequence = index, ev_kind = rep_kind v, ev_occurredAt = rep_occurredAt v,
       ev_payloadDigest = payloadDigest, ev_previousHash = previousHash, ev_eventHash = eventHash\<rparr>
      # buildEvents_from E (Suc index) eventHash vs)"

definition buildEvents :: "js_env \<Rightarrow> ReceiptEventPayload list \<Rightarrow> ReceiptEvent list" where
  "buildEvents E values = buildEvents_from E 0 (GENESIS_HASH E) values"

text \<open>The object handed to \<open>digest\<close> for a mutation request on the action's arguments.\<close>

definition action_request :: "AddClassificationTagActionV1 \<Rightarrow> TagRequest" where
  "action_request a =
     \<lparr>rq_tagUrns = arg_tag_urns (act_arguments a), rq_entityUrns = arg_entity_urns (act_arguments a),
      rq_columnPaths = arg_column_paths (act_arguments a)\<rparr>"

text \<open>
  \<open>expectedCheckPasses\<close>: the map from check id to its expected value, in insertion order. A missing
  first tag is \<open>undefined\<close>, which no list of strings includes and which \<open>JSON.stringify\<close> writes as
  \<open>null\<close>, so both checks on it are false.
\<close>

definition expectedCheckPasses :: "js_env \<Rightarrow> ExecutionReceiptV1 \<Rightarrow> (CheckId \<times> bool) list" where
  "expectedCheckPasses E r =
     (let tag = first (arg_tag_urns (act_arguments (rcp_action r)));
          expectedRequestDigest = digest E (request_json (action_request (rcp_action r))) in
      [(TARGET_UNCHANGED,
          case (rcp_before r, rcp_after r) of
            (Some before, Some after) \<Rightarrow> tp_entityUrn before = tp_entityUrn after
                                        \<and> tp_columnPath before = tp_columnPath after
          | _ \<Rightarrow> False),
       (PREEXISTING_TAGS_PRESERVED,
          case (rcp_before r, rcp_after r) of
            (Some before, Some after) \<Rightarrow> list_all (\<lambda>t. t \<in> set (tp_tags after)) (tp_tags before)
          | _ \<Rightarrow> False),
       (POLICY_TAG_PRESENT,
          case (tag, rcp_after r) of (Some t, Some after) \<Rightarrow> t \<in> set (tp_tags after) | _ \<Rightarrow> False),
       (NO_UNEXPECTED_TAGS,
          case (tag, rcp_before r, rcp_after r) of
            (Some t, Some before, Some after) \<Rightarrow> tp_tags after = uniqueSorted E (tp_tags before @ [t])
          | _ \<Rightarrow> False),
       (APPROVAL_BINDING_VALID,
          truthy (rcp_approvalDecisionDigest r)
          \<and> map_option ack_requestDigest (rcp_mutation r) = Some expectedRequestDigest)])"

subsection \<open>Issuing\<close>

definition verified_or_absent :: "js_env \<Rightarrow> TagProjection option \<Rightarrow> bool" where
  "verified_or_absent E p = (case p of None \<Rightarrow> True | Some q \<Rightarrow> verifyTagProjection E q)"

definition truthy_only :: "string option \<Rightarrow> string option" where
  "truthy_only s = (if truthy s then s else None)"

text \<open>The receipt literal: the unsigned fields, then the id and the digest computed from them.\<close>

definition seal_receipt :: "js_env \<Rightarrow> CreateExecutionReceiptInput \<Rightarrow> ExecutionReceiptV1" where
  "seal_receipt E i =
     (let unsigned =
        \<lparr>rcp_schemaVersion = ''archon.execution-receipt/v1'', rcp_receiptId = [],
         rcp_executionId = cin_executionId i, rcp_outcome = cin_outcome i,
         rcp_dossierDigest = cin_dossierDigest i, rcp_planDigest = cin_planDigest i,
         rcp_approvalDecisionDigest = truthy_only (cin_approvalDecisionDigest i),
         rcp_action = cin_action i, rcp_idempotencyKey = cin_idempotencyKey i,
         rcp_before = cin_before i, rcp_after = cin_after i, rcp_mutation = cin_mutation i,
         rcp_checks = cin_checks i, rcp_rollback = cin_rollback i,
         rcp_events = buildEvents E (eventPayloads i),
         rcp_startedAt = cin_startedAt i, rcp_completedAt = cin_completedAt i, rcp_digest = []\<rparr>;
      d = digest E (receipt_payload unsigned) in
      unsigned\<lparr>rcp_receiptId := ''receipt-'' @ short_digest d, rcp_digest := d\<rparr>)"

definition createExecutionReceipt ::
    "js_env \<Rightarrow> CreateExecutionReceiptInput \<Rightarrow> string + ExecutionReceiptV1" where
  "createExecutionReceipt E i =
     (if \<not> actionValid E (cin_action i) then Inl ''Cannot issue a receipt for an invalid action.''
      else if cin_executionId i = [] \<or> cin_idempotencyKey i = []
      then Inl ''A receipt requires an execution id and idempotency key.''
      else if \<not> verified_or_absent E (cin_before i)
      then Inl ''Receipt before-state has an invalid digest.''
      else if \<not> verified_or_absent E (cin_after i)
      then Inl ''Receipt after-state has an invalid digest.''
      else Inr (seal_receipt E i))"

subsection \<open>Verifying\<close>

text \<open>The loop over the events: one issue \<open>EVENT_<index>\<close> for each event that breaks the chain.\<close>

fun event_issues ::
    "js_env \<Rightarrow> nat \<Rightarrow> string \<Rightarrow> ReceiptEventPayload list \<Rightarrow> ReceiptEvent list \<Rightarrow> string list" where
  "event_issues E index previousHash (expected # es) (event # evs) =
     (let payloadDigest = digest E (rep_payload expected) in
      (if ev_sequence event \<noteq> index
          \<or> ev_kind event \<noteq> rep_kind expected
          \<or> ev_payloadDigest event \<noteq> payloadDigest
          \<or> ev_previousHash event \<noteq> previousHash
          \<or> ev_eventHash event \<noteq> digest E (event_payload_json index (rep_kind expected)
                                              (ev_occurredAt event) payloadDigest previousHash)
       then [''EVENT_'' @ show_nat index] else [])
      @ event_issues E (Suc index) (ev_eventHash event) es evs)"
| "event_issues E index previousHash _ _ = []"

text \<open>\<open>expected.get(id)\<close>.\<close>

definition expected_pass :: "js_env \<Rightarrow> ExecutionReceiptV1 \<Rightarrow> CheckId \<Rightarrow> bool option" where
  "expected_pass E r c = map_of (expectedCheckPasses E r) c"

definition when_issue :: "bool \<Rightarrow> string \<Rightarrow> string list" where
  "when_issue b s = (if b then [s] else [])"

definition verifyExecutionReceipt :: "js_env \<Rightarrow> ExecutionReceiptV1 \<Rightarrow> string list" where
  "verifyExecutionReceipt E r =
     (let expectedDigest = digest E (receipt_payload r);
          expectedPayloads = eventPayloads (input_of r);
          expected = expectedCheckPasses E r in
      when_issue (rcp_schemaVersion r \<noteq> ''archon.execution-receipt/v1'') ''SCHEMA_VERSION''
      @ when_issue (rcp_digest r \<noteq> expectedDigest) ''RECEIPT_DIGEST''
      @ when_issue (rcp_receiptId r \<noteq> ''receipt-'' @ short_digest expectedDigest) ''RECEIPT_ID''
      @ when_issue (\<not> actionValid E (rcp_action r)) ''ACTION_DIGEST''
      @ when_issue (\<not> verified_or_absent E (rcp_before r)) ''BEFORE_DIGEST''
      @ when_issue (\<not> verified_or_absent E (rcp_after r)) ''AFTER_DIGEST''
      @ when_issue (case rcp_mutation r of None \<Rightarrow> False
          | Some m \<Rightarrow> ack_requestDigest m \<noteq> digest E (request_json (action_request (rcp_action r))))
          ''MUTATION_REQUEST_BINDING''
      @ (if length expectedPayloads \<noteq> length (rcp_events r) then [''EVENT_COUNT'']
         else event_issues E 0 (GENESIS_HASH E) expectedPayloads (rcp_events r))
      @ (if rcp_outcome r = VERIFIED
         then when_issue (rcp_before r = None \<or> rcp_after r = None \<or> rcp_mutation r = None)
                ''VERIFIED_COMPONENTS''
              @ when_issue (length (rcp_checks r) \<noteq> 5 \<or> list_ex (\<lambda>c. \<not> chk_passed c) (rcp_checks r))
                  ''VERIFIED_CHECKS''
              @ when_issue (ra_availability (rcp_rollback r) \<noteq> ELIGIBLE) ''ROLLBACK_ANCHOR''
         else [])
      @ when_issue (rcp_checks r \<noteq> []
          \<and> (length (rcp_checks r) \<noteq> length expected
             \<or> list_ex (\<lambda>(c, e). chk_checkId c \<noteq> fst e
                    \<or> Some (chk_passed c) \<noteq> expected_pass E r (chk_checkId c))
                 (zip (rcp_checks r) expected)))
          ''CHECK_SEMANTICS''
      @ when_issue (ra_availability (rcp_rollback r) = ELIGIBLE
          \<and> (rcp_before r = None \<or> rcp_after r = None
             \<or> ra_inverseActionDigest (rcp_rollback r)
                 \<noteq> Some (digest E (inverse_json (act_inverse (rcp_action r))))
             \<or> ra_restoreStateDigest (rcp_rollback r) \<noteq> map_option tp_digest (rcp_before r)))
          ''ROLLBACK_BINDING'')"

definition receipt_valid :: "js_env \<Rightarrow> ExecutionReceiptV1 \<Rightarrow> bool" where
  "receipt_valid E r \<longleftrightarrow> verifyExecutionReceipt E r = []"

subsection \<open>Proposing a rollback\<close>

definition verifyRollbackProposal :: "js_env \<Rightarrow> RollbackProposalV1 \<Rightarrow> bool" where
  "verifyRollbackProposal E p \<longleftrightarrow>
     rbp_schemaVersion p = ''archon.rollback-proposal/v1''
     \<and> rbp_requiresFreshApproval p
     \<and> verifyDigest E (rollback_proposal_payload p) (rbp_digest p)
     \<and> rbp_rollbackId p = ''rollback-'' @ short_digest (rbp_digest p)"

definition seal_rollback :: "js_env \<Rightarrow> string \<Rightarrow> string \<Rightarrow> string \<Rightarrow> InverseAction \<Rightarrow> RollbackProposalV1" where
  "seal_rollback E original current restore undo =
     (let unsigned =
        \<lparr>rbp_schemaVersion = ''archon.rollback-proposal/v1'', rbp_rollbackId = [],
         rbp_originalReceiptDigest = original, rbp_expectedCurrentDigest = current,
         rbp_restoreStateDigest = restore, rbp_inverseAction = undo,
         rbp_requiresFreshApproval = True, rbp_digest = []\<rparr>;
      d = digest E (rollback_proposal_payload unsigned) in
      unsigned\<lparr>rbp_rollbackId := ''rollback-'' @ short_digest d, rbp_digest := d\<rparr>)"

text \<open>\<open>Inr None\<close> is the returned \<open>null\<close>.\<close>

definition createRollbackProposal ::
    "js_env \<Rightarrow> ExecutionReceiptV1 \<Rightarrow> TagProjection \<Rightarrow> string + RollbackProposalV1 option" where
  "createRollbackProposal E r current =
     (if \<not> receipt_valid E r then Inr None
      else case (rcp_before r, rcp_after r) of
        (Some before, Some after) \<Rightarrow>
          if rcp_outcome r \<noteq> VERIFIED \<or> ra_availability (rcp_rollback r) \<noteq> ELIGIBLE
             \<or> \<not> verifyTagProjection E current \<or> tp_digest current \<noteq> tp_digest after
          then Inr None
          else (case first (arg_tag_urns (act_arguments (rcp_action r))) of
              None \<Rightarrow> Inr None
            | Some tag \<Rightarrow>
                if tag \<in> set (tp_tags before) \<or> tag \<notin> set (tp_tags after) then Inr None
                else let proposal = seal_rollback E (rcp_digest r) (tp_digest current)
                                      (tp_digest before) (act_inverse (rcp_action r)) in
                if \<not> verifyRollbackProposal E proposal then Inl ''Failed to bind rollback proposal.''
                else Inr (Some proposal))
      | _ \<Rightarrow> Inr None)"

subsection \<open>The event chain\<close>

lemma length_buildEvents_from [simp]: "length (buildEvents_from E n prev vs) = length vs"
  by (induction vs arbitrary: n prev) (simp_all add: Let_def)

lemma event_issues_build [simp]: "event_issues E n prev vs (buildEvents_from E n prev vs) = []"
  by (induction vs arbitrary: n prev) (simp_all add: Let_def)

text \<open>
  A list of events without issues is the chain the builder makes, up to the event times, which each
  event brings itself (its hash covers them).
\<close>

lemma event_issues_chain:
  "length vs = length evs \<Longrightarrow> event_issues E n prev vs evs = [] \<Longrightarrow>
   evs = buildEvents_from E n prev (map2 (\<lambda>v e. v\<lparr>rep_occurredAt := ev_occurredAt e\<rparr>) vs evs)"
proof (induction vs evs arbitrary: n prev rule: list_induct2)
  case (Cons v vs e evs)
  then have "ev_sequence e = n \<and> ev_kind e = rep_kind v \<and> ev_payloadDigest e = digest E (rep_payload v)
      \<and> ev_previousHash e = prev
      \<and> ev_eventHash e = digest E (event_payload_json n (rep_kind v) (ev_occurredAt e)
            (digest E (rep_payload v)) prev)"
    by (auto simp: Let_def split: if_splits)
  with Cons show ?case
    by (cases e) (auto simp: Let_def)
qed simp

subsection \<open>Integrity and evidence\<close>

text \<open>The verifier's issues fall in two groups: the seals of the receipt, and what its evidence shows.\<close>

definition receipt_integrity :: "js_env \<Rightarrow> ExecutionReceiptV1 \<Rightarrow> bool" where
  "receipt_integrity E r \<longleftrightarrow>
     rcp_schemaVersion r = ''archon.execution-receipt/v1''
     \<and> rcp_digest r = digest E (receipt_payload r)
     \<and> rcp_receiptId r = ''receipt-'' @ short_digest (rcp_digest r)
     \<and> actionValid E (rcp_action r)
     \<and> verified_or_absent E (rcp_before r) \<and> verified_or_absent E (rcp_after r)
     \<and> length (eventPayloads (input_of r)) = length (rcp_events r)
     \<and> event_issues E 0 (GENESIS_HASH E) (eventPayloads (input_of r)) (rcp_events r) = []"

definition checks_match :: "js_env \<Rightarrow> ExecutionReceiptV1 \<Rightarrow> bool" where
  "checks_match E r \<longleftrightarrow>
     map (\<lambda>c. (chk_checkId c, chk_passed c)) (rcp_checks r) = expectedCheckPasses E r"

definition evidence_sound :: "js_env \<Rightarrow> ExecutionReceiptV1 \<Rightarrow> bool" where
  "evidence_sound E r \<longleftrightarrow>
     (\<forall>m. rcp_mutation r = Some m \<longrightarrow>
        ack_requestDigest m = digest E (request_json (action_request (rcp_action r))))
     \<and> (rcp_outcome r = VERIFIED \<longrightarrow>
          rcp_before r \<noteq> None \<and> rcp_after r \<noteq> None \<and> rcp_mutation r \<noteq> None
          \<and> rcp_checks r \<noteq> [] \<and> list_all chk_passed (rcp_checks r)
          \<and> ra_availability (rcp_rollback r) = ELIGIBLE)
     \<and> (rcp_checks r \<noteq> [] \<longrightarrow> checks_match E r)
     \<and> (ra_availability (rcp_rollback r) = ELIGIBLE \<longrightarrow>
          rcp_before r \<noteq> None \<and> rcp_after r \<noteq> None
          \<and> ra_inverseActionDigest (rcp_rollback r)
              = Some (digest E (inverse_json (act_inverse (rcp_action r))))
          \<and> ra_restoreStateDigest (rcp_rollback r) = map_option tp_digest (rcp_before r))"

lemma when_issue_Nil [simp]: "when_issue b s = [] \<longleftrightarrow> \<not> b"
  by (simp add: when_issue_def)

lemma expected_ids:
  "map fst (expectedCheckPasses E r)
   = [TARGET_UNCHANGED, PREEXISTING_TAGS_PRESERVED, POLICY_TAG_PRESENT, NO_UNEXPECTED_TAGS,
      APPROVAL_BINDING_VALID]"
  by (simp add: expectedCheckPasses_def Let_def)

lemma length_expected [simp]: "length (expectedCheckPasses E r) = 5"
  using arg_cong [OF expected_ids, of length E r] by simp

text \<open>Looking an id up in the expected map gives the entry at its own position.\<close>

lemma checks_lookup_aux:
  assumes "length cs = length es" and "\<forall>e \<in> set es. m (fst e) = Some (snd e)"
  shows "list_ex (\<lambda>(c, e). f c \<noteq> fst e \<or> Some (g c) \<noteq> m (f c)) (zip cs es)
    \<longleftrightarrow> map (\<lambda>c. (f c, g c)) cs \<noteq> es"
  using assms by (induction cs es rule: list_induct2) auto

lemma checks_match_lookup:
  assumes "distinct (map fst es)" "length cs = length es"
  shows "list_ex (\<lambda>(c, e). f c \<noteq> fst e \<or> Some (g c) \<noteq> map_of es (f c)) (zip cs es)
    \<longleftrightarrow> map (\<lambda>c. (f c, g c)) cs \<noteq> es"
  using assms by (intro checks_lookup_aux) (auto simp: map_of_eq_Some_iff)

lemma receipt_valid_iff: "receipt_valid E r \<longleftrightarrow> receipt_integrity E r \<and> evidence_sound E r"
proof -
  have d: "distinct (map fst (expectedCheckPasses E r))"
    unfolding expected_ids by simp
  have checks: "(length (rcp_checks r) \<noteq> length (expectedCheckPasses E r)
       \<or> list_ex (\<lambda>(c, e). chk_checkId c \<noteq> fst e
            \<or> Some (chk_passed c) \<noteq> expected_pass E r (chk_checkId c))
         (zip (rcp_checks r) (expectedCheckPasses E r))) \<longleftrightarrow> \<not> checks_match E r"
  proof (cases "length (rcp_checks r) = length (expectedCheckPasses E r)")
    case True
    then show ?thesis
      using checks_match_lookup [OF d True, of chk_checkId chk_passed]
      unfolding checks_match_def expected_pass_def by blast
  next
    case False
    then show ?thesis unfolding checks_match_def by (metis length_map)
  qed
  have len: "length (rcp_checks r) = 5" if "checks_match E r"
    using arg_cong [OF that [unfolded checks_match_def], of length] by simp
  show ?thesis
    unfolding receipt_valid_def verifyExecutionReceipt_def Let_def checks
      receipt_integrity_def evidence_sound_def
    using len by (auto simp: list_ex_iff list_all_iff split: option.splits)
qed

subsection \<open>What issuing gives\<close>

lemma receipt_payload_ids [simp]:
  "receipt_payload (r\<lparr>rcp_receiptId := i, rcp_digest := d\<rparr>) = receipt_payload r"
  by (simp add: receipt_payload_def)

lemma truthy_only_idem [simp]: "truthy_only (truthy_only s) = truthy_only s"
  "truthy (truthy_only s) = truthy s"
  by (simp_all add: truthy_only_def)

lemma seal_receipt_simps [simp]:
  "rcp_schemaVersion (seal_receipt E i) = ''archon.execution-receipt/v1''"
  "rcp_executionId (seal_receipt E i) = cin_executionId i"
  "rcp_outcome (seal_receipt E i) = cin_outcome i"
  "rcp_dossierDigest (seal_receipt E i) = cin_dossierDigest i"
  "rcp_planDigest (seal_receipt E i) = cin_planDigest i"
  "rcp_approvalDecisionDigest (seal_receipt E i) = truthy_only (cin_approvalDecisionDigest i)"
  "rcp_action (seal_receipt E i) = cin_action i"
  "rcp_idempotencyKey (seal_receipt E i) = cin_idempotencyKey i"
  "rcp_before (seal_receipt E i) = cin_before i"
  "rcp_after (seal_receipt E i) = cin_after i"
  "rcp_mutation (seal_receipt E i) = cin_mutation i"
  "rcp_checks (seal_receipt E i) = cin_checks i"
  "rcp_rollback (seal_receipt E i) = cin_rollback i"
  "rcp_events (seal_receipt E i) = buildEvents E (eventPayloads i)"
  "rcp_startedAt (seal_receipt E i) = cin_startedAt i"
  "rcp_completedAt (seal_receipt E i) = cin_completedAt i"
  by (simp_all add: seal_receipt_def Let_def)

lemma seal_receipt_digest:
  "rcp_digest (seal_receipt E i) = digest E (receipt_payload (seal_receipt E i))"
  "rcp_receiptId (seal_receipt E i)
     = ''receipt-'' @ short_digest (digest E (receipt_payload (seal_receipt E i)))"
  by (simp_all add: seal_receipt_def Let_def receipt_payload_def)

lemma eventPayloads_sealed [simp]: "eventPayloads (input_of (seal_receipt E i)) = eventPayloads i"
  by (simp add: eventPayloads_def input_of_def split: option.split) (simp add: truthy_only_def)

lemma createExecutionReceipt_Inr:
  "createExecutionReceipt E i = Inr r \<longleftrightarrow>
     r = seal_receipt E i \<and> actionValid E (cin_action i) \<and> cin_executionId i \<noteq> []
     \<and> cin_idempotencyKey i \<noteq> [] \<and> verified_or_absent E (cin_before i)
     \<and> verified_or_absent E (cin_after i)"
  by (auto simp: createExecutionReceipt_def)

lemma issued_integrity:
  "createExecutionReceipt E i = Inr r \<Longrightarrow> receipt_integrity E r"
  unfolding createExecutionReceipt_Inr receipt_integrity_def
  by (auto simp: seal_receipt_digest(2) buildEvents_def) (simp_all add: seal_receipt_digest(1))

subsection \<open>Receipts encode injectively\<close>

lemma outcome_name_inj [simp]: "outcome_name a = outcome_name b \<longleftrightarrow> a = b"
  by (cases a; cases b) auto

lemma check_name_inj [simp]: "check_name a = check_name b \<longleftrightarrow> a = b"
  by (cases a; cases b) auto

lemma event_kind_name_inj [simp]: "event_kind_name a = event_kind_name b \<longleftrightarrow> a = b"
  by (cases a; cases b) auto

lemma availability_name_inj [simp]: "availability_name a = availability_name b \<longleftrightarrow> a = b"
  by (cases a; cases b) auto

lemma check_inj: "canon (check_json f) = canon (check_json g) \<Longrightarrow> f = g"
  unfolding check_json_def by (drule canon_same_keys) (auto intro: VerificationCheck.equality)

lemma ack_inj: "canon (ack_json f) = canon (ack_json g) \<Longrightarrow> f = g"
  unfolding ack_json_def by (drule canon_same_keys) (auto intro: MutationAck.equality)

lemma event_inj: "canon (event_json f) = canon (event_json g) \<Longrightarrow> f = g"
  unfolding event_json_def by (drule canon_same_keys) (auto intro: ReceiptEvent.equality)

text \<open>One field, present or absent, of two objects with equal canonical forms.\<close>

lemma field_inj:
  assumes "canon (JObj kvs) = canon (JObj kws)" "distinct (map fst kvs)" "distinct (map fst kws)"
    and "k \<noteq> ''__proto__''" "map_of kvs k = map_option f a" "map_of kws k = map_option f b"
    and "\<And>x y. canon (f x) = canon (f y) \<Longrightarrow> x = y"
  shows "a = b"
  using canon_obj_lookup [OF assms(1-4)] assms(5-7) by (cases a; cases b) auto

lemma anchor_inj:
  assumes "canon (anchor_json p) = canon (anchor_json q)"
  shows "p = q"
proof -
  let ?kvs = "\<lambda>a. [(''availability'', JStr (availability_name (ra_availability a)))]
           @ opt_field ''inverseActionDigest'' JStr (ra_inverseActionDigest a)
           @ opt_field ''restoreStateDigest'' JStr (ra_restoreStateDigest a)
           @ opt_field ''reason'' JStr (ra_reason a)"
  have d: "distinct (map fst (?kvs a))" for a
    by (simp add: opt_field_def split: option.split)
  note eq = field_inj [OF assms [unfolded anchor_json_def] d d]
  have "Some (ra_availability p) = Some (ra_availability q)"
    by (rule eq [of "''availability''" "\<lambda>x. JStr (availability_name x)"]) simp_all
  moreover have "ra_inverseActionDigest p = ra_inverseActionDigest q"
    by (rule eq [of "''inverseActionDigest''" JStr])
      (simp_all add: map_of_opt_field map_add_def split: option.split)
  moreover have "ra_restoreStateDigest p = ra_restoreStateDigest q"
    by (rule eq [of "''restoreStateDigest''" JStr])
      (simp_all add: map_of_opt_field map_add_def split: option.split)
  moreover have "ra_reason p = ra_reason q"
    by (rule eq [of "''reason''" JStr])
      (simp_all add: map_of_opt_field map_add_def split: option.split)
  ultimately show ?thesis by (simp add: RollbackAnchor.equality)
qed

lemma receipt_payload_inj:
  assumes "canon (receipt_payload r) = canon (receipt_payload s)"
  shows "r\<lparr>rcp_receiptId := i, rcp_digest := x\<rparr> = s\<lparr>rcp_receiptId := i, rcp_digest := x\<rparr>"
proof -
  let ?kvs = "\<lambda>r. [(''schemaVersion'', JStr (rcp_schemaVersion r)), (''executionId'', JStr (rcp_executionId r)),
            (''outcome'', JStr (outcome_name (rcp_outcome r))),
            (''dossierDigest'', JStr (rcp_dossierDigest r)), (''planDigest'', JStr (rcp_planDigest r))]
           @ opt_field ''approvalDecisionDigest'' JStr (rcp_approvalDecisionDigest r)
           @ [(''action'', action_json (rcp_action r)), (''idempotencyKey'', JStr (rcp_idempotencyKey r))]
           @ opt_field ''before'' tag_projection_json (rcp_before r)
           @ opt_field ''after'' tag_projection_json (rcp_after r)
           @ opt_field ''mutation'' ack_json (rcp_mutation r)
           @ [(''checks'', JArr (map check_json (rcp_checks r))), (''rollback'', anchor_json (rcp_rollback r)),
              (''events'', JArr (map event_json (rcp_events r))),
              (''startedAt'', JStr (rcp_startedAt r)), (''completedAt'', JStr (rcp_completedAt r))]"
  have d: "distinct (map fst (?kvs r))" for r
    by (simp add: opt_field_def split: option.split)
  note eq = field_inj [OF assms [unfolded receipt_payload_def] d d]
  note look = map_of_opt_field map_add_def
  have "Some (rcp_schemaVersion r) = Some (rcp_schemaVersion s)"
    by (rule eq [of "''schemaVersion''" JStr]) (simp_all add: look)
  moreover have "Some (rcp_executionId r) = Some (rcp_executionId s)"
    by (rule eq [of "''executionId''" JStr]) (simp_all add: look)
  moreover have "Some (rcp_outcome r) = Some (rcp_outcome s)"
    by (rule eq [of "''outcome''" "\<lambda>x. JStr (outcome_name x)"]) (simp_all add: look)
  moreover have "Some (rcp_dossierDigest r) = Some (rcp_dossierDigest s)"
    by (rule eq [of "''dossierDigest''" JStr]) (simp_all add: look)
  moreover have "Some (rcp_planDigest r) = Some (rcp_planDigest s)"
    by (rule eq [of "''planDigest''" JStr]) (simp_all add: look)
  moreover have "rcp_approvalDecisionDigest r = rcp_approvalDecisionDigest s"
    by (rule eq [of "''approvalDecisionDigest''" JStr]) (simp_all add: look split: option.split)
  moreover have "Some (rcp_action r) = Some (rcp_action s)"
    by (rule eq [of "''action''" action_json]) (simp_all add: look action_inj)
  moreover have "Some (rcp_idempotencyKey r) = Some (rcp_idempotencyKey s)"
    by (rule eq [of "''idempotencyKey''" JStr]) (simp_all add: look)
  moreover have "rcp_before r = rcp_before s"
    by (rule eq [of "''before''" tag_projection_json])
      (simp_all add: look tag_projection_inj split: option.split)
  moreover have "rcp_after r = rcp_after s"
    by (rule eq [of "''after''" tag_projection_json])
      (simp_all add: look tag_projection_inj split: option.split)
  moreover have "rcp_mutation r = rcp_mutation s"
    by (rule eq [of "''mutation''" ack_json]) (simp_all add: look ack_inj split: option.split)
  moreover have "Some (rcp_checks r) = Some (rcp_checks s)"
    by (rule eq [of "''checks''" "\<lambda>x. JArr (map check_json x)"])
      (auto simp: look dest: canon_map_inj [OF _ check_inj])
  moreover have "Some (rcp_rollback r) = Some (rcp_rollback s)"
    by (rule eq [of "''rollback''" anchor_json]) (simp_all add: look anchor_inj)
  moreover have "Some (rcp_events r) = Some (rcp_events s)"
    by (rule eq [of "''events''" "\<lambda>x. JArr (map event_json x)"])
      (auto simp: look dest: canon_map_inj [OF _ event_inj])
  moreover have "Some (rcp_startedAt r) = Some (rcp_startedAt s)"
    by (rule eq [of "''startedAt''" JStr]) (simp_all add: look)
  moreover have "Some (rcp_completedAt r) = Some (rcp_completedAt s)"
    by (rule eq [of "''completedAt''" JStr]) (simp_all add: look)
  ultimately show ?thesis by (simp add: ExecutionReceiptV1.equality)
qed

subsection \<open>What a valid receipt shows\<close>

lemma verified_checks_pass:
  assumes "receipt_valid E r" "rcp_outcome r = VERIFIED"
  shows "map snd (expectedCheckPasses E r) = [True, True, True, True, True]"
proof -
  have m: "checks_match E r" and p: "list_all chk_passed (rcp_checks r)"
    using assms by (simp_all add: receipt_valid_iff evidence_sound_def)
  have eq: "map chk_passed (rcp_checks r) = map snd (expectedCheckPasses E r)"
    using arg_cong [OF m [unfolded checks_match_def], of "map snd"] by (simp add: o_def)
  have "map chk_passed (rcp_checks r) = replicate (length (rcp_checks r)) True"
    using p by (simp add: list_all_iff map_replicate_const cong: map_cong)
  moreover have "length (rcp_checks r) = 5"
    using arg_cong [OF eq, of length] by simp
  ultimately show ?thesis using eq by (simp add: eval_nat_numeral)
qed

lemma verified_receipt_states:
  assumes "receipt_valid E r" "rcp_outcome r = VERIFIED"
  shows "\<exists>before after m tag. rcp_before r = Some before \<and> rcp_after r = Some after
    \<and> rcp_mutation r = Some m
    \<and> first (arg_tag_urns (act_arguments (rcp_action r))) = Some tag
    \<and> verifyTagProjection E before \<and> verifyTagProjection E after
    \<and> tp_entityUrn after = tp_entityUrn before \<and> tp_columnPath after = tp_columnPath before
    \<and> tp_tags after = uniqueSorted E (tp_tags before @ [tag])
    \<and> ack_requestDigest m = digest E (request_json (action_request (rcp_action r)))
    \<and> truthy (rcp_approvalDecisionDigest r)
    \<and> ra_restoreStateDigest (rcp_rollback r) = Some (tp_digest before)
    \<and> ra_inverseActionDigest (rcp_rollback r)
        = Some (digest E (inverse_json (act_inverse (rcp_action r))))"
proof -
  have v: "receipt_integrity E r" "evidence_sound E r"
    using assms(1) by (simp_all add: receipt_valid_iff)
  from v(2) assms(2) obtain before after m where st: "rcp_before r = Some before"
      "rcp_after r = Some after" "rcp_mutation r = Some m"
      "ra_availability (rcp_rollback r) = ELIGIBLE"
    by (auto simp: evidence_sound_def)
  have rb: "ra_restoreStateDigest (rcp_rollback r) = Some (tp_digest before)"
    "ra_inverseActionDigest (rcp_rollback r)
      = Some (digest E (inverse_json (act_inverse (rcp_action r))))"
    using v(2) st by (auto simp: evidence_sound_def)
  have bv: "verifyTagProjection E before" "verifyTagProjection E after"
    using v(1) st by (simp_all add: receipt_integrity_def verified_or_absent_def)
  obtain tag where tag: "first (arg_tag_urns (act_arguments (rcp_action r))) = Some tag"
    using verified_checks_pass [OF assms] by (auto simp: expectedCheckPasses_def Let_def split: option.splits)
  show ?thesis
    using verified_checks_pass [OF assms] st rb bv tag
    by (auto simp: expectedCheckPasses_def Let_def)
qed

lemma rollback_proposal_payload_ids [simp]:
  "rollback_proposal_payload (p\<lparr>rbp_rollbackId := i, rbp_digest := d\<rparr>) = rollback_proposal_payload p"
  by (simp add: rollback_proposal_payload_def)

lemma seal_rollback_verifies: "hex_sha256 E \<Longrightarrow> verifyRollbackProposal E (seal_rollback E a b c u)"
  by (simp add: verifyRollbackProposal_def seal_rollback_def Let_def
      rollback_proposal_payload_def)

lemma seal_rollback_simps [simp]:
  "rbp_originalReceiptDigest (seal_rollback E a b c u) = a"
  "rbp_expectedCurrentDigest (seal_rollback E a b c u) = b"
  "rbp_restoreStateDigest (seal_rollback E a b c u) = c"
  "rbp_inverseAction (seal_rollback E a b c u) = u"
  by (simp_all add: seal_rollback_def Let_def)

text \<open>Two verified projections with one digest are one projection, short of a collision.\<close>

lemma projection_digest_binds:
  assumes "verifyTagProjection E p" "verifyTagProjection E q" "tp_digest p = tp_digest q"
    and "no_collision E (projection_payload p) (projection_payload q)"
  shows "p = q"
proof -
  have "digest E (projection_payload p) = digest E (projection_payload q)"
    using assms(1-3) unfolding verifyTagProjection_def by (metis verifyDigestD)
  from digest_eqD [OF this assms(4)]
  have "tp_entityUrn p = tp_entityUrn q \<and> tp_columnPath p = tp_columnPath q \<and> tp_tags p = tp_tags q"
    unfolding projection_payload_def by (rule tag_projection_payload_inj)
  with assms(3) show ?thesis by (simp add: TagProjection.equality)
qed

subsection \<open>A receipt for the witnesses\<close>

definition demo_action :: AddClassificationTagActionV1 where
  "demo_action = seal_action demo_env \<lparr>arg_tag_urns = [''urn:li:tag:PII''],
     arg_entity_urns = [''urn:li:dataset:users''], arg_column_paths = [''email'']\<rparr>"

definition demo_after :: TagProjection where
  "demo_after = seal_projection demo_env ''urn:li:dataset:users'' ''email''
     [''urn:li:tag:Core'', ''urn:li:tag:PII'']"

definition demo_checks :: "VerificationCheck list" where
  "demo_checks = map (\<lambda>c. \<lparr>chk_checkId = c, chk_passed = True, chk_evidence = []\<rparr>)
     [TARGET_UNCHANGED, PREEXISTING_TAGS_PRESERVED, POLICY_TAG_PRESENT, NO_UNEXPECTED_TAGS,
      APPROVAL_BINDING_VALID]"

definition demo_receipt_input :: CreateExecutionReceiptInput where
  "demo_receipt_input =
     \<lparr>cin_executionId = ''execution-1'', cin_outcome = VERIFIED, cin_dossierDigest = demo_digest,
      cin_planDigest = demo_digest, cin_approvalDecisionDigest = Some demo_digest,
      cin_action = demo_action, cin_idempotencyKey = ''key-1'', cin_before = Some demo_before,
      cin_after = Some demo_after,
      cin_mutation = Some \<lparr>ack_requestDigest = demo_digest, ack_responseDigest = demo_digest\<rparr>,
      cin_checks = demo_checks,
      cin_rollback = \<lparr>ra_availability = ELIGIBLE, ra_inverseActionDigest = Some demo_digest,
        ra_restoreStateDigest = Some demo_digest, ra_reason = None\<rparr>,
      cin_startedAt = ''2026-01-01T00:00:00.000Z'', cin_completedAt = ''2026-01-01T00:00:01.000Z''\<rparr>"

definition demo_receipt :: ExecutionReceiptV1 where
  "demo_receipt = seal_receipt demo_env demo_receipt_input"

lemma demo_after_eq: "uniqueSorted demo_env (tp_tags demo_before @ [''urn:li:tag:PII'']) = tp_tags demo_after"
  by (simp add: demo_before_def demo_after_def seal_projection_def uniqueSorted_def dedupe_def cmp_units_def)

lemma demo_after_verifies [simp]: "verifyTagProjection demo_env demo_after"
  by (simp add: verifyTagProjection_def demo_after_def projection_payload_def verifyDigest_def
      nonempty_eval uniqueSorted_def dedupe_def cmp_units_def seal_projection_def)

lemma demo_projection_simps [simp]:
  "tp_digest demo_before = demo_digest" "tp_digest demo_after = demo_digest"
  "tp_entityUrn demo_before = ''urn:li:dataset:users''" "tp_entityUrn demo_after = ''urn:li:dataset:users''"
  "tp_columnPath demo_before = ''email''" "tp_columnPath demo_after = ''email''"
  "tp_tags demo_before = [''urn:li:tag:Core'']" "tp_tags demo_after = [''urn:li:tag:Core'', ''urn:li:tag:PII'']"
  by (simp_all add: demo_before_def demo_after_def seal_projection_def)

lemma demo_action_valid [simp]: "actionValid demo_env demo_action"
  by (simp add: actionValid_def demo_action_def verifyDigest_def seal_action_digest)

lemma demo_action_arguments [simp]:
  "act_arguments demo_action = \<lparr>arg_tag_urns = [''urn:li:tag:PII''],
     arg_entity_urns = [''urn:li:dataset:users''], arg_column_paths = [''email'']\<rparr>"
  by (simp add: demo_action_def)

lemma demo_receipt_issued: "createExecutionReceipt demo_env demo_receipt_input = Inr demo_receipt"
  unfolding createExecutionReceipt_Inr
  by (simp add: demo_receipt_def demo_receipt_input_def verified_or_absent_def)

lemma demo_receipt_valid [simp]: "receipt_valid demo_env demo_receipt"
proof -
  have "checks_match demo_env demo_receipt"
    using demo_after_eq
    by (simp add: checks_match_def expectedCheckPasses_def Let_def demo_receipt_def demo_receipt_input_def
        demo_checks_def truthy_only_def demo_digest_def)
  then show ?thesis
    using issued_integrity [OF demo_receipt_issued]
    by (simp add: receipt_valid_iff evidence_sound_def)
      (simp add: demo_receipt_def demo_receipt_input_def demo_checks_def)
qed

subsection \<open>Properties\<close>

text \<open>
  C16: issuing and verifying agree. Every receipt \<open>createExecutionReceipt\<close> issues passes all seals of
  \<open>verifyExecutionReceipt\<close> (schema, digest, id, action, states, the event chain), so it verifies
  exactly when its evidence is sound: the mutation answers the action's request, the checks restate
  what the states show, an eligible rollback names the inverse action and the pre-state, and a
  \<open>VERIFIED\<close> outcome has both states, the mutation and passing checks.
\<close>

theorem issued_receipt_verifies_iff:
  assumes "createExecutionReceipt E i = Inr r"
  shows "verifyExecutionReceipt E r = [] \<longleftrightarrow> evidence_sound E r"
  using receipt_valid_iff [of E r] issued_integrity [OF assms] by (simp add: receipt_valid_def)

theorem issued_receipt_verifies_iff_witness:
  "verifyExecutionReceipt demo_env demo_receipt = [] \<and> evidence_sound demo_env demo_receipt"
  using issued_receipt_verifies_iff [OF demo_receipt_issued] demo_receipt_valid
  by (simp add: receipt_valid_def)

text \<open>
  C17: what a valid \<open>VERIFIED\<close> receipt proves to whoever holds it: both observed states are sealed and
  are of one entity and column, the tags after are exactly the tags before plus the policy's tag, the
  mutation answered the request built from the action, an approval is bound, and the rollback anchor
  names the pre-state and the inverse action.
\<close>

theorem verified_receipt_proves:
  assumes "verifyExecutionReceipt E r = []" and "rcp_outcome r = VERIFIED"
  shows "\<exists>before after m tag. rcp_before r = Some before \<and> rcp_after r = Some after
    \<and> rcp_mutation r = Some m
    \<and> first (arg_tag_urns (act_arguments (rcp_action r))) = Some tag
    \<and> verifyTagProjection E before \<and> verifyTagProjection E after
    \<and> tp_entityUrn after = tp_entityUrn before \<and> tp_columnPath after = tp_columnPath before
    \<and> set (tp_tags after) = insert tag (set (tp_tags before))
    \<and> ack_requestDigest m = digest E (request_json (action_request (rcp_action r)))
    \<and> truthy (rcp_approvalDecisionDigest r)
    \<and> ra_restoreStateDigest (rcp_rollback r) = Some (tp_digest before)
    \<and> ra_inverseActionDigest (rcp_rollback r)
        = Some (digest E (inverse_json (act_inverse (rcp_action r))))"
  using verified_receipt_states [of E r] assms by (fastforce simp: receipt_valid_def)

theorem verified_receipt_proves_witness:
  "verifyExecutionReceipt demo_env demo_receipt = []
   \<and> (\<exists>before after. rcp_before demo_receipt = Some before \<and> rcp_after demo_receipt = Some after
       \<and> set (tp_tags after) = insert ''urn:li:tag:PII'' (set (tp_tags before)))"
  using verified_receipt_proves [of demo_env demo_receipt] demo_receipt_valid
  by (auto simp: receipt_valid_def) (auto simp: demo_receipt_def demo_receipt_input_def)

text \<open>
  Receipts are tamper-evident: two receipts that verify and carry the same digest agree in every
  field, their whole event chains included, unless their canonical texts are a SHA-256 collision.
\<close>

theorem receipt_digest_binds:
  assumes "verifyExecutionReceipt E r = []" and "verifyExecutionReceipt E s = []"
    and "rcp_digest r = rcp_digest s" and "no_collision E (receipt_payload r) (receipt_payload s)"
  shows "r = s"
proof -
  have "receipt_integrity E r" "receipt_integrity E s"
    using assms(1,2) receipt_valid_iff by (simp_all add: receipt_valid_def)
  then have "digest E (receipt_payload r) = digest E (receipt_payload s)"
    "rcp_receiptId r = rcp_receiptId s"
    using assms(3) by (simp_all add: receipt_integrity_def)
  with assms(4) have "canon (receipt_payload r) = canon (receipt_payload s)"
    by (blast dest: digest_eqD)
  from receipt_payload_inj [OF this, of "rcp_receiptId r" "rcp_digest r"]
  show ?thesis using assms(3) \<open>rcp_receiptId r = rcp_receiptId s\<close> by (cases r; cases s) simp
qed

theorem receipt_digest_binds_witness:
  "\<exists>r. createExecutionReceipt demo_env demo_receipt_input = Inr r \<and> r = demo_receipt"
proof -
  obtain r where r: "createExecutionReceipt demo_env demo_receipt_input = Inr r"
    using demo_receipt_issued by blast
  then have eq: "r = seal_receipt demo_env demo_receipt_input" by (simp add: createExecutionReceipt_Inr)
  have "verifyExecutionReceipt demo_env r = []" "verifyExecutionReceipt demo_env demo_receipt = []"
    "rcp_digest r = rcp_digest demo_receipt"
    "no_collision demo_env (receipt_payload r) (receipt_payload demo_receipt)"
    using demo_receipt_valid by (simp_all add: eq receipt_valid_def demo_receipt_def [symmetric] no_collision_def)
  from receipt_digest_binds [OF this] r show ?thesis by blast
qed

text \<open>
  a rollback is proposed exactly when it can restore: the receipt verifies with outcome
  \<open>VERIFIED\<close>, the current state is sealed and carries the digest of the recorded post-state, and the
  tag was absent before. The proposal then verifies, binds the receipt and the current state, restores
  the recorded pre-state and carries the inverse action; \<open>createRollbackProposal\<close> never throws.
\<close>

theorem rollback_proposed_iff:
  assumes "hex_sha256 E"
  shows "(\<exists>o'. createRollbackProposal E r cur = Inr o')
    \<and> ((\<exists>p. createRollbackProposal E r cur = Inr (Some p)) \<longleftrightarrow>
         verifyExecutionReceipt E r = [] \<and> rcp_outcome r = VERIFIED \<and> verifyTagProjection E cur
         \<and> map_option tp_digest (rcp_after r) = Some (tp_digest cur)
         \<and> (\<exists>tag before. first (arg_tag_urns (act_arguments (rcp_action r))) = Some tag
              \<and> rcp_before r = Some before \<and> tag \<notin> set (tp_tags before)))
    \<and> (\<forall>p. createRollbackProposal E r cur = Inr (Some p) \<longrightarrow>
         verifyRollbackProposal E p \<and> rbp_originalReceiptDigest p = rcp_digest r
         \<and> rbp_expectedCurrentDigest p = tp_digest cur
         \<and> Some (rbp_restoreStateDigest p) = map_option tp_digest (rcp_before r)
         \<and> rbp_inverseAction p = act_inverse (rcp_action r))"
proof (cases "receipt_valid E r \<and> rcp_outcome r = VERIFIED")
  case True
  then obtain before after m tag where *: "rcp_before r = Some before" "rcp_after r = Some after"
    "first (arg_tag_urns (act_arguments (rcp_action r))) = Some tag"
    "tp_tags after = uniqueSorted E (tp_tags before @ [tag])"
    using verified_receipt_states [of E r] by blast
  moreover have "ra_availability (rcp_rollback r) = ELIGIBLE"
    using True by (simp add: receipt_valid_iff evidence_sound_def)
  ultimately show ?thesis
    using True seal_rollback_verifies [OF assms]
    by (auto simp: createRollbackProposal_def Let_def receipt_valid_def)
next
  case False
  then show ?thesis
    by (auto simp: createRollbackProposal_def receipt_valid_def split: option.splits)
qed

theorem rollback_proposed_iff_witness:
  "\<exists>p. createRollbackProposal demo_env demo_receipt demo_after = Inr (Some p)
     \<and> verifyRollbackProposal demo_env p"
  using rollback_proposed_iff [OF hex_demo_env, of demo_receipt demo_after] demo_receipt_valid
  by (auto simp: receipt_valid_def) (auto simp: demo_receipt_def demo_receipt_input_def)

end
