(* ===== verification/Journal.thy ===== *)
theory Journal
  imports Receipt
begin

section \<open>The execution journal: \<open>ExecutionJournal\<close> and \<open>InMemoryExecutionJournal\<close>\<close>

text \<open>
  The journal decides who may execute an approval. The interface of \<open>contracts.ts\<close> is the record
  \<open>ExecutionJournal\<close> of three state-passing operations; the locale \<open>execution_journal\<close> states what its
  clients rely on, and proves what follows for every sequence of calls. The class
  \<open>InMemoryExecutionJournal\<close> of \<open>control-loop.ts\<close> is modelled operation by operation and interprets
  the locale. Time is an argument of each call (the class reads it from its \<open>now\<close> function), and no
  order of the times is assumed.
\<close>

datatype RemediationErrorCode = INVALID_ARTIFACT | APPROVAL_BINDING_MISMATCH | APPROVAL_EXPIRED
  | APPROVER_UNAUTHORIZED | APPROVAL_REPLAY | EXECUTION_IN_PROGRESS | JOURNAL_STATE_ERROR

datatype LoopError = RemediationError RemediationErrorCode string | PlainError string

record 'j ExecutionJournal =
  claim :: "int \<Rightarrow> 'j \<Rightarrow> ClaimInput \<Rightarrow> ExecutionClaim \<times> 'j"
  resume :: "int \<Rightarrow> 'j \<Rightarrow> ExecutionJournalLease \<Rightarrow> bool \<times> 'j"
  complete :: "'j \<Rightarrow> ExecutionJournalLease \<Rightarrow> ExecutionReceiptV1 \<Rightarrow> LoopError + 'j"

subsection \<open>The in-memory journal\<close>

datatype JournalStatus = JS_IN_PROGRESS | JS_RECONCILING | JS_COMPLETED

record JournalEntry =
  je_approvalId :: string
  je_approvalDecisionDigest :: string
  je_fencingToken :: nat
  je_leaseExpiresAt :: int
  je_status :: JournalStatus
  je_receipt :: "ExecutionReceiptV1 option"

record MemoryJournal =
  byIdempotencyKey :: "string \<Rightarrow> JournalEntry option"
  approvalToIdempotencyKey :: "string \<Rightarrow> string option"

definition empty_journal :: MemoryJournal where
  "empty_journal = \<lparr>byIdempotencyKey = (\<lambda>k. None), approvalToIdempotencyKey = (\<lambda>a. None)\<rparr>"

text \<open>\<open>existing.field = value\<close> on the entry stored under a key.\<close>

definition put_entry :: "string \<Rightarrow> JournalEntry \<Rightarrow> MemoryJournal \<Rightarrow> MemoryJournal" where
  "put_entry k e j = j\<lparr>byIdempotencyKey := (byIdempotencyKey j)(k := Some e)\<rparr>"

definition mem_claim ::
    "int \<Rightarrow> int \<Rightarrow> MemoryJournal \<Rightarrow> ClaimInput \<Rightarrow> ExecutionClaim \<times> MemoryJournal" where
  "mem_claim leaseMilliseconds now j i =
     (case byIdempotencyKey j (ci_idempotencyKey i) of
        Some existing \<Rightarrow>
          if je_approvalId existing \<noteq> ci_approvalId i
             \<or> je_approvalDecisionDigest existing \<noteq> ci_approvalDecisionDigest i
          then (APPROVAL_ALREADY_USED, j)
          else (case je_receipt existing of
              Some r \<Rightarrow> (COMPLETED r, j)
            | None \<Rightarrow>
                if je_leaseExpiresAt existing > now then (IN_PROGRESS, j)
                else let token = je_fencingToken existing + 1 in
                  (RECONCILE token,
                   put_entry (ci_idempotencyKey i)
                     (existing\<lparr>je_fencingToken := token, je_leaseExpiresAt := now + leaseMilliseconds,
                               je_status := JS_RECONCILING\<rparr>) j))
      | None \<Rightarrow>
          if approvalToIdempotencyKey j (ci_approvalId i) \<noteq> None then (APPROVAL_ALREADY_USED, j)
          else (CLAIMED 1,
            (put_entry (ci_idempotencyKey i)
               \<lparr>je_approvalId = ci_approvalId i,
                je_approvalDecisionDigest = ci_approvalDecisionDigest i,
                je_fencingToken = 1, je_leaseExpiresAt = now + leaseMilliseconds,
                je_status = JS_IN_PROGRESS, je_receipt = None\<rparr> j)
            \<lparr>approvalToIdempotencyKey :=
               (approvalToIdempotencyKey j)(ci_approvalId i := Some (ci_idempotencyKey i))\<rparr>))"

definition mem_complete ::
    "MemoryJournal \<Rightarrow> ExecutionJournalLease \<Rightarrow> ExecutionReceiptV1 \<Rightarrow> LoopError + MemoryJournal" where
  "mem_complete j l r =
     (case byIdempotencyKey j (ls_idempotencyKey l) of
        None \<Rightarrow> Inl (RemediationError EXECUTION_IN_PROGRESS ''A newer worker owns this execution lease.'')
      | Some existing \<Rightarrow>
          if je_fencingToken existing \<noteq> ls_fencingToken l
          then Inl (RemediationError EXECUTION_IN_PROGRESS ''A newer worker owns this execution lease.'')
          else if rcp_idempotencyKey r \<noteq> ls_idempotencyKey l
                  \<or> rcp_approvalDecisionDigest r \<noteq> Some (je_approvalDecisionDigest existing)
          then Inl (RemediationError JOURNAL_STATE_ERROR
                      ''Receipt binding does not match the claimed execution.'')
          else (case je_receipt existing of
              Some done' \<Rightarrow>
                if rcp_digest done' = rcp_digest r then Inr j
                else Inl (RemediationError JOURNAL_STATE_ERROR
                            ''A completed execution cannot be replaced.'')
            | None \<Rightarrow>
                if je_status existing \<noteq> JS_IN_PROGRESS \<and> je_status existing \<noteq> JS_RECONCILING
                then Inl (RemediationError JOURNAL_STATE_ERROR
                            ''Cannot complete an execution outside an active lease.'')
                else Inr (put_entry (ls_idempotencyKey l)
                       (existing\<lparr>je_receipt := Some r, je_status := JS_COMPLETED\<rparr>) j)))"

definition mem_resume ::
    "int \<Rightarrow> int \<Rightarrow> MemoryJournal \<Rightarrow> ExecutionJournalLease \<Rightarrow> bool \<times> MemoryJournal" where
  "mem_resume leaseMilliseconds now j l =
     (case byIdempotencyKey j (ls_idempotencyKey l) of
        None \<Rightarrow> (False, j)
      | Some existing \<Rightarrow>
          if je_receipt existing \<noteq> None
             \<or> je_status existing \<noteq> JS_RECONCILING
             \<or> je_fencingToken existing \<noteq> ls_fencingToken l
             \<or> je_leaseExpiresAt existing < now
          then (False, j)
          else (True, put_entry (ls_idempotencyKey l)
                  (existing\<lparr>je_status := JS_IN_PROGRESS,
                            je_leaseExpiresAt := now + leaseMilliseconds\<rparr>) j))"

definition InMemoryExecutionJournal :: "int \<Rightarrow> MemoryJournal ExecutionJournal" where
  "InMemoryExecutionJournal leaseMilliseconds =
     \<lparr>claim = mem_claim leaseMilliseconds, resume = mem_resume leaseMilliseconds,
      complete = mem_complete\<rparr>"

definition LEASE_MILLISECONDS :: int where
  "LEASE_MILLISECONDS = 10 * 60 * 1000"

subsection \<open>Sequences of calls\<close>

text \<open>
  Any interleaving of any number of workers is some list of calls. A call's event says what it
  returned: a granted lease, a stored receipt, a completion, or nothing of note.
\<close>

datatype journal_call = Claim int ClaimInput | Resume int ExecutionJournalLease
  | Complete ExecutionJournalLease ExecutionReceiptV1

datatype journal_event = Granted string string nat | Replayed string ExecutionReceiptV1
  | Stored ExecutionJournalLease ExecutionReceiptV1 | Refused LoopError | Other

fun claim_event :: "ClaimInput \<Rightarrow> ExecutionClaim \<Rightarrow> journal_event" where
  "claim_event i (CLAIMED n) = Granted (ci_idempotencyKey i) (ci_approvalId i) n"
| "claim_event i (RECONCILE n) = Granted (ci_idempotencyKey i) (ci_approvalId i) n"
| "claim_event i (COMPLETED r) = Replayed (ci_idempotencyKey i) r"
| "claim_event i IN_PROGRESS = Other"
| "claim_event i APPROVAL_ALREADY_USED = Other"

fun journal_step :: "'j ExecutionJournal \<Rightarrow> 'j \<Rightarrow> journal_call \<Rightarrow> journal_event \<times> 'j" where
  "journal_step J j (Claim now i) = (let (c, j') = claim J now j i in (claim_event i c, j'))"
| "journal_step J j (Resume now l) = (Other, snd (resume J now j l))"
| "journal_step J j (Complete l r) =
     (case complete J j l r of Inl e \<Rightarrow> (Refused e, j) | Inr j' \<Rightarrow> (Stored l r, j'))"

fun journal_run :: "'j ExecutionJournal \<Rightarrow> 'j \<Rightarrow> journal_call list \<Rightarrow> journal_event list \<times> 'j" where
  "journal_run J j [] = ([], j)"
| "journal_run J j (c # cs) =
     (let (ev, j') = journal_step J j c; (evs, j'') = journal_run J j' cs in (ev # evs, j''))"

subsection \<open>The contract\<close>

text \<open>
  What a client observes of a key: its owner (the approval and the decision digest it was first
  claimed with), the newest fencing token granted, and the stored receipt.
\<close>

locale execution_journal =
  fixes J :: "'j ExecutionJournal"
    and wf :: "'j \<Rightarrow> bool"
    and owner :: "'j \<Rightarrow> string \<Rightarrow> (string \<times> string) option"
    and token :: "'j \<Rightarrow> string \<Rightarrow> nat"
    and stored :: "'j \<Rightarrow> string \<Rightarrow> ExecutionReceiptV1 option"
  assumes wf_step: "wf j \<Longrightarrow> wf (snd (journal_step J j c))"
    and owner_unique: "wf j \<Longrightarrow> owner j k = Some (a, d) \<Longrightarrow> owner j k' = Some (a, d') \<Longrightarrow> k = k'"
    and stored_bound: "wf j \<Longrightarrow> stored j k = Some r \<Longrightarrow>
      rcp_idempotencyKey r = k \<and> (\<exists>a d. owner j k = Some (a, d) \<and> rcp_approvalDecisionDigest r = Some d)"
    and owner_keeps: "wf j \<Longrightarrow> owner j k = Some x \<Longrightarrow> owner (snd (journal_step J j c)) k = Some x"
    and token_grows: "wf j \<Longrightarrow> token j k \<le> token (snd (journal_step J j c)) k"
    and stored_keeps: "wf j \<Longrightarrow> stored j k = Some r \<Longrightarrow> stored (snd (journal_step J j c)) k = Some r"
    and grant: "wf j \<Longrightarrow> journal_step J j c = (Granted k a n, j') \<Longrightarrow>
      token j k < n \<and> token j' k = n \<and> stored j k = None \<and> (\<exists>d. owner j' k = Some (a, d))"
    and claim_stored: "wf j \<Longrightarrow> owner j (ci_idempotencyKey i) = Some (a, d) \<Longrightarrow>
      stored j (ci_idempotencyKey i) = Some r \<Longrightarrow>
      fst (claim J now j i) = (if ci_approvalId i = a \<and> ci_approvalDecisionDigest i = d
                               then COMPLETED r else APPROVAL_ALREADY_USED)
      \<and> snd (claim J now j i) = j"
    and claim_completed: "wf j \<Longrightarrow> fst (claim J now j i) = COMPLETED r \<Longrightarrow>
      stored j (ci_idempotencyKey i) = Some r
      \<and> owner j (ci_idempotencyKey i) = Some (ci_approvalId i, ci_approvalDecisionDigest i)"
    and claim_other_key: "wf j \<Longrightarrow> owner j k = Some (a, d) \<Longrightarrow> ci_approvalId i = a \<Longrightarrow>
      ci_idempotencyKey i \<noteq> k \<Longrightarrow> claim J now j i = (APPROVAL_ALREADY_USED, j)"
    and fenced: "wf j \<Longrightarrow> ls_fencingToken l \<noteq> token j (ls_idempotencyKey l) \<Longrightarrow>
      \<exists>m. complete J j l r = Inl (RemediationError EXECUTION_IN_PROGRESS m)"
    and complete_stores: "wf j \<Longrightarrow> complete J j l r = Inr j' \<Longrightarrow>
      \<exists>r'. stored j' (ls_idempotencyKey l) = Some r' \<and> rcp_digest r' = rcp_digest r
        \<and> (stored j (ls_idempotencyKey l) = None \<longrightarrow> r' = r)"
    and claim_keeps_stored: "wf j \<Longrightarrow> stored (snd (claim J now j i)) k = stored j k"
    and resume_keeps_stored: "wf j \<Longrightarrow> stored (snd (resume J now j l)) k = stored j k"
begin

lemma run_keeps:
  assumes "wf j"
  shows "wf (snd (journal_run J j cs))"
    and "owner j k = Some x \<Longrightarrow> owner (snd (journal_run J j cs)) k = Some x"
    and "token j k \<le> token (snd (journal_run J j cs)) k"
    and "stored j k = Some r \<Longrightarrow> stored (snd (journal_run J j cs)) k = Some r"
proof -
  show wf: "wf (snd (journal_run J j cs))"
    using assms by (induction cs arbitrary: j) (auto simp: Let_def split_beta wf_step)
  show "owner j k = Some x \<Longrightarrow> owner (snd (journal_run J j cs)) k = Some x"
    using assms by (induction cs arbitrary: j) (auto simp: Let_def split_beta wf_step owner_keeps)
  show "token j k \<le> token (snd (journal_run J j cs)) k"
    using assms
  proof (induction cs arbitrary: j)
    case (Cons c cs)
    then show ?case
      using token_grows [of j k c] Cons.IH [OF wf_step [OF Cons.prems, of c]]
      by (simp add: Let_def split_beta)
  qed simp
  show "stored j k = Some r \<Longrightarrow> stored (snd (journal_run J j cs)) k = Some r"
    using assms by (induction cs arbitrary: j) (auto simp: Let_def split_beta wf_step stored_keeps)
qed

text \<open>Every grant in a run has a token above the one its key started with.\<close>

lemma run_grants_above:
  "wf j \<Longrightarrow> Granted k a n \<in> set (fst (journal_run J j cs)) \<Longrightarrow>
   token j k < n \<and> stored j k = None
   \<and> (\<exists>d. owner (snd (journal_run J j cs)) k = Some (a, d))"
proof (induction cs arbitrary: j)
  case (Cons c cs)
  obtain ev j' where s: "journal_step J j c = (ev, j')" by force
  have wf': "wf j'" using wf_step [OF Cons.prems(1), of c] s by simp
  show ?case
  proof (cases "ev = Granted k a n")
    case True
    with grant [OF Cons.prems(1)] s obtain d where
      "token j k < n" "stored j k = None" "owner j' k = Some (a, d)" by blast
    then show ?thesis using run_keeps(2) [OF wf'] s by (simp add: Let_def split_beta)
  next
    case False
    then have "Granted k a n \<in> set (fst (journal_run J j' cs))"
      using Cons.prems(2) s by (simp add: Let_def split_beta)
    from Cons.IH [OF wf' this] show ?thesis
      using token_grows [OF Cons.prems(1), of k c] stored_keeps [OF Cons.prems(1), of k _ c] s
      by (cases "stored j k") (auto simp: Let_def split_beta)
  qed
qed simp

lemma grants_increase:
  "wf j \<Longrightarrow> fst (journal_run J j cs) = evs \<Longrightarrow> p < q \<Longrightarrow> q < length evs \<Longrightarrow>
   evs ! p = Granted k a n \<Longrightarrow> evs ! q = Granted k b m \<Longrightarrow> n < m"
proof (induction cs arbitrary: j evs p q)
  case (Cons c cs)
  obtain ev j' where s: "journal_step J j c = (ev, j')" by force
  have wf': "wf j'" using wf_step [OF Cons.prems(1), of c] s by simp
  have evs: "evs = ev # fst (journal_run J j' cs)"
    using Cons.prems(2) s by (auto simp: Let_def split_beta)
  obtain q' where q: "q = Suc q'" using Cons.prems(3) by (cases q) auto
  show ?case
  proof (cases p)
    case 0
    then have "token j' k = n" using grant [OF Cons.prems(1)] s evs Cons.prems(5) by auto
    moreover have "Granted k b m \<in> set (fst (journal_run J j' cs))"
      using Cons.prems(4,6) evs q by (metis Suc_less_eq length_Cons nth_Cons_Suc nth_mem)
    ultimately show ?thesis using run_grants_above [OF wf'] by blast
  next
    case (Suc p')
    then show ?thesis
      using Cons.IH [OF wf' refl, of p' q'] Cons.prems evs q by simp
  qed
qed simp

lemma grants_one_key:
  assumes "wf j" "Granted k a n \<in> set (fst (journal_run J j cs))"
    and "Granted k' a m \<in> set (fst (journal_run J j cs))"
  shows "k = k'"
  using run_grants_above [OF assms(1,2)] run_grants_above [OF assms(1,3)]
    owner_unique [OF run_keeps(1) [OF assms(1), of cs]] by blast

text \<open>Once a receipt is stored, every claim of that execution returns it, and no other gets a lease.\<close>

lemma replay_after:
  assumes "wf j" "complete J j l r = Inr j'" "stored j (ls_idempotencyKey l) = None"
    and "owner j (ls_idempotencyKey l) = Some (a, d)" "ci_approvalId i = a"
  shows "fst (claim J now (snd (journal_run J j' cs)) i)
    = (if ci_idempotencyKey i = ls_idempotencyKey l \<and> ci_approvalDecisionDigest i = d
       then COMPLETED r else APPROVAL_ALREADY_USED)"
proof -
  have step: "journal_step J j (Complete l r) = (Stored l r, j')" using assms(2) by simp
  have wf': "wf j'" using wf_step [OF assms(1), of "Complete l r"] step by simp
  have st: "stored j' (ls_idempotencyKey l) = Some r"
    using complete_stores [OF assms(1,2)] assms(3) by auto
  have ow: "owner j' (ls_idempotencyKey l) = Some (a, d)"
    using owner_keeps [OF assms(1,4), of "Complete l r"] step by simp
  let ?e = "snd (journal_run J j' cs)"
  have e: "wf ?e" "owner ?e (ls_idempotencyKey l) = Some (a, d)"
    "stored ?e (ls_idempotencyKey l) = Some r"
    using run_keeps [OF wf'] ow st by blast+
  show ?thesis
  proof (cases "ci_idempotencyKey i = ls_idempotencyKey l")
    case True
    then show ?thesis using claim_stored [OF e(1), of i a d r] e assms(5) by simp
  next
    case False
    then show ?thesis using claim_other_key [OF e(1,2), of i] assms(5) by simp
  qed
qed

lemma stale_fenced:
  assumes "wf j" "Granted (ls_idempotencyKey l) a n \<in> set (fst (journal_run J j cs))"
    and "ls_fencingToken l \<le> token j (ls_idempotencyKey l)"
  shows "\<exists>m. complete J (snd (journal_run J j cs)) l r = Inl (RemediationError EXECUTION_IN_PROGRESS m)"
  using assms
proof (induction cs arbitrary: j)
  case (Cons c cs)
  obtain ev j' where s: "journal_step J j c = (ev, j')" by force
  have wf': "wf j'" using wf_step [OF Cons.prems(1), of c] s by simp
  let ?e = "snd (journal_run J j' cs)"
  have run: "journal_run J j (c # cs) = (ev # fst (journal_run J j' cs), ?e)"
    using s by (simp add: Let_def split_beta)
  show ?case
  proof (cases "ev = Granted (ls_idempotencyKey l) a n")
    case True
    then have "ls_fencingToken l < token j' (ls_idempotencyKey l)"
      using grant [OF Cons.prems(1)] s Cons.prems(3) by fastforce
    also have "\<dots> \<le> token ?e (ls_idempotencyKey l)" by (rule run_keeps(3) [OF wf'])
    finally show ?thesis using fenced [OF run_keeps(1) [OF wf']] run by fastforce
  next
    case False
    then show ?thesis
      using Cons.IH [OF wf'] Cons.prems token_grows [OF Cons.prems(1), of "ls_idempotencyKey l" c]
        run s by simp
  qed
qed simp

end

subsection \<open>The in-memory journal keeps the contract\<close>

definition entry_ok :: "string \<Rightarrow> JournalEntry \<Rightarrow> bool" where
  "entry_ok k e \<longleftrightarrow>
     1 \<le> je_fencingToken e \<and> (je_status e = JS_COMPLETED \<longleftrightarrow> je_receipt e \<noteq> None)
     \<and> (\<forall>r. je_receipt e = Some r \<longrightarrow> rcp_idempotencyKey r = k
            \<and> rcp_approvalDecisionDigest r = Some (je_approvalDecisionDigest e))"

definition mem_wf :: "MemoryJournal \<Rightarrow> bool" where
  "mem_wf j \<longleftrightarrow>
     (\<forall>k e. byIdempotencyKey j k = Some e \<longrightarrow>
        entry_ok k e \<and> approvalToIdempotencyKey j (je_approvalId e) = Some k)
     \<and> (\<forall>a k. approvalToIdempotencyKey j a = Some k \<longrightarrow>
        (\<exists>e. byIdempotencyKey j k = Some e \<and> je_approvalId e = a))"

definition mem_owner :: "MemoryJournal \<Rightarrow> string \<Rightarrow> (string \<times> string) option" where
  "mem_owner j k =
     map_option (\<lambda>e. (je_approvalId e, je_approvalDecisionDigest e)) (byIdempotencyKey j k)"

definition mem_token :: "MemoryJournal \<Rightarrow> string \<Rightarrow> nat" where
  "mem_token j k = (case byIdempotencyKey j k of None \<Rightarrow> 0 | Some e \<Rightarrow> je_fencingToken e)"

definition mem_stored :: "MemoryJournal \<Rightarrow> string \<Rightarrow> ExecutionReceiptV1 option" where
  "mem_stored j k = Option.bind (byIdempotencyKey j k) je_receipt"

lemma put_entry_simps [simp]:
  "byIdempotencyKey (put_entry k e j) = (byIdempotencyKey j)(k := Some e)"
  "approvalToIdempotencyKey (put_entry k e j) = approvalToIdempotencyKey j"
  by (simp_all add: put_entry_def)

lemma InMemory_simps [simp]:
  "claim (InMemoryExecutionJournal L) = mem_claim L"
  "resume (InMemoryExecutionJournal L) = mem_resume L"
  "complete (InMemoryExecutionJournal L) = mem_complete"
  by (simp_all add: InMemoryExecutionJournal_def)

text \<open>Replacing an entry by one with the same owner keeps the journal well formed.\<close>

lemma mem_wf_put:
  assumes "mem_wf j" "byIdempotencyKey j k = Some e" "je_approvalId e' = je_approvalId e" "entry_ok k e'"
  shows "mem_wf (put_entry k e' j)"
  using assms by (auto simp: mem_wf_def) (metis option.inject)

lemma mem_wf_new:
  assumes "mem_wf j" "byIdempotencyKey j k = None" "approvalToIdempotencyKey j (je_approvalId e) = None"
    and "entry_ok k e"
  shows "mem_wf ((put_entry k e j)\<lparr>approvalToIdempotencyKey :=
           (approvalToIdempotencyKey j)(je_approvalId e := Some k)\<rparr>)"
  using assms by (auto simp: mem_wf_def) (metis option.distinct(1))+

lemma mem_wf_entry: "mem_wf j \<Longrightarrow> byIdempotencyKey j k = Some e \<Longrightarrow> entry_ok k e"
  by (simp add: mem_wf_def)

lemma mem_wf_key:
  "mem_wf j \<Longrightarrow> byIdempotencyKey j k = Some e \<Longrightarrow> approvalToIdempotencyKey j (je_approvalId e) = Some k"
  by (simp add: mem_wf_def)

lemma mem_wf_claim: "mem_wf j \<Longrightarrow> mem_wf (snd (mem_claim L now j i))"
  using mem_wf_new [of j "ci_idempotencyKey i"
      "\<lparr>je_approvalId = ci_approvalId i, je_approvalDecisionDigest = ci_approvalDecisionDigest i,
        je_fencingToken = 1, je_leaseExpiresAt = now + L, je_status = JS_IN_PROGRESS,
        je_receipt = None\<rparr>"]
  by (auto simp: mem_claim_def Let_def entry_ok_def split: option.split
      intro!: mem_wf_put dest: mem_wf_entry)

lemma mem_wf_complete: "mem_wf j \<Longrightarrow> mem_complete j l r = Inr j' \<Longrightarrow> mem_wf j'"
  by (auto simp: mem_complete_def entry_ok_def split: option.splits if_splits
      intro!: mem_wf_put dest: mem_wf_entry)

lemma mem_wf_resume: "mem_wf j \<Longrightarrow> mem_wf (snd (mem_resume L now j l))"
  by (auto simp: mem_resume_def entry_ok_def split: option.split
      intro!: mem_wf_put dest: mem_wf_entry)

lemma mem_wf_step: "mem_wf j \<Longrightarrow> mem_wf (snd (journal_step (InMemoryExecutionJournal L) j c))"
  using mem_wf_claim mem_wf_resume mem_wf_complete
  by (cases c) (auto simp: split_beta Let_def split: sum.split)

text \<open>What one call does to the entry under a key: the owner and a stored receipt stay.\<close>

lemma mem_step_entry:
  assumes "byIdempotencyKey j k = Some e"
  shows "\<exists>e'. byIdempotencyKey (snd (journal_step (InMemoryExecutionJournal L) j c)) k = Some e'
    \<and> je_approvalId e' = je_approvalId e
    \<and> je_approvalDecisionDigest e' = je_approvalDecisionDigest e
    \<and> je_fencingToken e \<le> je_fencingToken e'
    \<and> (\<forall>r. je_receipt e = Some r \<longrightarrow> je_receipt e' = Some r)"
  using assms
  by (cases c) (auto simp: split_beta Let_def mem_claim_def mem_resume_def mem_complete_def
      split: option.splits if_splits sum.split)

interpretation memory: execution_journal "InMemoryExecutionJournal L" mem_wf mem_owner mem_token mem_stored
proof (unfold_locales, goal_cases)
  case (1 j c)
  then show ?case by (rule mem_wf_step)
next
  case (2 j k a d k' d')
  then show ?case by (auto simp: mem_wf_def mem_owner_def) (metis option.inject)
next
  case (3 j k r)
  then show ?case
    by (cases "byIdempotencyKey j k") (auto simp: mem_stored_def mem_owner_def entry_ok_def dest: mem_wf_entry)
next
  case (4 j k x c)
  then show ?case using mem_step_entry [of j k _ L c] by (fastforce simp: mem_owner_def)
next
  case (5 j k c)
  then show ?case
    using mem_step_entry [of j k _ L c] by (fastforce simp: mem_token_def split: option.split)
next
  case (6 j k r c)
  then show ?case
    using mem_step_entry [of j k _ L c] by (cases "byIdempotencyKey j k") (fastforce simp: mem_stored_def)+
next
  case (7 j c k a n j')
  then obtain now i where c: "c = Claim now i"
    by (cases c) (auto split: sum.splits)
  with 7 show ?case
    by (auto simp: mem_claim_def mem_token_def mem_stored_def mem_owner_def Let_def
        split: option.splits if_splits)
next
  case (8 j i a d r now)
  then show ?case
    by (auto simp: mem_claim_def mem_stored_def mem_owner_def split: option.splits)
next
  case (9 j now i r)
  then show ?case
    by (auto simp: mem_claim_def mem_stored_def mem_owner_def Let_def split: option.splits if_splits)
next
  case (10 j k a d i now)
  then have a: "approvalToIdempotencyKey j (ci_approvalId i) = Some k"
    by (auto simp: mem_owner_def dest: mem_wf_key)
  with 10 show ?case
    by (auto simp: mem_claim_def dest: mem_wf_key split: option.split)
next
  case (11 j l r)
  then show ?case by (auto simp: mem_complete_def mem_token_def split: option.splits)
next
  case (12 j l r j')
  then show ?case by (auto simp: mem_complete_def mem_stored_def split: option.splits if_splits)
next
  case (13 j now i k)
  then show ?case by (auto simp: mem_claim_def mem_stored_def Let_def split: option.splits)
next
  case (14 j now l k)
  then show ?case by (auto simp: mem_resume_def mem_stored_def split: option.splits)
qed

subsection \<open>Properties\<close>

lemma mem_wf_empty [simp]: "mem_wf empty_journal"
  by (simp add: mem_wf_def empty_journal_def)

text \<open>
  C4: the journal fences. In every run of the in-memory journal, whatever the interleaving of workers
  and the clock readings, the leases granted for one key carry strictly increasing tokens, and all
  leases granted for one approval are for one key: an approval never runs under two keys.
\<close>

theorem memory_journal_fences:
  assumes "fst (journal_run (InMemoryExecutionJournal L) empty_journal cs) = evs"
    and "p < q" and "q < length evs" and "evs ! p = Granted k a n" and "evs ! q = Granted k' b m"
  shows "(k = k' \<longrightarrow> n < m) \<and> (a = b \<longrightarrow> k = k')"
proof -
  have "k = k' \<Longrightarrow> n < m"
    using memory.grants_increase [OF mem_wf_empty assms(1-4)] assms(5) by blast
  moreover have "evs ! p \<in> set evs" "evs ! q \<in> set evs" using assms(2,3) by simp_all
  then have "a = b \<Longrightarrow> k = k'"
    using memory.grants_one_key [OF mem_wf_empty, of k a n L cs k' m] assms(1,4,5) by auto
  ultimately show ?thesis by blast
qed

definition demo_claim :: ClaimInput where
  "demo_claim = \<lparr>ci_approvalId = ''approval-1'', ci_approvalDecisionDigest = demo_digest,
     ci_idempotencyKey = ''key-1''\<rparr>"

theorem memory_journal_fences_witness:
  "fst (journal_run (InMemoryExecutionJournal 10) empty_journal [Claim 0 demo_claim, Claim 10 demo_claim])
     = [Granted ''key-1'' ''approval-1'' 1, Granted ''key-1'' ''approval-1'' 2] \<and> (1::nat) < 2"
proof -
  let ?cs = "[Claim 0 demo_claim, Claim 10 demo_claim]"
  have run: "fst (journal_run (InMemoryExecutionJournal 10) empty_journal ?cs)
     = [Granted ''key-1'' ''approval-1'' 1, Granted ''key-1'' ''approval-1'' 2]"
    by (simp add: mem_claim_def demo_claim_def empty_journal_def Let_def eval_nat_numeral)
  from memory_journal_fences [OF run, of 0 1] run show ?thesis by simp
qed

text \<open>
  a stale worker cannot finish. Once any later call sequence has granted a lease for a key, every
  completion with a token that was current before it fails with \<open>EXECUTION_IN_PROGRESS\<close>.
\<close>

theorem memory_journal_stale_worker:
  assumes "mem_wf j" and "ls_fencingToken l \<le> mem_token j (ls_idempotencyKey l)"
    and "Granted (ls_idempotencyKey l) a n \<in> set (fst (journal_run (InMemoryExecutionJournal L) j cs))"
  shows "\<exists>m. mem_complete (snd (journal_run (InMemoryExecutionJournal L) j cs)) l r
    = Inl (RemediationError EXECUTION_IN_PROGRESS m)"
  using memory.stale_fenced [OF assms(1,3,2)] by simp

theorem memory_journal_stale_worker_witness:
  "\<exists>m. mem_complete (snd (journal_run (InMemoryExecutionJournal 10) empty_journal
        [Claim 0 demo_claim, Claim 10 demo_claim])) \<lparr>ls_idempotencyKey = ''key-1'', ls_fencingToken = 1\<rparr>
      demo_receipt = Inl (RemediationError EXECUTION_IN_PROGRESS m)"
proof -
  let ?J = "InMemoryExecutionJournal 10"
  let ?j = "snd (journal_run ?J empty_journal [Claim 0 demo_claim])"
  let ?l = "\<lparr>ls_idempotencyKey = ''key-1'', ls_fencingToken = 1\<rparr>"
  have w: "mem_wf ?j" by (rule memory.run_keeps(1) [OF mem_wf_empty])
  have t: "ls_fencingToken ?l \<le> mem_token ?j (ls_idempotencyKey ?l)"
    by (simp add: mem_claim_def demo_claim_def empty_journal_def mem_token_def)
  have g: "Granted (ls_idempotencyKey ?l) ''approval-1'' 2 \<in> set (fst (journal_run ?J ?j [Claim 10 demo_claim]))"
    by (simp add: mem_claim_def demo_claim_def empty_journal_def Let_def eval_nat_numeral)
  have "snd (journal_run ?J empty_journal [Claim 0 demo_claim, Claim 10 demo_claim])
      = snd (journal_run ?J ?j [Claim 10 demo_claim])"
    by (simp add: Let_def split_beta)
  with memory_journal_stale_worker [OF w t g, of demo_receipt] show ?thesis by metis
qed

text \<open>
  a completed execution is final. After a worker's completion stores a receipt, whatever calls
  follow, every claim with that approval, key and decision is answered with that very receipt, and
  every claim that reuses the approval under another key or decision is refused.
\<close>

theorem memory_journal_replays:
  assumes "mem_wf j" and "mem_complete j l r = Inr j'" and "mem_stored j (ls_idempotencyKey l) = None"
    and "mem_owner j (ls_idempotencyKey l) = Some (ci_approvalId i, d)"
  shows "fst (mem_claim L now (snd (journal_run (InMemoryExecutionJournal L) j' cs)) i)
    = (if ci_idempotencyKey i = ls_idempotencyKey l \<and> ci_approvalDecisionDigest i = d
       then COMPLETED r else APPROVAL_ALREADY_USED)"
  using memory.replay_after [of j L l r j' "ci_approvalId i" d i now cs] assms by simp

theorem memory_journal_replays_witness:
  "\<exists>j r. fst (mem_claim 10 5 (snd (journal_run (InMemoryExecutionJournal 10) j [Claim 3 demo_claim]))
        demo_claim) = COMPLETED r \<and> r = demo_receipt"
proof -
  let ?J = "InMemoryExecutionJournal 10"
  let ?j = "snd (journal_run ?J empty_journal [Claim 0 demo_claim])"
  let ?l = "\<lparr>ls_idempotencyKey = ''key-1'', ls_fencingToken = 1\<rparr>"
  have w: "mem_wf ?j" by (rule memory.run_keeps(1) [OF mem_wf_empty])
  have "demo_digest \<noteq> []" by (simp add: demo_digest_def)
  then obtain j' where c: "mem_complete ?j ?l demo_receipt = Inr j'"
    by (simp add: mem_complete_def mem_claim_def demo_claim_def empty_journal_def demo_receipt_def
        demo_receipt_input_def truthy_only_def)
  have s: "mem_stored ?j (ls_idempotencyKey ?l) = None"
    "mem_owner ?j (ls_idempotencyKey ?l) = Some (ci_approvalId demo_claim, demo_digest)"
    by (simp_all add: mem_stored_def mem_owner_def mem_claim_def demo_claim_def empty_journal_def)
  from memory_journal_replays [OF w c s, of 10 5 "[Claim 3 demo_claim]"] show ?thesis
    by (auto simp: demo_claim_def)
qed

end
