(* ===== verification/ControlLoop.thy ===== *)
theory ControlLoop
  imports Journal
begin

section \<open>The governed control loop: \<open>src/remediation/control-loop.ts\<close>\<close>

text \<open>
  Approvals (requests and decisions), the postcondition checks, and \<open>executeApprovedRemediation\<close>, the
  one handler that writes to DataHub. The handler is a state-passing program over an arbitrary world:
  each awaited call of a port (reader, mutation, journal, clock) is a function of the world, so whatever
  other workers and DataHub do in between is part of what the port does. The program also keeps the
  list of calls it made with their answers; the properties speak about that list.
\<close>

subsection \<open>Approval artifacts\<close>

definition instant :: "js_env \<Rightarrow> string \<Rightarrow> string \<Rightarrow> LoopError + int" where
  "instant E value label =
     (case date_parse E value of
        None \<Rightarrow> Inl (RemediationError INVALID_ARTIFACT (label @ '' must be an ISO-8601 timestamp.''))
      | Some t \<Rightarrow> Inr t)"

text \<open>A comparison of two parsed dates; \<open>NaN\<close>, here \<open>None\<close>, compares false.\<close>

fun date_less :: "int option \<Rightarrow> int option \<Rightarrow> bool" where
  "date_less (Some a) (Some b) = (a < b)"
| "date_less _ _ = False"

fun date_leq :: "int option \<Rightarrow> int option \<Rightarrow> bool" where
  "date_leq (Some a) (Some b) = (a \<le> b)"
| "date_leq _ _ = False"

definition verifyApprovalRequest :: "js_env \<Rightarrow> ApprovalRequestV1 \<Rightarrow> bool" where
  "verifyApprovalRequest E r \<longleftrightarrow>
     (let expected = digest E (approval_request_payload r) in
      apr_schemaVersion r = ''archon.approval-request/v1''
      \<and> apr_approvalId r = ''approval-'' @ short_digest expected
      \<and> apr_digest r = expected
      \<and> length (apr_nonce r) \<ge> 8
      \<and> date_parse E (apr_requestedAt r) \<noteq> None
      \<and> date_less (date_parse E (apr_requestedAt r)) (date_parse E (apr_expiresAt r)))"

definition verifyApprovalDecision :: "js_env \<Rightarrow> ApprovalDecisionV1 \<Rightarrow> bool" where
  "verifyApprovalDecision E d \<longleftrightarrow>
     dec_schemaVersion d = ''archon.approval-decision/v1''
     \<and> au_authenticated (dec_approver d)
     \<and> au_subject (dec_approver d) \<noteq> []
     \<and> au_issuer (dec_approver d) \<noteq> []
     \<and> ''DataSteward'' \<in> set (au_roles (dec_approver d))
     \<and> au_roles (dec_approver d) = uniqueSorted E (au_roles (dec_approver d))
     \<and> date_parse E (dec_decidedAt d) \<noteq> None
     \<and> verifyDigest E (approval_decision_payload d) (dec_digest d)"

definition seal_request ::
    "js_env \<Rightarrow> EvidenceDossierV1 \<Rightarrow> RemediationPlanV1 \<Rightarrow> string \<Rightarrow> string \<Rightarrow> string \<Rightarrow> ApprovalRequestV1" where
  "seal_request E dossier plan requestedAt expiresAt nonce =
     (let unsigned =
        \<lparr>apr_schemaVersion = ''archon.approval-request/v1'', apr_approvalId = [],
         apr_dossierDigest = dos_digest dossier, apr_planDigest = pln_digest plan,
         apr_actionCatalogDigest = pln_actionCatalogDigest plan,
         apr_expectedBeforeDigest = tp_digest (pln_expectedBefore plan),
         apr_requestedAt = requestedAt, apr_expiresAt = expiresAt, apr_nonce = nonce, apr_digest = []\<rparr>;
      d = digest E (approval_request_payload unsigned) in
      unsigned\<lparr>apr_approvalId := ''approval-'' @ short_digest d, apr_digest := d\<rparr>)"

definition createApprovalRequest ::
    "js_env \<Rightarrow> EvidenceDossierV1 \<Rightarrow> RemediationPlanV1 \<Rightarrow> string \<Rightarrow> string \<Rightarrow> string \<Rightarrow>
     LoopError + ApprovalRequestV1" where
  "createApprovalRequest E dossier plan requestedAt expiresAt nonce =
     (if \<not> verifyEvidenceDossier E dossier \<or> \<not> verifyRemediationPlan E plan
         \<or> pln_dossierDigest plan \<noteq> dos_digest dossier \<or> pln_policyDigest plan \<noteq> dos_policyDigest dossier
      then Inl (RemediationError INVALID_ARTIFACT ''Dossier and plan binding is invalid.'')
      else if length nonce < 8
      then Inl (RemediationError INVALID_ARTIFACT ''Approval nonce must contain at least 8 characters.'')
      else bind_result (instant E expiresAt ''expiresAt'') (\<lambda>expiry.
           bind_result (instant E requestedAt ''requestedAt'') (\<lambda>requested.
             if expiry \<le> requested
             then Inl (RemediationError INVALID_ARTIFACT ''Approval expiry must follow its request time.'')
             else Inr (seal_request E dossier plan requestedAt expiresAt nonce))))"

definition seal_decision ::
    "js_env \<Rightarrow> ApprovalRequestV1 \<Rightarrow> RemediationPlanV1 \<Rightarrow> Decision \<Rightarrow> AuthenticatedApprover \<Rightarrow> string \<Rightarrow>
     ApprovalDecisionV1" where
  "seal_decision E request plan decision approver decidedAt =
     (let unsigned =
        \<lparr>dec_schemaVersion = ''archon.approval-decision/v1'', dec_approvalId = apr_approvalId request,
         dec_requestDigest = apr_digest request, dec_planDigest = pln_digest plan,
         dec_decision = decision, dec_approver = approver, dec_decidedAt = decidedAt, dec_digest = []\<rparr> in
      unsigned\<lparr>dec_digest := digest E (approval_decision_payload unsigned)\<rparr>)"

definition createApprovalDecision ::
    "js_env \<Rightarrow> ApprovalRequestV1 \<Rightarrow> RemediationPlanV1 \<Rightarrow> Decision \<Rightarrow> AuthenticatedApprover \<Rightarrow> string \<Rightarrow>
     LoopError + ApprovalDecisionV1" where
  "createApprovalDecision E request plan decision approver decidedAt =
     (if \<not> verifyApprovalRequest E request \<or> \<not> verifyRemediationPlan E plan
         \<or> apr_planDigest request \<noteq> pln_digest plan
         \<or> apr_actionCatalogDigest request \<noteq> pln_actionCatalogDigest plan
         \<or> apr_expectedBeforeDigest request \<noteq> tp_digest (pln_expectedBefore plan)
      then Inl (RemediationError APPROVAL_BINDING_MISMATCH
                  ''Approval request does not bind the supplied plan.'')
      else if \<not> au_authenticated approver \<or> ''DataSteward'' \<notin> set (au_roles approver)
              \<or> trim (au_subject approver) = [] \<or> trim (au_issuer approver) = []
      then Inl (RemediationError APPROVER_UNAUTHORIZED ''An authenticated DataSteward is required.'')
      else bind_result (instant E decidedAt ''decidedAt'') (\<lambda>decided.
           bind_result (instant E (apr_requestedAt request) ''requestedAt'') (\<lambda>requested.
             if decided < requested
             then Inl (RemediationError APPROVAL_EXPIRED
                         ''Approval was decided outside its validity window.'')
             else bind_result (instant E (apr_expiresAt request) ''expiresAt'') (\<lambda>expiry.
               if decided > expiry
               then Inl (RemediationError APPROVAL_EXPIRED
                           ''Approval was decided outside its validity window.'')
               else Inr (seal_decision E request plan decision
                      \<lparr>au_subject = au_subject approver, au_issuer = au_issuer approver,
                       au_roles = uniqueSorted E (au_roles approver), au_authenticated = True\<rparr>
                      decidedAt)))))"

subsection \<open>Postconditions\<close>

definition mutationRequest :: "RemediationPlanV1 \<Rightarrow> TagRequest" where
  "mutationRequest plan =
     \<lparr>rq_tagUrns = arg_tag_urns (act_arguments (pln_action plan)),
      rq_entityUrns = arg_entity_urns (act_arguments (pln_action plan)),
      rq_columnPaths = arg_column_paths (act_arguments (pln_action plan))\<rparr>"

definition verifyPostcondition ::
    "js_env \<Rightarrow> RemediationPlanV1 \<Rightarrow> bool \<Rightarrow> TagProjection \<Rightarrow> MutationAck option \<Rightarrow> VerificationCheck list" where
  "verifyPostcondition E plan approvalValid after mutation =
     (let before = pln_expectedBefore plan;
          tag = first (arg_tag_urns (act_arguments (pln_action plan)));
          expectedRequestDigest = digest E (request_json (mutationRequest plan));
          targetUnchanged = (tp_entityUrn after = tp_entityUrn before
                             \<and> tp_columnPath after = tp_columnPath before);
          preserved = list_all (\<lambda>existing. existing \<in> set (tp_tags after)) (tp_tags before);
          tagPresent = (case tag of None \<Rightarrow> False | Some t \<Rightarrow> t \<in> set (tp_tags after));
          exactAfter = (tp_digest after = tp_digest (pln_expectedAfter plan));
          requestDigest = map_option ack_requestDigest mutation;
          approvalAndRequestValid = (approvalValid \<and> requestDigest = Some expectedRequestDigest) in
      [\<lparr>chk_checkId = TARGET_UNCHANGED, chk_passed = targetUnchanged,
        chk_evidence = ''Observed target \"'' @ tp_entityUrn after @ ''#'' @ tp_columnPath after @ ''\".''\<rparr>,
       \<lparr>chk_checkId = PREEXISTING_TAGS_PRESERVED, chk_passed = preserved,
        chk_evidence = formatCount (length (tp_tags before)) ''pre-existing tag'' @ '' ''
          @ (if length (tp_tags before) = 1 then ''remains'' else ''remain'') @ '' present.''\<rparr>,
       \<lparr>chk_checkId = POLICY_TAG_PRESENT, chk_passed = tagPresent,
        chk_evidence = ''Policy tag '' @ or_else tag ''undefined'' @ '' ''
          @ (if tagPresent then ''is'' else ''is not'') @ '' present.''\<rparr>,
       \<lparr>chk_checkId = NO_UNEXPECTED_TAGS, chk_passed = exactAfter,
        chk_evidence = ''After-state digest '' @ tp_digest after @ ''; expected ''
          @ tp_digest (pln_expectedAfter plan) @ ''.''\<rparr>,
       \<lparr>chk_checkId = APPROVAL_BINDING_VALID, chk_passed = approvalAndRequestValid,
        chk_evidence = ''Mutation request digest '' @ or_else requestDigest ''unavailable'' @ ''.''\<rparr>])"

definition approvalArtifactsValid ::
    "js_env \<Rightarrow> EvidenceDossierV1 \<Rightarrow> RemediationPlanV1 \<Rightarrow> ApprovalRequestV1 \<Rightarrow> ApprovalDecisionV1 \<Rightarrow> bool" where
  "approvalArtifactsValid E dossier plan request decision \<longleftrightarrow>
     verifyEvidenceDossier E dossier
     \<and> verifyRemediationPlan E plan
     \<and> verifyApprovalRequest E request
     \<and> verifyApprovalDecision E decision
     \<and> pln_dossierDigest plan = dos_digest dossier
     \<and> pln_policyDigest plan = dos_policyDigest dossier
     \<and> apr_dossierDigest request = dos_digest dossier
     \<and> apr_planDigest request = pln_digest plan
     \<and> apr_actionCatalogDigest request = pln_actionCatalogDigest plan
     \<and> apr_expectedBeforeDigest request = tp_digest (pln_expectedBefore plan)
     \<and> dec_approvalId decision = apr_approvalId request
     \<and> dec_requestDigest decision = apr_digest request
     \<and> dec_planDigest decision = pln_digest plan
     \<and> date_leq (date_parse E (apr_requestedAt request)) (date_parse E (dec_decidedAt decision))
     \<and> date_leq (date_parse E (dec_decidedAt decision)) (date_parse E (apr_expiresAt request))"

definition executionId :: "js_env \<Rightarrow> ApprovalDecisionV1 \<Rightarrow> string \<Rightarrow> string" where
  "executionId E decision key =
     ''execution-'' @ short_digest (digest E
        (JObj [(''decisionDigest'', JStr (dec_digest decision)), (''idempotencyKey'', JStr key)]))"

subsection \<open>Ports, and programs that call them\<close>

datatype MutationResult = Acked MutationAck | DefinitiveFailure | UnknownFailure

text \<open>
  \<open>None\<close> from a read is a rejected promise. A mutation fails definitively (\<open>DefinitiveMutationError\<close>)
  or otherwise. Journal calls may throw.
\<close>

record 'w ports =
  readTagProjection :: "'w \<Rightarrow> RemediationTarget \<Rightarrow> TagProjection option \<times> 'w"
  addTags :: "'w \<Rightarrow> TagRequest \<Rightarrow> MutationResult \<times> 'w"
  clock :: "'w \<Rightarrow> string \<times> 'w"
  port_claim :: "'w \<Rightarrow> ClaimInput \<Rightarrow> (LoopError + ExecutionClaim) \<times> 'w"
  port_resume :: "'w \<Rightarrow> ExecutionJournalLease \<Rightarrow> (LoopError + bool) \<times> 'w"
  port_complete :: "'w \<Rightarrow> ExecutionJournalLease \<Rightarrow> ExecutionReceiptV1 \<Rightarrow> (LoopError + unit) \<times> 'w"

datatype event = DidRead RemediationTarget "TagProjection option"
  | DidAdd TagRequest MutationResult
  | DidRemove TagRequest "MutationAck option"
  | DidClock string
  | DidClaim ClaimInput "LoopError + ExecutionClaim"
  | DidResume ExecutionJournalLease "LoopError + bool"
  | DidComplete ExecutionJournalLease ExecutionReceiptV1 "LoopError + unit"

type_synonym ('w, 'a) prog = "'w \<times> event list \<Rightarrow> (LoopError + 'a) \<times> 'w \<times> event list"

definition ret :: "'a \<Rightarrow> ('w, 'a) prog" where
  "ret a s = (Inr a, s)"

definition throw :: "LoopError \<Rightarrow> ('w, 'a) prog" where
  "throw e s = (Inl e, s)"

definition lift_result :: "LoopError + 'a \<Rightarrow> ('w, 'a) prog" where
  "lift_result r s = (r, s)"

definition and_then :: "('w, 'a) prog \<Rightarrow> ('a \<Rightarrow> ('w, 'b) prog) \<Rightarrow> ('w, 'b) prog" where
  "and_then m f s = (case m s of (Inl e, s') \<Rightarrow> (Inl e, s') | (Inr a, s') \<Rightarrow> f a s')"

text \<open>One awaited call: the world moves and the event is noted.\<close>

definition call :: "('w \<Rightarrow> 'a \<times> 'w) \<Rightarrow> ('a \<Rightarrow> event) \<Rightarrow> ('w, 'a) prog" where
  "call p ev s = (let (a, w') = p (fst s) in (Inr a, (w', snd s @ [ev a])))"

definition do_read :: "'w ports \<Rightarrow> RemediationTarget \<Rightarrow> ('w, TagProjection option) prog" where
  "do_read P t = call (\<lambda>w. readTagProjection P w t) (DidRead t)"

definition do_add :: "'w ports \<Rightarrow> TagRequest \<Rightarrow> ('w, MutationResult) prog" where
  "do_add P q = call (\<lambda>w. addTags P w q) (DidAdd q)"

definition do_clock :: "'w ports \<Rightarrow> ('w, string) prog" where
  "do_clock P = call (clock P) DidClock"

definition do_claim :: "'w ports \<Rightarrow> ClaimInput \<Rightarrow> ('w, ExecutionClaim) prog" where
  "do_claim P i = and_then (call (\<lambda>w. port_claim P w i) (DidClaim i)) lift_result"

definition do_resume :: "'w ports \<Rightarrow> ExecutionJournalLease \<Rightarrow> ('w, bool) prog" where
  "do_resume P l = and_then (call (\<lambda>w. port_resume P w l) (DidResume l)) lift_result"

definition do_complete :: "'w ports \<Rightarrow> ExecutionJournalLease \<Rightarrow> ExecutionReceiptV1 \<Rightarrow> ('w, unit) prog" where
  "do_complete P l r = and_then (call (\<lambda>w. port_complete P w l r) (DidComplete l r)) lift_result"

subsection \<open>\<open>executeApprovedRemediation\<close>\<close>

record ExecuteApprovedRemediationInput =
  ex_dossier :: EvidenceDossierV1
  ex_plan :: RemediationPlanV1
  ex_request :: ApprovalRequestV1
  ex_decision :: ApprovalDecisionV1
  ex_idempotencyKey :: string

text \<open>The fields of \<open>terminalReceipt\<close>'s argument that vary from one call site to the next.\<close>

record Terminal =
  tm_outcome :: ExecutionOutcome
  tm_before :: "TagProjection option"
  tm_after :: "TagProjection option"
  tm_mutation :: "MutationAck option"
  tm_checks :: "VerificationCheck list"
  tm_rollback :: RollbackAnchor

definition blocked :: "string \<Rightarrow> RollbackAnchor" where
  "blocked reason =
     \<lparr>ra_availability = BLOCKED, ra_inverseActionDigest = None, ra_restoreStateDigest = None,
      ra_reason = Some reason\<rparr>"

definition not_applicable :: RollbackAnchor where
  "not_applicable =
     \<lparr>ra_availability = NOT_APPLICABLE, ra_inverseActionDigest = None, ra_restoreStateDigest = None,
      ra_reason = None\<rparr>"

definition terminal :: "ExecutionOutcome \<Rightarrow> Terminal" where
  "terminal outcome =
     \<lparr>tm_outcome = outcome, tm_before = None, tm_after = None, tm_mutation = None, tm_checks = [],
      tm_rollback = not_applicable\<rparr>"

definition receipt_input ::
    "js_env \<Rightarrow> ExecuteApprovedRemediationInput \<Rightarrow> string \<Rightarrow> string \<Rightarrow> Terminal \<Rightarrow> CreateExecutionReceiptInput" where
  "receipt_input E i startedAt completedAt t =
     \<lparr>cin_executionId = executionId E (ex_decision i) (ex_idempotencyKey i),
      cin_outcome = tm_outcome t, cin_dossierDigest = dos_digest (ex_dossier i),
      cin_planDigest = pln_digest (ex_plan i),
      cin_approvalDecisionDigest = Some (dec_digest (ex_decision i)),
      cin_action = pln_action (ex_plan i), cin_idempotencyKey = ex_idempotencyKey i,
      cin_before = tm_before t, cin_after = tm_after t, cin_mutation = tm_mutation t,
      cin_checks = tm_checks t, cin_rollback = tm_rollback t, cin_startedAt = startedAt,
      cin_completedAt = completedAt\<rparr>"

definition issue ::
    "js_env \<Rightarrow> ExecuteApprovedRemediationInput \<Rightarrow> string \<Rightarrow> string \<Rightarrow> Terminal \<Rightarrow> LoopError + ExecutionReceiptV1" where
  "issue E i startedAt completedAt t =
     (case createExecutionReceipt E (receipt_input E i startedAt completedAt t) of
        Inl m \<Rightarrow> Inl (PlainError m) | Inr r \<Rightarrow> Inr r)"

text \<open>Every call site evaluates \<open>clock()\<close> for \<open>completedAt\<close> before \<open>terminalReceipt\<close> runs.\<close>

definition terminalReceipt ::
    "js_env \<Rightarrow> 'w ports \<Rightarrow> ExecuteApprovedRemediationInput \<Rightarrow> nat \<Rightarrow> string \<Rightarrow> Terminal \<Rightarrow>
     ('w, ExecutionReceiptV1) prog" where
  "terminalReceipt E P i fencingToken startedAt t =
     and_then (do_clock P) (\<lambda>completedAt.
     and_then (lift_result (issue E i startedAt completedAt t)) (\<lambda>receipt.
     and_then (do_complete P \<lparr>ls_idempotencyKey = ex_idempotencyKey i, ls_fencingToken = fencingToken\<rparr>
                 receipt) (\<lambda>_.
     ret receipt)))"

definition verified_only :: "js_env \<Rightarrow> TagProjection option \<Rightarrow> TagProjection option" where
  "verified_only E p = (case p of None \<Rightarrow> None
     | Some q \<Rightarrow> if verifyTagProjection E q then Some q else None)"

text \<open>After the mutation was acknowledged: read back, check, and issue the receipt.\<close>

definition judged ::
    "js_env \<Rightarrow> ExecuteApprovedRemediationInput \<Rightarrow> TagProjection \<Rightarrow> MutationAck \<Rightarrow> TagProjection \<Rightarrow> Terminal" where
  "judged E i current m after =
     (let checks = verifyPostcondition E (ex_plan i) True after (Some m);
          verified = list_all chk_passed checks;
          rollback = (if verified
            then \<lparr>ra_availability = ELIGIBLE,
                  ra_inverseActionDigest =
                    Some (digest E (inverse_json (act_inverse (pln_action (ex_plan i))))),
                  ra_restoreStateDigest = Some (tp_digest current), ra_reason = None\<rparr>
            else blocked ''Postconditions did not prove the exact approved state transition.'') in
      \<lparr>tm_outcome = (if verified then VERIFIED else VERIFICATION_FAILED),
       tm_before = Some current, tm_after = Some after, tm_mutation = Some m,
       tm_checks = checks, tm_rollback = rollback\<rparr>)"

definition after_mutation ::
    "js_env \<Rightarrow> 'w ports \<Rightarrow> ExecuteApprovedRemediationInput \<Rightarrow> nat \<Rightarrow> string \<Rightarrow> TagProjection \<Rightarrow>
     MutationAck \<Rightarrow> ('w, ExecutionReceiptV1) prog" where
  "after_mutation E P i token startedAt current m =
     and_then (do_read P (dos_target (ex_dossier i))) (\<lambda>read.
     case read of
       None \<Rightarrow> terminalReceipt E P i token startedAt
         ((terminal INDETERMINATE)\<lparr>tm_before := Some current, tm_mutation := Some m,
            tm_rollback := blocked ''Read-after-write failed; the mutation outcome is unknown.''\<rparr>)
     | Some after \<Rightarrow> terminalReceipt E P i token startedAt (judged E i current m after))"

text \<open>From the current state, confirmed to be the approved one: the mutation.\<close>

definition mutate ::
    "js_env \<Rightarrow> 'w ports \<Rightarrow> ExecuteApprovedRemediationInput \<Rightarrow> nat \<Rightarrow> string \<Rightarrow> TagProjection \<Rightarrow>
     ('w, ExecutionReceiptV1) prog" where
  "mutate E P i token startedAt current =
     and_then (do_add P (mutationRequest (ex_plan i))) (\<lambda>result.
     case result of
       Acked m \<Rightarrow> after_mutation E P i token startedAt current m
     | DefinitiveFailure \<Rightarrow>
         and_then (do_read P (dos_target (ex_dossier i))) (\<lambda>observed.
         terminalReceipt E P i token startedAt
           ((terminal MUTATION_FAILED)\<lparr>tm_before := Some current, tm_after := verified_only E observed,
              tm_rollback := blocked ''DataHub definitively rejected the mutation.''\<rparr>))
     | UnknownFailure \<Rightarrow>
         and_then (do_read P (dos_target (ex_dossier i))) (\<lambda>observed.
         terminalReceipt E P i token startedAt
           ((terminal INDETERMINATE)\<lparr>tm_before := Some current, tm_after := verified_only E observed,
              tm_rollback := blocked ''Mutation outcome could not be proven.''\<rparr>)))"

text \<open>Everything after a lease is held: the decision, its expiry, the stale check, the mutation.\<close>

definition proceed ::
    "js_env \<Rightarrow> 'w ports \<Rightarrow> ExecuteApprovedRemediationInput \<Rightarrow> nat \<Rightarrow> string \<Rightarrow>
     ('w, ExecutionReceiptV1) prog" where
  "proceed E P i token startedAt =
     (if dec_decision (ex_decision i) = REJECT
      then terminalReceipt E P i token startedAt (terminal REJECTED)
      else and_then (lift_result (instant E startedAt ''startedAt'')) (\<lambda>started.
           and_then (lift_result (instant E (apr_expiresAt (ex_request i)) ''expiresAt'')) (\<lambda>expiry.
      if started > expiry then terminalReceipt E P i token startedAt (terminal EXPIRED)
      else and_then (do_read P (dos_target (ex_dossier i))) (\<lambda>read.
      case read of
        None \<Rightarrow> terminalReceipt E P i token startedAt
          ((terminal STALE)\<lparr>tm_rollback := blocked ''Current DataHub state could not be read.''\<rparr>)
      | Some current \<Rightarrow>
          if \<not> verifyTagProjection E current
             \<or> tp_digest current \<noteq> tp_digest (pln_expectedBefore (ex_plan i))
          then terminalReceipt E P i token startedAt
            ((terminal STALE)\<lparr>tm_before := verified_only E (Some current),
               tm_rollback := blocked ''The approved pre-state changed before execution.''\<rparr>)
          else mutate E P i token startedAt current))))"

text \<open>A recovered lease: another worker may have died at any point, so look before resuming.\<close>

definition reconcile ::
    "js_env \<Rightarrow> 'w ports \<Rightarrow> ExecuteApprovedRemediationInput \<Rightarrow> nat \<Rightarrow> string \<Rightarrow>
     ('w, ExecutionReceiptV1) prog" where
  "reconcile E P i token startedAt =
     and_then (do_read P (dos_target (ex_dossier i))) (\<lambda>read.
     case read of
       None \<Rightarrow> terminalReceipt E P i token startedAt
         ((terminal INDETERMINATE)\<lparr>tm_rollback := blocked
            ''A stale execution lease was recovered, but current DataHub state could not be read.''\<rparr>)
     | Some observed \<Rightarrow>
         if verifyTagProjection E observed
            \<and> tp_digest observed = tp_digest (pln_expectedBefore (ex_plan i))
         then and_then (do_resume P \<lparr>ls_idempotencyKey = ex_idempotencyKey i, ls_fencingToken = token\<rparr>)
           (\<lambda>resumed.
            if \<not> resumed
            then throw (RemediationError EXECUTION_IN_PROGRESS
                   ''Another worker acquired the recovered execution lease.'')
            else proceed E P i token startedAt)
         else terminalReceipt E P i token startedAt
           ((terminal INDETERMINATE)\<lparr>tm_after := verified_only E (Some observed),
              tm_rollback := blocked
                (if tp_digest observed = tp_digest (pln_expectedAfter (ex_plan i))
                 then ''The approved post-state exists, but the interrupted mutation response is unavailable.''
                 else ''Current DataHub state diverged while recovering a stale execution lease.'')\<rparr>))"

definition executeApprovedRemediation ::
    "js_env \<Rightarrow> 'w ports \<Rightarrow> ExecuteApprovedRemediationInput \<Rightarrow> ('w, ExecutionReceiptV1) prog" where
  "executeApprovedRemediation E P i =
     (if \<not> approvalArtifactsValid E (ex_dossier i) (ex_plan i) (ex_request i) (ex_decision i)
      then throw (RemediationError APPROVAL_BINDING_MISMATCH
             ''Execution artifacts do not share one immutable approval binding.'')
      else if trim (ex_idempotencyKey i) = []
      then throw (RemediationError INVALID_ARTIFACT ''An idempotency key is required.'')
      else and_then (do_clock P) (\<lambda>startedAt.
           and_then (lift_result (instant E startedAt ''startedAt'')) (\<lambda>started.
           and_then (lift_result (instant E (dec_decidedAt (ex_decision i)) ''decidedAt'')) (\<lambda>decided.
      if started < decided
      then throw (RemediationError INVALID_ARTIFACT
             ''Execution cannot begin before the bound approval decision.'')
      else and_then (do_claim P \<lparr>ci_approvalId = apr_approvalId (ex_request i),
                                 ci_approvalDecisionDigest = dec_digest (ex_decision i),
                                 ci_idempotencyKey = ex_idempotencyKey i\<rparr>) (\<lambda>claim.
      case claim of
        COMPLETED r \<Rightarrow> ret r
      | IN_PROGRESS \<Rightarrow> throw (RemediationError EXECUTION_IN_PROGRESS
                                ''This execution is already in progress.'')
      | APPROVAL_ALREADY_USED \<Rightarrow> throw (RemediationError APPROVAL_REPLAY
                                ''This approval has already been consumed.'')
      | RECONCILE token \<Rightarrow> reconcile E P i token startedAt
      | CLAIMED token \<Rightarrow> proceed E P i token startedAt)))))"

subsection \<open>Reasoning about programs\<close>

text \<open>
  \<open>prog_spec m Q\<close>: from every world and every list of earlier events, \<open>m\<close> only adds events, and its
  result and the added events satisfy \<open>Q\<close>.
\<close>

definition prog_spec :: "('w, 'a) prog \<Rightarrow> (LoopError + 'a \<Rightarrow> event list \<Rightarrow> bool) \<Rightarrow> bool" where
  "prog_spec m Q \<longleftrightarrow> (\<forall>w l. \<exists>res w' es. m (w, l) = (res, (w', l @ es)) \<and> Q res es)"

named_theorems prog_rules

lemma prog_specD: "prog_spec m Q \<Longrightarrow> m (w, []) = (res, (w', es)) \<Longrightarrow> Q res es"
  unfolding prog_spec_def by (metis append_Nil prod.inject)

lemma prog_spec_mono: "prog_spec m Q \<Longrightarrow> (\<And>res es. Q res es \<Longrightarrow> R res es) \<Longrightarrow> prog_spec m R"
  unfolding prog_spec_def by blast

lemma spec_ret [prog_rules]: "Q (Inr a) [] \<Longrightarrow> prog_spec (ret a) Q"
  by (simp add: prog_spec_def ret_def)

lemma spec_throw [prog_rules]: "Q (Inl e) [] \<Longrightarrow> prog_spec (throw e) Q"
  by (simp add: prog_spec_def throw_def)

lemma spec_lift [prog_rules]: "Q r [] \<Longrightarrow> prog_spec (lift_result r) Q"
  by (simp add: prog_spec_def lift_result_def)

lemma spec_call [prog_rules]: "(\<And>a. Q (Inr a) [ev a]) \<Longrightarrow> prog_spec (call p ev) Q"
  by (simp add: prog_spec_def call_def split_beta)

lemma spec_and_then:
  assumes "prog_spec m (\<lambda>res es. case res of Inl e \<Rightarrow> Q (Inl e) es
      | Inr a \<Rightarrow> prog_spec (f a) (\<lambda>res' es'. Q res' (es @ es')))"
  shows "prog_spec (and_then m f) Q"
  unfolding prog_spec_def
proof (intro allI)
  fix w l
  obtain res w' es where m: "m (w, l) = (res, (w', l @ es))"
    and q: "case res of Inl e \<Rightarrow> Q (Inl e) es
      | Inr a \<Rightarrow> prog_spec (f a) (\<lambda>res' es'. Q res' (es @ es'))"
    using assms unfolding prog_spec_def by blast
  show "\<exists>res w' es. and_then m f (w, l) = (res, (w', l @ es)) \<and> Q res es"
  proof (cases res)
    case (Inl e)
    with m q show ?thesis by (simp add: and_then_def)
  next
    case (Inr a)
    with q have "prog_spec (f a) (\<lambda>res' es'. Q res' (es @ es'))" by simp
    then obtain res' w'' es' where "f a (w', l @ es) = (res', (w'', (l @ es) @ es'))" "Q res' (es @ es')"
      unfolding prog_spec_def by blast
    with m Inr show ?thesis by (simp add: and_then_def)
  qed
qed

lemma spec_read [prog_rules]: "(\<And>a. Q (Inr a) [DidRead t a]) \<Longrightarrow> prog_spec (do_read P t) Q"
  unfolding do_read_def by (rule spec_call)

lemma spec_add [prog_rules]: "(\<And>a. Q (Inr a) [DidAdd q a]) \<Longrightarrow> prog_spec (do_add P q) Q"
  unfolding do_add_def by (rule spec_call)

lemma spec_clock [prog_rules]: "(\<And>a. Q (Inr a) [DidClock a]) \<Longrightarrow> prog_spec (do_clock P) Q"
  unfolding do_clock_def by (rule spec_call)

lemma spec_call_lift:
  assumes "\<And>x. Q x [ev x]"
  shows "prog_spec (and_then (call p ev) lift_result) Q"
  using assms by (intro spec_and_then spec_call) (simp add: spec_lift)

lemma spec_claim [prog_rules]: "(\<And>x. Q x [DidClaim i x]) \<Longrightarrow> prog_spec (do_claim P i) Q"
  unfolding do_claim_def by (rule spec_call_lift)

lemma spec_resume [prog_rules]: "(\<And>x. Q x [DidResume l x]) \<Longrightarrow> prog_spec (do_resume P l) Q"
  unfolding do_resume_def by (rule spec_call_lift)

lemma spec_complete [prog_rules]: "(\<And>x. Q x [DidComplete l r x]) \<Longrightarrow> prog_spec (do_complete P l r) Q"
  unfolding do_complete_def by (rule spec_call_lift)

subsection \<open>What each stage does\<close>

text \<open>The verified plan's action is one the receipt accepts, so a receipt fails only on a bad post-state.\<close>

definition executable :: "js_env \<Rightarrow> ExecuteApprovedRemediationInput \<Rightarrow> bool" where
  "executable E i \<longleftrightarrow>
     approvalArtifactsValid E (ex_dossier i) (ex_plan i) (ex_request i) (ex_decision i)
     \<and> trim (ex_idempotencyKey i) \<noteq> []"

lemma executable_action: "executable E i \<Longrightarrow> actionValid E (pln_action (ex_plan i))"
  by (simp add: executable_def approvalArtifactsValid_def verifyRemediationPlan_def actionValid_def Let_def)

lemma executable_key: "executable E i \<Longrightarrow> ex_idempotencyKey i \<noteq> []"
  by (auto simp: executable_def trim_def)

lemma issue_cases:
  assumes "executable E i" "verified_or_absent E (tm_before t)"
  shows "issue E i st co t =
    (if verified_or_absent E (tm_after t) then Inr (seal_receipt E (receipt_input E i st co t))
     else Inl (PlainError ''Receipt after-state has an invalid digest.''))"
  using assms executable_action executable_key
  by (simp add: issue_def createExecutionReceipt_def receipt_input_def executionId_def)

definition lease_of :: "ExecuteApprovedRemediationInput \<Rightarrow> nat \<Rightarrow> ExecutionJournalLease" where
  "lease_of i token = \<lparr>ls_idempotencyKey = ex_idempotencyKey i, ls_fencingToken = token\<rparr>"

text \<open>A terminal receipt: sealed from \<open>t\<close>, handed to the journal under the lease, then returned.\<close>

definition settled ::
    "js_env \<Rightarrow> ExecuteApprovedRemediationInput \<Rightarrow> nat \<Rightarrow> string \<Rightarrow> Terminal \<Rightarrow>
     LoopError + ExecutionReceiptV1 \<Rightarrow> event list \<Rightarrow> bool" where
  "settled E i token st t res es \<longleftrightarrow>
     (\<exists>c x. let r = seal_receipt E (receipt_input E i st c t) in
        es = [DidClock c, DidComplete (lease_of i token) r x]
        \<and> res = map_result (\<lambda>_. r) x)"

lemma spec_complete_ret:
  assumes "\<And>x. Q (map_result (\<lambda>_. r) x) [DidComplete l r x]"
  shows "prog_spec (and_then (do_complete P l r) (\<lambda>_. ret r)) Q"
proof (intro spec_and_then spec_complete)
  fix x :: "LoopError + unit"
  show "case x of Inl e \<Rightarrow> Q (Inl e) [DidComplete l r x]
      | Inr a \<Rightarrow> prog_spec (ret r) (\<lambda>res' es'. Q res' ([DidComplete l r x] @ es'))"
    using assms [of x] by (cases x) (auto intro: spec_ret)
qed

lemma spec_terminal:
  assumes "executable E i" "verified_or_absent E (tm_before t)" "verified_or_absent E (tm_after t)"
  shows "prog_spec (terminalReceipt E P i token st t) (settled E i token st t)"
  unfolding terminalReceipt_def lease_of_def [symmetric]
  by (intro spec_and_then prog_rules)
    (auto intro!: spec_and_then [of "lift_result _"] spec_lift spec_complete_ret
      simp: issue_cases [OF assms(1,2)] assms(3) settled_def Let_def)

lemma spec_terminal_bad_after:
  assumes "executable E i" "verified_or_absent E (tm_before t)" "\<not> verified_or_absent E (tm_after t)"
  shows "prog_spec (terminalReceipt E P i token st t)
    (\<lambda>res es. res = Inl (PlainError ''Receipt after-state has an invalid digest.'')
       \<and> (\<exists>c. es = [DidClock c]))"
  unfolding terminalReceipt_def
  by (intro spec_and_then prog_rules)
    (auto intro!: spec_and_then prog_rules simp: issue_cases [OF assms(1,2)] assms(3))

text \<open>Terminals that claim nothing: no mutation, no checks, only verified states, no rollback.\<close>

definition quiet :: "js_env \<Rightarrow> Terminal \<Rightarrow> bool" where
  "quiet E t \<longleftrightarrow> tm_outcome t \<noteq> VERIFIED \<and> tm_mutation t = None \<and> tm_checks t = []
     \<and> verified_or_absent E (tm_before t) \<and> verified_or_absent E (tm_after t)
     \<and> ra_availability (tm_rollback t) \<noteq> ELIGIBLE"

lemma verified_only_ok [simp]: "verified_or_absent E (verified_only E p)"
  by (simp add: verified_only_def verified_or_absent_def split: option.split)

lemma terminal_simps [simp]:
  "tm_outcome (terminal x) = x" "tm_before (terminal x) = None" "tm_after (terminal x) = None"
  "tm_mutation (terminal x) = None" "tm_checks (terminal x) = []"
  "tm_rollback (terminal x) = not_applicable"
  "ra_availability (blocked m) = BLOCKED" "ra_availability not_applicable = NOT_APPLICABLE"
  by (simp_all add: terminal_def blocked_def not_applicable_def)

lemma judged_simps [simp]:
  "tm_before (judged E i current m after) = Some current"
  "tm_after (judged E i current m after) = Some after"
  "tm_mutation (judged E i current m after) = Some m"
  "tm_checks (judged E i current m after) = verifyPostcondition E (ex_plan i) True after (Some m)"
  by (simp_all add: judged_def Let_def)

lemma verified_or_absent_simps [simp]:
  "verified_or_absent E None" "verified_or_absent E (Some p) = verifyTagProjection E p"
  by (simp_all add: verified_or_absent_def)

abbreviation bad_after :: LoopError where
  "bad_after \<equiv> PlainError ''Receipt after-state has an invalid digest.''"

text \<open>The events from the mutation on.\<close>

definition wrote ::
    "js_env \<Rightarrow> ExecuteApprovedRemediationInput \<Rightarrow> nat \<Rightarrow> string \<Rightarrow> TagProjection \<Rightarrow>
     LoopError + ExecutionReceiptV1 \<Rightarrow> event list \<Rightarrow> bool" where
  "wrote E i token st current res es \<longleftrightarrow>
     (\<exists>x rd es'. es = DidAdd (mutationRequest (ex_plan i)) x # DidRead (dos_target (ex_dossier i)) rd # es'
       \<and> (case (x, rd) of
            (Acked m, Some after) \<Rightarrow>
              if verifyTagProjection E after then settled E i token st (judged E i current m after) res es'
              else res = Inl bad_after \<and> (\<exists>c. es' = [DidClock c])
          | (Acked m, None) \<Rightarrow>
              \<exists>t. settled E i token st t res es' \<and> quiet E (t\<lparr>tm_mutation := None\<rparr>)
                \<and> tm_mutation t = Some m \<and> tm_outcome t = INDETERMINATE
          | _ \<Rightarrow> \<exists>t. settled E i token st t res es' \<and> quiet E t
                \<and> tm_outcome t = (if x = DefinitiveFailure then MUTATION_FAILED else INDETERMINATE)))"

lemma wrote_failed:
  assumes "settled E i token st t res es'" "quiet E t" "\<And>m. x \<noteq> Acked m"
    and "tm_outcome t = (if x = DefinitiveFailure then MUTATION_FAILED else INDETERMINATE)"
  shows "wrote E i token st current res
    (DidAdd (mutationRequest (ex_plan i)) x # DidRead (dos_target (ex_dossier i)) rd # es')"
  using assms unfolding wrote_def by (cases x) (auto split: option.split)

lemma spec_mutate:
  assumes "executable E i" "verifyTagProjection E current"
  shows "prog_spec (mutate E P i token st current) (wrote E i token st current)"
proof -
  let ?tgt = "dos_target (ex_dossier i)"
  have read_then: "prog_spec (and_then (do_read P ?tgt) (\<lambda>rd. terminalReceipt E P i token st (t rd))) Q"
    if "\<And>rd. quiet E (t rd)" "\<And>rd res es. settled E i token st (t rd) res es \<Longrightarrow> Q res (DidRead ?tgt rd # es)"
    for t Q
    using that by (intro spec_and_then spec_read)
      (auto intro!: prog_spec_mono [OF spec_terminal [OF assms(1)]] simp: quiet_def)
  have acked: "prog_spec (after_mutation E P i token st current m)
      (\<lambda>res es. wrote E i token st current res (DidAdd (mutationRequest (ex_plan i)) (Acked m) # es))" for m
    unfolding after_mutation_def
  proof (intro spec_and_then spec_read, simp, goal_cases)
    case (1 rd)
    show ?case
    proof (cases rd)
      case None
      let ?t = "(terminal INDETERMINATE)\<lparr>tm_before := Some current, tm_mutation := Some m,
         tm_rollback := blocked ''Read-after-write failed; the mutation outcome is unknown.''\<rparr>"
      have "quiet E (?t\<lparr>tm_mutation := None\<rparr>)" using assms(2) by (simp add: quiet_def)
      then show ?thesis using assms(2) None
        by (auto intro!: prog_spec_mono [OF spec_terminal [OF assms(1), of ?t]] exI [of _ ?t] simp: wrote_def)
    next
      case (Some after)
      show ?thesis
      proof (cases "verifyTagProjection E after")
        case True
        then show ?thesis using assms(2) Some
          by (auto intro!: prog_spec_mono [OF spec_terminal [OF assms(1)]] simp: wrote_def)
      next
        case False
        then show ?thesis using assms(2) Some
          by (auto intro!: prog_spec_mono [OF spec_terminal_bad_after [OF assms(1)]] simp: wrote_def)
      qed
    qed
  qed
  show ?thesis
    unfolding mutate_def
  proof (intro spec_and_then spec_add, simp, goal_cases)
    case (1 x)
    show ?case
    proof (cases x)
      case (Acked m)
      then show ?thesis using acked by simp
    next
      case DefinitiveFailure
      then show ?thesis using assms(2)
        by (auto intro!: read_then wrote_failed simp: quiet_def)
    next
      case UnknownFailure
      then show ?thesis using assms(2)
        by (auto intro!: read_then wrote_failed simp: quiet_def)
    qed
  qed
qed

text \<open>The events once a lease is held.\<close>

definition unwritten ::
    "js_env \<Rightarrow> ExecuteApprovedRemediationInput \<Rightarrow> nat \<Rightarrow> string \<Rightarrow> ExecutionOutcome set \<Rightarrow>
     LoopError + ExecutionReceiptV1 \<Rightarrow> event list \<Rightarrow> bool" where
  "unwritten E i token st outcomes res es \<longleftrightarrow>
     (\<exists>t es0 es'. es = es0 @ es' \<and> (es0 = [] \<or> (\<exists>rd. es0 = [DidRead (dos_target (ex_dossier i)) rd]))
        \<and> settled E i token st t res es' \<and> quiet E t \<and> tm_outcome t \<in> outcomes)"

definition proceeded ::
    "js_env \<Rightarrow> ExecuteApprovedRemediationInput \<Rightarrow> nat \<Rightarrow> string \<Rightarrow>
     LoopError + ExecutionReceiptV1 \<Rightarrow> event list \<Rightarrow> bool" where
  "proceeded E i token st res es \<longleftrightarrow>
     unwritten E i token st {REJECTED, EXPIRED, STALE} res es
     \<or> (\<exists>cur es'. es = DidRead (dos_target (ex_dossier i)) (Some cur) # es'
          \<and> verifyTagProjection E cur \<and> tp_digest cur = tp_digest (pln_expectedBefore (ex_plan i))
          \<and> dec_decision (ex_decision i) = APPROVE
          \<and> date_leq (date_parse E st) (date_parse E (apr_expiresAt (ex_request i)))
          \<and> wrote E i token st cur res es')"

lemma unwrittenI:
  assumes "settled E i token st t res es" "quiet E t" "tm_outcome t \<in> S"
  shows "unwritten E i token st S res es"
    and "unwritten E i token st S res (DidRead (dos_target (ex_dossier i)) rd # es)"
  unfolding unwritten_def using assms
  by (blast, intro exI [of _ t] exI [of _ "[DidRead (dos_target (ex_dossier i)) rd]"] exI [of _ es], auto)

lemma executable_dates:
  assumes "executable E i"
  obtains expiry where "date_parse E (apr_expiresAt (ex_request i)) = Some expiry"
  using assms
  by (cases "date_parse E (apr_expiresAt (ex_request i))")
    (auto simp: executable_def approvalArtifactsValid_def verifyApprovalRequest_def Let_def)

lemma spec_proceed:
  assumes "executable E i" "date_parse E st = Some started"
  shows "prog_spec (proceed E P i token st) (proceeded E i token st)"
proof -
  obtain expiry where ex: "date_parse E (apr_expiresAt (ex_request i)) = Some expiry"
    using executable_dates [OF assms(1)] .
  have quiet_end: "prog_spec (terminalReceipt E P i token st t) Q"
    if "quiet E t" "\<And>res es. settled E i token st t res es \<Longrightarrow> Q res es" for t Q
    using that prog_spec_mono [OF spec_terminal [OF assms(1), of t P token st]] by (auto simp: quiet_def)
  have q: "quiet E (terminal REJECTED)" "quiet E (terminal EXPIRED)"
    "quiet E ((terminal STALE)\<lparr>tm_rollback := blocked m\<rparr>)"
    "quiet E ((terminal STALE)\<lparr>tm_before := verified_only E p, tm_rollback := blocked m\<rparr>)" for m p
    by (simp_all add: quiet_def)
  show ?thesis
  proof (cases "dec_decision (ex_decision i) = REJECT")
    case True
    then show ?thesis unfolding proceed_def
      by (auto intro!: quiet_end q unwrittenI(1) simp: proceeded_def)
  next
    case False
    then have approve: "dec_decision (ex_decision i) = APPROVE" by (cases "dec_decision (ex_decision i)") auto
    have tail: "prog_spec (and_then (do_read P (dos_target (ex_dossier i))) (\<lambda>read. case read of
        None \<Rightarrow> terminalReceipt E P i token st
          ((terminal STALE)\<lparr>tm_rollback := blocked ''Current DataHub state could not be read.''\<rparr>)
      | Some current \<Rightarrow>
          if \<not> verifyTagProjection E current
             \<or> tp_digest current \<noteq> tp_digest (pln_expectedBefore (ex_plan i))
          then terminalReceipt E P i token st
            ((terminal STALE)\<lparr>tm_before := verified_only E (Some current),
               tm_rollback := blocked ''The approved pre-state changed before execution.''\<rparr>)
          else mutate E P i token st current)) (proceeded E i token st)" if "\<not> started > expiry"
    proof (intro spec_and_then spec_read, simp only: sum.case, goal_cases)
      case (1 rd)
      show ?case
      proof (cases "\<exists>current. rd = Some current \<and> verifyTagProjection E current
          \<and> tp_digest current = tp_digest (pln_expectedBefore (ex_plan i))")
        case True
        then obtain current where "rd = Some current" "verifyTagProjection E current"
          "tp_digest current = tp_digest (pln_expectedBefore (ex_plan i))" by blast
        then show ?thesis using approve ex assms(2) that
          by (auto intro!: prog_spec_mono [OF spec_mutate [OF assms(1)]] simp: proceeded_def)
      next
        case False
        then show ?thesis
          by (cases rd) (auto intro!: quiet_end q unwrittenI(2) simp: proceeded_def)
      qed
    qed
    then show ?thesis unfolding proceed_def using approve
      by (auto intro!: spec_and_then [of "lift_result _"] spec_lift quiet_end q unwrittenI(1)
          simp: instant_def assms(2) ex) (auto simp: proceeded_def intro!: unwrittenI(1) q)
  qed
qed

definition reconciled ::
    "js_env \<Rightarrow> ExecuteApprovedRemediationInput \<Rightarrow> nat \<Rightarrow> string \<Rightarrow>
     LoopError + ExecutionReceiptV1 \<Rightarrow> event list \<Rightarrow> bool" where
  "reconciled E i token st res es \<longleftrightarrow>
     unwritten E i token st {INDETERMINATE} res es
     \<or> (\<exists>obs x e. es = [DidRead (dos_target (ex_dossier i)) obs, DidResume (lease_of i token) x]
          \<and> x \<noteq> Inr True \<and> res = Inl e)
     \<or> (\<exists>obs es'. es = DidRead (dos_target (ex_dossier i)) obs
              # DidResume (lease_of i token) (Inr True) # es'
          \<and> proceeded E i token st res es')"

lemma spec_reconcile:
  assumes "executable E i" "date_parse E st = Some started"
  shows "prog_spec (reconcile E P i token st) (reconciled E i token st)"
  unfolding reconcile_def lease_of_def [symmetric]
proof (intro spec_and_then spec_read, simp only: sum.case, goal_cases)
  case (1 rd)
  have quiet_end: "prog_spec (terminalReceipt E P i token st t)
      (\<lambda>res es. reconciled E i token st res ([DidRead (dos_target (ex_dossier i)) rd'] @ es))"
    if "quiet E t" "tm_outcome t = INDETERMINATE" for t rd'
    using that prog_spec_mono [OF spec_terminal [OF assms(1), of t P token st]] unwrittenI(2)
    by (auto simp: quiet_def reconciled_def)
  show ?case
  proof (cases "\<exists>observed. rd = Some observed \<and> verifyTagProjection E observed
      \<and> tp_digest observed = tp_digest (pln_expectedBefore (ex_plan i))")
    case True
    then obtain observed where o: "rd = Some observed" "verifyTagProjection E observed"
      "tp_digest observed = tp_digest (pln_expectedBefore (ex_plan i))" by blast
    have "prog_spec (and_then (do_resume P (lease_of i token)) (\<lambda>resumed. if \<not> resumed
            then throw (RemediationError EXECUTION_IN_PROGRESS
                   ''Another worker acquired the recovered execution lease.'')
            else proceed E P i token st))
        (\<lambda>res es. reconciled E i token st res ([DidRead (dos_target (ex_dossier i)) rd] @ es))"
    proof (intro spec_and_then spec_resume, goal_cases)
      case (1 x)
      then show ?case
        by (cases x) (auto intro!: spec_throw prog_spec_mono [OF spec_proceed [OF assms]] simp: reconciled_def)
    qed
    with o show ?thesis by simp
  next
    case False
    then show ?thesis by (cases rd) (auto intro!: quiet_end simp del: append.simps simp: quiet_def)
  qed
qed

definition claim_of :: "ExecuteApprovedRemediationInput \<Rightarrow> ClaimInput" where
  "claim_of i = \<lparr>ci_approvalId = apr_approvalId (ex_request i),
     ci_approvalDecisionDigest = dec_digest (ex_decision i), ci_idempotencyKey = ex_idempotencyKey i\<rparr>"

text \<open>The events and the result of a whole execution.\<close>

definition executed ::
    "js_env \<Rightarrow> ExecuteApprovedRemediationInput \<Rightarrow> LoopError + ExecutionReceiptV1 \<Rightarrow> event list \<Rightarrow> bool" where
  "executed E i res es \<longleftrightarrow>
     (\<exists>e. res = Inl e \<and> (es = [] \<or> (\<exists>st. es = [DidClock st])))
     \<or> executable E i \<and> (\<exists>st c es'. es = DidClock st # DidClaim (claim_of i) c # es'
          \<and> date_leq (date_parse E (dec_decidedAt (ex_decision i))) (date_parse E st)
          \<and> (case c of
               Inl e \<Rightarrow> res = Inl e \<and> es' = []
             | Inr (COMPLETED r) \<Rightarrow> res = Inr r \<and> es' = []
             | Inr IN_PROGRESS \<Rightarrow> (\<exists>m. res = Inl (RemediationError EXECUTION_IN_PROGRESS m)) \<and> es' = []
             | Inr APPROVAL_ALREADY_USED \<Rightarrow> (\<exists>m. res = Inl (RemediationError APPROVAL_REPLAY m)) \<and> es' = []
             | Inr (CLAIMED n) \<Rightarrow> proceeded E i n st res es'
             | Inr (RECONCILE n) \<Rightarrow> reconciled E i n st res es'))"

lemma spec_execute: "prog_spec (executeApprovedRemediation E P i) (executed E i)"
proof (cases "executable E i")
  case False
  then show ?thesis
    by (auto intro!: spec_throw simp: executeApprovedRemediation_def executable_def executed_def)
next
  case True
  have claimed: "prog_spec (and_then (do_claim P (claim_of i)) (\<lambda>claim. case claim of
        COMPLETED r \<Rightarrow> ret r
      | IN_PROGRESS \<Rightarrow> throw (RemediationError EXECUTION_IN_PROGRESS
                                ''This execution is already in progress.'')
      | APPROVAL_ALREADY_USED \<Rightarrow> throw (RemediationError APPROVAL_REPLAY
                                ''This approval has already been consumed.'')
      | RECONCILE token \<Rightarrow> reconcile E P i token st
      | CLAIMED token \<Rightarrow> proceed E P i token st))
      (\<lambda>res es. executed E i res ([DidClock st] @ [] @ [] @ es))"
    if "date_parse E st = Some s" "date_leq (date_parse E (dec_decidedAt (ex_decision i))) (date_parse E st)"
    for st s
  proof (intro spec_and_then spec_claim, goal_cases)
    case (1 x)
    show ?case
    proof (cases x)
      case (Inl e)
      then show ?thesis using True that by (auto simp: executed_def)
    next
      case (Inr c)
      then show ?thesis using True that
        by (cases c) (auto intro!: spec_ret spec_throw prog_spec_mono [OF spec_proceed [OF True that(1)]]
            prog_spec_mono [OF spec_reconcile [OF True that(1)]] simp: executed_def)
    qed
  qed
  have key: "trim (ex_idempotencyKey i) \<noteq> []"
    "approvalArtifactsValid E (ex_dossier i) (ex_plan i) (ex_request i) (ex_decision i)"
    using True by (simp_all add: executable_def)
  have errs: "executed E i (Inl e) [DidClock st]" for e st
    by (simp add: executed_def)
  show ?thesis
    unfolding executeApprovedRemediation_def claim_of_def [symmetric]
    using key
  proof (simp, intro spec_and_then spec_clock, simp only: sum.case, goal_cases)
    case (1 st)
    show ?case
    proof (cases "date_parse E st")
      case None
      then show ?thesis using errs
        by (auto intro!: spec_and_then [of "lift_result _"] spec_lift simp: instant_def)
    next
      case (Some s)
      then show ?thesis
      proof (cases "date_parse E (dec_decidedAt (ex_decision i))")
        case None
        with Some show ?thesis using errs
          by (auto intro!: spec_and_then [of "lift_result _"] spec_lift simp: instant_def)
      next
        fix d assume d: "date_parse E (dec_decidedAt (ex_decision i)) = Some d"
        show ?thesis
        proof (cases "s < d")
          case True
          with Some d show ?thesis using errs
            by (auto intro!: spec_and_then [of "lift_result _"] spec_lift spec_throw simp: instant_def)
        next
          case False
          then have "date_leq (date_parse E (dec_decidedAt (ex_decision i))) (date_parse E st)"
            using Some d by simp
          from claimed [OF Some this] False Some d show ?thesis
            by (auto intro!: spec_and_then [of "lift_result _"] spec_lift simp: instant_def)
        qed
      qed
    qed
  qed
qed

end
