(* ===== verification/LoopTraces.thy ===== *)
theory LoopTraces
  imports ControlLoop
begin

section \<open>Traces of the control loop\<close>

text \<open>
  Every execution's events and result fall in a few shapes (\<open>executed_cases\<close>, \<open>wrote_cases\<close>). This
  theory derives them, shows which receipts they issue, puts a journal of the interface behind the
  journal port (\<open>journal_ports\<close>) and follows it along an execution, and evaluates one run.
\<close>

fun is_write :: "event \<Rightarrow> bool" where
  "is_write (DidAdd q x) = True"
| "is_write _ = False"

definition no_write :: "event list \<Rightarrow> bool" where
  "no_write es \<longleftrightarrow> list_all (\<lambda>e. \<not> is_write e) es"

lemma no_write_simps [simp]:
  "no_write []" "no_write (e # es) \<longleftrightarrow> \<not> is_write e \<and> no_write es"
  "no_write (es @ es') \<longleftrightarrow> no_write es \<and> no_write es'"
  by (simp_all add: no_write_def)

lemma unique_write:
  "no_write A \<Longrightarrow> no_write B \<Longrightarrow> is_write e' \<Longrightarrow> A @ e # B = pre @ e' # post \<Longrightarrow>
   pre = A \<and> e' = e \<and> post = B"
  using unique_split [of A is_write B e' e pre post] by (simp add: no_write_def list_all_iff)

lemma settled_no_write: "settled E i n st t res es \<Longrightarrow> no_write es"
  by (auto simp: settled_def Let_def)

lemma unwritten_no_write: "unwritten E i n st S res es \<Longrightarrow> no_write es"
  by (auto simp: unwritten_def dest: settled_no_write)

lemma wrote_cases:
  assumes "wrote E i n st cur res es"
  obtains (verdict) m after es' where
      "es = DidAdd (mutationRequest (ex_plan i)) (Acked m) # DidRead (dos_target (ex_dossier i)) (Some after) # es'"
      "verifyTagProjection E after" "settled E i n st (judged E i cur m after) res es'"
  | (unsealed) m after c where
      "es = [DidAdd (mutationRequest (ex_plan i)) (Acked m),
             DidRead (dos_target (ex_dossier i)) (Some after), DidClock c]"
      "\<not> verifyTagProjection E after" "res = Inl bad_after"
  | (unread) m t es' where
      "es = DidAdd (mutationRequest (ex_plan i)) (Acked m) # DidRead (dos_target (ex_dossier i)) None # es'"
      "settled E i n st t res es'" "quiet E (t\<lparr>tm_mutation := None\<rparr>)" "tm_mutation t = Some m"
      "tm_outcome t = INDETERMINATE"
  | (failed) x rd t es' where
      "es = DidAdd (mutationRequest (ex_plan i)) x # DidRead (dos_target (ex_dossier i)) rd # es'"
      "\<And>m. x \<noteq> Acked m" "settled E i n st t res es'" "quiet E t"
      "tm_outcome t = (if x = DefinitiveFailure then MUTATION_FAILED else INDETERMINATE)"
proof -
  from assms obtain x rd es' where es:
    "es = DidAdd (mutationRequest (ex_plan i)) x # DidRead (dos_target (ex_dossier i)) rd # es'"
    and c: "case (x, rd) of
            (Acked m, Some after) \<Rightarrow>
              if verifyTagProjection E after then settled E i n st (judged E i cur m after) res es'
              else res = Inl bad_after \<and> (\<exists>c. es' = [DidClock c])
          | (Acked m, None) \<Rightarrow>
              \<exists>t. settled E i n st t res es' \<and> quiet E (t\<lparr>tm_mutation := None\<rparr>)
                \<and> tm_mutation t = Some m \<and> tm_outcome t = INDETERMINATE
          | _ \<Rightarrow> \<exists>t. settled E i n st t res es' \<and> quiet E t
                \<and> tm_outcome t = (if x = DefinitiveFailure then MUTATION_FAILED else INDETERMINATE)"
    unfolding wrote_def by blast
  show thesis
  proof (cases "\<exists>m. x = Acked m")
    case True
    then obtain m where x: "x = Acked m" by blast
    show thesis
    proof (cases rd)
      case None
      then show thesis using c x es unread by auto
    next
      case (Some after)
      then show thesis using c x es verdict unsealed by (cases "verifyTagProjection E after") auto
    qed
  next
    case False
    then have "\<exists>t. settled E i n st t res es' \<and> quiet E t
        \<and> tm_outcome t = (if x = DefinitiveFailure then MUTATION_FAILED else INDETERMINATE)"
      using c by (cases x) auto
    then show thesis using failed es False by blast
  qed
qed

lemma wrote_one:
  assumes "wrote E i n st cur res es"
  shows "\<exists>x es'. es = DidAdd (mutationRequest (ex_plan i)) x # es' \<and> no_write es'"
  using assms by (cases rule: wrote_cases) (auto dest: settled_no_write)

text \<open>The four ways an execution can go: nothing written, or one write, with what preceded it.\<close>

definition lease_events :: "ExecuteApprovedRemediationInput \<Rightarrow> nat \<Rightarrow> event list \<Rightarrow> bool" where
  "lease_events i n es \<longleftrightarrow>
     es = [DidClaim (claim_of i) (Inr (CLAIMED n))]
     \<or> (\<exists>obs. es = [DidClaim (claim_of i) (Inr (RECONCILE n)), DidRead (dos_target (ex_dossier i)) obs,
                   DidResume (lease_of i n) (Inr True)])"

lemma lease_events_no_write [simp]: "lease_events i n es \<Longrightarrow> no_write es"
  by (auto simp: lease_events_def)

lemma executed_cases:
  assumes "executed E i res es"
  obtains (silent) "no_write es" "\<And>r. res \<noteq> Inr r"
  | (replayed) st r where "executable E i" "es = [DidClock st, DidClaim (claim_of i) (Inr (COMPLETED r))]" "res = Inr r"
  | (closed) st n t es0 es1 where "executable E i" "es = DidClock st # es0 @ es1" "no_write es0" "settled E i n st t res es1"
      "quiet E t" "tm_outcome t \<in> {REJECTED, EXPIRED, STALE, INDETERMINATE}"
      "(DidClaim (claim_of i) (Inr (CLAIMED n)) \<in> set es0 \<or> DidClaim (claim_of i) (Inr (RECONCILE n)) \<in> set es0)"
      "\<And>l r x. DidComplete l r x \<notin> set es0"
  | (written) st n ls cur es' where "executable E i"
      "es = DidClock st # ls @ DidRead (dos_target (ex_dossier i)) (Some cur) # es'"
      "lease_events i n ls" "verifyTagProjection E cur"
      "tp_digest cur = tp_digest (pln_expectedBefore (ex_plan i))"
      "dec_decision (ex_decision i) = APPROVE"
      "date_leq (date_parse E (dec_decidedAt (ex_decision i))) (date_parse E st)"
      "date_leq (date_parse E st) (date_parse E (apr_expiresAt (ex_request i)))"
      "wrote E i n st cur res es'"
proof -
  consider (early) "\<exists>e. res = Inl e \<and> (es = [] \<or> (\<exists>st. es = [DidClock st]))"
    | (late) st c es' where "executable E i" "es = DidClock st # DidClaim (claim_of i) c # es'"
        "date_leq (date_parse E (dec_decidedAt (ex_decision i))) (date_parse E st)"
        "case c of Inl e \<Rightarrow> res = Inl e \<and> es' = []
             | Inr (COMPLETED r) \<Rightarrow> res = Inr r \<and> es' = []
             | Inr IN_PROGRESS \<Rightarrow> (\<exists>m. res = Inl (RemediationError EXECUTION_IN_PROGRESS m)) \<and> es' = []
             | Inr APPROVAL_ALREADY_USED \<Rightarrow> (\<exists>m. res = Inl (RemediationError APPROVAL_REPLAY m)) \<and> es' = []
             | Inr (CLAIMED n) \<Rightarrow> proceeded E i n st res es'
             | Inr (RECONCILE n) \<Rightarrow> reconciled E i n st res es'"
    using assms unfolding executed_def by blast
  then show thesis
  proof cases
    case early
    then show thesis using silent by auto
  next
    case late
    have go: thesis if ls: "lease_events i n ls" and es: "es = DidClock st # ls @ es''"
      and p: "proceeded E i n st res es''" for n ls es''
    proof -
      from p consider (u) "unwritten E i n st {REJECTED, EXPIRED, STALE} res es''"
        | (w) cur es1 where "es'' = DidRead (dos_target (ex_dossier i)) (Some cur) # es1"
            "verifyTagProjection E cur" "tp_digest cur = tp_digest (pln_expectedBefore (ex_plan i))"
            "dec_decision (ex_decision i) = APPROVE"
            "date_leq (date_parse E st) (date_parse E (apr_expiresAt (ex_request i)))"
            "wrote E i n st cur res es1"
        unfolding proceeded_def by blast
      then show thesis
      proof cases
        case u
        then obtain t es0 es1 where u': "es'' = es0 @ es1"
          "es0 = [] \<or> (\<exists>rd. es0 = [DidRead (dos_target (ex_dossier i)) rd])"
          "settled E i n st t res es1" "quiet E t" "tm_outcome t \<in> {REJECTED, EXPIRED, STALE}"
          unfolding unwritten_def by blast
        show thesis
          by (rule closed [of st "ls @ es0" es1 n t])
            (use u' es ls late(1) in \<open>auto simp: lease_events_def\<close>)
      next
        case w
        then show thesis using written [OF late(1) _ ls w(2,3,4) late(3) w(5,6)] es by simp
      qed
    qed
    show thesis
    proof (cases c)
      case (Inl e)
      then show thesis using late silent by simp
    next
      case (Inr cl)
      show thesis
      proof (cases cl)
        case (CLAIMED n)
        then show thesis using late Inr go [of n "[DidClaim (claim_of i) c]" es']
          by (simp add: lease_events_def)
      next
        case (RECONCILE n)
        then have rc: "reconciled E i n st res es'" using late Inr by simp
        then consider (u) "unwritten E i n st {INDETERMINATE} res es'"
          | (x) obs x e where "es' = [DidRead (dos_target (ex_dossier i)) obs, DidResume (lease_of i n) x]"
              "res = Inl e"
          | (p) obs es2 where "es' = DidRead (dos_target (ex_dossier i)) obs
              # DidResume (lease_of i n) (Inr True) # es2" "proceeded E i n st res es2"
          unfolding reconciled_def by blast
        then show thesis
        proof cases
          case u
          then obtain t es0 es1 where u': "es' = es0 @ es1"
            "es0 = [] \<or> (\<exists>rd. es0 = [DidRead (dos_target (ex_dossier i)) rd])"
            "settled E i n st t res es1" "quiet E t" "tm_outcome t \<in> {INDETERMINATE}"
            unfolding unwritten_def by blast
          show thesis
            by (rule closed [of st "DidClaim (claim_of i) c # es0" es1 n t])
              (use u' late Inr RECONCILE in auto)
        next
          case x
          then show thesis using late silent by simp
        next
          case p
          then show thesis
            using go [of n "[DidClaim (claim_of i) c, DidRead (dos_target (ex_dossier i)) obs,
                DidResume (lease_of i n) (Inr True)]" es2] late Inr RECONCILE
            by (simp add: lease_events_def)
        qed
      next
        case (COMPLETED r)
        then show thesis using late Inr replayed [of st r] by simp
      next
        case IN_PROGRESS
        then show thesis using late Inr silent by auto
      next
        case APPROVAL_ALREADY_USED
        then show thesis using late Inr silent by auto
      qed
    qed
  qed
qed

lemma settled_Inr:
  assumes "settled E i n st t (Inr r) es"
  shows "\<exists>c. r = seal_receipt E (receipt_input E i st c t)
    \<and> es = [DidClock c, DidComplete (lease_of i n) r (Inr ())]"
  using assms unfolding settled_def Let_def by (auto simp: eq_commute [of "Inr r"])

lemma settled_outcome: "settled E i n st t (Inr r) es \<Longrightarrow> rcp_outcome r = tm_outcome t"
  using settled_Inr [of E i n st t r es] by (auto simp: receipt_input_def)

lemma judged_verified:
  assumes "tm_outcome (judged E i cur m after) = VERIFIED"
  shows "tp_digest after = tp_digest (pln_expectedAfter (ex_plan i))"
    and "tp_entityUrn after = tp_entityUrn (pln_expectedBefore (ex_plan i))"
    and "tp_columnPath after = tp_columnPath (pln_expectedBefore (ex_plan i))"
    and "ack_requestDigest m = digest E (request_json (mutationRequest (ex_plan i)))"
  using assms by (simp_all add: judged_def verifyPostcondition_def Let_def split: if_splits)

text \<open>A returned receipt that was not replayed and says \<open>VERIFIED\<close> comes from the one write.\<close>

lemma wrote_verified:
  assumes "wrote E i n st cur (Inr r) es" "rcp_outcome r = VERIFIED"
  shows "\<exists>m after c. es = [DidAdd (mutationRequest (ex_plan i)) (Acked m),
        DidRead (dos_target (ex_dossier i)) (Some after), DidClock c,
        DidComplete (lease_of i n) r (Inr ())]
    \<and> verifyTagProjection E after \<and> tm_outcome (judged E i cur m after) = VERIFIED
    \<and> r = seal_receipt E (receipt_input E i st c (judged E i cur m after))"
  using assms(1)
proof (cases rule: wrote_cases)
  case (verdict m after es')
  then show ?thesis
    using settled_Inr [OF verdict(3)] settled_outcome [OF verdict(3)] assms(2) by auto
next
  case (unread m t es')
  then show ?thesis using settled_outcome [OF unread(2)] assms(2) by simp
next
  case (failed x rd t es')
  then show ?thesis using settled_outcome [OF failed(3)] assms(2) by (simp split: if_splits)
qed simp

subsection \<open>The claim is the second event\<close>

fun is_claim :: "event \<Rightarrow> bool" where
  "is_claim (DidClaim q x) = True"
| "is_claim _ = False"

abbreviation no_claim :: "event list \<Rightarrow> bool" where
  "no_claim es \<equiv> list_all (\<lambda>e. \<not> is_claim e) es"

lemma settled_no_claim: "settled E i n st t res es \<Longrightarrow> no_claim es"
  by (auto simp: settled_def Let_def)

lemma wrote_no_claim: "wrote E i n st cur res es \<Longrightarrow> no_claim es"
  by (erule wrote_cases) (auto dest: settled_no_claim)

lemma unwritten_no_claim: "unwritten E i n st S res es \<Longrightarrow> no_claim es"
  by (auto simp: unwritten_def dest: settled_no_claim)

lemma proceeded_no_claim: "proceeded E i n st res es \<Longrightarrow> no_claim es"
  unfolding proceeded_def by (elim disjE exE conjE) (simp_all add: unwritten_no_claim wrote_no_claim)

lemma reconciled_no_claim: "reconciled E i n st res es \<Longrightarrow> no_claim es"
  unfolding reconciled_def
  by (elim disjE exE conjE) (simp_all add: unwritten_no_claim proceeded_no_claim)

lemma no_claim_notin: "no_claim es \<Longrightarrow> DidClaim a b \<notin> set es"
  by (auto simp: list_all_iff)

lemma executed_claim:
  assumes "executed E i res es" "DidClaim (claim_of i) (Inr (CLAIMED n)) \<in> set es"
  shows "\<exists>st es'. es = DidClock st # DidClaim (claim_of i) (Inr (CLAIMED n)) # es'
    \<and> proceeded E i n st res es'"
proof -
  from assms obtain st c es' where es: "es = DidClock st # DidClaim (claim_of i) c # es'"
    and c: "case c of Inl e \<Rightarrow> res = Inl e \<and> es' = []
             | Inr (COMPLETED r) \<Rightarrow> res = Inr r \<and> es' = []
             | Inr IN_PROGRESS \<Rightarrow> (\<exists>m. res = Inl (RemediationError EXECUTION_IN_PROGRESS m)) \<and> es' = []
             | Inr APPROVAL_ALREADY_USED \<Rightarrow> (\<exists>m. res = Inl (RemediationError APPROVAL_REPLAY m)) \<and> es' = []
             | Inr (CLAIMED n) \<Rightarrow> proceeded E i n st res es'
             | Inr (RECONCILE n) \<Rightarrow> reconciled E i n st res es'"
    unfolding executed_def by auto
  have "no_claim es'"
    using c proceeded_no_claim reconciled_no_claim
    by (cases c) (auto split: ExecutionClaim.splits)
  then have "c = Inr (CLAIMED n)" using assms(2) es no_claim_notin by fastforce
  with c es show ?thesis by simp
qed

subsection \<open>The receipts an execution issues\<close>

lemma executable_tag:
  assumes "executable E i"
  shows "\<exists>tag. first (arg_tag_urns (act_arguments (pln_action (ex_plan i)))) = Some tag
    \<and> tp_tags (pln_expectedAfter (ex_plan i)) = uniqueSorted E (tp_tags (pln_expectedBefore (ex_plan i)) @ [tag])
    \<and> verifyTagProjection E (pln_expectedBefore (ex_plan i))
    \<and> verifyTagProjection E (pln_expectedAfter (ex_plan i))
    \<and> tp_entityUrn (pln_expectedAfter (ex_plan i)) = tp_entityUrn (pln_expectedBefore (ex_plan i))
    \<and> tp_columnPath (pln_expectedAfter (ex_plan i)) = tp_columnPath (pln_expectedBefore (ex_plan i))"
proof -
  have v: "verifyRemediationPlan E (ex_plan i)"
    using assms by (simp add: executable_def approvalArtifactsValid_def)
  then obtain tag where "first (arg_tag_urns (act_arguments (pln_action (ex_plan i)))) = Some tag"
    by (cases "first (arg_tag_urns (act_arguments (pln_action (ex_plan i))))")
      (simp_all add: verifyRemediationPlan_def Let_def)
  with v show ?thesis by (simp add: verifyRemediationPlan_def Let_def)
qed

lemma decision_digest_truthy:
  assumes "executable E i"
  shows "truthy (Some (dec_digest (ex_decision i)))"
  using assms by (auto simp: executable_def approvalArtifactsValid_def verifyApprovalDecision_def
      verifyDigest_def is_sha256_def)

lemma sealed_integrity:
  assumes "executable E i" "verified_or_absent E (tm_before t)" "verified_or_absent E (tm_after t)"
  shows "receipt_integrity E (seal_receipt E (receipt_input E i st c t))"
proof -
  have "issue E i st c t = Inr (seal_receipt E (receipt_input E i st c t))"
    using issue_cases [OF assms(1,2)] assms(3) by simp
  then show ?thesis
    by (auto simp: issue_def dest: issued_integrity split: sum.splits)
qed

lemma quiet_valid:
  assumes "executable E i" "quiet E (t\<lparr>tm_mutation := None\<rparr>)"
    and "\<And>m. tm_mutation t = Some m \<Longrightarrow>
      ack_requestDigest m = digest E (request_json (mutationRequest (ex_plan i)))"
  shows "receipt_valid E (seal_receipt E (receipt_input E i st c t))"
proof -
  have "evidence_sound E (seal_receipt E (receipt_input E i st c t))"
    using assms(2,3) by (auto simp: quiet_def evidence_sound_def receipt_input_def action_request_def
        mutationRequest_def)
  moreover have "receipt_integrity E (seal_receipt E (receipt_input E i st c t))"
    by (rule sealed_integrity [OF assms(1)]) (use assms(2) in \<open>auto simp: quiet_def\<close>)
  ultimately show ?thesis by (simp add: receipt_valid_iff)
qed

text \<open>The digest check of the loop and the tag check of the receipt agree on honest observations.\<close>

lemma exact_after_iff:
  assumes "executable E i" "verifyTagProjection E after"
    and "tp_entityUrn after = tp_entityUrn (pln_expectedBefore (ex_plan i))"
    and "tp_columnPath after = tp_columnPath (pln_expectedBefore (ex_plan i))"
    and "no_collision E (projection_payload after) (projection_payload (pln_expectedAfter (ex_plan i)))"
    and "first (arg_tag_urns (act_arguments (pln_action (ex_plan i)))) = Some tag"
  shows "tp_digest after = tp_digest (pln_expectedAfter (ex_plan i)) \<longleftrightarrow>
    tp_tags after = uniqueSorted E (tp_tags (pln_expectedBefore (ex_plan i)) @ [tag])"
proof
  let ?x = "pln_expectedAfter (ex_plan i)"
  have x: "verifyTagProjection E ?x" "tp_entityUrn ?x = tp_entityUrn (pln_expectedBefore (ex_plan i))"
    "tp_columnPath ?x = tp_columnPath (pln_expectedBefore (ex_plan i))"
    "tp_tags ?x = uniqueSorted E (tp_tags (pln_expectedBefore (ex_plan i)) @ [tag])"
    using executable_tag [OF assms(1)] assms(6) by auto
  show "tp_tags after = uniqueSorted E (tp_tags (pln_expectedBefore (ex_plan i)) @ [tag])"
    if "tp_digest after = tp_digest ?x"
    using projection_digest_binds [OF assms(2) x(1) that assms(5)] x(4) by simp
  show "tp_digest after = tp_digest ?x"
    if "tp_tags after = uniqueSorted E (tp_tags (pln_expectedBefore (ex_plan i)) @ [tag])"
  proof -
    have "projection_payload after = projection_payload ?x"
      using assms(3,4) x that by (simp add: projection_payload_def)
    then show ?thesis
      using assms(2) x(1) unfolding verifyTagProjection_def by (metis verifyDigestD)
  qed
qed

lemma judged_valid:
  assumes "executable E i" "verifyTagProjection E after" "verifyTagProjection E cur"
    and "cur = pln_expectedBefore (ex_plan i)"
    and "tp_entityUrn after = tp_entityUrn cur" "tp_columnPath after = tp_columnPath cur"
    and "no_collision E (projection_payload after) (projection_payload (pln_expectedAfter (ex_plan i)))"
    and "ack_requestDigest m = digest E (request_json (mutationRequest (ex_plan i)))"
  shows "receipt_valid E (seal_receipt E (receipt_input E i st c (judged E i cur m after)))"
proof -
  let ?r = "seal_receipt E (receipt_input E i st c (judged E i cur m after))"
  obtain tag where tag: "first (arg_tag_urns (act_arguments (pln_action (ex_plan i)))) = Some tag"
    using executable_tag [OF assms(1)] by blast
  have ex: "tp_digest after = tp_digest (pln_expectedAfter (ex_plan i)) \<longleftrightarrow>
      tp_tags after = uniqueSorted E (tp_tags cur @ [tag])"
    using exact_after_iff [OF assms(1,2) _ _ assms(7) tag] assms(4-6) by simp
  have req: "action_request (pln_action (ex_plan i)) = mutationRequest (ex_plan i)"
    by (simp add: action_request_def mutationRequest_def)
  have "checks_match E ?r"
    using tag ex assms(4-6,8) decision_digest_truthy [OF assms(1)]
    by (simp add: checks_match_def expectedCheckPasses_def verifyPostcondition_def Let_def
        receipt_input_def req truthy_only_def)
  then have "evidence_sound E ?r"
    using assms(8) by (auto simp: evidence_sound_def receipt_input_def req judged_def Let_def
        verifyPostcondition_def blocked_def)
  moreover have "receipt_integrity E ?r"
    by (rule sealed_integrity [OF assms(1)]) (use assms in auto)
  ultimately show ?thesis by (simp add: receipt_valid_iff)
qed

text \<open>DataHub and its adapter answer honestly: acks name the request, reads are of the target asked for.\<close>

definition honest_events :: "js_env \<Rightarrow> RemediationPlanV1 \<Rightarrow> event list \<Rightarrow> bool" where
  "honest_events E plan es \<longleftrightarrow>
     (\<forall>q m. DidAdd q (Acked m) \<in> set es \<longrightarrow> ack_requestDigest m = digest E (request_json q))
     \<and> (\<forall>t p. DidRead t (Some p) \<in> set es \<longrightarrow>
          tp_entityUrn p = tg_entityUrn t \<and> tp_columnPath p = tg_columnPath t
          \<and> no_collision E (projection_payload p) (projection_payload (pln_expectedBefore plan))
          \<and> no_collision E (projection_payload p) (projection_payload (pln_expectedAfter plan)))"

subsection \<open>The in-memory journal behind the ports\<close>

text \<open>
  DataHub (reads, mutations, the two clocks) over a world of its own, and a journal of the interface
  beside it: a port call of one leaves the other alone.
\<close>

record 'd datahub =
  dh_read :: "'d \<Rightarrow> RemediationTarget \<Rightarrow> TagProjection option \<times> 'd"
  dh_add :: "'d \<Rightarrow> TagRequest \<Rightarrow> MutationResult \<times> 'd"
  dh_clock :: "'d \<Rightarrow> string \<times> 'd"
  dh_now :: "'d \<Rightarrow> int \<times> 'd"

definition journal_ports :: "'j ExecutionJournal \<Rightarrow> 'd datahub \<Rightarrow> ('d \<times> 'j) ports" where
  "journal_ports J D =
     \<lparr>readTagProjection = (\<lambda>(d, j) t. let (p, d') = dh_read D d t in (p, (d', j))),
      addTags = (\<lambda>(d, j) q. let (m, d') = dh_add D d q in (m, (d', j))),
      clock = (\<lambda>(d, j). let (c, d') = dh_clock D d in (c, (d', j))),
      port_claim = (\<lambda>(d, j) i. let (now, d') = dh_now D d; (c, j') = claim J now j i in (Inr c, (d', j'))),
      port_resume = (\<lambda>(d, j) l. let (now, d') = dh_now D d; (b, j') = resume J now j l in (Inr b, (d', j'))),
      port_complete = (\<lambda>(d, j) l r. case complete J j l r of
          Inl e \<Rightarrow> (Inl e, (d, j)) | Inr j' \<Rightarrow> (Inr (), (d, j')))\<rparr>"

text \<open>How the journal moves along the events of an execution.\<close>

inductive journal_trace :: "'j ExecutionJournal \<Rightarrow> 'j \<Rightarrow> event list \<Rightarrow> 'j \<Rightarrow> bool"
  for J :: "'j ExecutionJournal" where
  trace_nil: "journal_trace J j [] j"
| trace_other: "journal_trace J j es j' \<Longrightarrow> (\<And>i x. e \<noteq> DidClaim i x) \<Longrightarrow> (\<And>l x. e \<noteq> DidResume l x) \<Longrightarrow>
    (\<And>l r x. e \<noteq> DidComplete l r x) \<Longrightarrow> journal_trace J j (e # es) j'"
| trace_claim: "claim J now j i = (c, j1) \<Longrightarrow> journal_trace J j1 es j' \<Longrightarrow>
    journal_trace J j (DidClaim i (Inr c) # es) j'"
| trace_resume: "resume J now j l = (b, j1) \<Longrightarrow> journal_trace J j1 es j' \<Longrightarrow>
    journal_trace J j (DidResume l (Inr b) # es) j'"
| trace_complete: "complete J j l r = Inr j1 \<Longrightarrow> journal_trace J j1 es j' \<Longrightarrow>
    journal_trace J j (DidComplete l r (Inr ()) # es) j'"
| trace_failed: "complete J j l r = Inl e \<Longrightarrow> journal_trace J j es j' \<Longrightarrow>
    journal_trace J j (DidComplete l r (Inl e) # es) j'"

inductive_cases trace_NilE: "journal_trace J j [] j'"
inductive_cases trace_ClaimE: "journal_trace J j (DidClaim i x # es) j'"
inductive_cases trace_ResumeE: "journal_trace J j (DidResume l x # es) j'"
inductive_cases trace_CompleteE: "journal_trace J j (DidComplete l r x # es) j'"
inductive_cases trace_ClockE: "journal_trace J j (DidClock c # es) j'"
inductive_cases trace_ReadE: "journal_trace J j (DidRead t p # es) j'"
inductive_cases trace_AddE: "journal_trace J j (DidAdd q m # es) j'"

lemma trace_append:
  "journal_trace J j es j1 \<Longrightarrow> journal_trace J j1 es' j' \<Longrightarrow> journal_trace J j (es @ es') j'"
proof (induction rule: journal_trace.induct)
  case (trace_other j es j1 e)
  have "journal_trace J j (e # (es @ es')) j'"
    by (rule journal_trace.trace_other) (use trace_other in auto)
  then show ?case by simp
qed (auto intro: journal_trace.intros)

definition traced :: "'j ExecutionJournal \<Rightarrow> ('d \<times> 'j, 'a) prog \<Rightarrow> bool" where
  "traced J m \<longleftrightarrow> (\<forall>d j l. \<exists>res d' j' es. m ((d, j), l) = (res, ((d', j'), l @ es)) \<and> journal_trace J j es j')"

lemma traced_pure: "traced J (ret a)" "traced J (throw e)" "traced J (lift_result r)"
  by (auto simp: traced_def ret_def throw_def lift_result_def intro: trace_nil)

lemma traced_and_then:
  assumes "traced J m" "\<And>a. traced J (f a)"
  shows "traced J (and_then m f)"
  unfolding traced_def
proof (intro allI)
  fix d j l
  obtain res d1 j1 es where m: "m ((d, j), l) = (res, ((d1, j1), l @ es))" "journal_trace J j es j1"
    using assms(1) unfolding traced_def by blast
  show "\<exists>res d' j' es. and_then m f ((d, j), l) = (res, ((d', j'), l @ es)) \<and> journal_trace J j es j'"
  proof (cases res)
    case (Inl e)
    with m show ?thesis by (simp add: and_then_def)
  next
    case (Inr a)
    obtain res' d' j' es' where "f a ((d1, j1), l @ es) = (res', ((d', j'), (l @ es) @ es'))"
      "journal_trace J j1 es' j'"
      using assms(2) unfolding traced_def by blast
    with m Inr trace_append [OF m(2)] show ?thesis by (auto simp: and_then_def)
  qed
qed

lemma traced_calls:
  "traced J (do_read (journal_ports J D) t)" "traced J (do_add (journal_ports J D) q)"
  "traced J (do_clock (journal_ports J D))" "traced J (do_claim (journal_ports J D) i)"
  "traced J (do_resume (journal_ports J D) l)" "traced J (do_complete (journal_ports J D) l r)"
  by (auto simp: traced_def do_read_def do_add_def do_clock_def do_claim_def do_resume_def do_complete_def
      call_def journal_ports_def split_beta Let_def and_then_def lift_result_def
      split: sum.split intro!: journal_trace.intros)

lemmas traced_intros = traced_pure traced_and_then traced_calls

lemma traced_terminal: "traced J (terminalReceipt E (journal_ports J D) i n st t)"
  unfolding terminalReceipt_def by (intro traced_intros)

lemma traced_mutate: "traced J (mutate E (journal_ports J D) i n st cur)"
  unfolding mutate_def after_mutation_def
  by (intro traced_intros) (auto split: MutationResult.split option.split intro!: traced_intros traced_terminal)

lemma traced_proceed: "traced J (proceed E (journal_ports J D) i n st)"
  unfolding proceed_def
  by (auto split: option.split intro!: traced_intros traced_terminal traced_mutate)

lemma traced_execute: "traced J (executeApprovedRemediation E (journal_ports J D) i)"
  unfolding executeApprovedRemediation_def reconcile_def
  by (auto split: option.split ExecutionClaim.split intro!: traced_intros traced_terminal traced_proceed)

text \<open>What a claim answers decides an execution without a lease; it touches nothing else.\<close>

lemma execute_refused:
  assumes "\<And>now. fst (claim J now j (claim_of i)) = c \<and> snd (claim J now j (claim_of i)) = j"
    and "c \<in> {IN_PROGRESS, APPROVAL_ALREADY_USED} \<or> (\<exists>r. c = COMPLETED r)"
    and "executeApprovedRemediation E (journal_ports J D) i ((d, j), []) = (res, ((d', j'), es))"
  shows "j' = j \<and> no_write es \<and> (\<forall>r. res = Inr r \<longrightarrow> c = COMPLETED r)"
  using assms
  by (auto simp: executeApprovedRemediation_def throw_def ret_def and_then_def lift_result_def do_clock_def
      do_claim_def call_def journal_ports_def claim_of_def [symmetric] no_write_def split_beta Let_def
      split: if_splits sum.splits prod.splits ExecutionClaim.splits)

lemma trace_split:
  "journal_trace J j (es @ es') j' \<Longrightarrow> \<exists>j1. journal_trace J j es j1 \<and> journal_trace J j1 es' j'"
proof (induction es arbitrary: j)
  case Nil
  then show ?case by (auto intro: trace_nil)
next
  case (Cons e es)
  from Cons.prems have "journal_trace J j (e # (es @ es')) j'" by simp
  then show ?case
  proof (cases rule: journal_trace.cases)
    case trace_other
    then obtain j1 where "journal_trace J j es j1" "journal_trace J j1 es' j'" using Cons.IH by blast
    with trace_other show ?thesis by (metis journal_trace.trace_other)
  next
    case (trace_claim now i c j2)
    then obtain j1 where "journal_trace J j2 es j1" "journal_trace J j1 es' j'" using Cons.IH by blast
    with trace_claim show ?thesis by (metis journal_trace.trace_claim)
  next
    case (trace_resume now l b j2)
    then obtain j1 where "journal_trace J j2 es j1" "journal_trace J j1 es' j'" using Cons.IH by blast
    with trace_resume show ?thesis by (metis journal_trace.trace_resume)
  next
    case (trace_complete l r j2)
    then obtain j1 where "journal_trace J j2 es j1" "journal_trace J j1 es' j'" using Cons.IH by blast
    with trace_complete show ?thesis by (metis journal_trace.trace_complete)
  next
    case (trace_failed l r x)
    then obtain j1 where "journal_trace J j es j1" "journal_trace J j1 es' j'" using Cons.IH by blast
    with trace_failed show ?thesis by (metis journal_trace.trace_failed)
  qed
qed

context execution_journal
begin

lemma trace_run: "journal_trace J j es j' \<Longrightarrow> \<exists>cs. j' = snd (journal_run J j cs)"
proof (induction rule: journal_trace.induct)
  case (trace_nil j)
  then show ?case by (intro exI [of _ "[]"]) simp
next
  case (trace_claim now j i c j1 es j')
  then obtain cs where "j' = snd (journal_run J j1 cs)" by blast
  with trace_claim show ?case
    by (intro exI [of _ "Claim now i # cs"]) (simp add: split_beta Let_def)
next
  case (trace_resume now j l b j1 es j')
  then obtain cs where "j' = snd (journal_run J j1 cs)" by blast
  with trace_resume show ?case
    by (intro exI [of _ "Resume now l # cs"]) (simp add: split_beta Let_def)
next
  case (trace_complete j l r j1 es j')
  then obtain cs where "j' = snd (journal_run J j1 cs)" by blast
  with trace_complete show ?case
    by (intro exI [of _ "Complete l r # cs"]) (simp add: split_beta Let_def)
qed auto

lemma trace_keeps:
  assumes "wf j" "journal_trace J j es j'"
  shows "wf j'" and "owner j k = Some x \<Longrightarrow> owner j' k = Some x"
    and "stored j k = Some r \<Longrightarrow> stored j' k = Some r"
  using trace_run [OF assms(2)] run_keeps [OF assms(1)] by blast+

lemma trace_stores_nothing:
  "journal_trace J j es j' \<Longrightarrow> wf j \<Longrightarrow> (\<And>l r x. DidComplete l r x \<notin> set es) \<Longrightarrow>
   stored j' k = stored j k"
proof (induction rule: journal_trace.induct)
  case (trace_claim now j i c j1 es j')
  then show ?case
    using claim_keeps_stored [of j now i k] wf_step [of j "Claim now i"]
    by (simp add: split_beta Let_def)
next
  case (trace_resume now j l b j1 es j')
  then show ?case
    using resume_keeps_stored [of j now l k] wf_step [of j "Resume now l"]
    by (simp add: split_beta Let_def)
qed auto

lemma leased_stores:
  assumes "wf j" and "journal_trace J j (A @ [DidClock c, DidComplete (lease_of i n) r (Inr ())]) j'"
    and "DidClaim (claim_of i) (Inr g) \<in> set A" "g = CLAIMED n \<or> g = RECONCILE n"
    and "\<And>l r x. DidComplete l r x \<notin> set A"
  shows "stored j' (ex_idempotencyKey i) = Some r
    \<and> (\<exists>dd. owner j' (ex_idempotencyKey i) = Some (apr_approvalId (ex_request i), dd))"
proof -
  obtain A1 A2 where A: "A = A1 @ DidClaim (claim_of i) (Inr g) # A2"
    using split_list [OF assms(3)] by blast
  obtain j1 where j1: "journal_trace J j A j1"
    "journal_trace J j1 [DidClock c, DidComplete (lease_of i n) r (Inr ())] j'"
    using trace_split [OF assms(2)] by blast
  obtain ja where ja: "journal_trace J j A1 ja"
    "journal_trace J ja (DidClaim (claim_of i) (Inr g) # A2) j1"
    using trace_split [of J j A1 "DidClaim (claim_of i) (Inr g) # A2" j1] j1(1) A by blast
  have wfa: "wf ja" using trace_keeps(1) [OF assms(1) ja(1)] .
  from ja(2) obtain now jb where jb: "claim J now ja (claim_of i) = (g, jb)" "journal_trace J jb A2 j1"
    by (auto elim: trace_ClaimE)
  have step: "journal_step J ja (Claim now (claim_of i))
      = (Granted (ex_idempotencyKey i) (apr_approvalId (ex_request i)) n, jb)"
    using jb(1) assms(4) by (auto simp: claim_of_def)
  have wfb: "wf jb" using wf_step [OF wfa, of "Claim now (claim_of i)"] step by simp
  obtain dd where ow: "owner jb (ex_idempotencyKey i) = Some (apr_approvalId (ex_request i), dd)"
    and "stored ja (ex_idempotencyKey i) = None"
    using grant [OF wfa step] by blast
  then have "stored jb (ex_idempotencyKey i) = None"
    using claim_keeps_stored [OF wfa, of now "claim_of i"] jb(1) by simp
  then have st1: "stored j1 (ex_idempotencyKey i) = None"
    using trace_stores_nothing [OF jb(2) wfb] assms(5) A by fastforce
  have wf1: "wf j1" by (rule trace_keeps(1) [OF wfb jb(2)])
  have "complete J j1 (lease_of i n) r = Inr j'"
    using j1(2) by (auto elim!: trace_ClockE trace_CompleteE trace_NilE)
  from complete_stores [OF wf1 this] st1
  have "stored j' (ex_idempotencyKey i) = Some r" by (auto simp: lease_of_def)
  moreover have "owner j' (ex_idempotencyKey i) = Some (apr_approvalId (ex_request i), dd)"
    using trace_keeps(2) [OF wf1 j1(2)] trace_keeps(2) [OF wfb jb(2) ow] by blast
  ultimately show ?thesis by blast
qed

text \<open>An execution that returns a receipt leaves that receipt stored under its key and approval.\<close>

lemma execution_stores:
  assumes "wf j"
    and "executeApprovedRemediation E (journal_ports J D) i ((d, j), []) = (Inr r, ((d', j'), es))"
  shows "wf j' \<and> stored j' (ex_idempotencyKey i) = Some r
    \<and> (\<exists>dd. owner j' (ex_idempotencyKey i) = Some (apr_approvalId (ex_request i), dd))"
proof -
  have tr: "journal_trace J j es j'"
    using traced_execute [of J E D i] assms(2) unfolding traced_def
    by (metis append_Nil prod.inject)
  have "stored j' (ex_idempotencyKey i) = Some r
    \<and> (\<exists>dd. owner j' (ex_idempotencyKey i) = Some (apr_approvalId (ex_request i), dd))"
    using prog_specD [OF spec_execute assms(2)]
  proof (cases rule: executed_cases)
    case silent
    then show ?thesis by (metis (no_types))
  next
    case (replayed st r')
    then obtain now where c: "claim J now j (claim_of i) = (COMPLETED r, j')"
      using tr by (auto elim!: trace_ClockE trace_ClaimE trace_NilE)
    with claim_completed [OF assms(1), of now "claim_of i" r]
    have "stored j (ex_idempotencyKey i) = Some r" "owner j (ex_idempotencyKey i)
        = Some (apr_approvalId (ex_request i), dec_digest (ex_decision i))"
      by (auto simp: claim_of_def)
    moreover from this have "j' = j"
      using claim_stored [OF assms(1), of "claim_of i" "apr_approvalId (ex_request i)"
          "dec_digest (ex_decision i)" r now] c by (simp add: claim_of_def)
    ultimately show ?thesis by blast
  next
    case (closed st n t es0 es1)
    obtain c where "es1 = [DidClock c, DidComplete (lease_of i n) r (Inr ())]"
      using settled_Inr [OF closed(4)] by blast
    then show ?thesis
      using leased_stores [OF assms(1), of "DidClock st # es0" c i n r j'] tr closed by auto
  next
    case (written st n ls cur es')
    have "\<exists>B c. es' = B @ [DidClock c, DidComplete (lease_of i n) r (Inr ())]
        \<and> (\<forall>l r x. DidComplete l r x \<notin> set B)"
      using written(9)
    proof (cases rule: wrote_cases)
      case (verdict m after es1)
      then show ?thesis using settled_Inr [OF verdict(3)]
        by (intro exI [of _ "[DidAdd (mutationRequest (ex_plan i)) (Acked m),
            DidRead (dos_target (ex_dossier i)) (Some after)]"]) auto
    next
      case (unsealed m after c)
      then show ?thesis by simp
    next
      case (unread m t es1)
      then show ?thesis using settled_Inr [OF unread(2)]
        by (intro exI [of _ "[DidAdd (mutationRequest (ex_plan i)) (Acked m),
            DidRead (dos_target (ex_dossier i)) None]"]) auto
    next
      case (failed x rd t es1)
      then show ?thesis using settled_Inr [OF failed(3)]
        by (intro exI [of _ "[DidAdd (mutationRequest (ex_plan i)) x,
            DidRead (dos_target (ex_dossier i)) rd]"]) auto
    qed
    then obtain B c where B: "es' = B @ [DidClock c, DidComplete (lease_of i n) r (Inr ())]"
      "\<And>l r x. DidComplete l r x \<notin> set B" by blast
    let ?A = "DidClock st # ls @ DidRead (dos_target (ex_dossier i)) (Some cur) # B"
    obtain g where g: "DidClaim (claim_of i) (Inr g) \<in> set ls" "g = CLAIMED n \<or> g = RECONCILE n"
      "\<And>l r x. DidComplete l r x \<notin> set ls"
      using written(3) unfolding lease_events_def by fastforce
    show ?thesis
      by (rule leased_stores [OF assms(1), of ?A c i n r j' g]) (use tr written(2) B g in auto)
  qed
  then show ?thesis using trace_keeps(1) [OF assms(1) tr] by blast
qed

text \<open>After it, whatever happens to the journal, that approval gives no execution a lease again.\<close>

lemma consumed_approval:
  assumes "wf j"
    and "executeApprovedRemediation E (journal_ports J D) i ((d, j), []) = (Inr r, ((d', j'), es))"
    and "apr_approvalId (ex_request i2) = apr_approvalId (ex_request i)"
    and "executeApprovedRemediation E2 (journal_ports J D2) i2 ((d2, snd (journal_run J j' cs)), [])
          = (res2, ((d2', j2'), es2))"
  shows "no_write es2 \<and> j2' = snd (journal_run J j' cs)
    \<and> (\<forall>r2. res2 = Inr r2 \<longrightarrow> r2 = r \<and> ex_idempotencyKey i2 = ex_idempotencyKey i)"
proof -
  obtain dd where e: "wf j'" "stored j' (ex_idempotencyKey i) = Some r"
    "owner j' (ex_idempotencyKey i) = Some (apr_approvalId (ex_request i), dd)"
    using execution_stores [OF assms(1,2)] by blast
  let ?j = "snd (journal_run J j' cs)"
  have k: "wf ?j" "stored ?j (ex_idempotencyKey i) = Some r"
    "owner ?j (ex_idempotencyKey i) = Some (apr_approvalId (ex_request i), dd)"
    using run_keeps [OF e(1)] e by blast+
  let ?c = "if ex_idempotencyKey i2 = ex_idempotencyKey i \<and> dec_digest (ex_decision i2) = dd
            then COMPLETED r else APPROVAL_ALREADY_USED"
  have cl: "claim J now ?j (claim_of i2) = (?c, ?j)" for now
  proof (cases "ex_idempotencyKey i2 = ex_idempotencyKey i")
    case True
    then show ?thesis
      using claim_stored [OF k(1), of "claim_of i2" _ dd r now] k assms(3)
      by (auto simp: claim_of_def prod_eq_iff)
  next
    case False
    then show ?thesis
      using claim_other_key [OF k(1,3), of "claim_of i2"] assms(3) by (simp add: claim_of_def)
  qed
  have "j2' = ?j \<and> no_write es2 \<and> (\<forall>r2. res2 = Inr r2 \<longrightarrow> ?c = COMPLETED r2)"
    by (rule execute_refused [OF _ _ assms(4)]) (simp_all add: cl)
  then show ?thesis by (metis ExecutionClaim.distinct(17) ExecutionClaim.inject(3))
qed

end

subsection \<open>A run for the witnesses\<close>

text \<open>DataHub whose column gets the tag; \<open>sealed\<close> says whether its read-back after the write is sealed.\<close>

definition demo_datahub :: "bool \<Rightarrow> bool datahub" where
  "demo_datahub sealed =
     \<lparr>dh_read = (\<lambda>tagged t. (Some (if \<not> tagged then demo_before
          else if sealed then demo_after else demo_after\<lparr>tp_digest := []\<rparr>), tagged)),
      dh_add = (\<lambda>tagged q. (Acked \<lparr>ack_requestDigest = demo_digest, ack_responseDigest = demo_digest\<rparr>, True)),
      dh_clock = (\<lambda>tagged. (''2026-01-01T00:10:00.000Z'', tagged)),
      dh_now = (\<lambda>tagged. (1767226200000, tagged))\<rparr>"

definition demo_dossier :: EvidenceDossierV1 where
  "demo_dossier = seal_dossier demo_env demo_input (sanitizeFinding demo_env demo_finding)"

definition demo_plan :: RemediationPlanV1 where
  "demo_plan = seal_plan demo_env demo_dossier demo_digest demo_action demo_before demo_after"

definition demo_request :: ApprovalRequestV1 where
  "demo_request = seal_request demo_env demo_dossier demo_plan ''2026-01-01T00:00:00.000Z''
     ''2026-01-01T01:00:00.000Z'' ''nonce-001''"

definition demo_decision :: ApprovalDecisionV1 where
  "demo_decision = seal_decision demo_env demo_request demo_plan APPROVE
     \<lparr>au_subject = ''alice'', au_issuer = ''idp'', au_roles = [''DataSteward''], au_authenticated = True\<rparr>
     ''2026-01-01T00:05:00.000Z''"

definition demo_execution :: ExecuteApprovedRemediationInput where
  "demo_execution = \<lparr>ex_dossier = demo_dossier, ex_plan = demo_plan, ex_request = demo_request,
     ex_decision = demo_decision, ex_idempotencyKey = ''key-1''\<rparr>"

lemma demo_dates:
  "date_parse demo_env ''2026-01-01T00:00:00.000Z'' = Some 1767225600000"
  "date_parse demo_env ''2026-01-01T00:05:00.000Z'' = Some 1767225900000"
  "date_parse demo_env ''2026-01-01T00:10:00.000Z'' = Some 1767226200000"
  "date_parse demo_env ''2026-01-01T01:00:00.000Z'' = Some 1767229200000"
  unfolding date_parse_def by code_simp+

lemma demo_dossier_verifies [simp]: "verifyEvidenceDossier demo_env demo_dossier"
  unfolding demo_dossier_def
  by (rule seal_dossier_verifies)
    (simp_all add: demo_input_def, simp_all add: sanitizeFinding_def demo_finding_def uniqueSorted_def
      dedupe_def)

lemma demo_plan_verifies [simp]: "verifyRemediationPlan demo_env demo_plan"
proof -
  let ?after = "seal_projection demo_env (tp_entityUrn demo_before) (tp_columnPath demo_before)
      (uniqueSorted demo_env (tp_tags demo_before @ [''urn:li:tag:PII'']))"
  have eq: "?after = demo_after"
    unfolding demo_after_eq by (simp add: demo_after_def seal_projection_def)
  have "verifyRemediationPlan demo_env (seal_plan demo_env demo_dossier demo_digest
      (seal_action demo_env \<lparr>arg_tag_urns = [''urn:li:tag:PII''],
         arg_entity_urns = [''urn:li:dataset:users''], arg_column_paths = [''email'']\<rparr>) demo_before ?after)"
    by (rule seal_plan_verifies) (simp_all add: nonempty_eval)
  then show ?thesis unfolding eq demo_plan_def demo_action_def .
qed

lemma demo_request_simps [simp]:
  "apr_digest demo_request = demo_digest" "apr_planDigest demo_request = demo_digest"
  "apr_dossierDigest demo_request = demo_digest" "apr_expectedBeforeDigest demo_request = demo_digest"
  "apr_requestedAt demo_request = ''2026-01-01T00:00:00.000Z''"
  "apr_expiresAt demo_request = ''2026-01-01T01:00:00.000Z''"
  "apr_actionCatalogDigest demo_request = ACTION_CATALOG_DIGEST demo_env"
  "apr_approvalId demo_request = ''approval-'' @ short_digest demo_digest"
  by (simp_all add: demo_request_def seal_request_def Let_def demo_plan_def demo_dossier_def
      seal_plan_digest seal_dossier_digest)

lemma demo_plan_simps [simp]:
  "pln_digest demo_plan = demo_digest" "pln_dossierDigest demo_plan = demo_digest"
  "pln_policyDigest demo_plan = demo_digest" "pln_expectedBefore demo_plan = demo_before"
  "pln_expectedAfter demo_plan = demo_after" "pln_action demo_plan = demo_action"
  "pln_actionCatalogDigest demo_plan = ACTION_CATALOG_DIGEST demo_env"
  "dos_digest demo_dossier = demo_digest" "dos_policyDigest demo_dossier = demo_digest"
  by (simp_all add: demo_plan_def seal_plan_digest demo_dossier_def seal_dossier_digest)
    (simp_all add: seal_dossier_def Let_def demo_input_def demo_policy_def)

lemma demo_decision_simps [simp]:
  "dec_digest demo_decision = demo_digest" "dec_decision demo_decision = APPROVE"
  "dec_decidedAt demo_decision = ''2026-01-01T00:05:00.000Z''"
  "dec_planDigest demo_decision = demo_digest" "dec_requestDigest demo_decision = demo_digest"
  "dec_approvalId demo_decision = apr_approvalId demo_request"
  by (simp_all add: demo_decision_def seal_decision_def Let_def)

lemma demo_request_verifies [simp]: "verifyApprovalRequest demo_env demo_request"
  by (simp add: verifyApprovalRequest_def demo_dates)
    (simp add: demo_request_def seal_request_def Let_def)

lemma demo_decision_verifies [simp]: "verifyApprovalDecision demo_env demo_decision"
  by (simp add: verifyApprovalDecision_def demo_dates verifyDigest_def)
    (simp add: demo_decision_def seal_decision_def Let_def uniqueSorted_def dedupe_def)

lemma demo_execution_simps [simp]:
  "ex_dossier demo_execution = demo_dossier" "ex_plan demo_execution = demo_plan"
  "ex_request demo_execution = demo_request" "ex_decision demo_execution = demo_decision"
  "ex_idempotencyKey demo_execution = ''key-1''"
  by (simp_all add: demo_execution_def)

lemma demo_executable [simp]:
  "approvalArtifactsValid demo_env demo_dossier demo_plan demo_request demo_decision"
  "trim ''key-1'' \<noteq> []"
  by (simp_all add: approvalArtifactsValid_def demo_dates) (simp add: trim_def is_ws_def)

abbreviation demo_ports :: "bool \<Rightarrow> (bool \<times> MemoryJournal) ports" where
  "demo_ports sealed \<equiv> journal_ports (InMemoryExecutionJournal LEASE_MILLISECONDS) (demo_datahub sealed)"

abbreviation demo_head :: "event list" where
  "demo_head \<equiv> [DidClock ''2026-01-01T00:10:00.000Z'', DidClaim (claim_of demo_execution) (Inr (CLAIMED 1)),
     DidRead (dos_target demo_dossier) (Some demo_before)]"

abbreviation demo_ack :: MutationAck where
  "demo_ack \<equiv> \<lparr>ack_requestDigest = demo_digest, ack_responseDigest = demo_digest\<rparr>"

definition demo_issued :: ExecutionReceiptV1 where
  "demo_issued = seal_receipt demo_env (receipt_input demo_env demo_execution
     ''2026-01-01T00:10:00.000Z'' ''2026-01-01T00:10:00.000Z''
     (judged demo_env demo_execution demo_before demo_ack demo_after))"

lemmas run_eval = executeApprovedRemediation_def proceed_def mutate_def after_mutation_def
  terminalReceipt_def and_then_def lift_result_def ret_def throw_def do_read_def do_add_def do_clock_def
  do_claim_def do_complete_def call_def journal_ports_def demo_datahub_def instant_def

lemma demo_judged: "tm_outcome (judged demo_env demo_execution demo_before demo_ack demo_after) = VERIFIED"
  by (simp add: judged_def verifyPostcondition_def Let_def)

lemma demo_run:
  "\<exists>j'. executeApprovedRemediation demo_env (demo_ports True) demo_execution ((False, empty_journal), [])
    = (Inr demo_issued, ((True, j'), demo_head @ [DidAdd (mutationRequest demo_plan) (Acked demo_ack),
        DidRead (dos_target demo_dossier) (Some demo_after), DidClock ''2026-01-01T00:10:00.000Z'',
        DidComplete (lease_of demo_execution 1) demo_issued (Inr ())]))"
proof -
  have i: "issue demo_env demo_execution ''2026-01-01T00:10:00.000Z'' ''2026-01-01T00:10:00.000Z''
      (judged demo_env demo_execution demo_before demo_ack demo_after) = Inr demo_issued"
    by (subst issue_cases) (simp_all add: executable_def demo_issued_def)
  have k: "rcp_idempotencyKey demo_issued = ''key-1''"
    "rcp_approvalDecisionDigest demo_issued = Some demo_digest"
    by (simp_all add: demo_issued_def receipt_input_def truthy_only_def demo_digest_def)
  show ?thesis
    by (simp add: run_eval demo_dates mem_claim_def mem_complete_def empty_journal_def i k
        claim_of_def lease_of_def)
qed

lemma demo_unsealed: "\<not> verifyTagProjection demo_env (demo_after\<lparr>tp_digest := []\<rparr>)"
  by (simp add: verifyTagProjection_def verifyDigest_def is_sha256_def)

lemma demo_run_unsealed:
  "\<exists>res j'. executeApprovedRemediation demo_env (demo_ports False) demo_execution ((False, empty_journal), [])
    = (res, ((True, j'), demo_head @ [DidAdd (mutationRequest demo_plan) (Acked demo_ack),
        DidRead (dos_target demo_dossier) (Some (demo_after\<lparr>tp_digest := []\<rparr>)),
        DidClock ''2026-01-01T00:10:00.000Z'']))"
proof -
  have i: "issue demo_env demo_execution ''2026-01-01T00:10:00.000Z'' ''2026-01-01T00:10:00.000Z''
      (judged demo_env demo_execution demo_before demo_ack (demo_after\<lparr>tp_digest := []\<rparr>)) = Inl bad_after"
    using demo_unsealed by (subst issue_cases) (simp_all add: executable_def)
  show ?thesis
    by (simp add: run_eval demo_dates mem_claim_def empty_journal_def i claim_of_def)
qed

end
