(* ===== verification/HonestRun.thy ===== *)
theory HonestRun
  imports LoopTraces
begin

section \<open>A verified run under a digest that tells the two states apart\<close>

text \<open>
  The environment of the other witnesses gives every text one digest, so that it cannot tell one observation from
  another. Here the digest of the expected after-state differs from all others. DataHub is read before and after the
  write, acknowledges the request it was sent, and the run ends in a \<open>VERIFIED\<close> receipt; its answers satisfy
  \<open>honest_events\<close> with two reads and an acknowledgement among them.
\<close>

definition after_text :: string where
  "after_text = canonical_text (projection_payload demo_after)"

definition honest_env :: js_env where
  "honest_env = demo_env\<lparr>sha256_hex := (\<lambda>s. replicate 64 (if s = after_text then CHR ''b'' else CHR ''a''))\<rparr>"

lemma honest_env_simps [simp]:
  "localeCompare honest_env = cmp_units" "dateFallback honest_env = (\<lambda>s. None)"
  by (simp_all add: honest_env_def)

lemma hex_honest_env [simp]: "hex_sha256 honest_env"
  by (simp add: hex_sha256_def honest_env_def is_hex_def list_all_iff)

lemma collation_honest_env [simp]: "consistent_collation honest_env"
  by (simp add: consistent_collation_def units.comparator_axioms)

lemma honest_dates:
  "date_parse honest_env ''2026-01-01T00:00:00.000Z'' = Some 1767225600000"
  "date_parse honest_env ''2026-01-01T00:05:00.000Z'' = Some 1767225900000"
  "date_parse honest_env ''2026-01-01T00:10:00.000Z'' = Some 1767226200000"
  "date_parse honest_env ''2026-01-01T01:00:00.000Z'' = Some 1767229200000"
  unfolding date_parse_def honest_env_simps
  using demo_dates [unfolded date_parse_def demo_env_simps] .

definition honest_before :: TagProjection where
  "honest_before = seal_projection honest_env ''urn:li:dataset:users'' ''email'' [''urn:li:tag:Core'']"

definition honest_after :: TagProjection where
  "honest_after = seal_projection honest_env ''urn:li:dataset:users'' ''email'' [''urn:li:tag:Core'', ''urn:li:tag:PII'']"

definition honest_input :: PlanG6RemediationInput where
  "honest_input = demo_input\<lparr>pin_before := honest_before\<rparr>"

definition honest_dossier :: EvidenceDossierV1 where
  "honest_dossier = seal_dossier honest_env honest_input (sanitizeFinding honest_env demo_finding)"

definition honest_action :: AddClassificationTagActionV1 where
  "honest_action = seal_action honest_env \<lparr>arg_tag_urns = [''urn:li:tag:PII''],
     arg_entity_urns = [''urn:li:dataset:users''], arg_column_paths = [''email'']\<rparr>"

definition honest_plan :: RemediationPlanV1 where
  "honest_plan = seal_plan honest_env honest_dossier demo_digest honest_action honest_before honest_after"

definition honest_request :: ApprovalRequestV1 where
  "honest_request = seal_request honest_env honest_dossier honest_plan ''2026-01-01T00:00:00.000Z''
     ''2026-01-01T01:00:00.000Z'' ''nonce-001''"

definition honest_decision :: ApprovalDecisionV1 where
  "honest_decision = seal_decision honest_env honest_request honest_plan APPROVE
     \<lparr>au_subject = ''alice'', au_issuer = ''idp'', au_roles = [''DataSteward''], au_authenticated = True\<rparr>
     ''2026-01-01T00:05:00.000Z''"

definition honest_execution :: ExecuteApprovedRemediationInput where
  "honest_execution = \<lparr>ex_dossier = honest_dossier, ex_plan = honest_plan, ex_request = honest_request,
     ex_decision = honest_decision, ex_idempotencyKey = ''key-1''\<rparr>"

lemma honest_projection_simps [simp]:
  "tp_entityUrn honest_before = ''urn:li:dataset:users''" "tp_entityUrn honest_after = ''urn:li:dataset:users''"
  "tp_columnPath honest_before = ''email''" "tp_columnPath honest_after = ''email''"
  "tp_tags honest_before = [''urn:li:tag:Core'']" "tp_tags honest_after = [''urn:li:tag:Core'', ''urn:li:tag:PII'']"
  by (simp_all add: honest_before_def honest_after_def)

lemma honest_projections_verify [simp]: "verifyTagProjection honest_env honest_before" "verifyTagProjection honest_env honest_after"
  by (simp_all add: verifyTagProjection_def projection_payload_def verifyDigest_def nonempty_eval is_sha256_digest)
    (simp_all add: honest_before_def honest_after_def uniqueSorted_def dedupe_def cmp_units_def is_sha256_digest)

lemma honest_dossier_verifies [simp]: "verifyEvidenceDossier honest_env honest_dossier"
  unfolding honest_dossier_def
  by (rule seal_dossier_verifies)
    (simp_all add: honest_input_def demo_input_def, simp_all add: sanitizeFinding_def demo_finding_def uniqueSorted_def
      dedupe_def)

lemma honest_plan_verifies [simp]: "verifyRemediationPlan honest_env honest_plan"
proof -
  let ?after = "seal_projection honest_env (tp_entityUrn honest_before) (tp_columnPath honest_before)
      (uniqueSorted honest_env (tp_tags honest_before @ [''urn:li:tag:PII'']))"
  have eq: "?after = honest_after"
    by (simp add: honest_after_def uniqueSorted_def dedupe_def cmp_units_def)
  have "verifyRemediationPlan honest_env (seal_plan honest_env honest_dossier demo_digest
      (seal_action honest_env \<lparr>arg_tag_urns = [''urn:li:tag:PII''],
         arg_entity_urns = [''urn:li:dataset:users''], arg_column_paths = [''email'']\<rparr>) honest_before ?after)"
    by (rule seal_plan_verifies) (simp_all add: nonempty_eval)
  then show ?thesis unfolding eq honest_plan_def honest_action_def .
qed

lemma honest_plan_simps [simp]:
  "pln_dossierDigest honest_plan = dos_digest honest_dossier" "pln_policyDigest honest_plan = demo_digest"
  "pln_expectedBefore honest_plan = honest_before" "pln_expectedAfter honest_plan = honest_after"
  "pln_action honest_plan = honest_action" "dos_policyDigest honest_dossier = demo_digest"
  "act_arguments honest_action = \<lparr>arg_tag_urns = [''urn:li:tag:PII''],
     arg_entity_urns = [''urn:li:dataset:users''], arg_column_paths = [''email'']\<rparr>"
  by (simp_all add: honest_plan_def honest_action_def)
    (simp add: honest_dossier_def seal_dossier_def Let_def honest_input_def demo_input_def demo_policy_def)

lemma honest_target [simp]:
  "dos_target honest_dossier = \<lparr>tg_entityUrn = ''urn:li:dataset:users'', tg_columnPath = ''email''\<rparr>"
  by (simp add: honest_dossier_def seal_dossier_def Let_def honest_input_def demo_input_def sanitizeFinding_def
      demo_finding_def)

lemma honest_request_simps [simp]:
  "apr_dossierDigest honest_request = dos_digest honest_dossier"
  "apr_planDigest honest_request = pln_digest honest_plan"
  "apr_expectedBeforeDigest honest_request = tp_digest honest_before"
  "apr_actionCatalogDigest honest_request = pln_actionCatalogDigest honest_plan"
  "apr_requestedAt honest_request = ''2026-01-01T00:00:00.000Z''"
  "apr_expiresAt honest_request = ''2026-01-01T01:00:00.000Z''"
  by (simp_all add: honest_request_def seal_request_def Let_def)

lemma honest_decision_simps [simp]:
  "dec_decision honest_decision = APPROVE" "dec_decidedAt honest_decision = ''2026-01-01T00:05:00.000Z''"
  "dec_planDigest honest_decision = pln_digest honest_plan"
  "dec_requestDigest honest_decision = apr_digest honest_request"
  "dec_approvalId honest_decision = apr_approvalId honest_request"
  by (simp_all add: honest_decision_def seal_decision_def Let_def)

lemma honest_request_verifies [simp]: "verifyApprovalRequest honest_env honest_request"
  by (simp add: verifyApprovalRequest_def honest_dates Let_def)
    (simp add: honest_request_def seal_request_def Let_def approval_request_payload_def)

lemma honest_decision_verifies [simp]: "verifyApprovalDecision honest_env honest_decision"
proof -
  have "dec_digest honest_decision = digest honest_env (approval_decision_payload honest_decision)"
    by (simp add: honest_decision_def seal_decision_def Let_def approval_decision_payload_def)
  then show ?thesis
    by (simp add: verifyApprovalDecision_def honest_dates)
      (simp add: honest_decision_def seal_decision_def Let_def uniqueSorted_def dedupe_def)
qed

lemma honest_execution_simps [simp]:
  "ex_dossier honest_execution = honest_dossier" "ex_plan honest_execution = honest_plan"
  "ex_request honest_execution = honest_request" "ex_decision honest_execution = honest_decision"
  "ex_idempotencyKey honest_execution = ''key-1''"
  by (simp_all add: honest_execution_def)

lemma honest_executable [simp]:
  "approvalArtifactsValid honest_env honest_dossier honest_plan honest_request honest_decision"
  by (simp add: approvalArtifactsValid_def honest_dates)

subsection \<open>The run\<close>

text \<open>DataHub returns the state before the write until it has acknowledged the write, and the state after it from then on.\<close>

definition honest_ack :: MutationAck where
  "honest_ack = \<lparr>ack_requestDigest = digest honest_env (request_json (mutationRequest honest_plan)),
     ack_responseDigest = demo_digest\<rparr>"

definition honest_datahub :: "bool datahub" where
  "honest_datahub =
     \<lparr>dh_read = (\<lambda>tagged t. (Some (if tagged then honest_after else honest_before), tagged)),
      dh_add = (\<lambda>tagged q. (Acked honest_ack, True)),
      dh_clock = (\<lambda>tagged. (''2026-01-01T00:10:00.000Z'', tagged)),
      dh_now = (\<lambda>tagged. (1767226200000, tagged))\<rparr>"

abbreviation honest_ports :: "(bool \<times> MemoryJournal) ports" where
  "honest_ports \<equiv> journal_ports (InMemoryExecutionJournal LEASE_MILLISECONDS) honest_datahub"

definition honest_issued :: ExecutionReceiptV1 where
  "honest_issued = seal_receipt honest_env (receipt_input honest_env honest_execution
     ''2026-01-01T00:10:00.000Z'' ''2026-01-01T00:10:00.000Z''
     (judged honest_env honest_execution honest_before honest_ack honest_after))"

lemma honest_judged:
  "tm_outcome (judged honest_env honest_execution honest_before honest_ack honest_after) = VERIFIED"
  by (simp add: judged_def verifyPostcondition_def Let_def honest_ack_def)

definition honest_trace :: "event list" where
  "honest_trace = [DidClock ''2026-01-01T00:10:00.000Z'', DidClaim (claim_of honest_execution) (Inr (CLAIMED 1)),
     DidRead (dos_target honest_dossier) (Some honest_before),
     DidAdd (mutationRequest honest_plan) (Acked honest_ack),
     DidRead (dos_target honest_dossier) (Some honest_after), DidClock ''2026-01-01T00:10:00.000Z'',
     DidComplete (lease_of honest_execution 1) honest_issued (Inr ())]"

lemma honest_run:
  "\<exists>j'. executeApprovedRemediation honest_env honest_ports honest_execution ((False, empty_journal), [])
    = (Inr honest_issued, ((True, j'), honest_trace))"
proof -
  have i: "issue honest_env honest_execution ''2026-01-01T00:10:00.000Z'' ''2026-01-01T00:10:00.000Z''
      (judged honest_env honest_execution honest_before honest_ack honest_after) = Inr honest_issued"
    by (subst issue_cases) (simp_all add: executable_def honest_issued_def)
  have ex: "executable honest_env honest_execution" by (simp add: executable_def)
  have k: "rcp_idempotencyKey honest_issued = ''key-1''"
    "rcp_approvalDecisionDigest honest_issued = Some (dec_digest honest_decision)"
    using decision_digest_truthy [OF ex] by (simp_all add: honest_issued_def receipt_input_def truthy_only_def)
  show ?thesis
    by (simp add: run_eval honest_datahub_def honest_trace_def honest_dates mem_claim_def mem_complete_def
        empty_journal_def i k claim_of_def lease_of_def)
qed

text \<open>The digest tells the two states apart, so every answer in this run is an honest one.\<close>

lemma honest_env_separates:
  "no_collision honest_env v w" if "canonical_text v = after_text \<or> canonical_text w = after_text \<or> v = w"
  using that by (auto simp: no_collision_def honest_env_def)

lemma honest_trace_is_honest: "honest_events honest_env honest_plan honest_trace"
proof -
  have after: "canonical_text (projection_payload honest_after) = after_text"
    by (simp add: after_text_def projection_payload_def demo_after_def)
  show ?thesis
    by (auto simp: honest_events_def honest_trace_def honest_ack_def after intro!: honest_env_separates)
qed

end
