(* ===== verification/LoopProperties.thy ===== *)
theory LoopProperties
  imports HonestRun
begin

section \<open>What the control loop guarantees\<close>

text \<open>
  Properties of \<open>executeApprovedRemediation\<close> for every world: every behaviour of DataHub, of the
  journal, of the clock and of other workers. The last one has the in-memory journal behind the journal
  port: a consumed approval never reaches DataHub again.
\<close>

lemma write_guarded:
  assumes "executeApprovedRemediation E P i (w, []) = (res, (w', es))"
    and "es = pre @ DidAdd q x # post"
  shows "q = mutationRequest (ex_plan i) \<and> no_write pre \<and> no_write post
    \<and> approvalArtifactsValid E (ex_dossier i) (ex_plan i) (ex_request i) (ex_decision i)
    \<and> dec_decision (ex_decision i) = APPROVE
    \<and> (\<exists>st n ls cur. pre = DidClock st # ls @ [DidRead (dos_target (ex_dossier i)) (Some cur)]
         \<and> lease_events i n ls
         \<and> verifyTagProjection E cur \<and> tp_digest cur = tp_digest (pln_expectedBefore (ex_plan i))
         \<and> date_leq (date_parse E (dec_decidedAt (ex_decision i))) (date_parse E st)
         \<and> date_leq (date_parse E st) (date_parse E (apr_expiresAt (ex_request i))))"
proof -
  from prog_specD [OF spec_execute assms(1)] show ?thesis
  proof (cases rule: executed_cases)
    case silent
    then show ?thesis using assms(2) by simp
  next
    case (replayed st r)
    then have "no_write es" by simp
    then show ?thesis using assms(2) by simp
  next
    case (closed st n t es0 es1)
    then have "no_write es" by (simp add: settled_no_write)
    then show ?thesis using assms(2) by simp
  next
    case (written st n ls cur es')
    obtain x' es1 where e1: "es' = DidAdd (mutationRequest (ex_plan i)) x' # es1" "no_write es1"
      using wrote_one [OF written(9)] by blast
    let ?A = "DidClock st # ls @ [DidRead (dos_target (ex_dossier i)) (Some cur)]"
    have "no_write ?A" using written(3) by simp
    moreover have "?A @ DidAdd (mutationRequest (ex_plan i)) x' # es1 = pre @ DidAdd q x # post"
      using written(2) e1 assms(2) by simp
    ultimately have "pre = ?A" "DidAdd q x = DidAdd (mutationRequest (ex_plan i)) x'" "post = es1"
      using unique_write [of ?A es1 "DidAdd q x"] e1(2) by auto
    then show ?thesis
      using written e1 by (auto simp: executable_def intro!: exI [of _ ls])
  qed
qed

text \<open>
  C1: no write without its guards, whatever the world does. If an execution calls \<open>addTags\<close>, it calls
  it once, with the request built from the plan; all artifacts verify and share one binding; the
  decision is \<open>APPROVE\<close>, made within the request's window, and the execution started before the
  window closed; the journal granted the lease (directly, or after a recovered lease was resumed); and
  the call right before it was a read of the dossier's target that answered with a sealed projection
  carrying the digest of the approved pre-state.
\<close>

theorem write_is_guarded:
  assumes "executeApprovedRemediation E P i (w, []) = (res, (w', es))"
    and "es = pre @ DidAdd q x # post"
  shows "q = mutationRequest (ex_plan i) \<and> no_write pre \<and> no_write post
    \<and> approvalArtifactsValid E (ex_dossier i) (ex_plan i) (ex_request i) (ex_decision i)
    \<and> dec_decision (ex_decision i) = APPROVE
    \<and> (\<exists>st n ls cur. pre = DidClock st # ls @ [DidRead (dos_target (ex_dossier i)) (Some cur)]
         \<and> lease_events i n ls
         \<and> verifyTagProjection E cur \<and> tp_digest cur = tp_digest (pln_expectedBefore (ex_plan i))
         \<and> date_leq (date_parse E (dec_decidedAt (ex_decision i))) (date_parse E st)
         \<and> date_leq (date_parse E st) (date_parse E (apr_expiresAt (ex_request i))))"
  by (rule write_guarded [OF assms])

theorem write_is_guarded_witness:
  "\<exists>w' es pre post. executeApprovedRemediation demo_env (demo_ports True) demo_execution
      ((False, empty_journal), []) = (Inr demo_issued, (w', es))
    \<and> es = pre @ DidAdd (mutationRequest demo_plan) (Acked demo_ack) # post
    \<and> no_write pre \<and> no_write post \<and> dec_decision demo_decision = APPROVE"
proof -
  obtain j' where run: "executeApprovedRemediation demo_env (demo_ports True) demo_execution
      ((False, empty_journal), []) = (Inr demo_issued, ((True, j'), demo_head @
        DidAdd (mutationRequest demo_plan) (Acked demo_ack) #
        [DidRead (dos_target demo_dossier) (Some demo_after), DidClock ''2026-01-01T00:10:00.000Z'',
         DidComplete (lease_of demo_execution 1) demo_issued (Inr ())]))"
    using demo_run by auto
  from write_is_guarded [OF run refl] run show ?thesis by (metis demo_execution_simps(4))
qed

text \<open>
  C2: what \<open>VERIFIED\<close> means. If an execution returns a receipt with outcome \<open>VERIFIED\<close> and the journal
  did not replay it, then DataHub acknowledged the plan's request, the read right before it saw the
  approved pre-state, the read right after it saw a sealed projection of the same entity and column
  with the digest of the approved post-state, and the journal stored this very receipt.
\<close>

theorem verified_outcome_truthful:
  assumes "executeApprovedRemediation E P i (w, []) = (Inr r, (w', es))"
    and "rcp_outcome r = VERIFIED" and "DidClaim (claim_of i) (Inr (COMPLETED r)) \<notin> set es"
  shows "\<exists>pre cur m after c n.
    es = pre @ [DidRead (dos_target (ex_dossier i)) (Some cur),
                DidAdd (mutationRequest (ex_plan i)) (Acked m),
                DidRead (dos_target (ex_dossier i)) (Some after),
                DidClock c, DidComplete (lease_of i n) r (Inr ())]
    \<and> verifyTagProjection E cur \<and> tp_digest cur = tp_digest (pln_expectedBefore (ex_plan i))
    \<and> verifyTagProjection E after \<and> tp_digest after = tp_digest (pln_expectedAfter (ex_plan i))
    \<and> tp_entityUrn after = tp_entityUrn (pln_expectedBefore (ex_plan i))
    \<and> tp_columnPath after = tp_columnPath (pln_expectedBefore (ex_plan i))
    \<and> ack_requestDigest m = digest E (request_json (mutationRequest (ex_plan i)))
    \<and> rcp_before r = Some cur \<and> rcp_after r = Some after \<and> rcp_mutation r = Some m
    \<and> rcp_planDigest r = pln_digest (ex_plan i)"
proof -
  from prog_specD [OF spec_execute assms(1)] show ?thesis
  proof (cases rule: executed_cases)
    case silent
    then show ?thesis by (metis (no_types))
  next
    case (replayed st r')
    then show ?thesis using assms(3) by simp
  next
    case (closed st n t es0 es1)
    then show ?thesis using settled_outcome [of E i n st t r] assms(2) by auto
  next
    case (written st n ls cur es')
    from wrote_verified [OF written(9) assms(2)] obtain m after c where w:
      "es' = [DidAdd (mutationRequest (ex_plan i)) (Acked m),
        DidRead (dos_target (ex_dossier i)) (Some after), DidClock c,
        DidComplete (lease_of i n) r (Inr ())]"
      "verifyTagProjection E after" "tm_outcome (judged E i cur m after) = VERIFIED"
      "r = seal_receipt E (receipt_input E i st c (judged E i cur m after))" by blast
    have "es = (DidClock st # ls) @ [DidRead (dos_target (ex_dossier i)) (Some cur),
        DidAdd (mutationRequest (ex_plan i)) (Acked m),
        DidRead (dos_target (ex_dossier i)) (Some after), DidClock c,
        DidComplete (lease_of i n) r (Inr ())]"
      using written(2) w(1) by simp
    moreover have "rcp_before r = Some cur" "rcp_after r = Some after" "rcp_mutation r = Some m"
      "rcp_planDigest r = pln_digest (ex_plan i)"
      using w(4) by (simp_all add: receipt_input_def)
    ultimately show ?thesis using written(4,5) w(2) judged_verified [OF w(3)] by blast
  qed
qed

theorem verified_outcome_truthful_witness:
  "\<exists>w' es m after. executeApprovedRemediation demo_env (demo_ports True) demo_execution
      ((False, empty_journal), []) = (Inr demo_issued, (w', es))
    \<and> rcp_after demo_issued = Some after \<and> tp_digest after = tp_digest (pln_expectedAfter demo_plan)
    \<and> DidAdd (mutationRequest demo_plan) (Acked m) \<in> set es"
proof -
  obtain j' where run: "executeApprovedRemediation demo_env (demo_ports True) demo_execution
      ((False, empty_journal), []) = (Inr demo_issued, ((True, j'), demo_head @
        [DidAdd (mutationRequest demo_plan) (Acked demo_ack),
         DidRead (dos_target demo_dossier) (Some demo_after), DidClock ''2026-01-01T00:10:00.000Z'',
         DidComplete (lease_of demo_execution 1) demo_issued (Inr ())]))"
    using demo_run by blast
  have "rcp_outcome demo_issued = VERIFIED"
    using demo_judged by (simp add: demo_issued_def receipt_input_def)
  from verified_outcome_truthful [OF run this] run show ?thesis by fastforce
qed

text \<open>
  The outcome says whether DataHub was written. A receipt issued (not replayed) with outcome
  \<open>REJECTED\<close>, \<open>EXPIRED\<close> or \<open>STALE\<close> comes from an execution that never called \<open>addTags\<close>; one with outcome
  \<open>VERIFIED\<close>, \<open>VERIFICATION_FAILED\<close> or \<open>MUTATION_FAILED\<close> from an execution that did.
\<close>

theorem outcome_tells_write:
  assumes "executeApprovedRemediation E P i (w, []) = (Inr r, (w', es))"
    and "DidClaim (claim_of i) (Inr (COMPLETED r)) \<notin> set es"
  shows "(rcp_outcome r \<in> {REJECTED, EXPIRED, STALE} \<longrightarrow> no_write es)
    \<and> (rcp_outcome r \<in> {VERIFIED, VERIFICATION_FAILED, MUTATION_FAILED} \<longrightarrow> \<not> no_write es)"
proof -
  from prog_specD [OF spec_execute assms(1)] show ?thesis
  proof (cases rule: executed_cases)
    case silent
    then show ?thesis by (metis (no_types))
  next
    case (replayed st r')
    then show ?thesis using assms(2) by simp
  next
    case (closed st n t es0 es1)
    then show ?thesis
      using settled_outcome [of E i n st t r] settled_no_write [of E i n st t "Inr r" es1] by auto
  next
    case (written st n ls cur es')
    have "rcp_outcome r \<notin> {REJECTED, EXPIRED, STALE}"
      using written(9) by (cases rule: wrote_cases) (auto dest!: settled_outcome simp: judged_def Let_def split: if_splits)
    then show ?thesis using wrote_one [OF written(9)] written(2) by auto
  qed
qed

theorem outcome_tells_write_witness:
  "\<exists>w' es. executeApprovedRemediation demo_env (demo_ports True) demo_execution
      ((False, empty_journal), []) = (Inr demo_issued, (w', es))
    \<and> rcp_outcome demo_issued = VERIFIED \<and> \<not> no_write es"
proof -
  obtain j' where run: "executeApprovedRemediation demo_env (demo_ports True) demo_execution
      ((False, empty_journal), []) = (Inr demo_issued, ((True, j'), demo_head @
        [DidAdd (mutationRequest demo_plan) (Acked demo_ack),
         DidRead (dos_target demo_dossier) (Some demo_after), DidClock ''2026-01-01T00:10:00.000Z'',
         DidComplete (lease_of demo_execution 1) demo_issued (Inr ())]))"
    using demo_run by blast
  have "rcp_outcome demo_issued = VERIFIED"
    using demo_judged by (simp add: demo_issued_def receipt_input_def)
  with outcome_tells_write [OF run] run show ?thesis by fastforce
qed

text \<open>
  C12: every receipt the loop issues verifies, whatever its outcome, as long as DataHub's adapter
  answers honestly: acknowledgements carry the digest of the request, reads are of the target asked
  for, and no observed projection collides with an expected one under SHA-256.
\<close>

theorem issued_receipts_verify:
  assumes "executeApprovedRemediation E P i (w, []) = (Inr r, (w', es))"
    and "DidClaim (claim_of i) (Inr (COMPLETED r)) \<notin> set es" and "honest_events E (ex_plan i) es"
  shows "verifyExecutionReceipt E r = []"
proof -
  from prog_specD [OF spec_execute assms(1)] have "receipt_valid E r"
  proof (cases rule: executed_cases)
    case silent
    then show ?thesis by (metis (no_types))
  next
    case (replayed st r')
    then show ?thesis using assms(2) by simp
  next
    case (closed st n t es0 es1)
    then show ?thesis using settled_Inr [OF closed(4)] quiet_valid [OF closed(1), of t]
      by (auto simp: quiet_def)
  next
    case (written st n ls cur es')
    have rd: "tp_entityUrn p = tg_entityUrn t \<and> tp_columnPath p = tg_columnPath t
          \<and> no_collision E (projection_payload p) (projection_payload (pln_expectedBefore (ex_plan i)))
          \<and> no_collision E (projection_payload p) (projection_payload (pln_expectedAfter (ex_plan i)))"
      if "DidRead t (Some p) \<in> set es" for t p
      using assms(3) that unfolding honest_events_def by blast
    have ack: "ack_requestDigest m = digest E (request_json q)" if "DidAdd q (Acked m) \<in> set es" for q m
      using assms(3) that unfolding honest_events_def by blast
    have "DidRead (dos_target (ex_dossier i)) (Some cur) \<in> set es" using written(2) by simp
    note curh = rd [OF this]
    have cur: "cur = pln_expectedBefore (ex_plan i)"
      using projection_digest_binds [OF written(4) _ written(5)] curh executable_tag [OF written(1)] by blast
    from written(9) show ?thesis
    proof (cases rule: wrote_cases)
      case (verdict m after es1)
      have "DidRead (dos_target (ex_dossier i)) (Some after) \<in> set es"
        "DidAdd (mutationRequest (ex_plan i)) (Acked m) \<in> set es"
        using verdict(1) written(2) by simp_all
      note h = rd [OF this(1)] ack [OF this(2)]
      show ?thesis
        using settled_Inr [OF verdict(3)] judged_valid [OF written(1) verdict(2) written(4) cur] h curh
        by auto
    next
      case (unsealed m after c)
      then show ?thesis by simp
    next
      case (unread m t es1)
      have "DidAdd (mutationRequest (ex_plan i)) (Acked m) \<in> set es"
        using unread(1) written(2) by simp
      then show ?thesis
        using settled_Inr [OF unread(2)] quiet_valid [OF written(1) unread(3)] unread(4) ack by auto
    next
      case (failed x rd' t es1)
      then show ?thesis using settled_Inr [OF failed(3)] quiet_valid [OF written(1), of t]
        by (auto simp: quiet_def)
    qed
  qed
  then show ?thesis by (simp add: receipt_valid_def)
qed

theorem issued_receipts_verify_witness:
  "verifyExecutionReceipt honest_env honest_issued = [] \<and> rcp_outcome honest_issued = VERIFIED
    \<and> DidRead (dos_target honest_dossier) (Some honest_before) \<in> set honest_trace
    \<and> DidAdd (mutationRequest honest_plan) (Acked honest_ack) \<in> set honest_trace
    \<and> DidRead (dos_target honest_dossier) (Some honest_after) \<in> set honest_trace"
proof -
  obtain j' where run: "executeApprovedRemediation honest_env honest_ports honest_execution
      ((False, empty_journal), []) = (Inr honest_issued, ((True, j'), honest_trace))"
    using honest_run by blast
  have "verifyExecutionReceipt honest_env honest_issued = []"
    by (rule issued_receipts_verify [OF run])
      (use honest_trace_is_honest in \<open>simp_all add: honest_trace_def\<close>)
  moreover have "rcp_outcome honest_issued = VERIFIED"
    using honest_judged by (simp add: honest_issued_def receipt_input_def)
  ultimately show ?thesis by (simp add: honest_trace_def)
qed

text \<open>
  C15: a fresh lease is always settled, with one exception. Once the journal has granted an unclaimed
  key, the execution's last call hands a receipt to the journal under that lease and its result is that
  receipt (or the journal's error); the exception is a write whose read-back is not a sealed
  projection, after which the execution throws and the journal is told nothing.
\<close>

theorem fresh_lease_settles:
  assumes "executeApprovedRemediation E P i (w, []) = (res, (w', es))"
    and "DidClaim (claim_of i) (Inr (CLAIMED n)) \<in> set es"
  shows "(\<exists>pre r x. es = pre @ [DidComplete (lease_of i n) r x] \<and> res = map_result (\<lambda>_. r) x)
    \<or> (res = Inl bad_after
       \<and> (\<exists>pre m after c. es = pre @ [DidAdd (mutationRequest (ex_plan i)) (Acked m),
              DidRead (dos_target (ex_dossier i)) (Some after), DidClock c]
            \<and> \<not> verifyTagProjection E after))"
proof -
  have s: "\<exists>pre r x. es0 @ es1 = pre @ [DidComplete (lease_of i n) r x] \<and> res = map_result (\<lambda>_. r) x"
    if "settled E i n st t res es1" for st t es0 es1
  proof -
    from that obtain c x r where "es1 = [DidClock c] @ [DidComplete (lease_of i n) r x]"
      "res = map_result (\<lambda>_. r) x" by (auto simp: settled_def Let_def)
    then show ?thesis by (metis append_assoc)
  qed
  have w: ?thesis if "es = es0 @ es'" "wrote E i n st cur res es'" for es0 es' st cur
    using that(2)
  proof (cases rule: wrote_cases)
    case (verdict m after es1)
    then show ?thesis
      using s [OF verdict(3), of "es0 @ [DidAdd (mutationRequest (ex_plan i)) (Acked m),
          DidRead (dos_target (ex_dossier i)) (Some after)]"] that(1) by simp
  next
    case (unsealed m after c)
    then show ?thesis using that(1) by blast
  next
    case (unread m t es1)
    then show ?thesis
      using s [OF unread(2), of "es0 @ [DidAdd (mutationRequest (ex_plan i)) (Acked m),
          DidRead (dos_target (ex_dossier i)) None]"] that(1) by simp
  next
    case (failed x rd t es1)
    then show ?thesis
      using s [OF failed(3), of "es0 @ [DidAdd (mutationRequest (ex_plan i)) x,
          DidRead (dos_target (ex_dossier i)) rd]"] that(1) by simp
  qed
  have "\<exists>st es'. es = [DidClock st, DidClaim (claim_of i) (Inr (CLAIMED n))] @ es' \<and> proceeded E i n st res es'"
    using executed_claim [OF prog_specD [OF spec_execute assms(1)] assms(2)] by auto
  then obtain st es' where es: "es = [DidClock st, DidClaim (claim_of i) (Inr (CLAIMED n))] @ es'"
    and p: "proceeded E i n st res es'" by blast
  from p show ?thesis
    unfolding proceeded_def
  proof (elim disjE exE conjE)
    assume "unwritten E i n st {REJECTED, EXPIRED, STALE} res es'"
    then obtain t es0 es1 where "es' = es0 @ es1" "settled E i n st t res es1"
      unfolding unwritten_def by blast
    then show ?thesis using s [of st t es1 "[DidClock st, DidClaim (claim_of i) (Inr (CLAIMED n))] @ es0"] es
      by simp
  next
    fix cur es1
    assume "es' = DidRead (dos_target (ex_dossier i)) (Some cur) # es1" "wrote E i n st cur res es1"
    then show ?thesis
      using w [of "[DidClock st, DidClaim (claim_of i) (Inr (CLAIMED n)),
          DidRead (dos_target (ex_dossier i)) (Some cur)]" es1] es by simp
  qed
qed

theorem fresh_lease_settles_witness:
  "\<exists>w' pre r x. executeApprovedRemediation demo_env (demo_ports True) demo_execution
      ((False, empty_journal), [])
    = (map_result (\<lambda>_. r) x, (w', pre @ [DidComplete (lease_of demo_execution 1) r x]))"
proof -
  obtain j' where run: "executeApprovedRemediation demo_env (demo_ports True) demo_execution
      ((False, empty_journal), []) = (Inr demo_issued, ((True, j'), demo_head @
        [DidAdd (mutationRequest demo_plan) (Acked demo_ack),
         DidRead (dos_target demo_dossier) (Some demo_after), DidClock ''2026-01-01T00:10:00.000Z'',
         DidComplete (lease_of demo_execution 1) demo_issued (Inr ())]))"
    using demo_run by blast
  have "DidClaim (claim_of demo_execution) (Inr (CLAIMED 1)) \<in> set (demo_head @
        [DidAdd (mutationRequest demo_plan) (Acked demo_ack),
         DidRead (dos_target demo_dossier) (Some demo_after), DidClock ''2026-01-01T00:10:00.000Z'',
         DidComplete (lease_of demo_execution 1) demo_issued (Inr ())])" by simp
  from fresh_lease_settles [OF run this] run show ?thesis by (metis Inl_Inr_False)
qed

text \<open>
  C33: a written change can go unrecorded. When DataHub has acknowledged the write and the read-back is
  not a sealed projection, the execution throws from \<open>createExecutionReceipt\<close> and no receipt, of
  whatever outcome, reaches the journal: the only guard the other call sites have
  (\<open>verifyTagProjection\<close> before an observed state enters a receipt) is missing on this one.
\<close>

theorem unsealed_readback_unrecorded:
  assumes "executeApprovedRemediation E P i (w, []) = (res, (w', es))"
    and "es = pre @ DidAdd q (Acked m) # DidRead t (Some after) # post" and "\<not> verifyTagProjection E after"
  shows "res = Inl bad_after \<and> (\<forall>l r x. DidComplete l r x \<notin> set es)"
proof -
  from prog_specD [OF spec_execute assms(1)] show ?thesis
  proof (cases rule: executed_cases)
    case silent
    then show ?thesis using assms(2) by simp
  next
    case (replayed st r)
    then have "no_write es" by simp
    then show ?thesis using assms(2) by simp
  next
    case (closed st n t' es0 es1)
    then have "no_write es" by (simp add: settled_no_write)
    then show ?thesis using assms(2) by simp
  next
    case (written st n ls cur es')
    let ?A = "DidClock st # ls @ [DidRead (dos_target (ex_dossier i)) (Some cur)]"
    have A: "no_write ?A" "\<And>l r x. DidComplete l r x \<notin> set ?A"
      using written(3) by (auto simp: lease_events_def)
    have split: "DidAdd q (Acked m) = DidAdd (mutationRequest (ex_plan i)) x
        \<and> DidRead t (Some after) # post = es1 \<and> pre = ?A"
      if "es' = DidAdd (mutationRequest (ex_plan i)) x # es1" "no_write es1" for x es1
      using unique_write [OF A(1) that(2), of "DidAdd q (Acked m)" "DidAdd (mutationRequest (ex_plan i)) x"
          pre "DidRead t (Some after) # post"] written(2) assms(2) that(1) by simp
    from written(9) show ?thesis
    proof (cases rule: wrote_cases)
      case (verdict m' after' es1)
      then show ?thesis
        using split [OF verdict(1)] settled_no_write [OF verdict(3)] assms(3) by simp
    next
      case (unsealed m' after' c)
      then show ?thesis using written(2) A(2) by auto
    next
      case (unread m' t' es1)
      then show ?thesis using split [OF unread(1)] settled_no_write [OF unread(2)] by simp
    next
      case (failed x rd t' es1)
      then show ?thesis using split [OF failed(1)] settled_no_write [OF failed(3)] failed(2) [of m] by simp
    qed
  qed
qed

theorem unsealed_readback_unrecorded_witness:
  "\<exists>w' es. executeApprovedRemediation demo_env (demo_ports False) demo_execution
      ((False, empty_journal), []) = (Inl bad_after, (w', es))
    \<and> DidAdd (mutationRequest demo_plan) (Acked demo_ack) \<in> set es
    \<and> (\<forall>l r x. DidComplete l r x \<notin> set es)"
proof -
  obtain res j' where run: "executeApprovedRemediation demo_env (demo_ports False) demo_execution
      ((False, empty_journal), []) = (res, ((True, j'), demo_head @
        DidAdd (mutationRequest demo_plan) (Acked demo_ack) #
        DidRead (dos_target demo_dossier) (Some (demo_after\<lparr>tp_digest := []\<rparr>)) #
        [DidClock ''2026-01-01T00:10:00.000Z'']))"
    using demo_run_unsealed by auto
  from unsealed_readback_unrecorded [OF run refl demo_unsealed] run show ?thesis by fastforce
qed

text \<open>
  C3: an approval is consumed once. After an execution over the in-memory journal has returned a
  receipt, every later execution with the same approval, whatever its key, decision, clock, DataHub or
  the journal calls in between, writes nothing, leaves the journal alone, and returns, if anything,
  that same receipt under that same key.
\<close>

theorem approval_consumed_once:
  assumes "mem_wf j"
    and "executeApprovedRemediation E (journal_ports (InMemoryExecutionJournal L) D) i ((d, j), [])
          = (Inr r, ((d', j'), es))"
    and "apr_approvalId (ex_request i2) = apr_approvalId (ex_request i)"
    and "executeApprovedRemediation E2 (journal_ports (InMemoryExecutionJournal L) D2) i2
          ((d2, snd (journal_run (InMemoryExecutionJournal L) j' cs)), []) = (res2, ((d2', j2'), es2))"
  shows "no_write es2 \<and> j2' = snd (journal_run (InMemoryExecutionJournal L) j' cs)
    \<and> (\<forall>r2. res2 = Inr r2 \<longrightarrow> r2 = r \<and> ex_idempotencyKey i2 = ex_idempotencyKey i)"
  by (rule memory.consumed_approval [OF assms])

theorem approval_consumed_once_witness:
  "\<exists>w' w'' es es2. executeApprovedRemediation demo_env (demo_ports True) demo_execution
      ((False, empty_journal), []) = (Inr demo_issued, (w', es)) \<and> \<not> no_write es
    \<and> snd (executeApprovedRemediation demo_env (demo_ports True) demo_execution (w', [])) = (w'', es2)
    \<and> no_write es2 \<and> snd w'' = snd w'"
proof -
  obtain j' where run: "executeApprovedRemediation demo_env (demo_ports True) demo_execution
      ((False, empty_journal), []) = (Inr demo_issued, ((True, j'), demo_head @
        [DidAdd (mutationRequest demo_plan) (Acked demo_ack),
         DidRead (dos_target demo_dossier) (Some demo_after), DidClock ''2026-01-01T00:10:00.000Z'',
         DidComplete (lease_of demo_execution 1) demo_issued (Inr ())]))"
    using demo_run by blast
  obtain res2 d2 j2 es2 where run2: "executeApprovedRemediation demo_env (demo_ports True) demo_execution
      ((True, snd (journal_run (InMemoryExecutionJournal LEASE_MILLISECONDS) j' [])), [])
      = (res2, ((d2, j2), es2))" by (metis prod.exhaust)
  from approval_consumed_once [OF mem_wf_empty run refl run2] run run2 show ?thesis by fastforce
qed

end
