(* ===== verification/Rollback.thy ===== *)
theory Rollback
  imports LoopTraces
begin

section \<open>Rolling a verified execution back: \<open>src/remediation/rollback.ts\<close>\<close>

text \<open>
  The approval of a rollback proposal, the handler \<open>executeApprovedRollback\<close>, which removes the tag
  again, and the verifier of its receipts. The handler is a program over ports like the control loop;
  \<open>removeTags\<close> answers \<open>None\<close> when its promise is rejected. An argument list without a first element
  gives \<open>undefined\<close> where the reader is asked for a target; it is written as the text \<open>undefined\<close> here.
\<close>

definition rb_instant :: "js_env \<Rightarrow> string \<Rightarrow> string \<Rightarrow> LoopError + int" where
  "rb_instant E value field =
     (case exact_instant E value of
        None \<Rightarrow> Inl (PlainError (field @ '' must be a canonical ISO-8601 instant.''))
      | Some t \<Rightarrow> Inr t)"

definition steward :: "AuthenticatedApprover \<Rightarrow> bool" where
  "steward a \<longleftrightarrow> au_authenticated a \<and> trim (au_subject a) \<noteq> [] \<and> trim (au_issuer a) \<noteq> []
     \<and> ''DataSteward'' \<in> set (au_roles a)"

definition createRollbackApproval ::
    "js_env \<Rightarrow> RollbackProposalV1 \<Rightarrow> Decision \<Rightarrow> AuthenticatedApprover \<Rightarrow> string \<Rightarrow>
     LoopError + RollbackApprovalV1" where
  "createRollbackApproval E proposal decision approver decidedAt =
     bind_result (rb_instant E decidedAt ''decidedAt'') (\<lambda>_.
       if \<not> steward approver
       then Inl (PlainError ''Rollback approval requires an authenticated DataSteward.'')
       else let unsigned =
          \<lparr>rba_schemaVersion = ''archon.rollback-approval/v1'', rba_proposalDigest = rbp_digest proposal,
           rba_decision = decision, rba_approver = approver, rba_decidedAt = decidedAt, rba_digest = []\<rparr> in
        Inr (unsigned\<lparr>rba_digest := digest E (rollback_approval_payload unsigned)\<rparr>))"

definition rb_approvalValid :: "js_env \<Rightarrow> RollbackApprovalV1 \<Rightarrow> RollbackProposalV1 \<Rightarrow> bool" where
  "rb_approvalValid E approval proposal \<longleftrightarrow>
     rba_schemaVersion approval = ''archon.rollback-approval/v1''
     \<and> rba_proposalDigest approval = rbp_digest proposal
     \<and> steward (rba_approver approval)
     \<and> exact_instant E (rba_decidedAt approval) \<noteq> None
     \<and> verifyDigest E (rollback_approval_payload approval) (rba_digest approval)"

definition rb_receipt :: "js_env \<Rightarrow> RollbackReceiptV1 \<Rightarrow> RollbackReceiptV1" where
  "rb_receipt E input =
     (let unsigned = input\<lparr>rbr_schemaVersion := ''archon.rollback-receipt/v1''\<rparr> in
      unsigned\<lparr>rbr_digest := digest E (rollback_receipt_payload unsigned)\<rparr>)"

definition verifyRollbackReceipt ::
    "js_env \<Rightarrow> RollbackReceiptV1 \<Rightarrow> RollbackProposalV1 option \<Rightarrow> bool" where
  "verifyRollbackReceipt E v proposal =
     (let structurallyValid =
        rbr_schemaVersion v = ''archon.rollback-receipt/v1''
        \<and> verifyDigest E (rollback_receipt_payload v) (rbr_digest v)
        \<and> (rbr_outcome v \<noteq> RB_VERIFIED \<or>
             (case (rbr_before v, rbr_after v, rbr_mutation v) of
                (Some before, Some after, Some m) \<Rightarrow> verifyTagProjection E before \<and> verifyTagProjection E after
              | _ \<Rightarrow> False)) in
      case proposal of
        None \<Rightarrow> structurallyValid
      | Some p \<Rightarrow> structurallyValid
          \<and> rbr_rollbackId v = rbp_rollbackId p
          \<and> rbr_proposalDigest v = rbp_digest p
          \<and> rbr_originalReceiptDigest v = rbp_originalReceiptDigest p
          \<and> (rbr_outcome v \<noteq> RB_VERIFIED
             \<or> map_option tp_digest (rbr_after v) = Some (rbp_restoreStateDigest p)))"

subsection \<open>\<open>executeApprovedRollback\<close>\<close>

record 'w rollback_ports = "'w ports" +
  removeTags :: "'w \<Rightarrow> TagRequest \<Rightarrow> MutationAck option \<times> 'w"

definition do_remove :: "'w rollback_ports \<Rightarrow> TagRequest \<Rightarrow> ('w, MutationAck option) prog" where
  "do_remove P q = call (\<lambda>w. removeTags P w q) (DidRemove q)"

definition rb_clock :: "'w rollback_ports \<Rightarrow> ('w, string) prog" where
  "rb_clock P = call (clock P) DidClock"

definition rb_read :: "'w rollback_ports \<Rightarrow> RemediationTarget \<Rightarrow> ('w, TagProjection option) prog" where
  "rb_read P t = call (\<lambda>w. readTagProjection P w t) (DidRead t)"

definition args_target :: "TagMutationArguments \<Rightarrow> RemediationTarget" where
  "args_target a =
     \<lparr>tg_entityUrn = or_else (first (arg_entity_urns a)) ''undefined'',
      tg_columnPath = or_else (first (arg_column_paths a)) ''undefined''\<rparr>"

definition args_request :: "TagMutationArguments \<Rightarrow> TagRequest" where
  "args_request a =
     \<lparr>rq_tagUrns = arg_tag_urns a, rq_entityUrns = arg_entity_urns a, rq_columnPaths = arg_column_paths a\<rparr>"

record RollbackInput =
  ri_originalReceipt :: ExecutionReceiptV1
  ri_proposal :: RollbackProposalV1
  ri_approval :: RollbackApprovalV1

definition rb_finish ::
    "js_env \<Rightarrow> 'w rollback_ports \<Rightarrow> RollbackInput \<Rightarrow> string \<Rightarrow> RollbackOutcome \<Rightarrow> TagProjection option \<Rightarrow>
     TagProjection option \<Rightarrow> MutationAck option \<Rightarrow> ('w, RollbackReceiptV1) prog" where
  "rb_finish E P i startedAt outcome before after mutation =
     and_then (rb_clock P) (\<lambda>completedAt.
     ret (rb_receipt E
       \<lparr>rbr_schemaVersion = [], rbr_rollbackId = rbp_rollbackId (ri_proposal i),
        rbr_proposalDigest = rbp_digest (ri_proposal i),
        rbr_approvalDigest = rba_digest (ri_approval i),
        rbr_originalReceiptDigest = rcp_digest (ri_originalReceipt i), rbr_outcome = outcome,
        rbr_before = before, rbr_after = after, rbr_mutation = mutation, rbr_startedAt = startedAt,
        rbr_completedAt = completedAt, rbr_digest = []\<rparr>))"

definition rb_restored :: "js_env \<Rightarrow> RollbackInput \<Rightarrow> TagProjection \<Rightarrow> bool" where
  "rb_restored E i after \<longleftrightarrow>
     verifyTagProjection E after
     \<and> tp_digest after = rbp_restoreStateDigest (ri_proposal i)
     \<and> map_option tp_digest (rcp_before (ri_originalReceipt i)) = Some (tp_digest after)"

definition rb_remove ::
    "js_env \<Rightarrow> 'w rollback_ports \<Rightarrow> RollbackInput \<Rightarrow> string \<Rightarrow> TagProjection \<Rightarrow>
     ('w, RollbackReceiptV1) prog" where
  "rb_remove E P i startedAt before =
     and_then (do_remove P (args_request (inv_arguments (rbp_inverseAction (ri_proposal i))))) (\<lambda>ack.
     case ack of
       None \<Rightarrow> rb_finish E P i startedAt RB_INDETERMINATE (Some before) None None
     | Some m \<Rightarrow>
         and_then (rb_read P (args_target (inv_arguments (rbp_inverseAction (ri_proposal i))))) (\<lambda>read.
         case read of
           None \<Rightarrow> rb_finish E P i startedAt RB_INDETERMINATE (Some before) None (Some m)
         | Some after \<Rightarrow>
             rb_finish E P i startedAt
               (if rb_restored E i after then RB_VERIFIED else RB_VERIFICATION_FAILED)
               (Some before) (Some after) (Some m)))"

definition executeApprovedRollback ::
    "js_env \<Rightarrow> 'w rollback_ports \<Rightarrow> RollbackInput \<Rightarrow> ('w, RollbackReceiptV1) prog" where
  "executeApprovedRollback E P i =
     (if verifyExecutionReceipt E (ri_originalReceipt i) \<noteq> []
      then throw (PlainError ''Rollback requires a valid original execution receipt.'')
      else if \<not> rb_approvalValid E (ri_approval i) (ri_proposal i)
      then throw (PlainError ''Rollback approval is not bound to the exact proposal.'')
      else if rbp_originalReceiptDigest (ri_proposal i) \<noteq> rcp_digest (ri_originalReceipt i)
      then throw (PlainError ''Rollback proposal is not bound to the original receipt.'')
      else and_then (rb_clock P) (\<lambda>startedAt.
           and_then (lift_result (rb_instant E startedAt ''startedAt'')) (\<lambda>_.
      if date_less (date_parse E startedAt) (date_parse E (rba_decidedAt (ri_approval i)))
      then throw (PlainError ''Rollback cannot begin before the approval decision.'')
      else if rba_decision (ri_approval i) = REJECT
      then rb_finish E P i startedAt RB_REJECTED None None None
      else and_then (rb_read P (args_target (act_arguments (rcp_action (ri_originalReceipt i))))) (\<lambda>read.
      case read of
        None \<Rightarrow> rb_finish E P i startedAt RB_INDETERMINATE None None None
      | Some before \<Rightarrow>
          and_then (lift_result (case createRollbackProposal E (ri_originalReceipt i) before of
              Inl m \<Rightarrow> Inl (PlainError m) | Inr p \<Rightarrow> Inr p)) (\<lambda>recreated.
          if map_option rbp_digest recreated \<noteq> Some (rbp_digest (ri_proposal i))
          then rb_finish E P i startedAt RB_STALE (Some before) None None
          else rb_remove E P i startedAt before)))))"

subsection \<open>What a rollback does\<close>

lemma spec_rb_clock: "(\<And>a. Q (Inr a) [DidClock a]) \<Longrightarrow> prog_spec (rb_clock P) Q"
  unfolding rb_clock_def by (rule spec_call)

lemma spec_rb_read: "(\<And>a. Q (Inr a) [DidRead t a]) \<Longrightarrow> prog_spec (rb_read P t) Q"
  unfolding rb_read_def by (rule spec_call)

lemma spec_do_remove: "(\<And>a. Q (Inr a) [DidRemove q a]) \<Longrightarrow> prog_spec (do_remove P q) Q"
  unfolding do_remove_def by (rule spec_call)

definition rb_sealed ::
    "js_env \<Rightarrow> RollbackInput \<Rightarrow> string \<Rightarrow> string \<Rightarrow> RollbackOutcome \<Rightarrow> TagProjection option \<Rightarrow>
     TagProjection option \<Rightarrow> MutationAck option \<Rightarrow> RollbackReceiptV1" where
  "rb_sealed E i st c outcome before after mutation = rb_receipt E
       \<lparr>rbr_schemaVersion = [], rbr_rollbackId = rbp_rollbackId (ri_proposal i),
        rbr_proposalDigest = rbp_digest (ri_proposal i),
        rbr_approvalDigest = rba_digest (ri_approval i),
        rbr_originalReceiptDigest = rcp_digest (ri_originalReceipt i), rbr_outcome = outcome,
        rbr_before = before, rbr_after = after, rbr_mutation = mutation, rbr_startedAt = st,
        rbr_completedAt = c, rbr_digest = []\<rparr>"

lemma rb_sealed_simps [simp]:
  "rbr_outcome (rb_sealed E i st c oc b a m) = oc" "rbr_before (rb_sealed E i st c oc b a m) = b"
  "rbr_after (rb_sealed E i st c oc b a m) = a" "rbr_mutation (rb_sealed E i st c oc b a m) = m"
  "rbr_rollbackId (rb_sealed E i st c oc b a m) = rbp_rollbackId (ri_proposal i)"
  "rbr_proposalDigest (rb_sealed E i st c oc b a m) = rbp_digest (ri_proposal i)"
  "rbr_originalReceiptDigest (rb_sealed E i st c oc b a m) = rcp_digest (ri_originalReceipt i)"
  "rbr_schemaVersion (rb_sealed E i st c oc b a m) = ''archon.rollback-receipt/v1''"
  by (simp_all add: rb_sealed_def rb_receipt_def Let_def)

lemma rb_sealed_digest:
  "rbr_digest (rb_sealed E i st c oc b a m) = digest E (rollback_receipt_payload (rb_sealed E i st c oc b a m))"
  by (simp add: rb_sealed_def rb_receipt_def Let_def rollback_receipt_payload_def)

lemma spec_rb_finish:
  "prog_spec (rb_finish E P i st oc b a m)
     (\<lambda>res es. \<exists>c. res = Inr (rb_sealed E i st c oc b a m) \<and> es = [DidClock c])"
  unfolding rb_finish_def rb_sealed_def [symmetric]
  by (intro spec_and_then spec_rb_clock) (auto intro!: spec_ret)

text \<open>The guards that hold once a rollback looks at DataHub.\<close>

definition rb_bound :: "js_env \<Rightarrow> RollbackInput \<Rightarrow> bool" where
  "rb_bound E i \<longleftrightarrow> verifyExecutionReceipt E (ri_originalReceipt i) = []
     \<and> rb_approvalValid E (ri_approval i) (ri_proposal i)
     \<and> rbp_originalReceiptDigest (ri_proposal i) = rcp_digest (ri_originalReceipt i)"

text \<open>What follows the read that found the recorded post-state.\<close>

definition rb_wrote ::
    "js_env \<Rightarrow> RollbackInput \<Rightarrow> string \<Rightarrow> TagProjection \<Rightarrow> LoopError + RollbackReceiptV1 \<Rightarrow> event list \<Rightarrow> bool" where
  "rb_wrote E i st before res es \<longleftrightarrow>
     (\<exists>c q t. q = args_request (inv_arguments (rbp_inverseAction (ri_proposal i)))
        \<and> t = args_target (inv_arguments (rbp_inverseAction (ri_proposal i)))
        \<and> (es = [DidRemove q None, DidClock c]
             \<and> res = Inr (rb_sealed E i st c RB_INDETERMINATE (Some before) None None)
           \<or> (\<exists>m. es = [DidRemove q (Some m), DidRead t None, DidClock c]
             \<and> res = Inr (rb_sealed E i st c RB_INDETERMINATE (Some before) None (Some m)))
           \<or> (\<exists>m after. es = [DidRemove q (Some m), DidRead t (Some after), DidClock c]
             \<and> res = Inr (rb_sealed E i st c
                 (if rb_restored E i after then RB_VERIFIED else RB_VERIFICATION_FAILED)
                 (Some before) (Some after) (Some m)))))"

lemma spec_rb_remove: "prog_spec (rb_remove E P i st before) (rb_wrote E i st before)"
  unfolding rb_remove_def
proof (intro spec_and_then spec_do_remove, simp, goal_cases)
  case (1 ack)
  show ?case
  proof (cases ack)
    case None
    then show ?thesis
      by (auto intro!: prog_spec_mono [OF spec_rb_finish] simp: rb_wrote_def)
  next
    case (Some m)
    then show ?thesis
    proof (simp, intro spec_and_then spec_rb_read, simp, goal_cases)
      case (1 rd)
      then show ?case
        by (cases rd) (auto intro!: prog_spec_mono [OF spec_rb_finish] simp: rb_wrote_def)
    qed
  qed
qed

definition rb_executed ::
    "js_env \<Rightarrow> RollbackInput \<Rightarrow> LoopError + RollbackReceiptV1 \<Rightarrow> event list \<Rightarrow> bool" where
  "rb_executed E i res es \<longleftrightarrow>
     (\<exists>e. res = Inl e \<and> (\<forall>q x. DidRemove q x \<notin> set es))
     \<or> rb_bound E i \<and> (\<exists>st es'. es = DidClock st # es'
          \<and> ((\<exists>oc b c. res = Inr (rb_sealed E i st c oc b None None) \<and> oc \<noteq> RB_VERIFIED
                 \<and> (\<forall>q x. DidRemove q x \<notin> set es'))
             \<or> (\<exists>before p es''. es' = DidRead (args_target (act_arguments (rcp_action (ri_originalReceipt i))))
                     (Some before) # es''
                 \<and> rba_decision (ri_approval i) = APPROVE
                 \<and> createRollbackProposal E (ri_originalReceipt i) before = Inr (Some p)
                 \<and> rbp_digest p = rbp_digest (ri_proposal i)
                 \<and> rb_wrote E i st before res es'')))"

lemma rb_executed_error: "(\<And>q x. DidRemove q x \<notin> set es) \<Longrightarrow> rb_executed E i (Inl e) es"
  by (simp add: rb_executed_def)

lemma rb_executed_closed:
  assumes "rb_bound E i" "oc \<noteq> RB_VERIFIED" "\<And>q x. DidRemove q x \<notin> set es'"
  shows "rb_executed E i (Inr (rb_sealed E i st c oc b None None)) (DidClock st # es')"
  using assms unfolding rb_executed_def by blast

lemma spec_rollback: "prog_spec (executeApprovedRollback E P i) (rb_executed E i)"
proof (cases "rb_bound E i")
  case False
  then show ?thesis
    by (auto intro!: spec_throw rb_executed_error simp: executeApprovedRollback_def rb_bound_def)
next
  case True
  let ?tgt = "args_target (act_arguments (rcp_action (ri_originalReceipt i)))"
  have closed: "prog_spec (rb_finish E P i st oc b None None)
      (\<lambda>res es. rb_executed E i res (DidClock st # es0 @ es))"
    if "oc \<noteq> RB_VERIFIED" "\<And>q x. DidRemove q x \<notin> set es0" for st oc b es0
    using that True by (auto intro!: prog_spec_mono [OF spec_rb_finish] rb_executed_closed)
  have read: "prog_spec (and_then (rb_read P ?tgt) (\<lambda>read. case read of
        None \<Rightarrow> rb_finish E P i st RB_INDETERMINATE None None None
      | Some before \<Rightarrow>
          and_then (lift_result (case createRollbackProposal E (ri_originalReceipt i) before of
              Inl m \<Rightarrow> Inl (PlainError m) | Inr p \<Rightarrow> Inr p)) (\<lambda>recreated.
          if map_option rbp_digest recreated \<noteq> Some (rbp_digest (ri_proposal i))
          then rb_finish E P i st RB_STALE (Some before) None None
          else rb_remove E P i st before)))
      (\<lambda>res es. rb_executed E i res (DidClock st # es))"
    if approve: "rba_decision (ri_approval i) \<noteq> REJECT" for st
  proof (intro spec_and_then spec_rb_read, simp only: sum.case, goal_cases)
    case (1 rd)
    have ap: "rba_decision (ri_approval i) = APPROVE"
      using approve by (cases "rba_decision (ri_approval i)") auto
    show ?case
    proof (cases rd)
      case None
      then show ?thesis using closed [of RB_INDETERMINATE "[DidRead ?tgt rd]" st None] by simp
    next
      case (Some before)
      show ?thesis
      proof (cases "createRollbackProposal E (ri_originalReceipt i) before")
        case (Inl m)
        with Some show ?thesis
          by (auto intro!: spec_and_then [of "lift_result _"] spec_lift rb_executed_error)
      next
        case (Inr rp)
        show ?thesis
        proof (cases "\<exists>p. rp = Some p \<and> rbp_digest p = rbp_digest (ri_proposal i)")
          case True
          then obtain p where p: "rp = Some p" "rbp_digest p = rbp_digest (ri_proposal i)" by blast
          have "rb_executed E i res (DidClock st # DidRead ?tgt (Some before) # es)"
            if "rb_wrote E i st before res es" for res es
            using that \<open>rb_bound E i\<close> ap Inr p unfolding rb_executed_def by blast
          with Some Inr p show ?thesis
            by (auto intro!: spec_and_then [of "lift_result _"] spec_lift prog_spec_mono [OF spec_rb_remove])
        next
          case False
          then have "map_option rbp_digest rp \<noteq> Some (rbp_digest (ri_proposal i))" by auto
          with Some Inr show ?thesis
            using closed [of RB_STALE "[DidRead ?tgt rd]" st "Some before"]
            by (auto intro!: spec_and_then [of "lift_result _"] spec_lift)
        qed
      qed
    qed
  qed
  show ?thesis
    using True unfolding executeApprovedRollback_def rb_bound_def
  proof (simp, intro spec_and_then spec_rb_clock, simp only: sum.case, goal_cases)
    case (1 st)
    show ?case
    proof (cases "exact_instant E st")
      case None
      then show ?thesis
        by (auto intro!: spec_and_then [of "lift_result _"] spec_lift rb_executed_error simp: rb_instant_def)
    next
      case (Some t)
      then show ?thesis
        using read [of st] closed [of RB_REJECTED "[]" st None]
        by (auto intro!: spec_and_then [of "lift_result _"] spec_lift spec_throw rb_executed_error
            simp: rb_instant_def)
    qed
  qed
qed

lemma rb_wrote_head:
  assumes "rb_wrote E i st before res es"
  shows "\<exists>x es'. es = DidRemove (args_request (inv_arguments (rbp_inverseAction (ri_proposal i)))) x # es'
    \<and> (\<forall>q y. DidRemove q y \<notin> set es')"
  using assms unfolding rb_wrote_def by auto

text \<open>The shapes of a rollback's run.\<close>

lemma rb_executed_cases:
  assumes "rb_executed E i res es"
  obtains (error) e where "res = Inl e" "\<And>q x. DidRemove q x \<notin> set es"
  | (closed) st c oc b where "rb_bound E i" "res = Inr (rb_sealed E i st c oc b None None)"
      "oc \<noteq> RB_VERIFIED" "\<And>q x. DidRemove q x \<notin> set es"
  | (wrote) st before p es' where "rb_bound E i"
      "es = DidClock st # DidRead (args_target (act_arguments (rcp_action (ri_originalReceipt i))))
              (Some before) # es'"
      "rba_decision (ri_approval i) = APPROVE"
      "createRollbackProposal E (ri_originalReceipt i) before = Inr (Some p)"
      "rbp_digest p = rbp_digest (ri_proposal i)" "rb_wrote E i st before res es'"
  using assms unfolding rb_executed_def by fastforce

lemma created_facts:
  assumes "createRollbackProposal E r cur = Inr (Some p)"
  shows "verifyTagProjection E cur \<and> map_option tp_digest (rcp_after r) = Some (tp_digest cur)
    \<and> verifyRollbackProposal E p \<and> rbp_inverseAction p = act_inverse (rcp_action r)
    \<and> map_option tp_digest (rcp_before r) = Some (rbp_restoreStateDigest p)
    \<and> rbp_originalReceiptDigest p = rcp_digest r"
  using assms by (auto simp: createRollbackProposal_def Let_def split: if_splits option.splits)

lemma receipt_action_valid: "verifyExecutionReceipt E r = [] \<Longrightarrow> actionValid E (rcp_action r)"
  using receipt_valid_iff [of E r] by (simp add: receipt_valid_def receipt_integrity_def)

subsection \<open>A run for the witnesses\<close>

definition demo_rollback_ports :: "bool rollback_ports" where
  "demo_rollback_ports =
     \<lparr>readTagProjection = (\<lambda>tagged t. (Some (if tagged then demo_after else demo_before), tagged)),
      addTags = (\<lambda>tagged q. (UnknownFailure, tagged)),
      clock = (\<lambda>tagged. (''2026-01-01T00:10:00.000Z'', tagged)),
      port_claim = (\<lambda>tagged i. (Inr IN_PROGRESS, tagged)),
      port_resume = (\<lambda>tagged l. (Inr False, tagged)),
      port_complete = (\<lambda>tagged l r. (Inr (), tagged)),
      removeTags = (\<lambda>tagged q. (Some demo_ack, False))\<rparr>"

definition demo_proposal :: RollbackProposalV1 where
  "demo_proposal = seal_rollback demo_env demo_digest demo_digest demo_digest (act_inverse demo_action)"

definition demo_rollback_approval :: RollbackApprovalV1 where
  "demo_rollback_approval = \<lparr>rba_schemaVersion = ''archon.rollback-approval/v1'',
     rba_proposalDigest = demo_digest, rba_decision = APPROVE,
     rba_approver = \<lparr>au_subject = ''alice'', au_issuer = ''idp'', au_roles = [''DataSteward''],
                     au_authenticated = True\<rparr>,
     rba_decidedAt = ''2026-01-01T00:05:00.000Z'', rba_digest = demo_digest\<rparr>"

definition demo_rollback :: RollbackInput where
  "demo_rollback = \<lparr>ri_originalReceipt = demo_receipt, ri_proposal = demo_proposal,
     ri_approval = demo_rollback_approval\<rparr>"

lemma demo_rollback_simps [simp]:
  "ri_originalReceipt demo_rollback = demo_receipt" "ri_proposal demo_rollback = demo_proposal"
  "rba_decision (ri_approval demo_rollback) = APPROVE"
  "rba_decidedAt (ri_approval demo_rollback) = ''2026-01-01T00:05:00.000Z''"
  by (simp_all add: demo_rollback_def demo_rollback_approval_def)

lemma demo_rollback_ports_simps [simp]:
  "readTagProjection demo_rollback_ports tagged t = (Some (if tagged then demo_after else demo_before), tagged)"
  "clock demo_rollback_ports tagged = (''2026-01-01T00:10:00.000Z'', tagged)"
  "removeTags demo_rollback_ports tagged q = (Some demo_ack, False)"
  by (simp_all add: demo_rollback_ports_def)

lemma demo_receipt_simps [simp]:
  "rcp_digest demo_receipt = demo_digest" "rcp_action demo_receipt = demo_action"
  "rcp_before demo_receipt = Some demo_before" "rcp_after demo_receipt = Some demo_after"
  "rcp_outcome demo_receipt = VERIFIED" "ra_availability (rcp_rollback demo_receipt) = ELIGIBLE"
  unfolding demo_receipt_def by (simp_all add: seal_receipt_digest demo_receipt_input_def)

lemma demo_proposal_digest [simp]:
  "rbp_digest demo_proposal = demo_digest" "rbp_originalReceiptDigest demo_proposal = demo_digest"
  "rbp_inverseAction demo_proposal = act_inverse demo_action"
  by (simp_all add: demo_proposal_def) (simp add: seal_rollback_def Let_def)

lemma demo_exact:
  "exact_instant demo_env ''2026-01-01T00:05:00.000Z'' = Some 1767225900000"
  "exact_instant demo_env ''2026-01-01T00:10:00.000Z'' = Some 1767226200000"
  unfolding exact_instant_def demo_dates by (simp, code_simp)+

lemma demo_bound [simp]: "rb_bound demo_env demo_rollback"
  using demo_receipt_valid
  by (simp add: rb_bound_def demo_rollback_def rb_approvalValid_def demo_rollback_approval_def steward_def
      demo_exact verifyDigest_def receipt_valid_def) (simp add: trim_def is_ws_def)

lemma demo_created: "createRollbackProposal demo_env demo_receipt demo_after = Inr (Some demo_proposal)"
  using seal_rollback_verifies [OF hex_demo_env]
  by (simp add: createRollbackProposal_def Let_def demo_proposal_def)

lemma demo_rollback_run:
  "executeApprovedRollback demo_env demo_rollback_ports demo_rollback (True, [])
   = (Inr (rb_sealed demo_env demo_rollback ''2026-01-01T00:10:00.000Z'' ''2026-01-01T00:10:00.000Z''
        RB_VERIFIED (Some demo_after) (Some demo_before) (Some demo_ack)),
      (False, [DidClock ''2026-01-01T00:10:00.000Z'',
        DidRead (args_target (act_arguments demo_action)) (Some demo_after)] @
        DidRemove (args_request (inv_arguments (act_inverse demo_action))) (Some demo_ack) #
        [DidRead (args_target (inv_arguments (act_inverse demo_action))) (Some demo_before),
         DidClock ''2026-01-01T00:10:00.000Z'']))"
proof -
  have r: "rb_restored demo_env demo_rollback demo_before"
    by (simp add: rb_restored_def demo_proposal_def seal_rollback_def Let_def)
  show ?thesis
    using demo_bound demo_created r
    by (simp add: executeApprovedRollback_def rb_bound_def rb_remove_def rb_finish_def rb_sealed_def
        and_then_def lift_result_def ret_def throw_def rb_clock_def rb_read_def do_remove_def call_def
        rb_instant_def demo_exact demo_dates)
qed

subsection \<open>Properties\<close>

text \<open>
  C28: no removal without its guards. If a rollback calls \<open>removeTags\<close>, it calls it once; the original
  receipt verifies, the approval is a steward's, says \<open>APPROVE\<close> and names the proposal, which names the
  receipt; and the call right before it was a read of the receipt's target that found the recorded
  post-state, from which a proposal with the same digest was recreated.
\<close>

theorem rollback_is_guarded:
  assumes "executeApprovedRollback E P i (w, []) = (res, (w', es))"
    and "es = pre @ DidRemove q x # post"
  shows "rb_bound E i \<and> rba_decision (ri_approval i) = APPROVE
    \<and> (\<forall>q' y. DidRemove q' y \<notin> set pre \<and> DidRemove q' y \<notin> set post)
    \<and> (\<exists>st before p.
         pre = [DidClock st, DidRead (args_target (act_arguments (rcp_action (ri_originalReceipt i)))) (Some before)]
         \<and> verifyTagProjection E before
         \<and> map_option tp_digest (rcp_after (ri_originalReceipt i)) = Some (tp_digest before)
         \<and> createRollbackProposal E (ri_originalReceipt i) before = Inr (Some p)
         \<and> rbp_digest p = rbp_digest (ri_proposal i))"
  using prog_specD [OF spec_rollback assms(1)]
proof (cases rule: rb_executed_cases)
  case (error e)
  then show ?thesis using assms(2) error(2) [of q x] by simp
next
  case (closed st c oc b)
  then show ?thesis using assms(2) closed(4) [of q x] by simp
next
  case (wrote st before p es')
  obtain x' es1 where e1: "es' = DidRemove (args_request (inv_arguments (rbp_inverseAction (ri_proposal i)))) x' # es1"
    "\<forall>q y. DidRemove q y \<notin> set es1" using rb_wrote_head [OF wrote(6)] by blast
  let ?A = "[DidClock st, DidRead (args_target (act_arguments (rcp_action (ri_originalReceipt i)))) (Some before)]"
  have "?A @ DidRemove (args_request (inv_arguments (rbp_inverseAction (ri_proposal i)))) x' # es1
      = pre @ DidRemove q x # post" using wrote(2) e1(1) assms(2) by simp
  from unique_split [OF _ _ _ this, of "\<lambda>e. \<exists>q y. e = DidRemove q y"] e1(2)
  have "pre = ?A \<and> post = es1" by auto
  then show ?thesis using wrote e1(2) created_facts [OF wrote(4)] by auto
qed

theorem rollback_is_guarded_witness:
  "\<exists>res w' es. executeApprovedRollback demo_env demo_rollback_ports demo_rollback (True, []) = (res, (w', es))
    \<and> DidRemove (args_request (inv_arguments (act_inverse demo_action))) (Some demo_ack) \<in> set es
    \<and> rb_bound demo_env demo_rollback"
  using rollback_is_guarded [OF demo_rollback_run refl] demo_rollback_run by fastforce

text \<open>
  the receipts of rollbacks are sound. Every receipt \<open>executeApprovedRollback\<close> returns passes
  \<open>verifyRollbackReceipt\<close> against the proposal; and one that says \<open>VERIFIED\<close> was preceded by an
  acknowledged removal and a read-back of a sealed projection carrying the digest of the state recorded
  before the original execution.
\<close>

theorem rollback_receipts_sound:
  assumes "hex_sha256 E" and "executeApprovedRollback E P i (w, []) = (Inr r, (w', es))"
  shows "verifyRollbackReceipt E r (Some (ri_proposal i))
    \<and> (rbr_outcome r = RB_VERIFIED \<longrightarrow>
         (\<exists>q m t after. DidRemove q (Some m) \<in> set es \<and> DidRead t (Some after) \<in> set es
            \<and> rbr_after r = Some after \<and> verifyTagProjection E after
            \<and> map_option tp_digest (rcp_before (ri_originalReceipt i)) = Some (tp_digest after)))"
proof -
  have d: "verifyDigest E (rollback_receipt_payload (rb_sealed E i st c oc b a m))
      (rbr_digest (rb_sealed E i st c oc b a m))" for st c oc b a m
    unfolding rb_sealed_digest using assms(1) by simp
  from prog_specD [OF spec_rollback assms(2)] show ?thesis
  proof (cases rule: rb_executed_cases)
    case (error e)
    then show ?thesis by simp
  next
    case (closed st c oc b)
    then show ?thesis using d by (simp add: verifyRollbackReceipt_def rb_bound_def)
  next
    case (wrote st before p es')
    have b: "rbp_originalReceiptDigest (ri_proposal i) = rcp_digest (ri_originalReceipt i)"
      using wrote(1) by (simp add: rb_bound_def)
    have v: "verifyTagProjection E before" using created_facts [OF wrote(4)] by blast
    have ver: "verifyRollbackReceipt E (rb_sealed E i st c oc (Some before) a m) (Some (ri_proposal i))"
      if "oc = RB_VERIFIED \<Longrightarrow> \<exists>after k. a = Some after \<and> m = Some k \<and> rb_restored E i after" for c oc a m
      using that d b v by (cases "oc = RB_VERIFIED") (auto simp: verifyRollbackReceipt_def rb_restored_def)
    from wrote(6) show ?thesis
      unfolding rb_wrote_def
    proof (elim exE conjE disjE)
      fix c q t m after
      assume es: "es' = [DidRemove q (Some m), DidRead t (Some after), DidClock c]"
        and r: "Inr r = Inr (rb_sealed E i st c
           (if rb_restored E i after then RB_VERIFIED else RB_VERIFICATION_FAILED)
           (Some before) (Some after) (Some m))"
      have "verifyRollbackReceipt E r (Some (ri_proposal i))"
        using r by (cases "rb_restored E i after") (auto intro!: ver)
      moreover have "rb_restored E i after" if "rbr_outcome r = RB_VERIFIED"
        using r that by (simp split: if_splits)
      moreover have "rbr_after r = Some after" "DidRemove q (Some m) \<in> set es" "DidRead t (Some after) \<in> set es"
        using es r wrote(2) by (simp_all split: if_splits)
      ultimately show ?thesis unfolding rb_restored_def by blast
    qed (use ver in auto)
  qed
qed

theorem rollback_receipts_sound_witness:
  "\<exists>r w' es. executeApprovedRollback demo_env demo_rollback_ports demo_rollback (True, []) = (Inr r, (w', es))
    \<and> rbr_outcome r = RB_VERIFIED \<and> verifyRollbackReceipt demo_env r (Some demo_proposal)"
  using rollback_receipts_sound [OF hex_demo_env demo_rollback_run] demo_rollback_run
  by (auto simp: demo_rollback_def)

text \<open>
  C30: with a genuine proposal, a rollback removes what the execution added: if the proposal verifies
  (and no two proposals in play collide under SHA-256), the request it sends is the one the original
  action was executed with.
\<close>

theorem genuine_rollback_exact:
  assumes "executeApprovedRollback E P i (w, []) = (res, (w', es))" and "DidRemove q x \<in> set es"
    and "verifyRollbackProposal E (ri_proposal i)"
    and "\<And>cur p. createRollbackProposal E (ri_originalReceipt i) cur = Inr (Some p) \<Longrightarrow>
      no_collision E (rollback_proposal_payload p) (rollback_proposal_payload (ri_proposal i))"
  shows "q = action_request (rcp_action (ri_originalReceipt i))"
  using prog_specD [OF spec_rollback assms(1)]
proof (cases rule: rb_executed_cases)
  case (error e)
  then show ?thesis using assms(2) error(2) [of q x] by simp
next
  case (closed st c oc b)
  then show ?thesis using assms(2) closed(4) [of q x] by simp
next
  case (wrote st before p es')
  have f: "verifyRollbackProposal E p" "rbp_inverseAction p = act_inverse (rcp_action (ri_originalReceipt i))"
    using created_facts [OF wrote(4)] by blast+
  have "digest E (rollback_proposal_payload p) = digest E (rollback_proposal_payload (ri_proposal i))"
    using f(1) assms(3) wrote(5) unfolding verifyRollbackProposal_def by (metis verifyDigestD)
  from digest_eqD [OF this assms(4) [OF wrote(4)]] rollback_proposal_payload_inj
  have "p\<lparr>rbp_rollbackId := [], rbp_digest := []\<rparr> = (ri_proposal i)\<lparr>rbp_rollbackId := [], rbp_digest := []\<rparr>"
    by blast
  from arg_cong [OF this, of rbp_inverseAction]
  have eq: "rbp_inverseAction p = rbp_inverseAction (ri_proposal i)" by simp
  have "actionValid E (rcp_action (ri_originalReceipt i))"
    using wrote(1) receipt_action_valid by (simp add: rb_bound_def)
  moreover obtain y es1 where "es' = DidRemove (args_request (inv_arguments (rbp_inverseAction (ri_proposal i)))) y # es1"
    "\<forall>q y. DidRemove q y \<notin> set es1"
    using rb_wrote_head [OF wrote(6)] by blast
  ultimately show ?thesis
    using eq f(2) wrote(2) assms(2) by (auto simp: actionValid_def args_request_def action_request_def)
qed

theorem genuine_rollback_exact_witness:
  "args_request (inv_arguments (act_inverse demo_action)) = action_request demo_action"
proof -
  have nc: "no_collision demo_env (rollback_proposal_payload p) (rollback_proposal_payload demo_proposal)"
    if "createRollbackProposal demo_env demo_receipt cur = Inr (Some p)" for cur p
  proof -
    have "tp_digest cur = demo_digest" using created_facts [OF that] by simp
    then have "p = demo_proposal"
      using that by (auto simp: createRollbackProposal_def Let_def demo_proposal_def split: if_splits)
    then show ?thesis by (simp add: no_collision_def)
  qed
  have q: "DidRemove (args_request (inv_arguments (act_inverse demo_action))) (Some demo_ack) \<in> set
      ([DidClock ''2026-01-01T00:10:00.000Z'',
        DidRead (args_target (act_arguments demo_action)) (Some demo_after)] @
        DidRemove (args_request (inv_arguments (act_inverse demo_action))) (Some demo_ack) #
        [DidRead (args_target (inv_arguments (act_inverse demo_action))) (Some demo_before),
         DidClock ''2026-01-01T00:10:00.000Z''])" by simp
  have v: "verifyRollbackProposal demo_env (ri_proposal demo_rollback)"
    using created_facts [OF demo_created] by simp
  from genuine_rollback_exact [OF demo_rollback_run q v] nc show ?thesis by simp
qed

text \<open>
  C29: the approval does not cover what is removed. Replacing the inverse action of a proposal, and
  nothing else, leaves its digest field and so the approval's binding and the recreated digest
  comparison as they were: whenever a rollback would write, the rollback with the tampered proposal
  writes too, and sends the tampered arguments. \<open>executeApprovedRollback\<close> never calls
  \<open>verifyRollbackProposal\<close>.
\<close>

theorem tampered_rollback_executes:
  assumes "executeApprovedRollback E P i (w, []) = (res, (w', es))" and "DidRemove q x \<in> set es"
  shows "\<exists>res' w'' es' y.
    executeApprovedRollback E P (i\<lparr>ri_proposal := (ri_proposal i)\<lparr>rbp_inverseAction := u\<rparr>\<rparr>) (w, [])
      = (res', (w'', es'))
    \<and> DidRemove (args_request (inv_arguments u)) y \<in> set es'"
proof -
  let ?i = "i\<lparr>ri_proposal := (ri_proposal i)\<lparr>rbp_inverseAction := u\<rparr>\<rparr>"
  have av: "rb_approvalValid E a (p\<lparr>rbp_inverseAction := u\<rparr>) = rb_approvalValid E a p" for a p
    by (simp add: rb_approvalValid_def)
  have rem: "\<exists>res' w'' es'. rb_remove E P ?i st before (w1, l) = (res', (w'', es'))
      \<and> (\<exists>y. DidRemove (args_request (inv_arguments u)) y \<in> set es')" for st before w1 l
  proof -
    obtain res' w'' e where r: "rb_remove E P ?i st before (w1, l) = (res', (w'', l @ e))"
      and "rb_wrote E ?i st before res' e"
      using spec_rb_remove [of E P ?i st before] unfolding prog_spec_def by blast
    from rb_wrote_head [OF this(2)] r show ?thesis by auto
  qed
  show ?thesis
    using assms rem
    by (auto simp: executeApprovedRollback_def av rb_finish_def and_then_def lift_result_def ret_def
        throw_def rb_clock_def rb_read_def call_def Let_def split_beta
        split: if_splits sum.splits option.splits)
qed

theorem tampered_rollback_executes_witness:
  "\<exists>res' w'' es' y. executeApprovedRollback demo_env demo_rollback_ports
      (demo_rollback\<lparr>ri_proposal := demo_proposal\<lparr>rbp_inverseAction := \<lparr>inv_tool = ''remove_tags'',
        inv_arguments = \<lparr>arg_tag_urns = [''urn:li:tag:Core''], arg_entity_urns = [''urn:li:dataset:orders''],
          arg_column_paths = [''id'']\<rparr>\<rparr>\<rparr>\<rparr>) (True, []) = (res', (w'', es'))
    \<and> DidRemove \<lparr>rq_tagUrns = [''urn:li:tag:Core''], rq_entityUrns = [''urn:li:dataset:orders''],
        rq_columnPaths = [''id'']\<rparr> y \<in> set es'"
  using tampered_rollback_executes [OF demo_rollback_run, of _ _ "\<lparr>inv_tool = ''remove_tags'',
      inv_arguments = \<lparr>arg_tag_urns = [''urn:li:tag:Core''], arg_entity_urns = [''urn:li:dataset:orders''],
        arg_column_paths = [''id'']\<rparr>\<rparr>"]
  by (simp add: args_request_def)

end
