(* ===== verification/RuntimeProfile.thy ===== *)
theory RuntimeProfile
  imports Integrity JsDate
begin

section \<open>Choosing a DataHub runtime: \<open>src/datahub/runtime-profile.ts\<close>\<close>

text \<open>
  A runtime is chosen from health snapshots and pinned by a binding that names its profile, generation
  and capability digest for a bounded lease. Snapshots and bindings arrive as unknown values, modelled
  as JSON values, and every validator either throws a \<open>RuntimeSelectionError\<close> or returns the typed
  record. (Symbol keys, which JSON values do not have, are the one part of \<open>exactStringKeys\<close> without a
  counterpart.)
\<close>

datatype RuntimeProfileId = CLOUD | CORE

datatype RuntimeRequest = AUTO | PROFILE RuntimeProfileId

datatype Resolution = BY_AUTO | BY_REQUEST

datatype RuntimeHealthStatus = READY | STARTING_UP | UNAVAILABLE

record RuntimeCapabilities =
  cap_mcpRead :: bool
  cap_mcpGovernedWrite :: bool
  cap_agentContextKit :: bool
  cap_dataHubSkills :: bool
  cap_analyticsAgent :: bool

record RuntimeProfileSnapshot =
  snp_profileId :: RuntimeProfileId
  snp_generation :: string
  snp_status :: RuntimeHealthStatus
  snp_checkedAt :: string
  snp_capabilities :: RuntimeCapabilities

record RuntimeBinding =
  bnd_profileId :: RuntimeProfileId
  bnd_generation :: string
  bnd_capabilityDigest :: string
  bnd_resolution :: Resolution
  bnd_boundAt :: string
  bnd_leaseExpiresAt :: string

datatype RuntimeSelectionErrorCode = INVALID_RUNTIME_REQUEST | INVALID_RUNTIME_SNAPSHOT
  | INVALID_RUNTIME_BINDING | RUNTIME_NOT_READY | NO_RUNTIME_AVAILABLE | RUNTIME_BINDING_MISMATCH

datatype RuntimeSelectionError = RuntimeSelectionError RuntimeSelectionErrorCode string

fun profile_name :: "RuntimeProfileId \<Rightarrow> string" where
  "profile_name CLOUD = ''cloud''"
| "profile_name CORE = ''core''"

fun request_name :: "RuntimeRequest \<Rightarrow> string" where
  "request_name AUTO = ''auto''"
| "request_name (PROFILE p) = profile_name p"

fun resolution_name :: "Resolution \<Rightarrow> string" where
  "resolution_name BY_AUTO = ''auto''"
| "resolution_name BY_REQUEST = ''explicit''"

text \<open>Membership in \<open>RUNTIME_PROFILE_IDS\<close>, \<open>RUNTIME_REQUESTS\<close> and the literal unions, by name.\<close>

definition profile_of :: "string \<Rightarrow> RuntimeProfileId option" where
  "profile_of s = (if s = ''cloud'' then Some CLOUD else if s = ''core'' then Some CORE else None)"

definition request_of :: "string \<Rightarrow> RuntimeRequest option" where
  "request_of s = (if s = ''auto'' then Some AUTO else map_option PROFILE (profile_of s))"

definition resolution_of :: "string \<Rightarrow> Resolution option" where
  "resolution_of s = (if s = ''auto'' then Some BY_AUTO else if s = ''explicit'' then Some BY_REQUEST else None)"

definition status_of :: "string \<Rightarrow> RuntimeHealthStatus option" where
  "status_of s = (if s = ''ready'' then Some READY else if s = ''starting'' then Some STARTING_UP
     else if s = ''unavailable'' then Some UNAVAILABLE else None)"

subsection \<open>Patterns\<close>

definition is_alnum :: "char \<Rightarrow> bool" where
  "is_alnum c \<longleftrightarrow> (let n = of_char c :: nat in
     48 \<le> n \<and> n \<le> 57 \<or> 65 \<le> n \<and> n \<le> 90 \<or> 97 \<le> n \<and> n \<le> 122)"

text \<open>\<open>/^[A-Za-z0-9][A-Za-z0-9._-]{0,127}$/u\<close>\<close>

definition is_generation :: "string \<Rightarrow> bool" where
  "is_generation s \<longleftrightarrow> (case s of [] \<Rightarrow> False
     | c # cs \<Rightarrow> is_alnum c \<and> length cs \<le> 127
         \<and> list_all (\<lambda>d. is_alnum d \<or> d \<in> {CHR ''.'', CHR ''_'', CHR ''-''}) cs)"

definition is_safe_integer :: "int \<Rightarrow> bool" where
  "is_safe_integer n \<longleftrightarrow> - MAX_SAFE_INTEGER \<le> n \<and> n \<le> MAX_SAFE_INTEGER"

definition DEFAULT_MAX_HEALTH_AGE_MS :: int where
  "DEFAULT_MAX_HEALTH_AGE_MS = 90000"

definition TWO_HOURS :: int where
  "TWO_HOURS = 2 * 60 * 60000"

subsection \<open>Validation of unknown values\<close>

fun own_fields :: "json \<Rightarrow> (string \<times> json) list option" where
  "own_fields (JObj kvs) = Some kvs"
| "own_fields _ = None"

definition exactStringKeys :: "(string \<times> json) list \<Rightarrow> string list \<Rightarrow> bool" where
  "exactStringKeys kvs expected \<longleftrightarrow>
     length kvs = length expected
     \<and> list_all (\<lambda>k. k \<in> set expected) (map fst kvs)
     \<and> list_all (\<lambda>k. k \<in> set (map fst kvs)) expected"

definition rt_instant ::
    "js_env \<Rightarrow> string option \<Rightarrow> string \<Rightarrow> RuntimeSelectionErrorCode \<Rightarrow> RuntimeSelectionError + int" where
  "rt_instant E value name code =
     (case value of
        None \<Rightarrow> Inl (RuntimeSelectionError code (name @ '' must be a string''))
      | Some s \<Rightarrow> (case exact_instant E s of
          None \<Rightarrow> Inl (RuntimeSelectionError code (name @ '' must be an exact ISO-8601 UTC instant''))
        | Some t \<Rightarrow> Inr t))"

text \<open>A field known to be a string.\<close>

definition text_field :: "json \<Rightarrow> string \<Rightarrow> string" where
  "text_field v k = or_else (str_of (obj_get v k)) []"

fun bool_of :: "json option \<Rightarrow> bool option" where
  "bool_of (Some (JBool b)) = Some b"
| "bool_of _ = None"

abbreviation bad_snapshot :: "string \<Rightarrow> RuntimeSelectionError" where
  "bad_snapshot \<equiv> RuntimeSelectionError INVALID_RUNTIME_SNAPSHOT"

definition CAPABILITY_KEYS :: "string list" where
  "CAPABILITY_KEYS = [''mcpRead'', ''mcpGovernedWrite'', ''agentContextKit'', ''dataHubSkills'', ''analyticsAgent'']"

text \<open>One capability; a value that is not a boolean throws.\<close>

definition capability :: "json option \<Rightarrow> string \<Rightarrow> RuntimeSelectionError + bool" where
  "capability value key = (case bool_of (Option.bind value (\<lambda>v. obj_get v key)) of
      None \<Rightarrow> Inl (bad_snapshot (''runtime capability '' @ key @ '' must be boolean''))
    | Some b \<Rightarrow> Inr b)"

definition exactCapabilities :: "json option \<Rightarrow> RuntimeSelectionError + RuntimeCapabilities" where
  "exactCapabilities value =
     (case Option.bind value own_fields of
        None \<Rightarrow> Inl (bad_snapshot ''runtime capabilities must be an object'')
      | Some kvs \<Rightarrow>
          if \<not> exactStringKeys kvs CAPABILITY_KEYS
          then Inl (bad_snapshot ''runtime capabilities must use the exact allowlisted schema'')
          else bind_result (capability value ''mcpRead'') (\<lambda>a.
               bind_result (capability value ''mcpGovernedWrite'') (\<lambda>b.
               bind_result (capability value ''agentContextKit'') (\<lambda>c.
               bind_result (capability value ''dataHubSkills'') (\<lambda>d.
               bind_result (capability value ''analyticsAgent'') (\<lambda>e.
               Inr \<lparr>cap_mcpRead = a, cap_mcpGovernedWrite = b, cap_agentContextKit = c,
                    cap_dataHubSkills = d, cap_analyticsAgent = e\<rparr>))))))"

definition validateSnapshot :: "js_env \<Rightarrow> json \<Rightarrow> RuntimeSelectionError + RuntimeProfileSnapshot" where
  "validateSnapshot E v =
     (case own_fields v of
        None \<Rightarrow> Inl (bad_snapshot ''runtime snapshot must be an object'')
      | Some kvs \<Rightarrow>
          if \<not> exactStringKeys kvs [''capabilities'', ''checkedAt'', ''generation'', ''profileId'', ''status'']
          then Inl (bad_snapshot ''runtime snapshot must use the exact allowlisted schema'')
          else (case Option.bind (str_of (obj_get v ''profileId'')) profile_of of
            None \<Rightarrow> Inl (bad_snapshot ''runtime profile is not allowlisted'')
          | Some p \<Rightarrow> (case str_of (obj_get v ''generation'') of
            None \<Rightarrow> Inl (bad_snapshot ''runtime generation is invalid'')
          | Some g \<Rightarrow> if \<not> is_generation g then Inl (bad_snapshot ''runtime generation is invalid'')
              else (case Option.bind (str_of (obj_get v ''status'')) status_of of
            None \<Rightarrow> Inl (bad_snapshot ''runtime health status is invalid'')
          | Some st \<Rightarrow>
              bind_result (rt_instant E (str_of (obj_get v ''checkedAt'')) ''checkedAt'' INVALID_RUNTIME_SNAPSHOT) (\<lambda>_.
              bind_result (exactCapabilities (obj_get v ''capabilities'')) (\<lambda>caps.
              Inr \<lparr>snp_profileId = p, snp_generation = g, snp_status = st,
                   snp_checkedAt = or_else (str_of (obj_get v ''checkedAt'')) [],
                   snp_capabilities = caps\<rparr>))))))"

definition capabilities_json :: "RuntimeCapabilities \<Rightarrow> json" where
  "capabilities_json c =
     JObj [(''mcpRead'', JBool (cap_mcpRead c)), (''mcpGovernedWrite'', JBool (cap_mcpGovernedWrite c)),
           (''agentContextKit'', JBool (cap_agentContextKit c)),
           (''dataHubSkills'', JBool (cap_dataHubSkills c)),
           (''analyticsAgent'', JBool (cap_analyticsAgent c))]"

fun status_name :: "RuntimeHealthStatus \<Rightarrow> string" where
  "status_name READY = ''ready''"
| "status_name STARTING_UP = ''starting''"
| "status_name UNAVAILABLE = ''unavailable''"

text \<open>A typed snapshot as the object it is: the operations on snapshots validate it again.\<close>

definition snapshot_json :: "RuntimeProfileSnapshot \<Rightarrow> json" where
  "snapshot_json s =
     JObj [(''profileId'', JStr (profile_name (snp_profileId s))), (''generation'', JStr (snp_generation s)),
           (''status'', JStr (status_name (snp_status s))), (''checkedAt'', JStr (snp_checkedAt s)),
           (''capabilities'', capabilities_json (snp_capabilities s))]"

definition capability_payload :: "RuntimeProfileSnapshot \<Rightarrow> json" where
  "capability_payload s =
     JObj [(''schemaVersion'', JStr ''archon.runtime-capabilities/v1''),
           (''profileId'', JStr (profile_name (snp_profileId s))),
           (''generation'', JStr (snp_generation s)),
           (''capabilities'', capabilities_json (snp_capabilities s))]"

text \<open>Here the text is \<open>JSON.stringify\<close> of the literal, in its own key order.\<close>

definition runtimeCapabilityDigest :: "js_env \<Rightarrow> RuntimeProfileSnapshot \<Rightarrow> RuntimeSelectionError + string" where
  "runtimeCapabilityDigest E s =
     bind_result (validateSnapshot E (snapshot_json s)) (\<lambda>_.
       Inr (''sha256:'' @ sha256_hex E (stringify (capability_payload s))))"

definition all_capabilities :: "RuntimeCapabilities \<Rightarrow> bool" where
  "all_capabilities c \<longleftrightarrow> cap_mcpRead c \<and> cap_mcpGovernedWrite c \<and> cap_agentContextKit c
     \<and> cap_dataHubSkills c \<and> cap_analyticsAgent c"

text \<open>\<open>Number.isSafeInteger\<close> of an unknown value.\<close>

fun safe_integer :: "json \<Rightarrow> int option" where
  "safe_integer (JNum n) = (if is_safe_integer n then Some n else None)"
| "safe_integer _ = None"

definition isRuntimeReady ::
    "js_env \<Rightarrow> RuntimeProfileSnapshot \<Rightarrow> string \<Rightarrow> json \<Rightarrow> RuntimeSelectionError + bool" where
  "isRuntimeReady E s now maxHealthAgeMs =
     bind_result (validateSnapshot E (snapshot_json s)) (\<lambda>_.
     bind_result (rt_instant E (Some now) ''now'' INVALID_RUNTIME_SNAPSHOT) (\<lambda>nowMs.
     bind_result (rt_instant E (Some (snp_checkedAt s)) ''checkedAt'' INVALID_RUNTIME_SNAPSHOT) (\<lambda>checkedAtMs.
     bind_result (require (bad_snapshot ''maxHealthAgeMs is outside the reviewed range'')
       (safe_integer maxHealthAgeMs)) (\<lambda>maxAge.
       if maxAge < 1000 \<or> maxAge > 5 * 60000
       then Inl (bad_snapshot ''maxHealthAgeMs is outside the reviewed range'')
       else if checkedAtMs > nowMs \<or> nowMs - checkedAtMs > maxAge then Inr False
       else Inr (snp_status s = READY \<and> all_capabilities (snp_capabilities s))))))"

text \<open>The \<open>Map\<close> from profile to snapshot, built with validation; a second snapshot of a profile throws.\<close>

fun snapshotMap ::
    "js_env \<Rightarrow> (RuntimeProfileId \<times> RuntimeProfileSnapshot) list \<Rightarrow> json list \<Rightarrow>
     RuntimeSelectionError + (RuntimeProfileId \<times> RuntimeProfileSnapshot) list" where
  "snapshotMap E mapped [] = Inr mapped"
| "snapshotMap E mapped (v # vs) =
     bind_result (validateSnapshot E v) (\<lambda>s.
       if snp_profileId s \<in> set (map fst mapped)
       then Inl (bad_snapshot (''duplicate runtime snapshot for '' @ profile_name (snp_profileId s)))
       else snapshotMap E (mapped @ [(snp_profileId s, s)]) vs)"

subsection \<open>Bindings\<close>

definition invalidBinding :: "string \<Rightarrow> RuntimeSelectionError" where
  "invalidBinding m = RuntimeSelectionError INVALID_RUNTIME_BINDING m"

definition RUNTIME_BINDING_KEYS :: "string list" where
  "RUNTIME_BINDING_KEYS = [''boundAt'', ''capabilityDigest'', ''generation'', ''leaseExpiresAt'', ''profileId'',
     ''resolution'', ''schemaVersion'']"

definition bindingInstant :: "js_env \<Rightarrow> string option \<Rightarrow> string \<Rightarrow> RuntimeSelectionError + int" where
  "bindingInstant E value name =
     (case value of
        None \<Rightarrow> Inl (invalidBinding (''runtime binding '' @ name @ '' must be a string''))
      | Some s \<Rightarrow> (case exact_instant E s of
          None \<Rightarrow> Inl (invalidBinding (''runtime binding '' @ name @ '' must be an exact ISO-8601 UTC instant''))
        | Some t \<Rightarrow> Inr t))"

definition validateRuntimeBinding :: "js_env \<Rightarrow> json \<Rightarrow> RuntimeSelectionError + RuntimeBinding" where
  "validateRuntimeBinding E v =
     (case own_fields v of
        None \<Rightarrow> Inl (invalidBinding ''runtime binding must be an object'')
      | Some kvs \<Rightarrow>
          if \<not> exactStringKeys kvs RUNTIME_BINDING_KEYS
          then Inl (invalidBinding ''runtime binding must use the exact public schema'')
          else if str_of (obj_get v ''schemaVersion'') \<noteq> Some ''archon.runtime-binding/v1''
          then Inl (invalidBinding ''runtime binding schema is invalid'')
          else (case Option.bind (str_of (obj_get v ''profileId'')) profile_of of
            None \<Rightarrow> Inl (invalidBinding ''runtime binding profile is not allowlisted'')
          | Some p \<Rightarrow> (case str_of (obj_get v ''generation'') of
            None \<Rightarrow> Inl (invalidBinding ''runtime binding generation is invalid'')
          | Some g \<Rightarrow> if \<not> is_generation g then Inl (invalidBinding ''runtime binding generation is invalid'')
              else (case str_of (obj_get v ''capabilityDigest'') of
            None \<Rightarrow> Inl (invalidBinding ''runtime binding capability digest is invalid'')
          | Some d \<Rightarrow> if \<not> is_sha256 d then Inl (invalidBinding ''runtime binding capability digest is invalid'')
              else (case Option.bind (str_of (obj_get v ''resolution'')) resolution_of of
            None \<Rightarrow> Inl (invalidBinding ''runtime binding resolution is invalid'')
          | Some r \<Rightarrow>
              bind_result (bindingInstant E (str_of (obj_get v ''boundAt'')) ''boundAt'') (\<lambda>boundAtMs.
              bind_result (bindingInstant E (str_of (obj_get v ''leaseExpiresAt'')) ''leaseExpiresAt'') (\<lambda>leaseExpiresAtMs.
              if leaseExpiresAtMs \<le> boundAtMs \<or> leaseExpiresAtMs - boundAtMs > TWO_HOURS
              then Inl (invalidBinding ''runtime binding lease must be positive and no longer than two hours'')
              else Inr \<lparr>bnd_profileId = p, bnd_generation = g, bnd_capabilityDigest = d,
                        bnd_resolution = r, bnd_boundAt = or_else (str_of (obj_get v ''boundAt'')) [],
                        bnd_leaseExpiresAt = or_else (str_of (obj_get v ''leaseExpiresAt'')) []\<rparr>)))))))"

definition binding_fields :: "RuntimeBinding \<Rightarrow> (string \<times> json) list" where
  "binding_fields b =
          [(''schemaVersion'', JStr ''archon.runtime-binding/v1''),
           (''profileId'', JStr (profile_name (bnd_profileId b))),
           (''generation'', JStr (bnd_generation b)),
           (''capabilityDigest'', JStr (bnd_capabilityDigest b)),
           (''resolution'', JStr (resolution_name (bnd_resolution b))),
           (''boundAt'', JStr (bnd_boundAt b)), (''leaseExpiresAt'', JStr (bnd_leaseExpiresAt b))]"

definition binding_json :: "RuntimeBinding \<Rightarrow> json" where
  "binding_json b = JObj (binding_fields b)"

subsection \<open>Selection\<close>

text \<open>\<open>order.map(id => byId.get(id)).find(s => s !== undefined && isRuntimeReady(s, \<dots>))\<close>\<close>

fun find_ready ::
    "js_env \<Rightarrow> string \<Rightarrow> json \<Rightarrow> RuntimeProfileSnapshot option list \<Rightarrow>
     RuntimeSelectionError + RuntimeProfileSnapshot option" where
  "find_ready E now maxAge [] = Inr None"
| "find_ready E now maxAge (None # ss) = find_ready E now maxAge ss"
| "find_ready E now maxAge (Some s # ss) =
     bind_result (isRuntimeReady E s now maxAge) (\<lambda>ready.
       if ready then Inr (Some s) else find_ready E now maxAge ss)"

fun elements :: "json \<Rightarrow> json list option" where
  "elements (JArr vs) = Some vs"
| "elements _ = None"

text \<open>\<open>options.maxHealthAgeMs ?? DEFAULT_MAX_HEALTH_AGE_MS\<close>\<close>

fun age_or_default :: "json option \<Rightarrow> json" where
  "age_or_default None = JNum DEFAULT_MAX_HEALTH_AGE_MS"
| "age_or_default (Some JNull) = JNum DEFAULT_MAX_HEALTH_AGE_MS"
| "age_or_default (Some v) = v"

definition option_keys_exact :: "(string \<times> json) list \<Rightarrow> bool" where
  "option_keys_exact kvs \<longleftrightarrow>
     list_all (\<lambda>k. k \<in> {''now'', ''leaseExpiresAt'', ''maxHealthAgeMs''}) (map fst kvs)
     \<and> list_all (\<lambda>k. k \<in> set (map fst kvs)) [''now'', ''leaseExpiresAt'']"

fun search_order :: "RuntimeRequest \<Rightarrow> RuntimeProfileId list" where
  "search_order AUTO = [CLOUD, CORE]"
| "search_order (PROFILE p) = [p]"

fun resolution_for :: "RuntimeRequest \<Rightarrow> Resolution" where
  "resolution_for AUTO = BY_AUTO"
| "resolution_for (PROFILE p) = BY_REQUEST"

text \<open>What is thrown when nothing is ready.\<close>

definition not_ready :: "RuntimeRequest \<Rightarrow> RuntimeSelectionError" where
  "not_ready req = (if req = AUTO
     then RuntimeSelectionError NO_RUNTIME_AVAILABLE ''no fully capable DataHub runtime is ready''
     else RuntimeSelectionError RUNTIME_NOT_READY
       (''requested DataHub runtime '' @ request_name req @ '' is not ready''))"

definition selectRuntime ::
    "js_env \<Rightarrow> string \<Rightarrow> json \<Rightarrow> json \<Rightarrow> RuntimeSelectionError + RuntimeBinding" where
  "selectRuntime E requested snapshots options =
     bind_result (require (RuntimeSelectionError INVALID_RUNTIME_REQUEST ''runtime request is not allowlisted'')
       (request_of requested)) (\<lambda>req.
     bind_result (require (bad_snapshot ''runtime selection options must be an object'')
       (own_fields options)) (\<lambda>kvs.
     if \<not> option_keys_exact kvs
     then Inl (bad_snapshot ''runtime selection options must use the exact schema'')
     else bind_result (require (bad_snapshot ''runtime snapshots must be an array'') (elements snapshots)) (\<lambda>vs.
     bind_result (rt_instant E (str_of (obj_get options ''now'')) ''now'' INVALID_RUNTIME_SNAPSHOT) (\<lambda>nowMs.
     bind_result (rt_instant E (str_of (obj_get options ''leaseExpiresAt'')) ''leaseExpiresAt''
       INVALID_RUNTIME_SNAPSHOT) (\<lambda>leaseExpiresAtMs.
     if leaseExpiresAtMs \<le> nowMs \<or> leaseExpiresAtMs - nowMs > TWO_HOURS
     then Inl (bad_snapshot ''runtime lease must expire within the reviewed two-hour ceiling'')
     else bind_result (snapshotMap E [] vs) (\<lambda>byId.
     let now = text_field options ''now'' in
     bind_result (find_ready E now (age_or_default (obj_get options ''maxHealthAgeMs''))
       (map (map_of byId) (search_order req))) (\<lambda>selected.
     bind_result (require (not_ready req) selected) (\<lambda>s.
     bind_result (runtimeCapabilityDigest E s) (\<lambda>digest.
     validateRuntimeBinding E (binding_json
         \<lparr>bnd_profileId = snp_profileId s, bnd_generation = snp_generation s,
          bnd_capabilityDigest = digest,
          bnd_resolution = resolution_for req,
          bnd_boundAt = now, bnd_leaseExpiresAt = text_field options ''leaseExpiresAt''\<rparr>))))))))))"

definition assertPinnedRuntime :: "js_env \<Rightarrow> json \<Rightarrow> json \<Rightarrow> RuntimeSelectionError + unit" where
  "assertPinnedRuntime E expected actual =
     (case (validateRuntimeBinding E expected, validateRuntimeBinding E actual) of
        (Inr left, Inr right) \<Rightarrow>
          if bnd_profileId left = bnd_profileId right \<and> bnd_generation left = bnd_generation right
             \<and> bnd_capabilityDigest left = bnd_capabilityDigest right
             \<and> bnd_resolution left = bnd_resolution right
             \<and> bnd_boundAt left = bnd_boundAt right
             \<and> bnd_leaseExpiresAt left = bnd_leaseExpiresAt right
          then Inr ()
          else Inl (RuntimeSelectionError RUNTIME_BINDING_MISMATCH
                      ''runtime binding changed after session resolution'')
      | _ \<Rightarrow> Inl (RuntimeSelectionError RUNTIME_BINDING_MISMATCH
                   ''runtime binding is invalid after session resolution''))"

subsection \<open>Names and validators\<close>

lemma profile_of_name [simp]: "profile_of (profile_name p) = Some p"
  by (cases p) (simp_all add: profile_of_def)

lemma request_of_name [simp]: "request_of (request_name r) = Some r"
  by (cases r; cases "case r of PROFILE p \<Rightarrow> p | AUTO \<Rightarrow> CLOUD") (auto simp: request_of_def profile_of_def)

lemma resolution_of_name [simp]: "resolution_of (resolution_name r) = Some r"
  by (cases r) (simp_all add: resolution_of_def)

lemma profile_name_inj [simp]: "profile_name a = profile_name b \<longleftrightarrow> a = b"
  by (metis option.inject profile_of_name)

lemma distinct_binding_fields [simp]: "distinct (map fst (binding_fields b))"
  by (simp add: binding_fields_def)

lemma profile_of_Some: "profile_of s = Some p \<longleftrightarrow> s = profile_name p"
  by (cases p) (auto simp: profile_of_def)

lemma resolution_of_Some: "resolution_of s = Some r \<longleftrightarrow> s = resolution_name r"
  by (cases r) (auto simp: resolution_of_def)

lemma str_of_Some [simp]: "str_of v = Some s \<longleftrightarrow> v = Some (JStr s)"
  by (cases v rule: str_of.cases) auto

lemma bindingInstant_Inr [simp]:
  "bindingInstant E v n = Inr t \<longleftrightarrow> (\<exists>s. v = Some s \<and> exact_instant E s = Some t)"
  by (auto simp: bindingInstant_def split: option.split)

lemma rt_instant_Inr [simp]:
  "rt_instant E v n c = Inr t \<longleftrightarrow> (\<exists>s. v = Some s \<and> exact_instant E s = Some t)"
  by (auto simp: rt_instant_def split: option.split)

text \<open>An object with an exact schema is determined by its fields, in any order.\<close>

lemma exactStringKeys_distinct:
  assumes "exactStringKeys kvs ks" "distinct ks"
  shows "distinct (map fst kvs)" "set (map fst kvs) = set ks"
proof -
  show eq: "set (map fst kvs) = set ks"
    using assms(1) by (auto simp: exactStringKeys_def list_all_iff)
  then have "card (set (map fst kvs)) = length (map fst kvs)"
    using assms by (simp add: exactStringKeys_def distinct_card)
  then show "distinct (map fst kvs)" by (rule card_distinct)
qed

lemma exact_fields:
  assumes "exactStringKeys kvs (map fst fs)" "distinct (map fst fs)" "\<forall>(k, v) \<in> set fs. map_of kvs k = Some v"
  shows "mset kvs = mset fs"
proof -
  have d: "distinct (map fst kvs)" and eq: "set (map fst kvs) = set (map fst fs)"
    using exactStringKeys_distinct [OF assms(1,2)] by auto
  have "map_of kvs k = map_of fs k" for k
  proof (cases "map_of fs k")
    case None
    then have "k \<notin> set (map fst kvs)" unfolding eq by (simp add: map_of_eq_None_iff)
    then have "map_of kvs k = None" by (simp add: map_of_eq_None_iff)
    with None show ?thesis by simp
  next
    case (Some v)
    then show ?thesis using assms(3) by (auto dest: map_of_SomeD)
  qed
  then have "map_of kvs = map_of fs" by blast
  then have "set kvs = set fs" using map_of_inject_set [OF d assms(2)] by blast
  with d assms(2) show ?thesis by (simp add: distinct_map set_eq_iff_mset_eq_distinct)
qed

lemma permuted_fields:
  assumes "mset kvs = mset fs" "distinct (map fst fs)"
  shows "map_of kvs = map_of fs" "exactStringKeys kvs ks = exactStringKeys fs ks"
proof -
  have "mset (map fst kvs) = mset (map fst fs)" using assms(1) by simp
  then have "distinct (map fst kvs)" using assms(2) mset_eq_imp_distinct_iff by blast
  then show "map_of kvs = map_of fs"
    using map_of_inject_set [OF _ assms(2)] mset_eq_setD [OF assms(1)] by blast
  show "exactStringKeys kvs ks = exactStringKeys fs ks"
    using mset_eq_setD [OF assms(1)] mset_eq_length [OF assms(1)]
    by (simp add: exactStringKeys_def list_all_iff)
qed

lemma exactStringKeys_perm: "set ks = set ks' \<Longrightarrow> length ks = length ks' \<Longrightarrow> exactStringKeys kvs ks = exactStringKeys kvs ks'"
  by (auto simp: exactStringKeys_def list_all_iff)

lemma binding_keys:
  "exactStringKeys kvs (map fst (binding_fields b)) = exactStringKeys kvs RUNTIME_BINDING_KEYS"
  by (rule exactStringKeys_perm) (auto simp: binding_fields_def RUNTIME_BINDING_KEYS_def)

text \<open>The bindings the validator accepts, as a property of typed records.\<close>

definition valid_binding :: "js_env \<Rightarrow> RuntimeBinding \<Rightarrow> bool" where
  "valid_binding E b \<longleftrightarrow>
     is_generation (bnd_generation b) \<and> is_sha256 (bnd_capabilityDigest b)
     \<and> (case (exact_instant E (bnd_boundAt b), exact_instant E (bnd_leaseExpiresAt b)) of
          (Some t, Some u) \<Rightarrow> t < u \<and> u - t \<le> TWO_HOURS | _ \<Rightarrow> False)"

lemma validateRuntimeBinding_valid: "validateRuntimeBinding E v = Inr b \<Longrightarrow> valid_binding E b"
  by (auto simp: validateRuntimeBinding_def valid_binding_def split: option.splits if_splits)

lemma validateRuntimeBinding_json: "validateRuntimeBinding E (binding_json b)
    = (if valid_binding E b then Inr b else validateRuntimeBinding E (binding_json b))"
proof (cases "valid_binding E b")
  case True
  then obtain t u where "exact_instant E (bnd_boundAt b) = Some t"
    "exact_instant E (bnd_leaseExpiresAt b) = Some u" "t < u" "u - t \<le> TWO_HOURS"
    by (auto simp: valid_binding_def split: option.splits)
  with True show ?thesis
    by (simp add: validateRuntimeBinding_def binding_json_def binding_fields_def exactStringKeys_def RUNTIME_BINDING_KEYS_def
        valid_binding_def bindingInstant_def)
qed simp

lemma validateRuntimeBinding_roundtrip:
  "validateRuntimeBinding E (binding_json b) = Inr b \<longleftrightarrow> valid_binding E b"
  using validateRuntimeBinding_json validateRuntimeBinding_valid by metis

lemma validateRuntimeBinding_canonical:
  "validateRuntimeBinding E (binding_json b) = Inr c \<Longrightarrow> c = b \<and> valid_binding E b"
proof -
  assume a: "validateRuntimeBinding E (binding_json b) = Inr c"
  then have "valid_binding E b"
    by (auto simp: validateRuntimeBinding_def binding_json_def binding_fields_def exactStringKeys_def RUNTIME_BINDING_KEYS_def
        valid_binding_def split: if_splits)
  with a show ?thesis using validateRuntimeBinding_json [of E b] by simp
qed

lemma assertPinned_iff:
  "assertPinnedRuntime E x y = Inr () \<longleftrightarrow>
     (\<exists>b. validateRuntimeBinding E x = Inr b \<and> validateRuntimeBinding E y = Inr b)"
  by (auto simp: assertPinnedRuntime_def RuntimeBinding.equality split: sum.split)

subsection \<open>The snapshot map and the search\<close>

lemma snapshotMap_Inr:
  "snapshotMap E m vs = Inr m' \<Longrightarrow> distinct (map fst m) \<Longrightarrow>
   \<exists>ss. list_all2 (\<lambda>v s. validateSnapshot E v = Inr s) vs ss
     \<and> m' = m @ map (\<lambda>s. (snp_profileId s, s)) ss \<and> distinct (map fst m')"
proof (induction vs arbitrary: m)
  case (Cons v vs)
  from Cons.prems(1) obtain s where s: "validateSnapshot E v = Inr s"
    "snp_profileId s \<notin> set (map fst m)" "snapshotMap E (m @ [(snp_profileId s, s)]) vs = Inr m'"
    by (auto split: if_splits)
  obtain ss where "list_all2 (\<lambda>v s. validateSnapshot E v = Inr s) vs ss"
    "m' = (m @ [(snp_profileId s, s)]) @ map (\<lambda>s. (snp_profileId s, s)) ss" "distinct (map fst m')"
    using Cons.IH [OF s(3)] Cons.prems(2) s(2) by auto
  with s show ?case by (intro exI [of _ "s # ss"]) simp
qed simp

lemma find_ready_Some:
  "find_ready E now age xs = Inr (Some s) \<Longrightarrow>
   \<exists>pre post. xs = pre @ Some s # post \<and> isRuntimeReady E s now age = Inr True
     \<and> (\<forall>t. Some t \<in> set pre \<longrightarrow> isRuntimeReady E t now age = Inr False)"
proof (induction E now age xs rule: find_ready.induct)
  case (2 E now age ss)
  then obtain pre post where "ss = pre @ Some s # post" "isRuntimeReady E s now age = Inr True"
    "\<forall>t. Some t \<in> set pre \<longrightarrow> isRuntimeReady E t now age = Inr False" by auto
  then show ?case by (intro exI [of _ "None # pre"] exI [of _ post]) auto
next
  case (3 E now age t ss)
  from "3.prems" obtain ready where r: "isRuntimeReady E t now age = Inr ready" by auto
  show ?case
  proof (cases ready)
    case True
    with r "3.prems" show ?thesis by (intro exI [of _ "[]"] exI [of _ ss]) auto
  next
    case False
    with r "3.prems" have "find_ready E now age ss = Inr (Some s)" by simp
    then obtain pre post where "ss = pre @ Some s # post" "isRuntimeReady E s now age = Inr True"
      "\<forall>t. Some t \<in> set pre \<longrightarrow> isRuntimeReady E t now age = Inr False"
      using "3.IH" [OF False] by blast
    with r False show ?thesis by (intro exI [of _ "Some t # pre"] exI [of _ post]) auto
  qed
qed simp

lemma find_ready_None:
  "find_ready E now age xs = Inr None \<Longrightarrow> Some t \<in> set xs \<Longrightarrow> isRuntimeReady E t now age = Inr False"
  by (induction E now age xs rule: find_ready.induct) (auto split: if_splits)

lemma isRuntimeReady_True:
  assumes "isRuntimeReady E s now age = Inr True"
  shows "snp_status s = READY \<and> all_capabilities (snp_capabilities s)
    \<and> (\<exists>a n c. age = JNum a \<and> 1000 \<le> a \<and> a \<le> 300000
         \<and> exact_instant E now = Some n \<and> exact_instant E (snp_checkedAt s) = Some c \<and> c \<le> n \<and> n - c \<le> a)"
proof -
  have "safe_integer v = Some a \<longleftrightarrow> v = JNum a \<and> is_safe_integer a" for v a
    by (cases v) auto
  with assms show ?thesis by (auto simp: isRuntimeReady_def split: if_splits)
qed

lemma list_all2_sources:
  "list_all2 (\<lambda>v s. f v = Inr s) vs ss \<Longrightarrow> s \<in> set ss \<Longrightarrow> \<exists>v \<in> set vs. f v = Inr s"
  by (induction vs ss rule: list_all2_induct) auto

lemma list_all2_images:
  "list_all2 (\<lambda>v s. f v = Inr s) vs ss \<Longrightarrow> v \<in> set vs \<Longrightarrow> f v = Inr s \<Longrightarrow> s \<in> set ss"
  by (induction vs ss rule: list_all2_induct) auto

lemma map_of_pairs:
  "distinct (map fst (map (\<lambda>s. (f s, s)) ss)) \<Longrightarrow>
   map_of (map (\<lambda>s. (f s, s)) ss) p = Some s \<longleftrightarrow> s \<in> set ss \<and> f s = p"
  by (auto simp: map_of_eq_Some_iff)

subsection \<open>Properties\<close>

text \<open>
  C35: what a selected binding stands for. The bound profile is one of the given snapshots, validated,
  ready with all capabilities, checked no later than now and no longer ago than the allowed age (at
  most five minutes); the binding carries its digest and verifies, its lease is positive and at most
  two hours. A request for a profile gets that profile; \<open>auto\<close> gets \<open>core\<close> only when every snapshot of
  \<open>cloud\<close> is not ready.
\<close>

theorem select_runtime_sound:
  assumes "selectRuntime E requested (JArr snapshots) options = Inr b"
  shows "\<exists>req s v age n c. request_of requested = Some req
    \<and> v \<in> set snapshots \<and> validateSnapshot E v = Inr s
    \<and> age_or_default (obj_get options ''maxHealthAgeMs'') = JNum age \<and> age \<le> 300000
    \<and> exact_instant E (bnd_boundAt b) = Some n \<and> exact_instant E (snp_checkedAt s) = Some c
    \<and> c \<le> n \<and> n - c \<le> age
    \<and> snp_status s = READY \<and> all_capabilities (snp_capabilities s)
    \<and> bnd_profileId b = snp_profileId s \<and> bnd_generation b = snp_generation s
    \<and> runtimeCapabilityDigest E s = Inr (bnd_capabilityDigest b)
    \<and> bnd_boundAt b = text_field options ''now''
    \<and> bnd_leaseExpiresAt b = text_field options ''leaseExpiresAt''
    \<and> validateRuntimeBinding E (binding_json b) = Inr b
    \<and> (\<forall>p. req = PROFILE p \<longrightarrow> bnd_profileId b = p)
    \<and> (req = AUTO \<and> bnd_profileId b = CORE \<longrightarrow>
         (\<forall>v' \<in> set snapshots. \<forall>s'. validateSnapshot E v' = Inr s' \<and> snp_profileId s' = CLOUD \<longrightarrow>
            isRuntimeReady E s' (bnd_boundAt b) (JNum age) = Inr False))"
proof -
  define now where "now = text_field options ''now''"
  define age where "age = age_or_default (obj_get options ''maxHealthAgeMs'')"
  from assms obtain req byId s d where req: "request_of requested = Some req"
    and m: "snapshotMap E [] snapshots = Inr byId"
    and f: "find_ready E now age (map (map_of byId) (search_order req)) = Inr (Some s)"
    and dg: "runtimeCapabilityDigest E s = Inr d"
    and v: "validateRuntimeBinding E (binding_json
         \<lparr>bnd_profileId = snp_profileId s, bnd_generation = snp_generation s, bnd_capabilityDigest = d,
          bnd_resolution = resolution_for req,
          bnd_boundAt = now, bnd_leaseExpiresAt = text_field options ''leaseExpiresAt''\<rparr>) = Inr b"
    by (auto simp: selectRuntime_def Let_def age_def now_def split: if_splits)
  note b = conjunct1 [OF validateRuntimeBinding_canonical [OF v]]
  have valid: "valid_binding E b" by (rule validateRuntimeBinding_valid [OF v])
  obtain ss where ss: "list_all2 (\<lambda>v s. validateSnapshot E v = Inr s) snapshots ss"
    "byId = map (\<lambda>s. (snp_profileId s, s)) ss" "distinct (map fst byId)"
    using snapshotMap_Inr [OF m] by auto
  have look: "map_of byId p = Some t \<longleftrightarrow> t \<in> set ss \<and> snp_profileId t = p" for p t
    using map_of_pairs [of snp_profileId ss p t] ss(2,3) by blast
  obtain pre post where fr: "map (map_of byId) (search_order req) = pre @ Some s # post"
    "isRuntimeReady E s now age = Inr True"
    "\<forall>t. Some t \<in> set pre \<longrightarrow> isRuntimeReady E t now age = Inr False"
    using find_ready_Some [OF f] by blast
  have "Some s \<in> set (map (map_of byId) (search_order req))"
    unfolding fr(1) by simp
  then obtain q where q: "q \<in> set (search_order req)" "map_of byId q = Some s" by auto
  then have s: "s \<in> set ss" "snp_profileId s = q" using look by blast+
  then obtain u where u: "u \<in> set snapshots" "validateSnapshot E u = Inr s"
    using list_all2_sources [OF ss(1)] by blast
  obtain a n c where nc: "age = JNum a" "a \<le> 300000" "exact_instant E now = Some n"
    "exact_instant E (snp_checkedAt s) = Some c"
    "c \<le> n" "n - c \<le> a" "snp_status s = READY" "all_capabilities (snp_capabilities s)"
    using isRuntimeReady_True [OF fr(2)] by blast
  have fields: "bnd_profileId b = snp_profileId s" "bnd_generation b = snp_generation s"
    "bnd_capabilityDigest b = d" "bnd_boundAt b = now"
    "bnd_leaseExpiresAt b = text_field options ''leaseExpiresAt''"
    using b by simp_all
  have prof: "bnd_profileId b = q" using fields(1) s(2) by simp
  have cloud: "isRuntimeReady E s' now age = Inr False"
    if "req = AUTO" "q = CORE" "v' \<in> set snapshots" "validateSnapshot E v' = Inr s'" "snp_profileId s' = CLOUD"
    for v' s'
  proof -
    have "s' \<in> set ss"
      using list_all2_images [OF ss(1) that(3,4)] .
    then have l: "map_of byId CLOUD = Some s'" using look that(5) by blast
    have ne: "s' \<noteq> s" using that(2,5) s(2) by auto
    have "Some s' \<in> set pre"
      using fr(1) that(1) l ne by (cases pre) auto
    with fr(3) show ?thesis by blast
  qed
  have explicit: "\<forall>p. req = PROFILE p \<longrightarrow> bnd_profileId b = p" using q(1) prof by auto
  have auto_core: "req = AUTO \<and> bnd_profileId b = CORE \<longrightarrow>
         (\<forall>v' \<in> set snapshots. \<forall>s'. validateSnapshot E v' = Inr s' \<and> snp_profileId s' = CLOUD \<longrightarrow>
            isRuntimeReady E s' (bnd_boundAt b) (JNum a) = Inr False)"
    using cloud prof nc(1) fields(4) by blast
  have "validateRuntimeBinding E (binding_json b) = Inr b"
    using valid validateRuntimeBinding_roundtrip by blast
  with req u nc dg fields explicit auto_core show ?thesis
    unfolding now_def age_def by metis
qed

text \<open>An environment, a snapshot and options at which the selection succeeds.\<close>

definition sample_options :: json where
  "sample_options = JObj [(''now'', JStr ''2026-07-01T00:01:00.000Z''),
     (''leaseExpiresAt'', JStr ''2026-07-01T02:00:00.000Z'')]"

lemma demo_instants:
  "exact_instant demo_env ''2026-07-01T00:00:00.000Z'' = Some 1782864000000"
  "exact_instant demo_env ''2026-07-01T00:01:00.000Z'' = Some 1782864060000"
  "exact_instant demo_env ''2026-07-01T00:30:00.000Z'' = Some 1782865800000"
  "exact_instant demo_env ''2026-07-01T00:31:00.000Z'' = Some 1782865860000"
  "exact_instant demo_env ''2026-07-01T02:00:00.000Z'' = Some 1782871200000"
  by code_simp+

definition sample_typed :: "RuntimeProfileId \<Rightarrow> RuntimeHealthStatus \<Rightarrow> RuntimeProfileSnapshot" where
  "sample_typed p st = \<lparr>snp_profileId = p, snp_generation = ''gen-1'', snp_status = st,
     snp_checkedAt = ''2026-07-01T00:00:00.000Z'',
     snp_capabilities = \<lparr>cap_mcpRead = True, cap_mcpGovernedWrite = True, cap_agentContextKit = True,
       cap_dataHubSkills = True, cap_analyticsAgent = True\<rparr>\<rparr>"

lemma status_of_name [simp]: "status_of (status_name st) = Some st"
  by (cases st) (simp_all add: status_of_def)

lemma sample_valid [simp]: "validateSnapshot demo_env (snapshot_json (sample_typed p st)) = Inr (sample_typed p st)"
  by (simp add: validateSnapshot_def snapshot_json_def sample_typed_def exactStringKeys_def
      capabilities_json_def CAPABILITY_KEYS_def exactCapabilities_def capability_def rt_instant_def
      demo_instants is_generation_def is_alnum_def)

lemma sample_profiles [simp]:
  "snp_profileId (sample_typed p st) = p" "snp_generation (sample_typed p st) = ''gen-1''"
  "snp_status (sample_typed p st) = st" "snp_checkedAt (sample_typed p st) = ''2026-07-01T00:00:00.000Z''"
  "all_capabilities (snp_capabilities (sample_typed p st))"
  by (simp_all add: sample_typed_def all_capabilities_def)

lemma sample_ready [simp]:
  "isRuntimeReady demo_env (sample_typed p st) ''2026-07-01T00:01:00.000Z'' (JNum DEFAULT_MAX_HEALTH_AGE_MS)
     = Inr (st = READY)"
  by (simp add: isRuntimeReady_def rt_instant_def demo_instants is_safe_integer_def MAX_SAFE_INTEGER_def
      DEFAULT_MAX_HEALTH_AGE_MS_def)

lemma sample_digest [simp]: "runtimeCapabilityDigest demo_env (sample_typed p st) = Inr demo_digest"
  by (simp add: runtimeCapabilityDigest_def demo_digest_def)

definition sample_snapshots :: "json list" where
  "sample_snapshots = [snapshot_json (sample_typed CORE READY), snapshot_json (sample_typed CLOUD STARTING_UP)]"

definition sample_binding :: RuntimeBinding where
  "sample_binding = \<lparr>bnd_profileId = CORE, bnd_generation = ''gen-1'', bnd_capabilityDigest = demo_digest,
     bnd_resolution = BY_AUTO, bnd_boundAt = ''2026-07-01T00:01:00.000Z'',
     bnd_leaseExpiresAt = ''2026-07-01T02:00:00.000Z''\<rparr>"

lemma sample_binding_valid: "validateRuntimeBinding demo_env (binding_json sample_binding) = Inr sample_binding"
  unfolding validateRuntimeBinding_roundtrip
  by (simp add: valid_binding_def sample_binding_def demo_instants TWO_HOURS_def is_generation_def is_alnum_def)

lemma sample_selection: "selectRuntime demo_env ''auto'' (JArr sample_snapshots) sample_options = Inr sample_binding"
proof -
  have "request_of ''auto'' = Some AUTO" using request_of_name [of AUTO] by simp
  then show ?thesis
    using sample_binding_valid
    by (simp add: selectRuntime_def sample_options_def option_keys_exact_def rt_instant_def demo_instants
        TWO_HOURS_def sample_snapshots_def text_field_def Let_def sample_binding_def)
qed

theorem select_runtime_sound_witness:
  "\<exists>v s. v \<in> set sample_snapshots \<and> validateSnapshot demo_env v = Inr s \<and> snp_status s = READY
     \<and> bnd_generation sample_binding = snp_generation s"
  using select_runtime_sound [OF sample_selection] by blast

text \<open>
  C36: the binding schema is exact. \<open>validateRuntimeBinding\<close> returns a binding exactly when the value is
  that binding's own fields, in some order and nothing else, and the binding is well formed (allowlisted
  generation, \<open>sha256:\<close> digest, a positive lease of at most two hours); it changes no field.
\<close>

theorem binding_roundtrip:
  "validateRuntimeBinding E v = Inr b \<longleftrightarrow>
     valid_binding E b \<and> (\<exists>kvs fs. v = JObj kvs \<and> binding_json b = JObj fs \<and> mset kvs = mset fs)"
proof
  assume a: "validateRuntimeBinding E v = Inr b"
  then obtain kvs where v: "v = JObj kvs" "exactStringKeys kvs RUNTIME_BINDING_KEYS"
    by (cases v) (auto simp: validateRuntimeBinding_def split: if_splits)
  have "mset kvs = mset (binding_fields b)"
  proof (rule exact_fields)
    show "exactStringKeys kvs (map fst (binding_fields b))"
      using v(2) by (simp add: binding_keys)
    show "\<forall>(k, w) \<in> set (binding_fields b). map_of kvs k = Some w"
      using a v(1) by (auto simp: validateRuntimeBinding_def binding_fields_def bind_eq_Some_conv
          profile_of_Some resolution_of_Some split: option.splits if_splits)
  qed simp
  with validateRuntimeBinding_valid [OF a] v(1)
  show "valid_binding E b \<and> (\<exists>kvs fs. v = JObj kvs \<and> binding_json b = JObj fs \<and> mset kvs = mset fs)"
    by (simp add: binding_json_def)
next
  assume "valid_binding E b \<and> (\<exists>kvs fs. v = JObj kvs \<and> binding_json b = JObj fs \<and> mset kvs = mset fs)"
  then obtain kvs where k: "valid_binding E b" "v = JObj kvs" "mset kvs = mset (binding_fields b)"
    by (auto simp: binding_json_def)
  have "validateRuntimeBinding E v = validateRuntimeBinding E (binding_json b)"
    unfolding k(2) binding_json_def validateRuntimeBinding_def
    by (simp only: permuted_fields [OF k(3) distinct_binding_fields] obj_get.simps own_fields.simps
        option.case)
  with k(1) show "validateRuntimeBinding E v = Inr b"
    using validateRuntimeBinding_roundtrip by simp
qed

text \<open>
  A capability digest pins what it was computed from. Two snapshots with the same digest, whose
  texts are not a collision of the hash, have the same profile, generation and capabilities.
\<close>

theorem capability_digest_binds:
  assumes "runtimeCapabilityDigest E s = Inr d" "runtimeCapabilityDigest E t = Inr d"
    and "sha256_hex E (stringify (capability_payload s)) = sha256_hex E (stringify (capability_payload t)) \<longrightarrow>
         stringify (capability_payload s) = stringify (capability_payload t)"
  shows "snp_profileId s = snp_profileId t \<and> snp_generation s = snp_generation t
    \<and> snp_capabilities s = snp_capabilities t"
proof -
  have "stringify (capability_payload s) = stringify (capability_payload t)"
    using assms unfolding runtimeCapabilityDigest_def by auto
  then have "capability_payload s = capability_payload t" by (rule stringify_inj [THEN iffD1])
  then show ?thesis
    by (simp add: capability_payload_def capabilities_json_def RuntimeCapabilities.equality)
qed

theorem capability_digest_binds_witness:
  "snp_status (sample_typed CORE READY) \<noteq> snp_status (sample_typed CORE UNAVAILABLE)
   \<and> snp_capabilities (sample_typed CORE READY) = snp_capabilities (sample_typed CORE UNAVAILABLE)"
  using capability_digest_binds [of demo_env "sample_typed CORE READY" _ "sample_typed CORE UNAVAILABLE", OF sample_digest sample_digest]
  by (simp add: sample_typed_def capability_payload_def)

end
