(* ===== verification/RuntimeSession.thy ===== *)
theory RuntimeSession
  imports RuntimeProfile "HOL-Library.Word"
begin

section \<open>Runtime sessions: \<open>src/datahub/runtime-session.ts\<close>\<close>

text \<open>
  A session leases a bound runtime: thirty minutes of inactivity, two hours in all. Its state machine is
  \<open>transitionRuntimeSession\<close>, which revalidates the session it is given, lets a due lease expire and then
  handles the event; every change goes through \<open>evolve\<close>, which counts a revision and validates the result.
  Sessions and events arrive as unknown values, modelled as JSON values.
\<close>

definition RUNTIME_IDLE_LEASE_MS :: int where
  "RUNTIME_IDLE_LEASE_MS = 30 * 60000"

definition RUNTIME_HARD_LEASE_MS :: int where
  "RUNTIME_HARD_LEASE_MS = 2 * 60 * 60000"

datatype RuntimeSessionState = STARTING | ACTIVE | STOPPING | STOPPED | EXPIRED | FAILED

datatype RuntimeSessionFailureCode = PROVISIONING_FAILED | HEALTH_CHECK_FAILED
  | CONTROL_PLANE_ERROR | RUNTIME_DRIFT

datatype RuntimeSessionEndReason = USER_REQUEST | IDLE_TIMEOUT | HARD_TIMEOUT | CONTROL_FAILURE

definition STATES :: "(string \<times> RuntimeSessionState) list" where
  "STATES = [(''STARTING'', STARTING), (''ACTIVE'', ACTIVE), (''STOPPING'', STOPPING),
     (''STOPPED'', STOPPED), (''EXPIRED'', EXPIRED), (''FAILED'', FAILED)]"

definition FAILURES :: "(string \<times> RuntimeSessionFailureCode) list" where
  "FAILURES = [(''PROVISIONING_FAILED'', PROVISIONING_FAILED), (''HEALTH_CHECK_FAILED'', HEALTH_CHECK_FAILED),
     (''CONTROL_PLANE_ERROR'', CONTROL_PLANE_ERROR), (''RUNTIME_DRIFT'', RUNTIME_DRIFT)]"

definition END_REASONS :: "(string \<times> RuntimeSessionEndReason) list" where
  "END_REASONS = [(''USER_REQUEST'', USER_REQUEST), (''IDLE_TIMEOUT'', IDLE_TIMEOUT),
     (''HARD_TIMEOUT'', HARD_TIMEOUT), (''CONTROL_FAILURE'', CONTROL_FAILURE)]"

fun state_name :: "RuntimeSessionState \<Rightarrow> string" where
  "state_name STARTING = ''STARTING''"
| "state_name ACTIVE = ''ACTIVE''"
| "state_name STOPPING = ''STOPPING''"
| "state_name STOPPED = ''STOPPED''"
| "state_name EXPIRED = ''EXPIRED''"
| "state_name FAILED = ''FAILED''"

fun failure_name :: "RuntimeSessionFailureCode \<Rightarrow> string" where
  "failure_name PROVISIONING_FAILED = ''PROVISIONING_FAILED''"
| "failure_name HEALTH_CHECK_FAILED = ''HEALTH_CHECK_FAILED''"
| "failure_name CONTROL_PLANE_ERROR = ''CONTROL_PLANE_ERROR''"
| "failure_name RUNTIME_DRIFT = ''RUNTIME_DRIFT''"

fun end_reason_name :: "RuntimeSessionEndReason \<Rightarrow> string" where
  "end_reason_name USER_REQUEST = ''USER_REQUEST''"
| "end_reason_name IDLE_TIMEOUT = ''IDLE_TIMEOUT''"
| "end_reason_name HARD_TIMEOUT = ''HARD_TIMEOUT''"
| "end_reason_name CONTROL_FAILURE = ''CONTROL_FAILURE''"

record RuntimeSession =
  ses_sessionId :: string
  ses_requestedProfile :: RuntimeRequest
  ses_binding :: RuntimeBinding
  ses_state :: RuntimeSessionState
  ses_createdAt :: string
  ses_updatedAt :: string
  ses_lastActivityAt :: string
  ses_idleExpiresAt :: string
  ses_hardExpiresAt :: string
  ses_revision :: int
  ses_endReason :: "RuntimeSessionEndReason option"
  ses_failureCode :: "RuntimeSessionFailureCode option"

datatype PublicRuntimeSessionState = PUB_STARTING | PUB_READY | PUB_STOPPING | PUB_STOPPED
  | PUB_EXPIRED | PUB_UNAVAILABLE

record PublicRuntimeSessionStatus =
  pub_sessionId :: string
  pub_requestedProfile :: RuntimeRequest
  pub_resolvedProfile :: RuntimeProfileId
  pub_state :: PublicRuntimeSessionState
  pub_createdAt :: string
  pub_updatedAt :: string
  pub_idleExpiresAt :: string
  pub_hardExpiresAt :: string
  pub_remainingSeconds :: int
  pub_canRun :: bool
  pub_canExtend :: bool

datatype RuntimeSessionErrorCode = INVALID_SESSION_ID | INVALID_RUNTIME_SESSION
  | INVALID_SESSION_EVENT | INVALID_TRANSITION | NON_MONOTONIC_TIME

text \<open>What a session operation throws: its own error, or the one of the pinning check.\<close>

datatype session_failure = SessionError RuntimeSessionErrorCode string
  | SelectionFailure RuntimeSelectionError

subsection \<open>Identifiers\<close>

definition is_url_char :: "char \<Rightarrow> bool" where
  "is_url_char c \<longleftrightarrow> is_alnum c \<or> c = CHR ''_'' \<or> c = CHR ''-''"

text \<open>\<open>/^rs_[A-Za-z0-9_-]{43}$/u\<close>\<close>

definition is_session_id :: "string \<Rightarrow> bool" where
  "is_session_id s \<longleftrightarrow> take 3 s = ''rs_'' \<and> length s = 46 \<and> list_all is_url_char (drop 3 s)"

definition parseRuntimeSessionId :: "json option \<Rightarrow> session_failure + string" where
  "parseRuntimeSessionId v = (case str_of v of
      None \<Rightarrow> Inl (SessionError INVALID_SESSION_ID ''runtime session id is invalid'')
    | Some s \<Rightarrow> if is_session_id s then Inr s
        else Inl (SessionError INVALID_SESSION_ID ''runtime session id is invalid''))"

text \<open>\<open>Buffer.toString("base64url")\<close>: six bits a character, no padding.\<close>

definition b64_char :: "nat \<Rightarrow> char" where
  "b64_char n = (if n < 26 then char_of (65 + n) else if n < 52 then char_of (71 + n)
     else if n < 62 then char_of (n - 4) else if n = 62 then CHR ''-'' else CHR ''_'')"

fun base64url :: "8 word list \<Rightarrow> string" where
  "base64url (a # b # c # bs) =
     b64_char (unat a div 4) # b64_char (unat a mod 4 * 16 + unat b div 16)
     # b64_char (unat b mod 16 * 4 + unat c div 64) # b64_char (unat c mod 64) # base64url bs"
| "base64url [a, b] =
     [b64_char (unat a div 4), b64_char (unat a mod 4 * 16 + unat b div 16), b64_char (unat b mod 16 * 4)]"
| "base64url [a] = [b64_char (unat a div 4), b64_char (unat a mod 4 * 16)]"
| "base64url [] = []"

definition generateRuntimeSessionId :: "8 word list \<Rightarrow> session_failure + string" where
  "generateRuntimeSessionId entropy =
     (if length entropy \<noteq> 32
      then Inl (SessionError INVALID_SESSION_ID ''session id requires exactly 256 bits'')
      else parseRuntimeSessionId (Some (JStr (''rs_'' @ base64url entropy))))"

subsection \<open>Validation\<close>

abbreviation bad_session :: "string \<Rightarrow> session_failure" where
  "bad_session \<equiv> SessionError INVALID_RUNTIME_SESSION"

definition ses_instant :: "js_env \<Rightarrow> json option \<Rightarrow> string \<Rightarrow> session_failure + int" where
  "ses_instant E v label = (case str_of v of
      None \<Rightarrow> Inl (bad_session (label @ '' is invalid''))
    | Some s \<Rightarrow> (case exact_instant E s of
        None \<Rightarrow> Inl (bad_session (label @ '' must be an exact ISO-8601 UTC instant''))
      | Some t \<Rightarrow> Inr t))"

definition parseRequestedProfile :: "json option \<Rightarrow> session_failure + RuntimeRequest" where
  "parseRequestedProfile v = (case Option.bind (str_of v) request_of of
      None \<Rightarrow> Inl (bad_session ''requested profile is invalid'')
    | Some r \<Rightarrow> Inr r)"

definition SESSION_KEYS :: "string list" where
  "SESSION_KEYS = [''schemaVersion'', ''sessionId'', ''requestedProfile'', ''binding'', ''state'',
     ''createdAt'', ''updatedAt'', ''lastActivityAt'', ''idleExpiresAt'', ''hardExpiresAt'',
     ''revision'', ''endReason'', ''failureCode'']"

definition request_unbound :: "RuntimeRequest \<Rightarrow> RuntimeBinding \<Rightarrow> bool" where
  "request_unbound requested b \<longleftrightarrow>
     requested = AUTO \<and> bnd_resolution b \<noteq> BY_AUTO
     \<or> requested \<noteq> AUTO \<and> (bnd_resolution b \<noteq> BY_REQUEST \<or> PROFILE (bnd_profileId b) \<noteq> requested)"

definition chronology_invalid :: "int \<Rightarrow> int \<Rightarrow> int \<Rightarrow> int \<Rightarrow> int \<Rightarrow> bool" where
  "chronology_invalid created updated lastActivity idle hard \<longleftrightarrow>
     updated < created \<or> lastActivity < created \<or> lastActivity > updated \<or> idle \<le> lastActivity
     \<or> idle > hard \<or> hard \<le> created \<or> hard - created > RUNTIME_HARD_LEASE_MS"

text \<open>A field that is \<open>null\<close> or one of the names of a table; the outer \<open>None\<close> is an invalid value.\<close>

fun nullable :: "(string \<times> 'a) list \<Rightarrow> json option \<Rightarrow> 'a option option" where
  "nullable table (Some JNull) = Some None"
| "nullable table (Some (JStr s)) = map_option Some (map_of table s)"
| "nullable table _ = None"

definition terminal_error ::
    "RuntimeSessionState \<Rightarrow> RuntimeSessionEndReason option \<Rightarrow> RuntimeSessionFailureCode option \<Rightarrow> string option" where
  "terminal_error st endReason failureCode =
     (if (st = STARTING \<or> st = ACTIVE) \<and> (endReason \<noteq> None \<or> failureCode \<noteq> None)
      then Some ''live session contains terminal metadata''
      else if st = EXPIRED \<and> endReason \<noteq> Some IDLE_TIMEOUT \<and> endReason \<noteq> Some HARD_TIMEOUT
      then Some ''expired session has no timeout''
      else if st = FAILED \<and> (endReason \<noteq> Some CONTROL_FAILURE \<or> failureCode = None)
      then Some ''failed session has no safe code''
      else if (if endReason = Some CONTROL_FAILURE then failureCode = None else failureCode \<noteq> None)
      then Some ''failure code and reason are inconsistent''
      else None)"

fun safe_revision :: "json option \<Rightarrow> int option" where
  "safe_revision (Some (JNum n)) = (if is_safe_integer n \<and> 0 \<le> n then Some n else None)"
| "safe_revision _ = None"

definition validateRuntimeSession :: "js_env \<Rightarrow> json \<Rightarrow> session_failure + RuntimeSession" where
  "validateRuntimeSession E v =
     bind_result (require (bad_session ''runtime session must be an object'') (own_fields v)) (\<lambda>kvs.
     if \<not> exactStringKeys kvs SESSION_KEYS
     then Inl (bad_session ''runtime session must use the exact schema'')
     else if str_of (obj_get v ''schemaVersion'') \<noteq> Some ''archon.runtime-session/v1''
     then Inl (bad_session ''unsupported session schema'')
     else bind_result (parseRuntimeSessionId (obj_get v ''sessionId'')) (\<lambda>id.
     bind_result (parseRequestedProfile (obj_get v ''requestedProfile'')) (\<lambda>requested.
     bind_result (rethrow (bad_session ''runtime binding is invalid'')
       (validateRuntimeBinding E (or_else (obj_get v ''binding'') JNull))) (\<lambda>binding.
     if request_unbound requested binding
     then Inl (bad_session ''request is not bound to its resolved profile'')
     else bind_result (require (bad_session ''session state is invalid'')
       (Option.bind (str_of (obj_get v ''state'')) (map_of STATES))) (\<lambda>st.
     bind_result (ses_instant E (obj_get v ''createdAt'') ''createdAt'') (\<lambda>created.
     bind_result (ses_instant E (obj_get v ''updatedAt'') ''updatedAt'') (\<lambda>updated.
     bind_result (ses_instant E (obj_get v ''lastActivityAt'') ''lastActivityAt'') (\<lambda>lastActivity.
     bind_result (ses_instant E (obj_get v ''idleExpiresAt'') ''idleExpiresAt'') (\<lambda>idle.
     bind_result (ses_instant E (obj_get v ''hardExpiresAt'') ''hardExpiresAt'') (\<lambda>hard.
     if text_field v ''createdAt'' \<noteq> bnd_boundAt binding
        \<or> text_field v ''hardExpiresAt'' \<noteq> bnd_leaseExpiresAt binding
        \<or> chronology_invalid created updated lastActivity idle hard
     then Inl (bad_session ''session lease chronology is invalid'')
     else bind_result (require (bad_session ''session revision is invalid'')
       (safe_revision (obj_get v ''revision''))) (\<lambda>revision.
     bind_result (require (bad_session ''session terminal metadata is invalid'')
       (nullable END_REASONS (obj_get v ''endReason''))) (\<lambda>endReason.
     bind_result (require (bad_session ''session terminal metadata is invalid'')
       (nullable FAILURES (obj_get v ''failureCode''))) (\<lambda>failureCode.
     bind_result (checked (map_option bad_session (terminal_error st endReason failureCode))) (\<lambda>_.
     Inr \<lparr>ses_sessionId = id, ses_requestedProfile = requested, ses_binding = binding,
          ses_state = st, ses_createdAt = text_field v ''createdAt'',
          ses_updatedAt = text_field v ''updatedAt'',
          ses_lastActivityAt = text_field v ''lastActivityAt'',
          ses_idleExpiresAt = text_field v ''idleExpiresAt'',
          ses_hardExpiresAt = text_field v ''hardExpiresAt'', ses_revision = revision,
          ses_endReason = endReason, ses_failureCode = failureCode\<rparr>))))))))))))))"

text \<open>A typed session as the object it is; \<open>null\<close> stands for an absent code.\<close>

fun json_or_null :: "('a \<Rightarrow> string) \<Rightarrow> 'a option \<Rightarrow> json" where
  "json_or_null f None = JNull"
| "json_or_null f (Some a) = JStr (f a)"

definition session_fields :: "RuntimeSession \<Rightarrow> (string \<times> json) list" where
  "session_fields s =
     [(''schemaVersion'', JStr ''archon.runtime-session/v1''),
      (''sessionId'', JStr (ses_sessionId s)),
      (''requestedProfile'', JStr (request_name (ses_requestedProfile s))),
      (''binding'', binding_json (ses_binding s)), (''state'', JStr (state_name (ses_state s))),
      (''createdAt'', JStr (ses_createdAt s)), (''updatedAt'', JStr (ses_updatedAt s)),
      (''lastActivityAt'', JStr (ses_lastActivityAt s)), (''idleExpiresAt'', JStr (ses_idleExpiresAt s)),
      (''hardExpiresAt'', JStr (ses_hardExpiresAt s)), (''revision'', JNum (ses_revision s)),
      (''endReason'', json_or_null end_reason_name (ses_endReason s)),
      (''failureCode'', json_or_null failure_name (ses_failureCode s))]"

definition session_json :: "RuntimeSession \<Rightarrow> json" where
  "session_json s = JObj (session_fields s)"

subsection \<open>Operations\<close>

text \<open>\<open>validateRuntimeBinding\<close> called outside a \<open>try\<close>: its error is the caller's.\<close>

fun lift_selection :: "RuntimeSelectionError + 'a \<Rightarrow> session_failure + 'a" where
  "lift_selection (Inl e) = Inl (SelectionFailure e)"
| "lift_selection (Inr a) = Inr a"

definition createRuntimeSession ::
    "js_env \<Rightarrow> json option \<Rightarrow> json option \<Rightarrow> json \<Rightarrow> session_failure + RuntimeSession" where
  "createRuntimeSession E sessionId requestedProfile inputBinding =
     bind_result (lift_selection (validateRuntimeBinding E inputBinding)) (\<lambda>binding.
     bind_result (ses_instant E (Some (JStr (bnd_boundAt binding))) ''boundAt'') (\<lambda>created.
     bind_result (ses_instant E (Some (JStr (bnd_leaseExpiresAt binding))) ''leaseExpiresAt'') (\<lambda>hard.
     bind_result (parseRuntimeSessionId sessionId) (\<lambda>id.
     bind_result (parseRequestedProfile requestedProfile) (\<lambda>requested.
     validateRuntimeSession E (session_json
       \<lparr>ses_sessionId = id, ses_requestedProfile = requested, ses_binding = binding, ses_state = STARTING,
        ses_createdAt = bnd_boundAt binding, ses_updatedAt = bnd_boundAt binding,
        ses_lastActivityAt = bnd_boundAt binding,
        ses_idleExpiresAt = toISO (min (created + RUNTIME_IDLE_LEASE_MS) hard),
        ses_hardExpiresAt = bnd_leaseExpiresAt binding, ses_revision = 0, ses_endReason = None,
        ses_failureCode = None\<rparr>))))))"

definition nextRevision :: "RuntimeSession \<Rightarrow> session_failure + int" where
  "nextRevision s = (if ses_revision s \<ge> MAX_SAFE_INTEGER
     then Inl (bad_session ''session revision is exhausted'') else Inr (ses_revision s + 1))"

text \<open>\<open>evolve(session, change)\<close>, the change as an update of the record.\<close>

definition evolve ::
    "js_env \<Rightarrow> RuntimeSession \<Rightarrow> (RuntimeSession \<Rightarrow> RuntimeSession) \<Rightarrow> session_failure + RuntimeSession" where
  "evolve E s change = bind_result (nextRevision s) (\<lambda>n.
     validateRuntimeSession E (session_json ((change s)\<lparr>ses_revision := n\<rparr>)))"

definition live :: "RuntimeSession \<Rightarrow> bool" where
  "live s \<longleftrightarrow> ses_state s = STARTING \<or> ses_state s = ACTIVE"

definition expired_by :: "string \<Rightarrow> RuntimeSessionEndReason \<Rightarrow> RuntimeSession \<Rightarrow> RuntimeSession" where
  "expired_by at reason s = s\<lparr>ses_state := EXPIRED, ses_updatedAt := at, ses_endReason := Some reason\<rparr>"

definition expireIfDue :: "js_env \<Rightarrow> RuntimeSession \<Rightarrow> string \<Rightarrow> session_failure + RuntimeSession" where
  "expireIfDue E s at =
     (if \<not> live s then Inr s
      else bind_result (ses_instant E (Some (JStr at)) ''event.at'') (\<lambda>atMs.
        bind_result (ses_instant E (Some (JStr (ses_hardExpiresAt s))) ''hardExpiresAt'') (\<lambda>hardMs.
        bind_result (ses_instant E (Some (JStr (ses_idleExpiresAt s))) ''idleExpiresAt'') (\<lambda>idleMs.
          if atMs \<ge> hardMs then evolve E s (expired_by at HARD_TIMEOUT)
          else if atMs \<ge> idleMs then evolve E s (expired_by at IDLE_TIMEOUT)
          else Inr s))))"

definition pinned :: "js_env \<Rightarrow> RuntimeSession \<Rightarrow> json \<Rightarrow> session_failure + unit" where
  "pinned E s ev = lift_selection (assertPinnedRuntime E (binding_json (ses_binding s))
     (or_else (obj_get ev ''binding'') JNull))"

definition renewed :: "string \<Rightarrow> int \<Rightarrow> int \<Rightarrow> RuntimeSession \<Rightarrow> RuntimeSession" where
  "renewed at atMs hard s = s\<lparr>ses_updatedAt := at, ses_lastActivityAt := at,
     ses_idleExpiresAt := toISO (min (atMs + RUNTIME_IDLE_LEASE_MS) hard)\<rparr>"

text \<open>One definition per event, each from the session after \<open>expireIfDue\<close>.\<close>

definition on_ready :: "js_env \<Rightarrow> json \<Rightarrow> string \<Rightarrow> int \<Rightarrow> RuntimeSession \<Rightarrow> session_failure + RuntimeSession" where
  "on_ready E ev at atMs s =
     (if ses_state s = STARTING
      then bind_result (pinned E s ev) (\<lambda>_.
        bind_result (ses_instant E (Some (JStr (ses_hardExpiresAt s))) ''hardExpiresAt'') (\<lambda>hard.
        evolve E s (\<lambda>s. (renewed at atMs hard s)\<lparr>ses_state := ACTIVE\<rparr>)))
      else if ses_state s = ACTIVE then bind_result (pinned E s ev) (\<lambda>_. Inr s)
      else Inr s)"

definition on_activity :: "js_env \<Rightarrow> json \<Rightarrow> string \<Rightarrow> int \<Rightarrow> RuntimeSession \<Rightarrow> session_failure + RuntimeSession" where
  "on_activity E ev at atMs s =
     (if ses_state s \<noteq> ACTIVE
      then if ses_state s \<in> {EXPIRED, STOPPING, STOPPED, FAILED} then Inr s
        else Inl (SessionError INVALID_TRANSITION ''activity requires an active session'')
      else bind_result (pinned E s ev) (\<lambda>_.
        bind_result (ses_instant E (Some (JStr (ses_hardExpiresAt s))) ''hardExpiresAt'') (\<lambda>hard.
        evolve E s (renewed at atMs hard))))"

definition on_stop_requested :: "js_env \<Rightarrow> string \<Rightarrow> RuntimeSession \<Rightarrow> session_failure + RuntimeSession" where
  "on_stop_requested E at s =
     (if ses_state s = STOPPING \<or> ses_state s = STOPPED then Inr s
      else evolve E s (\<lambda>s. s\<lparr>ses_state := STOPPING, ses_updatedAt := at,
        ses_endReason := Some (or_else (ses_endReason s) USER_REQUEST)\<rparr>))"

definition on_stop_completed :: "js_env \<Rightarrow> string \<Rightarrow> RuntimeSession \<Rightarrow> session_failure + RuntimeSession" where
  "on_stop_completed E at s =
     (if ses_state s = STOPPED then Inr s
      else if ses_state s \<noteq> STOPPING
      then Inl (SessionError INVALID_TRANSITION ''stop completion requires STOPPING'')
      else evolve E s (\<lambda>s. s\<lparr>ses_state := STOPPED, ses_updatedAt := at\<rparr>))"

definition on_fail :: "js_env \<Rightarrow> json \<Rightarrow> string \<Rightarrow> RuntimeSession \<Rightarrow> session_failure + RuntimeSession" where
  "on_fail E ev at s =
     (case Option.bind (str_of (obj_get ev ''failureCode'')) (map_of FAILURES) of
        None \<Rightarrow> Inl (SessionError INVALID_SESSION_EVENT ''failure code is not allowlisted'')
      | Some code \<Rightarrow>
          if ses_state s \<in> {EXPIRED, STOPPED, FAILED} then Inr s
          else evolve E s (\<lambda>s. s\<lparr>ses_state := FAILED, ses_updatedAt := at,
            ses_endReason := Some CONTROL_FAILURE, ses_failureCode := Some code\<rparr>))"

definition handle :: "js_env \<Rightarrow> json \<Rightarrow> string \<Rightarrow> int \<Rightarrow> RuntimeSession \<Rightarrow> session_failure + RuntimeSession" where
  "handle E ev at atMs s =
     (let ty = or_else (str_of (obj_get ev ''type'')) [] in
      if ty = ''TICK'' then Inr s
      else if ty = ''RUNTIME_READY'' then on_ready E ev at atMs s
      else if ty = ''ACTIVITY'' then on_activity E ev at atMs s
      else if ty = ''STOP_REQUESTED'' then on_stop_requested E at s
      else if ty = ''STOP_COMPLETED'' then on_stop_completed E at s
      else if ty = ''FAIL'' then on_fail E ev at s
      else Inl (SessionError INVALID_SESSION_EVENT ''unsupported session event''))"

definition transitionRuntimeSession :: "js_env \<Rightarrow> json \<Rightarrow> json \<Rightarrow> session_failure + RuntimeSession" where
  "transitionRuntimeSession E v ev =
     bind_result (validateRuntimeSession E v) (\<lambda>original.
     if own_fields ev = None
     then Inl (SessionError INVALID_SESSION_EVENT ''session event must be an object'')
     else bind_result (ses_instant E (obj_get ev ''at'') ''event.at'') (\<lambda>atMs.
     bind_result (ses_instant E (Some (JStr (ses_updatedAt original))) ''updatedAt'') (\<lambda>updatedMs.
     if atMs < updatedMs
     then Inl (SessionError NON_MONOTONIC_TIME ''session event time moved backwards'')
     else bind_result (expireIfDue E original (text_field ev ''at'')) (\<lambda>s.
       handle E ev (text_field ev ''at'') atMs s))))"

fun public_state :: "RuntimeSessionState \<Rightarrow> PublicRuntimeSessionState" where
  "public_state ACTIVE = PUB_READY"
| "public_state FAILED = PUB_UNAVAILABLE"
| "public_state STARTING = PUB_STARTING"
| "public_state STOPPING = PUB_STOPPING"
| "public_state STOPPED = PUB_STOPPED"
| "public_state EXPIRED = PUB_EXPIRED"

definition tick :: "string \<Rightarrow> json" where
  "tick now = JObj [(''type'', JStr ''TICK''), (''at'', JStr now)]"

definition ceil_div :: "int \<Rightarrow> int \<Rightarrow> int" where
  "ceil_div a b = - ((- a) div b)"

definition publicRuntimeSessionStatus ::
    "js_env \<Rightarrow> json \<Rightarrow> string \<Rightarrow> session_failure + PublicRuntimeSessionStatus" where
  "publicRuntimeSessionStatus E v now =
     bind_result (transitionRuntimeSession E v (tick now)) (\<lambda>s.
     bind_result (ses_instant E (Some (JStr (ses_idleExpiresAt s))) ''idleExpiresAt'') (\<lambda>idle.
     bind_result (ses_instant E (Some (JStr (ses_hardExpiresAt s))) ''hardExpiresAt'') (\<lambda>hard.
     bind_result (ses_instant E (Some (JStr now)) ''now'') (\<lambda>nowMs.
     let deadline = min idle hard in
     Inr \<lparr>pub_sessionId = ses_sessionId s, pub_requestedProfile = ses_requestedProfile s,
          pub_resolvedProfile = bnd_profileId (ses_binding s), pub_state = public_state (ses_state s),
          pub_createdAt = ses_createdAt s, pub_updatedAt = ses_updatedAt s,
          pub_idleExpiresAt = ses_idleExpiresAt s, pub_hardExpiresAt = ses_hardExpiresAt s,
          pub_remainingSeconds = (if live s then max 0 (ceil_div (deadline - nowMs) 1000) else 0),
          pub_canRun = (ses_state s = ACTIVE),
          pub_canExtend = (ses_state s = ACTIVE \<and> ses_idleExpiresAt s \<noteq> ses_hardExpiresAt s)\<rparr>))))"

subsection \<open>Valid sessions\<close>

text \<open>The time an instant stands for, and whether it stands for one.\<close>

definition has_instant :: "js_env \<Rightarrow> string \<Rightarrow> bool" where
  "has_instant E s \<longleftrightarrow> exact_instant E s \<noteq> None"

definition moment :: "js_env \<Rightarrow> string \<Rightarrow> int" where
  "moment E s = or_else (exact_instant E s) 0"

lemma exact_instant_Some: "exact_instant E s = Some t \<longleftrightarrow> has_instant E s \<and> moment E s = t"
  by (cases "exact_instant E s") (auto simp: has_instant_def moment_def)

lemma toISO_moment [simp]: "has_instant E s \<Longrightarrow> toISO (moment E s) = s"
  by (auto simp: has_instant_def moment_def exact_instant_def split: option.splits if_splits)

lemma moment_inj: "has_instant E s \<Longrightarrow> has_instant E t \<Longrightarrow> moment E s = moment E t \<longleftrightarrow> s = t"
  using toISO_moment by metis

lemma exact_toISO: "in_canonical_years t \<Longrightarrow> exact_instant E (toISO t) = Some t"
  by (simp add: exact_instant_def date_parse_def parse_toISO)

lemma instant_toISO [simp]:
  "in_canonical_years t \<Longrightarrow> has_instant E (toISO t)" "in_canonical_years t \<Longrightarrow> moment E (toISO t) = t"
  by (simp_all add: has_instant_def moment_def exact_toISO)

lemma ses_instant_Inr [simp]:
  "ses_instant E v l = Inr t \<longleftrightarrow> (\<exists>s. v = Some (JStr s) \<and> has_instant E s \<and> moment E s = t)"
  unfolding exact_instant_Some [symmetric] by (auto simp: ses_instant_def split: option.splits)

lemma ses_instant_JStr [simp]: "has_instant E s \<Longrightarrow> ses_instant E (Some (JStr s)) l = Inr (moment E s)"
  by simp

text \<open>The validator's contract, on typed sessions.\<close>

definition valid_session :: "js_env \<Rightarrow> RuntimeSession \<Rightarrow> bool" where
  "valid_session E s \<longleftrightarrow>
     is_session_id (ses_sessionId s) \<and> valid_binding E (ses_binding s)
     \<and> \<not> request_unbound (ses_requestedProfile s) (ses_binding s)
     \<and> has_instant E (ses_createdAt s) \<and> has_instant E (ses_updatedAt s)
     \<and> has_instant E (ses_lastActivityAt s) \<and> has_instant E (ses_idleExpiresAt s)
     \<and> has_instant E (ses_hardExpiresAt s)
     \<and> ses_createdAt s = bnd_boundAt (ses_binding s)
     \<and> ses_hardExpiresAt s = bnd_leaseExpiresAt (ses_binding s)
     \<and> \<not> chronology_invalid (moment E (ses_createdAt s)) (moment E (ses_updatedAt s))
         (moment E (ses_lastActivityAt s)) (moment E (ses_idleExpiresAt s)) (moment E (ses_hardExpiresAt s))
     \<and> 0 \<le> ses_revision s \<and> ses_revision s \<le> MAX_SAFE_INTEGER
     \<and> terminal_error (ses_state s) (ses_endReason s) (ses_failureCode s) = None"

lemma STATES_name [simp]: "map_of STATES (state_name st) = Some st"
  by (cases st) (simp_all add: STATES_def)

lemma END_REASONS_name [simp]: "map_of END_REASONS (end_reason_name r) = Some r"
  by (cases r) (simp_all add: END_REASONS_def)

lemma FAILURES_name [simp]: "map_of FAILURES (failure_name c) = Some c"
  by (cases c) (simp_all add: FAILURES_def)

lemma nullable_json:
  "nullable END_REASONS (Some (json_or_null end_reason_name r)) = Some r"
  "nullable FAILURES (Some (json_or_null failure_name c)) = Some c"
  by (cases r; simp) (cases c; simp)

lemma safe_revision_Some [simp]:
  "safe_revision v = Some n \<longleftrightarrow> v = Some (JNum n) \<and> 0 \<le> n \<and> n \<le> MAX_SAFE_INTEGER"
  by (cases v rule: safe_revision.cases) (auto simp: is_safe_integer_def MAX_SAFE_INTEGER_def)

lemma parseRuntimeSessionId_Inr [simp]:
  "parseRuntimeSessionId v = Inr s \<longleftrightarrow> v = Some (JStr s) \<and> is_session_id s"
  by (auto simp: parseRuntimeSessionId_def split: option.splits)

lemma parseRequestedProfile_Inr [simp]:
  "parseRequestedProfile v = Inr r \<longleftrightarrow> (\<exists>s. v = Some (JStr s) \<and> request_of s = Some r)"
  by (auto simp: parseRequestedProfile_def bind_eq_Some_conv split: option.splits)

lemma validateRuntimeSession_valid:
  assumes "validateRuntimeSession E v = Inr s"
  shows "valid_session E s"
  using assms
  by (auto simp: validateRuntimeSession_def valid_session_def text_field_def validateRuntimeBinding_valid
      split: if_splits)

lemma session_json_keys [simp]: "exactStringKeys (session_fields s) SESSION_KEYS"
  by (simp add: exactStringKeys_def session_fields_def SESSION_KEYS_def)

lemma session_get [simp]:
  "obj_get (session_json s) ''schemaVersion'' = Some (JStr ''archon.runtime-session/v1'')"
  "obj_get (session_json s) ''sessionId'' = Some (JStr (ses_sessionId s))"
  "obj_get (session_json s) ''requestedProfile'' = Some (JStr (request_name (ses_requestedProfile s)))"
  "obj_get (session_json s) ''binding'' = Some (binding_json (ses_binding s))"
  "obj_get (session_json s) ''state'' = Some (JStr (state_name (ses_state s)))"
  "obj_get (session_json s) ''createdAt'' = Some (JStr (ses_createdAt s))"
  "obj_get (session_json s) ''updatedAt'' = Some (JStr (ses_updatedAt s))"
  "obj_get (session_json s) ''lastActivityAt'' = Some (JStr (ses_lastActivityAt s))"
  "obj_get (session_json s) ''idleExpiresAt'' = Some (JStr (ses_idleExpiresAt s))"
  "obj_get (session_json s) ''hardExpiresAt'' = Some (JStr (ses_hardExpiresAt s))"
  "obj_get (session_json s) ''revision'' = Some (JNum (ses_revision s))"
  "obj_get (session_json s) ''endReason'' = Some (json_or_null end_reason_name (ses_endReason s))"
  "obj_get (session_json s) ''failureCode'' = Some (json_or_null failure_name (ses_failureCode s))"
  by (simp_all add: session_json_def session_fields_def)

lemma own_fields_session [simp]: "own_fields (session_json s) = Some (session_fields s)"
  by (simp add: session_json_def)

lemma validate_binding_json: "valid_binding E b \<Longrightarrow> validateRuntimeBinding E (binding_json b) = Inr b"
  by (simp add: validateRuntimeBinding_roundtrip)

lemma validate_session_json:
  "valid_session E s \<Longrightarrow> validateRuntimeSession E (session_json s) = Inr s"
  by (clarsimp simp: validateRuntimeSession_def valid_session_def text_field_def nullable_json
      validate_binding_json is_safe_integer_def MAX_SAFE_INTEGER_def parseRuntimeSessionId_def
      parseRequestedProfile_def)

lemma validate_session_json_Inr:
  assumes "validateRuntimeSession E (session_json s) = Inr s'"
  shows "s' = s \<and> valid_session E s"
proof -
  have "s' = s"
    using assms by (auto simp: validateRuntimeSession_def text_field_def nullable_json
        dest!: validateRuntimeBinding_canonical split: if_splits)
  with validateRuntimeSession_valid [OF assms] show ?thesis by simp
qed

lemma validate_session_iff [simp]:
  "validateRuntimeSession E (session_json s) = Inr s' \<longleftrightarrow> s' = s \<and> valid_session E s"
  using validate_session_json validate_session_json_Inr by blast

subsection \<open>Every step\<close>

lemma lift_selection_Inr [simp]: "lift_selection r = Inr a \<longleftrightarrow> r = Inr a"
  by (cases r) auto

text \<open>\<open>s'\<close> is \<open>t\<close>, one revision after \<open>s\<close>, and passed the validator.\<close>

definition evolved :: "js_env \<Rightarrow> RuntimeSession \<Rightarrow> RuntimeSession \<Rightarrow> RuntimeSession \<Rightarrow> bool" where
  "evolved E s t s' \<longleftrightarrow> ses_revision s < MAX_SAFE_INTEGER
     \<and> s' = t\<lparr>ses_revision := ses_revision s + 1\<rparr> \<and> valid_session E s'"

lemma evolve_Inr [simp]: "evolve E s change = Inr s' \<longleftrightarrow> evolved E s (change s) s'"
  by (auto simp: evolve_def nextRevision_def evolved_def)

lemma valid_session_instants:
  assumes "valid_session E s"
  shows "has_instant E (ses_createdAt s)" "has_instant E (ses_updatedAt s)"
    "has_instant E (ses_lastActivityAt s)" "has_instant E (ses_idleExpiresAt s)"
    "has_instant E (ses_hardExpiresAt s)"
  using assms unfolding valid_session_def by blast+

lemma valid_chronology:
  assumes "valid_session E s"
  shows "moment E (ses_createdAt s) \<le> moment E (ses_lastActivityAt s)"
    "moment E (ses_lastActivityAt s) \<le> moment E (ses_updatedAt s)"
    "moment E (ses_lastActivityAt s) < moment E (ses_idleExpiresAt s)"
    "moment E (ses_idleExpiresAt s) \<le> moment E (ses_hardExpiresAt s)"
    "moment E (ses_hardExpiresAt s) - moment E (ses_createdAt s) \<le> RUNTIME_HARD_LEASE_MS"
proof -
  have "\<not> chronology_invalid (moment E (ses_createdAt s)) (moment E (ses_updatedAt s))
      (moment E (ses_lastActivityAt s)) (moment E (ses_idleExpiresAt s)) (moment E (ses_hardExpiresAt s))"
    using assms unfolding valid_session_def by blast
  then show "moment E (ses_createdAt s) \<le> moment E (ses_lastActivityAt s)"
    "moment E (ses_lastActivityAt s) \<le> moment E (ses_updatedAt s)"
    "moment E (ses_lastActivityAt s) < moment E (ses_idleExpiresAt s)"
    "moment E (ses_idleExpiresAt s) \<le> moment E (ses_hardExpiresAt s)"
    "moment E (ses_hardExpiresAt s) - moment E (ses_createdAt s) \<le> RUNTIME_HARD_LEASE_MS"
    by (simp_all add: chronology_invalid_def)
qed

text \<open>The lease of a live session is due when the instant has reached one of its two deadlines.\<close>

definition due :: "js_env \<Rightarrow> RuntimeSession \<Rightarrow> string \<Rightarrow> bool" where
  "due E s at \<longleftrightarrow> live s \<and> (moment E at \<ge> moment E (ses_hardExpiresAt s) \<or> moment E at \<ge> moment E (ses_idleExpiresAt s))"

definition timeout_of :: "js_env \<Rightarrow> RuntimeSession \<Rightarrow> string \<Rightarrow> RuntimeSessionEndReason" where
  "timeout_of E s at = (if moment E at \<ge> moment E (ses_hardExpiresAt s) then HARD_TIMEOUT else IDLE_TIMEOUT)"

lemma expireIfDue_eq:
  assumes "has_instant E at" "valid_session E s"
  shows "expireIfDue E s at = (if due E s at then evolve E s (expired_by at (timeout_of E s at)) else Inr s)"
  using assms(1) valid_session_instants [OF assms(2)]
  by (auto simp: expireIfDue_def due_def timeout_of_def)

definition event_type :: "json \<Rightarrow> string" where
  "event_type ev = or_else (str_of (obj_get ev ''type'')) []"

text \<open>What an event does, after the lease has been examined: the one case distinction the properties use.\<close>

inductive event_effect ::
    "js_env \<Rightarrow> json \<Rightarrow> string \<Rightarrow> RuntimeSession \<Rightarrow> RuntimeSession \<Rightarrow> bool"
  for E ev at where
  unchanged: "event_type ev = ''TICK''
    \<or> event_type ev = ''RUNTIME_READY'' \<and> ses_state s \<noteq> STARTING
        \<and> (ses_state s = ACTIVE \<longrightarrow> pinned E s ev = Inr ())
    \<or> event_type ev = ''ACTIVITY'' \<and> \<not> live s
    \<or> event_type ev = ''STOP_REQUESTED'' \<and> ses_state s \<in> {STOPPING, STOPPED}
    \<or> event_type ev = ''STOP_COMPLETED'' \<and> ses_state s = STOPPED
    \<or> event_type ev = ''FAIL'' \<and> ses_state s \<in> {EXPIRED, STOPPED, FAILED} \<Longrightarrow>
    event_effect E ev at s s"
| activated: "event_type ev = ''RUNTIME_READY'' \<Longrightarrow> ses_state s = STARTING \<Longrightarrow> pinned E s ev = Inr () \<Longrightarrow>
    evolved E s ((renewed at (moment E at) (moment E (ses_hardExpiresAt s)) s)\<lparr>ses_state := ACTIVE\<rparr>) s' \<Longrightarrow>
    event_effect E ev at s s'"
| extended: "event_type ev = ''ACTIVITY'' \<Longrightarrow> ses_state s = ACTIVE \<Longrightarrow> pinned E s ev = Inr () \<Longrightarrow>
    evolved E s (renewed at (moment E at) (moment E (ses_hardExpiresAt s)) s) s' \<Longrightarrow>
    event_effect E ev at s s'"
| stopping: "event_type ev = ''STOP_REQUESTED'' \<Longrightarrow> ses_state s \<notin> {STOPPING, STOPPED} \<Longrightarrow>
    evolved E s (s\<lparr>ses_state := STOPPING, ses_updatedAt := at,
      ses_endReason := Some (or_else (ses_endReason s) USER_REQUEST)\<rparr>) s' \<Longrightarrow>
    event_effect E ev at s s'"
| stopped: "event_type ev = ''STOP_COMPLETED'' \<Longrightarrow> ses_state s = STOPPING \<Longrightarrow>
    evolved E s (s\<lparr>ses_state := STOPPED, ses_updatedAt := at\<rparr>) s' \<Longrightarrow>
    event_effect E ev at s s'"
| failed: "event_type ev = ''FAIL'' \<Longrightarrow> ses_state s \<notin> {EXPIRED, STOPPED, FAILED} \<Longrightarrow>
    evolved E s (s\<lparr>ses_state := FAILED, ses_updatedAt := at,
      ses_endReason := Some CONTROL_FAILURE, ses_failureCode := Some code\<rparr>) s' \<Longrightarrow>
    event_effect E ev at s s'"

lemma on_ready_effect:
  "on_ready E ev at (moment E at) s = Inr s' \<Longrightarrow> event_type ev = ''RUNTIME_READY'' \<Longrightarrow> event_effect E ev at s s'"
  by (auto simp: on_ready_def intro: event_effect.intros split: if_splits)

lemma on_activity_effect:
  "on_activity E ev at (moment E at) s = Inr s' \<Longrightarrow> event_type ev = ''ACTIVITY'' \<Longrightarrow> event_effect E ev at s s'"
  by (auto simp: on_activity_def live_def intro: event_effect.intros split: if_splits)

lemma on_stop_requested_effect:
  "on_stop_requested E at s = Inr s' \<Longrightarrow> event_type ev = ''STOP_REQUESTED'' \<Longrightarrow> event_effect E ev at s s'"
  by (auto simp: on_stop_requested_def intro: event_effect.intros split: if_splits)

lemma on_stop_completed_effect:
  "on_stop_completed E at s = Inr s' \<Longrightarrow> event_type ev = ''STOP_COMPLETED'' \<Longrightarrow> event_effect E ev at s s'"
  by (auto simp: on_stop_completed_def intro: event_effect.intros split: if_splits)

lemma on_fail_effect:
  "on_fail E ev at s = Inr s' \<Longrightarrow> event_type ev = ''FAIL'' \<Longrightarrow> event_effect E ev at s s'"
  by (auto simp: on_fail_def intro: event_effect.intros split: if_splits option.splits)

lemma handle_effect: "handle E ev at (moment E at) s = Inr s' \<Longrightarrow> event_effect E ev at s s'"
  unfolding handle_def Let_def event_type_def [symmetric]
  by (auto split: if_splits intro: unchanged on_ready_effect on_activity_effect on_stop_requested_effect
      on_stop_completed_effect on_fail_effect)

text \<open>A transition that returns: the lease expires first when it is due.\<close>

definition examined :: "js_env \<Rightarrow> string \<Rightarrow> RuntimeSession \<Rightarrow> RuntimeSession \<Rightarrow> bool" where
  "examined E at s m \<longleftrightarrow> (if due E s at then evolved E s (expired_by at (timeout_of E s at) s) m else m = s)"

lemma text_field_Some [simp]: "obj_get v k = Some (JStr t) \<Longrightarrow> text_field v k = t"
  by (simp add: text_field_def)

lemma transition_Inr:
  "transitionRuntimeSession E v ev = Inr s' \<longleftrightarrow>
     (\<exists>s m at. validateRuntimeSession E v = Inr s \<and> valid_session E s \<and> obj_get ev ''at'' = Some (JStr at)
       \<and> has_instant E at \<and> moment E (ses_updatedAt s) \<le> moment E at
       \<and> examined E at s m \<and> handle E ev at (moment E at) m = Inr s')"
  (is "?l \<longleftrightarrow> ?r")
proof
  assume ?l
  then obtain s at m where b: "validateRuntimeSession E v = Inr s" "obj_get ev ''at'' = Some (JStr at)"
    "has_instant E at" "moment E (ses_updatedAt s) \<le> moment E at"
    "expireIfDue E s at = Inr m" "handle E ev at (moment E at) m = Inr s'"
    by (auto simp: transitionRuntimeSession_def split: if_splits)
  moreover have "valid_session E s" by (rule validateRuntimeSession_valid [OF b(1)])
  ultimately show ?r using expireIfDue_eq [of E at s] by (auto simp: examined_def split: if_splits)
next
  assume ?r
  then obtain s m at where b: "validateRuntimeSession E v = Inr s" "valid_session E s"
    "obj_get ev ''at'' = Some (JStr at)" "has_instant E at" "moment E (ses_updatedAt s) \<le> moment E at"
    "examined E at s m" "handle E ev at (moment E at) m = Inr s'" by blast
  have "own_fields ev \<noteq> None" using b(3) by (cases ev) auto
  moreover have "expireIfDue E s at = Inr m"
    using b(6) expireIfDue_eq [OF b(4,2)] by (auto simp: examined_def)
  ultimately show ?l
    using b valid_session_instants [OF b(2)] by (simp add: transitionRuntimeSession_def)
qed

text \<open>What no operation changes.\<close>

definition same_lease :: "RuntimeSession \<Rightarrow> RuntimeSession \<Rightarrow> bool" where
  "same_lease s t \<longleftrightarrow> ses_sessionId t = ses_sessionId s
     \<and> ses_requestedProfile t = ses_requestedProfile s \<and> ses_binding t = ses_binding s
     \<and> ses_createdAt t = ses_createdAt s \<and> ses_hardExpiresAt t = ses_hardExpiresAt s"

lemma same_lease_refl [simp]: "same_lease s s"
  by (simp add: same_lease_def)

lemma same_lease_trans: "same_lease s t \<Longrightarrow> same_lease t u \<Longrightarrow> same_lease s u"
  by (simp add: same_lease_def)

lemma examined_facts:
  assumes "examined E at s m" "valid_session E s"
  shows "valid_session E m \<and> same_lease s m
    \<and> (m = s \<and> \<not> due E s at
       \<or> due E s at \<and> ses_revision m = ses_revision s + 1 \<and> ses_updatedAt m = at \<and> ses_state m = EXPIRED
         \<and> ses_endReason m = Some (timeout_of E s at) \<and> ses_failureCode m = ses_failureCode s)"
  using assms by (auto simp: examined_def evolved_def same_lease_def expired_by_def split: if_splits)

lemma effect_facts:
  assumes "event_effect E ev at s s'" "valid_session E s"
  shows "valid_session E s' \<and> same_lease s s'
    \<and> (s' = s \<or> ses_revision s' = ses_revision s + 1 \<and> ses_updatedAt s' = at)"
  using assms by cases (auto simp: evolved_def same_lease_def renewed_def)

lemma transition_steps:
  assumes "transitionRuntimeSession E v ev = Inr s'"
  obtains s m at where "validateRuntimeSession E v = Inr s" "valid_session E s"
    "obj_get ev ''at'' = Some (JStr at)" "has_instant E at" "moment E (ses_updatedAt s) \<le> moment E at"
    "examined E at s m" "event_effect E ev at m s'"
  using assms handle_effect unfolding transition_Inr by blast

text \<open>The abstract machine: states and events only.\<close>

definition next_state :: "string \<Rightarrow> RuntimeSessionState \<Rightarrow> RuntimeSessionState option" where
  "next_state ty st =
     (if ty = ''TICK'' then Some st
      else if ty = ''RUNTIME_READY'' then Some (if st = STARTING then ACTIVE else st)
      else if ty = ''ACTIVITY'' then (if st = STARTING then None else Some st)
      else if ty = ''STOP_REQUESTED'' then Some (if st = STOPPED then STOPPED else STOPPING)
      else if ty = ''STOP_COMPLETED'' then (if st = STOPPING \<or> st = STOPPED then Some STOPPED else None)
      else if ty = ''FAIL'' then Some (if st \<in> {EXPIRED, STOPPED} then st else FAILED)
      else None)"

lemma effect_next_state: "event_effect E ev at s s' \<Longrightarrow> next_state (event_type ev) (ses_state s) = Some (ses_state s')"
  by (induction rule: event_effect.cases)
    (auto simp: next_state_def evolved_def renewed_def live_def)

lemma next_state_not_live:
  "next_state ty st = Some st' \<Longrightarrow> st \<notin> {STARTING, ACTIVE} \<Longrightarrow> st' \<notin> {STARTING, ACTIVE}"
  by (auto simp: next_state_def split: if_splits)

lemma next_state_STARTING: "next_state ty st = Some STARTING \<Longrightarrow> st = STARTING"
  by (auto simp: next_state_def split: if_splits)

lemma effect_stopped: "event_effect E ev at s s' \<Longrightarrow> ses_state s = STOPPED \<Longrightarrow> s' = s"
  by (induction rule: event_effect.cases) auto

subsection \<open>Histories\<close>

text \<open>Everything a session can become, by any events at any times.\<close>

inductive history :: "js_env \<Rightarrow> RuntimeSession \<Rightarrow> RuntimeSession \<Rightarrow> bool" for E s where
  start: "history E s s"
| step: "history E s t \<Longrightarrow> transitionRuntimeSession E (session_json t) ev = Inr u \<Longrightarrow> history E s u"

text \<open>One step of a typed session.\<close>

lemma typed_step:
  assumes "transitionRuntimeSession E (session_json s) ev = Inr s'"
  obtains m at where "valid_session E s" "obj_get ev ''at'' = Some (JStr at)" "has_instant E at"
    "moment E (ses_updatedAt s) \<le> moment E at" "examined E at s m" "valid_session E m"
    "event_effect E ev at m s'" "valid_session E s'"
proof -
  obtain s0 m at where *: "validateRuntimeSession E (session_json s) = Inr s0" "valid_session E s0"
    "obj_get ev ''at'' = Some (JStr at)" "has_instant E at" "moment E (ses_updatedAt s0) \<le> moment E at"
    "examined E at s0 m" "event_effect E ev at m s'"
    by (rule transition_steps [OF assms])
  have "s0 = s" using *(1) by simp
  with * examined_facts effect_facts that show ?thesis by blast
qed

lemma step_monotone:
  assumes "transitionRuntimeSession E (session_json s) ev = Inr s'"
  shows "same_lease s s' \<and> ses_revision s \<le> ses_revision s' \<and> ses_revision s' \<le> ses_revision s + 2
    \<and> moment E (ses_updatedAt s) \<le> moment E (ses_updatedAt s')
    \<and> (ses_revision s' = ses_revision s \<longrightarrow> s' = s)"
proof -
  obtain m at where *: "valid_session E s" "moment E (ses_updatedAt s) \<le> moment E at" "examined E at s m"
    "valid_session E m" "event_effect E ev at m s'"
    by (rule typed_step [OF assms])
  have "same_lease s s'"
    using examined_facts [OF *(3,1)] effect_facts [OF *(5,4)] same_lease_trans by blast
  moreover have "m = s \<or> ses_revision m = ses_revision s + 1 \<and> ses_updatedAt m = at"
    using examined_facts [OF *(3,1)] by blast
  moreover have "s' = m \<or> ses_revision s' = ses_revision m + 1 \<and> ses_updatedAt s' = at"
    using effect_facts [OF *(5,4)] by blast
  ultimately show ?thesis using *(2) by auto
qed

lemma step_not_live:
  assumes "transitionRuntimeSession E (session_json s) ev = Inr s'" "\<not> live s"
  shows "\<not> live s'" "ses_state s = STOPPED \<longrightarrow> s' = s"
proof -
  obtain m at where *: "valid_session E s" "moment E (ses_updatedAt s) \<le> moment E at" "examined E at s m"
    "valid_session E m" "event_effect E ev at m s'"
    by (rule typed_step [OF assms(1)])
  have m: "m = s" using *(3) assms(2) by (simp add: examined_def due_def)
  show "\<not> live s'"
    using next_state_not_live [OF effect_next_state [OF *(5)]] assms(2) m by (simp add: live_def)
  show "ses_state s = STOPPED \<longrightarrow> s' = s" using effect_stopped [OF *(5)] m by simp
qed

text \<open>The idle deadline of a live session, as long as it was created and changed by these operations.\<close>

definition idle_formula :: "js_env \<Rightarrow> RuntimeSession \<Rightarrow> bool" where
  "idle_formula E s \<longleftrightarrow> ses_idleExpiresAt s =
     toISO (min (moment E (ses_lastActivityAt s) + RUNTIME_IDLE_LEASE_MS) (moment E (ses_hardExpiresAt s)))"

definition ended_with_reason :: "RuntimeSession \<Rightarrow> bool" where
  "ended_with_reason s \<longleftrightarrow> (live s \<longleftrightarrow> ses_endReason s = None)"

lemma created_Inr:
  "createRuntimeSession E sid req b = Inr s \<Longrightarrow>
     valid_session E s \<and> ses_state s = STARTING \<and> ses_revision s = 0 \<and> ses_endReason s = None
     \<and> ses_updatedAt s = ses_createdAt s \<and> ses_lastActivityAt s = ses_createdAt s
     \<and> idle_formula E s \<and> ended_with_reason s"
  by (auto simp: createRuntimeSession_def idle_formula_def ended_with_reason_def live_def
      dest!: validateRuntimeBinding_valid)

lemma effect_invariants:
  assumes "event_effect E ev at s s'" "idle_formula E s \<and> ended_with_reason s"
  shows "idle_formula E s' \<and> ended_with_reason s'"
  using assms
  by cases (auto simp: evolved_def renewed_def idle_formula_def ended_with_reason_def live_def)

lemma examined_invariants:
  assumes "examined E at s m" "idle_formula E s \<and> ended_with_reason s"
  shows "idle_formula E m \<and> ended_with_reason m"
  using assms by (auto simp: examined_def evolved_def expired_by_def idle_formula_def
      ended_with_reason_def live_def split: if_splits)

lemma step_invariants:
  assumes "transitionRuntimeSession E (session_json s) ev = Inr s'" "idle_formula E s \<and> ended_with_reason s"
  shows "idle_formula E s' \<and> ended_with_reason s'"
proof -
  obtain m at where "valid_session E s" "examined E at s m" "event_effect E ev at m s'"
    by (rule typed_step [OF assms(1)])
  then show ?thesis using effect_invariants examined_invariants [OF _ assms(2)] by blast
qed

subsection \<open>Identifiers encode their entropy\<close>

definition b64_val :: "char \<Rightarrow> nat" where
  "b64_val c = (let n = of_char c :: nat in
     if 65 \<le> n \<and> n \<le> 90 then n - 65 else if 97 \<le> n \<and> n \<le> 122 then n - 71
     else if 48 \<le> n \<and> n \<le> 57 then n + 4 else if n = 45 then 62 else 63)"

fun base64url_decode :: "string \<Rightarrow> 8 word list" where
  "base64url_decode (p # q # r # s # cs) =
     of_nat (b64_val p * 4 + b64_val q div 16) # of_nat (b64_val q mod 16 * 16 + b64_val r div 4)
     # of_nat (b64_val r mod 4 * 64 + b64_val s) # base64url_decode cs"
| "base64url_decode [p, q, r] =
     [of_nat (b64_val p * 4 + b64_val q div 16), of_nat (b64_val q mod 16 * 16 + b64_val r div 4)]"
| "base64url_decode [p, q] = [of_nat (b64_val p * 4 + b64_val q div 16)]"
| "base64url_decode _ = []"

lemma b64_val_char [simp]: "n < 64 \<Longrightarrow> b64_val (b64_char n) = n"
  by (auto simp: b64_val_def b64_char_def Let_def)

lemma is_url_b64 [simp]: "n < 64 \<Longrightarrow> is_url_char (b64_char n)"
  by (auto simp: is_url_char_def is_alnum_def b64_char_def Let_def)

lemma byte_bound [simp]: "unat (a :: 8 word) < 256"
  using unsigned_less [of a] by simp

lemma byte_div:
  fixes a :: "8 word"
  shows "unat a div 4 < 64" "unat a div 16 < 16" "unat a div 64 < 4"
  using byte_bound [of a] by linarith+

lemma six_bits: "m < 4 \<Longrightarrow> d < 16 \<Longrightarrow> m * 16 + d < (64::nat)" "m < 16 \<Longrightarrow> e < 4 \<Longrightarrow> m * 4 + e < (64::nat)"
  by simp_all

lemma sextets [simp]:
  fixes a b c :: "8 word"
  shows "unat a div 4 < 64" "unat a mod 4 * 16 + unat b div 16 < 64"
    "unat b mod 16 * 4 + unat c div 64 < 64" "unat c mod 64 < 64" "unat a mod 4 * 16 < 64" "unat b mod 16 * 4 < 64"
  by (rule byte_div six_bits mod_less_divisor, simp?)+
    (use mod_less_divisor [of 4 "unat a"] mod_less_divisor [of 16 "unat b"] in simp_all)

lemma packed:
  fixes a b k :: nat
  assumes "b < k"
  shows "(a * k + b) div k = a" "(a * k + b) mod k = b"
  using assms by simp_all

lemma octets:
  fixes a b c :: "8 word"
  shows "unat a div 4 * 4 + (unat a mod 4 * 16 + unat b div 16) div 16 = unat a"
    "unat a div 4 * 4 + (unat a mod 4 * 16) div 16 = unat a"
    "(unat a mod 4 * 16 + unat b div 16) mod 16 * 16 + (unat b mod 16 * 4 + unat c div 64) div 4 = unat b"
    "(unat a mod 4 * 16 + unat b div 16) mod 16 * 16 + (unat b mod 16 * 4) div 4 = unat b"
    "(unat b mod 16 * 4 + unat c div 64) mod 4 * 64 + unat c mod 64 = unat c"
proof -
  have "unat x mod 4 * 16 div 16 = unat x mod 4" "unat x mod 16 * 4 div 4 = unat x mod 16" for x :: "8 word"
    by simp_all
  then show "unat a div 4 * 4 + (unat a mod 4 * 16 + unat b div 16) div 16 = unat a"
    "unat a div 4 * 4 + (unat a mod 4 * 16) div 16 = unat a"
    "(unat a mod 4 * 16 + unat b div 16) mod 16 * 16 + (unat b mod 16 * 4 + unat c div 64) div 4 = unat b"
    "(unat a mod 4 * 16 + unat b div 16) mod 16 * 16 + (unat b mod 16 * 4) div 4 = unat b"
    "(unat b mod 16 * 4 + unat c div 64) mod 4 * 64 + unat c mod 64 = unat c"
    by (simp_all only: packed [OF byte_div(2)] packed [OF byte_div(3)] div_mult_mod_eq)
qed

lemma decode_base64url: "base64url_decode (base64url bs) = bs"
  by (induction bs rule: base64url.induct)
    (simp_all only: base64url.simps base64url_decode.simps b64_val_char sextets octets of_nat_unat ucast_id)

lemma length_base64url: "length bs = 3 * k + 2 \<Longrightarrow> length (base64url bs) = 4 * k + 3"
proof (induction k arbitrary: bs)
  case 0
  then show ?case by (auto simp: numeral_2_eq_2 length_Suc_conv)
next
  case (Suc k)
  then have "length bs = Suc (Suc (Suc (3 * k + 2)))" by simp
  then obtain a b c cs where "bs = a # b # c # cs" "length cs = 3 * k + 2"
    unfolding length_Suc_conv by blast
  with Suc.IH [of cs] show ?case by simp
qed

lemma base64url_chars: "list_all is_url_char (base64url bs)"
  by (induction bs rule: base64url.induct) simp_all

subsection \<open>Properties\<close>

text \<open>
  C37: \<open>transitionRuntimeSession\<close> keeps sessions well formed. What it returns passes the validator
  unchanged; the identifier, request, binding, creation time and hard deadline never change, the update
  time never moves backwards, the revision grows by at most two, and only a session left untouched keeps
  its revision.
\<close>

theorem session_transition_sound:
  assumes "transitionRuntimeSession E v ev = Inr s'"
  shows "\<exists>s. validateRuntimeSession E v = Inr s
    \<and> validateRuntimeSession E (session_json s') = Inr s' \<and> same_lease s s'
    \<and> moment E (ses_updatedAt s) \<le> moment E (ses_updatedAt s')
    \<and> ses_revision s \<le> ses_revision s' \<and> ses_revision s' \<le> ses_revision s + 2
    \<and> (ses_revision s' = ses_revision s \<longrightarrow> s' = s)"
proof -
  obtain s m at where *: "validateRuntimeSession E v = Inr s" "valid_session E s" "examined E at s m"
    "event_effect E ev at m s'"
    by (rule transition_steps [OF assms])
  have typed: "transitionRuntimeSession E (session_json s) ev = Inr s'"
    using assms *(1,2) unfolding transition_Inr by simp
  have "valid_session E s'" using typed_step [OF typed] by metis
  with step_monotone [OF typed] *(1) show ?thesis by auto
qed

text \<open>A binding, its session and the events of the witnesses.\<close>

definition demo_binding :: RuntimeBinding where
  "demo_binding = \<lparr>bnd_profileId = CLOUD, bnd_generation = ''gen-1'', bnd_capabilityDigest = demo_digest,
     bnd_resolution = BY_AUTO, bnd_boundAt = ''2026-07-01T00:00:00.000Z'',
     bnd_leaseExpiresAt = ''2026-07-01T02:00:00.000Z''\<rparr>"

definition demo_session :: RuntimeSession where
  "demo_session = \<lparr>ses_sessionId = ''rs_'' @ replicate 43 (CHR ''A''), ses_requestedProfile = AUTO,
     ses_binding = demo_binding, ses_state = STARTING, ses_createdAt = ''2026-07-01T00:00:00.000Z'',
     ses_updatedAt = ''2026-07-01T00:00:00.000Z'', ses_lastActivityAt = ''2026-07-01T00:00:00.000Z'',
     ses_idleExpiresAt = ''2026-07-01T00:30:00.000Z'', ses_hardExpiresAt = ''2026-07-01T02:00:00.000Z'',
     ses_revision = 0, ses_endReason = None, ses_failureCode = None\<rparr>"

definition demo_event :: "string \<Rightarrow> string \<Rightarrow> json" where
  "demo_event ty at = JObj [(''type'', JStr ty), (''at'', JStr at), (''binding'', binding_json demo_binding),
     (''failureCode'', JStr ''RUNTIME_DRIFT'')]"

definition outcome :: "session_failure + RuntimeSession \<Rightarrow> RuntimeSessionState option" where
  "outcome r = (case r of Inl e \<Rightarrow> None | Inr s \<Rightarrow> Some (ses_state s))"

lemma outcome_Some: "outcome r = Some st \<longleftrightarrow> (\<exists>s. r = Inr s \<and> ses_state s = st)"
  by (auto simp: outcome_def split: sum.split)

lemma demo_clock [simp]:
  "has_instant demo_env ''2026-07-01T00:00:00.000Z''" "moment demo_env ''2026-07-01T00:00:00.000Z'' = 1782864000000"
  "has_instant demo_env ''2026-07-01T00:01:00.000Z''" "moment demo_env ''2026-07-01T00:01:00.000Z'' = 1782864060000"
  "has_instant demo_env ''2026-07-01T00:30:00.000Z''" "moment demo_env ''2026-07-01T00:30:00.000Z'' = 1782865800000"
  "has_instant demo_env ''2026-07-01T00:31:00.000Z''" "moment demo_env ''2026-07-01T00:31:00.000Z'' = 1782865860000"
  "has_instant demo_env ''2026-07-01T02:00:00.000Z''" "moment demo_env ''2026-07-01T02:00:00.000Z'' = 1782871200000"
  by (simp_all add: has_instant_def moment_def demo_instants)

lemma toISO_demo [simp]: "toISO 1782865860000 = ''2026-07-01T00:31:00.000Z''"
  using toISO_moment [of demo_env "''2026-07-01T00:31:00.000Z''"] by simp

lemma valid_demo_binding [simp]: "valid_binding demo_env demo_binding"
  by (simp add: valid_binding_def demo_binding_def demo_instants TWO_HOURS_def is_generation_def is_alnum_def)

lemmas valid_session_eval = valid_session_def demo_session_def is_session_id_def is_url_char_def is_alnum_def
  request_unbound_def chronology_invalid_def terminal_error_def RUNTIME_HARD_LEASE_MS_def
  MAX_SAFE_INTEGER_def numeral_eq_Suc

lemma valid_demo_session [simp]: "valid_session demo_env demo_session"
  using valid_demo_binding by (simp add: valid_session_eval) (simp add: demo_binding_def)

lemma demo_session_get [simp]:
  "ses_state demo_session = STARTING" "ses_binding demo_session = demo_binding"
  "ses_updatedAt demo_session = ''2026-07-01T00:00:00.000Z''"
  "ses_idleExpiresAt demo_session = ''2026-07-01T00:30:00.000Z''"
  "ses_hardExpiresAt demo_session = ''2026-07-01T02:00:00.000Z''" "ses_revision demo_session = 0"
  by (simp_all add: demo_session_def)

lemma demo_binding_get [simp]:
  "bnd_boundAt demo_binding = ''2026-07-01T00:00:00.000Z''"
  "bnd_leaseExpiresAt demo_binding = ''2026-07-01T02:00:00.000Z''"
  by (simp_all add: demo_binding_def)

definition demo_active :: RuntimeSession where
  "demo_active = demo_session\<lparr>ses_state := ACTIVE, ses_updatedAt := ''2026-07-01T00:01:00.000Z'',
     ses_lastActivityAt := ''2026-07-01T00:01:00.000Z'', ses_idleExpiresAt := ''2026-07-01T00:31:00.000Z'',
     ses_revision := 1\<rparr>"

lemma valid_demo_active [simp]: "valid_session demo_env demo_active"
  using valid_demo_session unfolding valid_session_def
  by (simp add: demo_active_def chronology_invalid_def RUNTIME_HARD_LEASE_MS_def MAX_SAFE_INTEGER_def
      terminal_error_def) (simp add: demo_session_def)

lemma demo_event_get [simp]:
  "obj_get (demo_event ty at) ''type'' = Some (JStr ty)" "obj_get (demo_event ty at) ''at'' = Some (JStr at)"
  "obj_get (demo_event ty at) ''binding'' = Some (binding_json demo_binding)"
  "obj_get (demo_event ty at) ''failureCode'' = Some (JStr ''RUNTIME_DRIFT'')"
  "event_type (demo_event ty at) = ty"
  by (simp_all add: demo_event_def event_type_def)

lemma assertPinned_same: "valid_binding E b \<Longrightarrow> assertPinnedRuntime E (binding_json b) (binding_json b) = Inr ()"
  using assertPinned_iff validate_binding_json by blast

lemma demo_activation:
  "transitionRuntimeSession demo_env (session_json demo_session)
     (demo_event ''RUNTIME_READY'' ''2026-07-01T00:01:00.000Z'') = Inr demo_active"
proof -
  have "\<not> due demo_env demo_session ''2026-07-01T00:01:00.000Z''"
    by (simp add: due_def)
  moreover have "pinned demo_env demo_session (demo_event ''RUNTIME_READY'' ''2026-07-01T00:01:00.000Z'') = Inr ()"
    by (simp add: pinned_def assertPinned_same)
  moreover have "evolved demo_env demo_session
      ((renewed ''2026-07-01T00:01:00.000Z'' 1782864060000 1782871200000 demo_session)\<lparr>ses_state := ACTIVE\<rparr>) demo_active"
    by (simp add: evolved_def) (simp add: renewed_def demo_active_def demo_session_def MAX_SAFE_INTEGER_def
        RUNTIME_IDLE_LEASE_MS_def)
  ultimately show ?thesis
    unfolding transition_Inr
    by (intro exI [of _ demo_session] exI [of _ "''2026-07-01T00:01:00.000Z''"])
      (simp add: examined_def handle_def on_ready_def Let_def)
qed

theorem session_transition_sound_witness:
  "validateRuntimeSession demo_env (session_json demo_active) = Inr demo_active \<and> same_lease demo_session demo_active"
  using session_transition_sound [OF demo_activation] by auto

text \<open>
  C38: the session machine refines its abstract one. A transition that returns first expires a due lease
  and then moves as the event's name prescribes, whatever else the session and the event hold; an event
  name and state without an abstract move is an error. In particular nothing leads from \<open>STOPPED\<close>
  elsewhere, only \<open>RUNTIME_READY\<close> activates, and a due lease is never extended.
\<close>

theorem session_refines_machine:
  "(transitionRuntimeSession E (session_json s) ev = Inr s' \<longrightarrow>
      (\<exists>at. obj_get ev ''at'' = Some (JStr at) \<and>
        next_state (event_type ev) (if due E s at then EXPIRED else ses_state s) = Some (ses_state s')
        \<and> (due E s at \<and> event_type ev \<noteq> ''STOP_REQUESTED'' \<longrightarrow>
             ses_state s' = EXPIRED \<and> ses_endReason s' = Some (timeout_of E s at)
             \<and> ses_idleExpiresAt s' = ses_idleExpiresAt s)))
   \<and> (obj_get ev ''at'' = Some (JStr at) \<and>
        next_state (event_type ev) (if due E s at then EXPIRED else ses_state s) = None \<longrightarrow>
      (\<exists>e. transitionRuntimeSession E (session_json s) ev = Inl e))"
proof -
  have returns: "\<exists>at. obj_get ev ''at'' = Some (JStr at) \<and>
        next_state (event_type ev) (if due E s at then EXPIRED else ses_state s) = Some (ses_state s')
        \<and> (due E s at \<and> event_type ev \<noteq> ''STOP_REQUESTED'' \<longrightarrow>
             ses_state s' = EXPIRED \<and> ses_endReason s' = Some (timeout_of E s at)
             \<and> ses_idleExpiresAt s' = ses_idleExpiresAt s)"
    if t: "transitionRuntimeSession E (session_json s) ev = Inr s'" for s'
  proof -
    obtain m at where *: "valid_session E s" "obj_get ev ''at'' = Some (JStr at)" "examined E at s m"
      "event_effect E ev at m s'"
      by (rule typed_step [OF t])
    have m: "ses_state m = (if due E s at then EXPIRED else ses_state s)"
      using *(3) by (auto simp: examined_def evolved_def expired_by_def)
    have kept: "s' = m" if "due E s at" "event_type ev \<noteq> ''STOP_REQUESTED''"
      using *(4) m that by cases auto
    have "ses_state s' = EXPIRED \<and> ses_endReason s' = Some (timeout_of E s at)
        \<and> ses_idleExpiresAt s' = ses_idleExpiresAt s" if "due E s at" "event_type ev \<noteq> ''STOP_REQUESTED''"
      using kept [OF that] that(1) *(3) by (auto simp: examined_def evolved_def expired_by_def)
    with effect_next_state [OF *(4)] m *(2) show ?thesis by auto
  qed
  have "\<exists>e. transitionRuntimeSession E (session_json s) ev = Inl e"
    if "obj_get ev ''at'' = Some (JStr at)"
      "next_state (event_type ev) (if due E s at then EXPIRED else ses_state s) = None"
    using returns that by (cases "transitionRuntimeSession E (session_json s) ev") fastforce+
  with returns show ?thesis by blast
qed

theorem session_refines_machine_witness:
  "next_state ''RUNTIME_READY'' (if due demo_env demo_session ''2026-07-01T00:01:00.000Z'' then EXPIRED
     else ses_state demo_session) = Some (ses_state demo_active)"
  using session_refines_machine [of demo_env demo_session
      "demo_event ''RUNTIME_READY'' ''2026-07-01T00:01:00.000Z''" demo_active]
  by (auto simp: demo_activation)

text \<open>
  C39: every history of a created session. Whatever events come at whatever times, the session stays
  valid and keeps its lease; its idle deadline is thirty minutes after the last activity, capped by the
  hard deadline, which is at most two hours after creation; it has an end reason exactly when it is no
  longer live.
\<close>

theorem session_history_invariant:
  assumes "createRuntimeSession E sid req b = Inr s" "history E s t"
  shows "validateRuntimeSession E (session_json t) = Inr t \<and> same_lease s t
    \<and> ses_idleExpiresAt t = toISO (min (moment E (ses_lastActivityAt t) + RUNTIME_IDLE_LEASE_MS)
        (moment E (ses_hardExpiresAt t)))
    \<and> moment E (ses_hardExpiresAt t) - moment E (ses_createdAt t) \<le> RUNTIME_HARD_LEASE_MS
    \<and> (live t \<longleftrightarrow> ses_endReason t = None)"
proof -
  have "valid_session E t \<and> same_lease s t \<and> idle_formula E t \<and> ended_with_reason t"
    using assms(2)
  proof induction
    case start
    then show ?case using created_Inr [OF assms(1)] by simp
  next
    case (step t ev u)
    have "valid_session E u" using typed_step [OF step.hyps(2)] by metis
    then show ?case
      using step.IH step_monotone [OF step.hyps(2)] step_invariants [OF step.hyps(2)] same_lease_trans
      by blast
  qed
  then show ?thesis
    using valid_chronology(5) by (simp add: idle_formula_def ended_with_reason_def)
qed

lemma demo_session_created:
  "createRuntimeSession demo_env (Some (JStr (''rs_'' @ replicate 43 (CHR ''A'')))) (Some (JStr ''auto''))
     (binding_json demo_binding) = Inr demo_session"
proof -
  have "toISO 1782865800000 = ''2026-07-01T00:30:00.000Z''"
    using toISO_moment [of demo_env "''2026-07-01T00:30:00.000Z''"] by simp
  moreover have "is_session_id (''rs_'' @ replicate 43 (CHR ''A''))"
    using valid_demo_session unfolding valid_session_def by (simp add: demo_session_def)
  moreover have "request_of ''auto'' = Some AUTO" using request_of_name [of AUTO] by simp
  moreover note valid_demo_session [unfolded demo_session_def]
  ultimately show ?thesis
    by (simp add: createRuntimeSession_def validate_binding_json RUNTIME_IDLE_LEASE_MS_def
        parseRuntimeSessionId_def parseRequestedProfile_def) (simp add: demo_session_def)
qed

theorem session_history_invariant_witness:
  "same_lease demo_session demo_active \<and> live demo_active"
proof -
  have "history demo_env demo_session demo_active"
    by (rule history.step [OF history.start demo_activation])
  from session_history_invariant [OF demo_session_created this] show ?thesis
    by (auto simp: demo_active_def live_def)
qed

text \<open>
  an ended lease stays ended. In every history, a session that is not live never becomes live again,
  and a stopped one never changes at all.
\<close>

theorem ended_session_stays_ended:
  assumes "history E s t" "\<not> live s"
  shows "\<not> live t \<and> (ses_state s = STOPPED \<longrightarrow> t = s)"
  using assms(1)
proof induction
  case start
  then show ?case using assms(2) by simp
next
  case (step t ev u)
  then show ?case using step_not_live by blast
qed

definition demo_stopped :: RuntimeSession where
  "demo_stopped = demo_active\<lparr>ses_state := STOPPED, ses_endReason := Some USER_REQUEST, ses_revision := 3\<rparr>"

theorem ended_session_stays_ended_witness:
  "history demo_env demo_stopped demo_stopped \<and> \<not> live demo_stopped"
  using ended_session_stays_ended [OF history.start [of demo_env demo_stopped]]
  by (simp add: history.start live_def demo_stopped_def)

text \<open>
  identifiers. Thirty-two bytes of entropy always give an identifier the parser accepts, and the bytes
  can be read back from it: two sessions with different entropy never share an identifier.
\<close>

theorem session_id_roundtrip:
  assumes "length entropy = 32"
  shows "\<exists>s. generateRuntimeSessionId entropy = Inr s \<and> parseRuntimeSessionId (Some (JStr s)) = Inr s
    \<and> base64url_decode (drop 3 s) = entropy"
proof -
  have "is_session_id (''rs_'' @ base64url entropy)"
    using length_base64url [of entropy 10] assms base64url_chars by (simp add: is_session_id_def)
  with assms show ?thesis
    by (simp add: generateRuntimeSessionId_def decode_base64url)
qed

theorem session_id_roundtrip_witness:
  "\<exists>s. generateRuntimeSessionId (replicate 32 255) = Inr s \<and> base64url_decode (drop 3 s) = replicate 32 255"
  using session_id_roundtrip [of "replicate 32 255"] by auto

text \<open>
  only the pinned runtime keeps a session alive. When \<open>RUNTIME_READY\<close> or \<open>ACTIVITY\<close> returns a live
  session, the event carried exactly the binding the session was created with, and for \<open>ACTIVITY\<close> the
  session was active and inside its lease.
\<close>

theorem session_pins_runtime:
  assumes "transitionRuntimeSession E (session_json s) ev = Inr s'" "live s'"
    and "event_type ev \<in> {''RUNTIME_READY'', ''ACTIVITY''}"
  shows "validateRuntimeBinding E (or_else (obj_get ev ''binding'') JNull) = Inr (ses_binding s)
    \<and> ses_state s' = ACTIVE \<and> live s"
proof -
  obtain m at where *: "valid_session E s" "examined E at s m" "event_effect E ev at m s'"
    by (rule typed_step [OF assms(1)])
  have m: "live m"
    using next_state_not_live [OF effect_next_state [OF *(3)]] assms(2) by (auto simp: live_def)
  then have "m = s" using *(2) by (auto simp: examined_def evolved_def expired_by_def live_def split: if_splits)
  moreover have "pinned E m ev = Inr () \<and> ses_state s' = ACTIVE"
    using *(3) assms(3) m by cases (auto simp: live_def evolved_def renewed_def)
  ultimately show ?thesis
    using m by (auto simp: pinned_def assertPinned_iff dest!: validateRuntimeBinding_canonical)
qed

theorem session_pins_runtime_witness:
  "validateRuntimeBinding demo_env (binding_json demo_binding) = Inr (ses_binding demo_session)"
  using session_pins_runtime [OF demo_activation] by (simp add: demo_active_def live_def)

lemma valid_expired:
  assumes "valid_session E s" "live s" "has_instant E at" "moment E (ses_updatedAt s) \<le> moment E at"
    "ses_revision s < MAX_SAFE_INTEGER"
  shows "valid_session E ((expired_by at (timeout_of E s at) s)\<lparr>ses_revision := ses_revision s + 1\<rparr>)"
  using assms unfolding valid_session_def expired_by_def timeout_of_def live_def
  by (auto simp: chronology_invalid_def terminal_error_def split: if_splits)

lemma valid_stopping:
  assumes "valid_session E s" "has_instant E at" "moment E (ses_updatedAt s) \<le> moment E at"
    "ses_revision s < MAX_SAFE_INTEGER"
  shows "valid_session E (s\<lparr>ses_state := STOPPING, ses_updatedAt := at,
      ses_endReason := Some (or_else (ses_endReason s) USER_REQUEST), ses_revision := ses_revision s + 1\<rparr>)"
  using assms unfolding valid_session_def
  by (cases "ses_endReason s") (auto simp: chronology_invalid_def terminal_error_def split: if_splits)

lemma valid_stopped:
  assumes "valid_session E s" "ses_state s = STOPPING" "has_instant E at"
    "moment E (ses_updatedAt s) \<le> moment E at" "ses_revision s < MAX_SAFE_INTEGER"
  shows "valid_session E (s\<lparr>ses_state := STOPPED, ses_updatedAt := at, ses_revision := ses_revision s + 1\<rparr>)"
  using assms unfolding valid_session_def
  by (auto simp: chronology_invalid_def terminal_error_def split: if_splits)

text \<open>
  C40: a session can always be stopped. From every valid session, live or expired or failed, with two
  revisions to spare, \<open>STOP_REQUESTED\<close> at any later instant succeeds and leaves it stopping or stopped,
  and \<open>STOP_COMPLETED\<close> at the same instant then leaves it stopped.
\<close>

theorem session_can_stop:
  assumes "valid_session E s" "ses_revision s + 2 < MAX_SAFE_INTEGER"
    and "has_instant E at" "moment E (ses_updatedAt s) \<le> moment E at"
    and "event_type ev = ''STOP_REQUESTED''" "obj_get ev ''at'' = Some (JStr at)"
    and "event_type done = ''STOP_COMPLETED''" "obj_get done ''at'' = Some (JStr at)"
  shows "\<exists>s1 s2. transitionRuntimeSession E (session_json s) ev = Inr s1
    \<and> ses_state s1 \<in> {STOPPING, STOPPED}
    \<and> transitionRuntimeSession E (session_json s1) done = Inr s2 \<and> ses_state s2 = STOPPED"
proof -
  define m where "m = (if due E s at
    then (expired_by at (timeout_of E s at) s)\<lparr>ses_revision := ses_revision s + 1\<rparr> else s)"
  have m: "examined E at s m" "valid_session E m" "moment E (ses_updatedAt m) \<le> moment E at"
    "ses_revision m + 1 < MAX_SAFE_INTEGER"
    using valid_expired [of E s at] assms(1-4)
    by (auto simp: m_def examined_def evolved_def due_def expired_by_def)
  define s1 where "s1 = (if ses_state m \<in> {STOPPING, STOPPED} then m
    else m\<lparr>ses_state := STOPPING, ses_updatedAt := at,
      ses_endReason := Some (or_else (ses_endReason m) USER_REQUEST), ses_revision := ses_revision m + 1\<rparr>)"
  have "handle E ev at (moment E at) m = Inr s1"
    using assms(5) valid_stopping [OF m(2) assms(3) m(3)] m(4)
    by (auto simp: handle_def event_type_def [symmetric] on_stop_requested_def s1_def evolved_def)
  then have t1: "transitionRuntimeSession E (session_json s) ev = Inr s1"
    unfolding transition_Inr using assms(1,3,4,6) m(1) by auto
  have s1: "valid_session E s1" "ses_state s1 \<in> {STOPPING, STOPPED}" "moment E (ses_updatedAt s1) \<le> moment E at"
    "ses_revision s1 < MAX_SAFE_INTEGER"
    using valid_stopping [OF m(2) assms(3) m(3)] m(2-4) by (auto simp: s1_def)
  define s2 where "s2 = (if ses_state s1 = STOPPED then s1
    else s1\<lparr>ses_state := STOPPED, ses_updatedAt := at, ses_revision := ses_revision s1 + 1\<rparr>)"
  have "handle E done at (moment E at) s1 = Inr s2"
    using assms(7) valid_stopped [OF s1(1) _ assms(3) s1(3,4)] s1
    by (auto simp: handle_def event_type_def [symmetric] on_stop_completed_def s2_def evolved_def)
  moreover have "examined E at s1 s1" using s1(2) by (auto simp: examined_def due_def live_def)
  ultimately have "transitionRuntimeSession E (session_json s1) done = Inr s2"
    unfolding transition_Inr using assms(3,8) s1(1,3) by auto
  moreover have "ses_state s2 = STOPPED" by (simp add: s2_def)
  ultimately show ?thesis using t1 s1(2) by blast
qed

theorem session_can_stop_witness:
  "\<exists>s1. transitionRuntimeSession demo_env (session_json demo_session)
     (demo_event ''STOP_REQUESTED'' ''2026-07-01T00:31:00.000Z'') = Inr s1 \<and> ses_state s1 \<in> {STOPPING, STOPPED}"
  using session_can_stop [of demo_env demo_session "''2026-07-01T00:31:00.000Z''"
      "demo_event ''STOP_REQUESTED'' ''2026-07-01T00:31:00.000Z''"
      "demo_event ''STOP_COMPLETED'' ''2026-07-01T00:31:00.000Z''"]
  by (auto simp: MAX_SAFE_INTEGER_def)

lemma ceil_div_bounds:
  assumes "0 < b"
  shows "b * ceil_div a b - b < a" "a \<le> b * ceil_div a b"
proof -
  have "b * ceil_div a b = - (b * (- a div b))" by (simp add: ceil_div_def)
  then show "b * ceil_div a b - b < a" "a \<le> b * ceil_div a b"
    using mult_div_mod_eq [of b "- a"] pos_mod_bound [OF assms, of "- a"] pos_mod_sign [OF assms, of "- a"]
    by linarith+
qed

text \<open>
  what the public status promises. The remaining time is between zero and two hours and is the time to
  the earlier deadline rounded up to seconds; a session that may run is inside its lease with at least one
  second left, and one that may be extended is not at its hard deadline.
\<close>

theorem public_status_bounds:
  assumes "publicRuntimeSessionStatus E (session_json s) now = Inr p"
  shows "0 \<le> pub_remainingSeconds p \<and> pub_remainingSeconds p \<le> 7200
    \<and> (pub_canRun p \<longleftrightarrow> pub_state p = PUB_READY)
    \<and> (pub_canRun p \<longrightarrow> 1 \<le> pub_remainingSeconds p
        \<and> moment E now < moment E (pub_idleExpiresAt p) \<and> moment E now < moment E (pub_hardExpiresAt p)
        \<and> moment E now + 1000 * pub_remainingSeconds p - 1000 < moment E (pub_idleExpiresAt p)
        \<and> moment E (pub_idleExpiresAt p) \<le> moment E now + 1000 * pub_remainingSeconds p)
    \<and> (pub_canExtend p \<longrightarrow> pub_canRun p \<and> moment E (pub_idleExpiresAt p) < moment E (pub_hardExpiresAt p))"
proof -
  obtain t where t: "transitionRuntimeSession E (session_json s) (tick now) = Inr t"
    and p: "pub_remainingSeconds p = (if live t then max 0 (ceil_div
        (min (moment E (ses_idleExpiresAt t)) (moment E (ses_hardExpiresAt t)) - moment E now) 1000) else 0)"
      "pub_state p = public_state (ses_state t)" "pub_canRun p \<longleftrightarrow> ses_state t = ACTIVE"
      "pub_canExtend p \<longleftrightarrow> ses_state t = ACTIVE \<and> ses_idleExpiresAt t \<noteq> ses_hardExpiresAt t"
      "pub_idleExpiresAt p = ses_idleExpiresAt t" "pub_hardExpiresAt p = ses_hardExpiresAt t"
    using assms by (auto simp: publicRuntimeSessionStatus_def Let_def)
  obtain m where *: "moment E (ses_updatedAt s) \<le> moment E now" "examined E now s m"
    "event_effect E (tick now) now m t" "valid_session E t"
    by (rule typed_step [OF t]) (auto simp: tick_def)
  have m: "t = m" using *(3) by cases (auto simp: tick_def event_type_def)
  have ready: "pub_state p = PUB_READY \<longleftrightarrow> ses_state t = ACTIVE"
    unfolding p(2) by (cases "ses_state t") simp_all
  show ?thesis
  proof (cases "live t")
    case True
    then have s: "t = s" "\<not> due E s now"
      using *(2) m by (auto simp: examined_def evolved_def expired_by_def live_def split: if_splits)
    define d where "d = moment E (ses_idleExpiresAt t) - moment E now"
    have d: "0 < d" "moment E (ses_idleExpiresAt t) \<le> moment E (ses_hardExpiresAt t)" "d \<le> 7200000"
      using s True *(1) valid_chronology [OF *(4)] by (auto simp: due_def d_def RUNTIME_HARD_LEASE_MS_def)
    have "1000 * ceil_div d 1000 - 1000 < d" "d \<le> 1000 * ceil_div d 1000"
      by (rule ceil_div_bounds; simp)+
    moreover from this have "pub_remainingSeconds p = ceil_div d 1000"
      using True p(1) d(1,2) by (simp add: d_def [symmetric] min_def)
    ultimately have rem: "1 \<le> pub_remainingSeconds p" "pub_remainingSeconds p \<le> 7200"
      "1000 * pub_remainingSeconds p - 1000 < d" "d \<le> 1000 * pub_remainingSeconds p"
      using d by linarith+
    have ext: "pub_canExtend p \<longrightarrow> moment E (pub_idleExpiresAt p) < moment E (pub_hardExpiresAt p)"
      using d(2) p(4-6) moment_inj [of E "ses_idleExpiresAt t" "ses_hardExpiresAt t"]
        valid_session_instants [OF *(4)] by auto
    show ?thesis using rem d ready p(3-6) ext by (auto simp: d_def)
  next
    case False
    then show ?thesis using p ready by (auto simp: live_def)
  qed
qed

lemma demo_tick: "\<exists>p. publicRuntimeSessionStatus demo_env (session_json demo_active) ''2026-07-01T00:01:00.000Z'' = Inr p
   \<and> pub_canRun p"
proof -
  have "\<not> due demo_env demo_active ''2026-07-01T00:01:00.000Z''"
    by (simp add: due_def demo_active_def)
  then have "transitionRuntimeSession demo_env (session_json demo_active) (tick ''2026-07-01T00:01:00.000Z'') = Inr demo_active"
    unfolding transition_Inr
    by (intro exI [of _ demo_active] exI [of _ "''2026-07-01T00:01:00.000Z''"])
      (simp add: examined_def handle_def tick_def demo_active_def [THEN arg_cong [where f = ses_updatedAt]])
  then show ?thesis
    by (simp add: publicRuntimeSessionStatus_def) (simp add: demo_active_def)
qed

theorem public_status_bounds_witness:
  "\<exists>p. publicRuntimeSessionStatus demo_env (session_json demo_active) ''2026-07-01T00:01:00.000Z'' = Inr p
   \<and> 1 \<le> pub_remainingSeconds p \<and> pub_remainingSeconds p \<le> 7200"
  using demo_tick public_status_bounds by blast

end
