(* ===== verification/Catalog.thy ===== *)
theory Catalog
  imports Integrity Complex_Main "HOL-Library.AList"
begin

section \<open>The metadata the audits read: \<open>src/datahub/models.ts\<close>, \<open>src/types.ts\<close>\<close>

text \<open>
  Catalogued datasets with their governance aspects, the snapshot a harvest returns, the facts the
  consistency audit compares, and the findings. A field of the source that may be absent or \<open>null\<close> is an
  \<open>option\<close>. A \<open>Map\<close> is the list of its entries in insertion order. A character outside Latin-1 in a
  message (the dash) is written as its UTF-8 bytes.
\<close>

record SchemaField =
  fld_path :: string
  fld_type :: "string option"
  fld_tags :: "string list option"
  fld_glossaryTerms :: "string list option"

record LineageEdge =
  edge_upstream :: string
  edge_upstreamResolved :: bool
  edge_type :: "string option"

record LineageTopologyNode =
  top_urn :: string
  top_minHops :: int
  top_entityType :: string
  top_deprecated :: bool

record CatalogEntity =
  ent_urn :: string
  ent_name :: string
  ent_platform :: string
  ent_source :: string
  ent_fabric :: "string option"
  ent_description :: "string option"
  ent_owners :: "string list option"
  ent_domain :: "string option"
  ent_tags :: "string list option"
  ent_glossaryTerms :: "string list option"
  ent_deprecated :: "bool option"
  ent_fields :: "SchemaField list option"
  ent_upstreams :: "LineageEdge list option"

record CatalogSnapshot =
  snap_scanId :: string
  snap_entities :: "CatalogEntity list"
  snap_knownUrns :: "string list"
  snap_downstreamByRoot :: "(string \<times> LineageTopologyNode list) list"

text \<open>\<open>DataHubHarvestError\<close> of \<open>src/datahub/harvest-policy.ts\<close>.\<close>

datatype DataHubHarvestErrorCode = MCP_TOOL_ERROR | MCP_RESPONSE_INVALID | SEARCH_LIMIT_EXCEEDED
  | SEARCH_RESPONSE_INCOMPLETE | ENTITY_RESPONSE_INCOMPLETE | SCHEMA_RESPONSE_INCOMPLETE
  | SCHEMA_LIMIT_EXCEEDED | LINEAGE_RESPONSE_INCOMPLETE | HISTORY_CAPABILITY_REQUIRED
  | HARVEST_DEADLINE_EXCEEDED | PIPELINE_DEADLINE_EXCEEDED

datatype DataHubHarvestError = DataHubHarvestError DataHubHarvestErrorCode string

datatype FactKind = K_schema | K_ownership | K_lineage | K_glossary | K_domain | K_deprecation | K_insight

record AuditFact =
  fct_id :: string
  fct_kind :: FactKind
  fct_source :: string
  fct_scan :: "string option"
  fct_sourceRef :: "string option"
  fct_content :: string
  fct_metadata :: "(string \<times> json) list option"
  fct_createdAt :: string
  fct_importance :: "rat option"

datatype FindingType = F_contradiction | F_lineage_gap | F_governance_violation

datatype Severity = SEV_low | SEV_medium | SEV_high

record Finding =
  fnd_type :: FindingType
  fnd_severity :: Severity
  fnd_subject :: string
  fnd_summary :: string
  fnd_detail :: json
  fnd_recommendation :: "string option"

definition DEFAULT_SENSITIVE_FIELD_HINTS :: "string list" where
  "DEFAULT_SENSITIVE_FIELD_HINTS = [''email'', ''ssn'', ''phone'', ''dob'', ''birth'', ''salary'',
     ''passport'', ''iban'', ''credit'', ''address'', ''national_id'', ''tax_id'']"

definition looksSensitive :: "string \<Rightarrow> string list \<Rightarrow> bool" where
  "looksSensitive fieldPath hints =
     (let p = toLowerCase fieldPath in
      list_ex (\<lambda>value. let hint = toLowerCase (trim value) in hint \<noteq> [] \<and> str_includes p hint) hints)"

text \<open>\<open>xs ?? []\<close>\<close>

abbreviation list_or_empty :: "'a list option \<Rightarrow> 'a list" where
  "list_or_empty xs \<equiv> or_else xs []"

definition em_dash :: string where
  "em_dash = map char_of [226 :: nat, 128, 148]"

lemma looksSensitive_iff:
  "looksSensitive p hints \<longleftrightarrow>
     (\<exists>h \<in> set hints. toLowerCase (trim h) \<noteq> [] \<and> sublist (toLowerCase (trim h)) (toLowerCase p))"
  by (auto simp: looksSensitive_def list_ex_iff Let_def str_includes_iff)

subsection \<open>Grouping\<close>

text \<open>\<open>(m.get(k) ?? m.set(k, []).get(k)!).push(x)\<close> on a \<open>Map\<close> of arrays.\<close>

definition push :: "('k \<times> 'a list) list \<Rightarrow> 'k \<times> 'a \<Rightarrow> ('k \<times> 'a list) list" where
  "push m p = AList.update (fst p) (or_else (map_of m (fst p)) [] @ [snd p]) m"

definition group_by :: "('k \<times> 'a) list \<Rightarrow> ('k \<times> 'a list) list" where
  "group_by ps = foldl push [] ps"

lemma distinct_foldl_push: "distinct (map fst m) \<Longrightarrow> distinct (map fst (foldl push m ps))"
  by (induction ps arbitrary: m) (simp_all add: push_def distinct_update)

lemma distinct_group_by: "distinct (map fst (group_by ps))"
  by (simp add: group_by_def distinct_foldl_push)

lemma foldl_push:
  "map_of (foldl push m ps) k =
     (if map_of m k = None \<and> k \<notin> fst ` set ps then None
      else Some (or_else (map_of m k) [] @ map snd (filter (\<lambda>p. fst p = k) ps)))"
proof (induction ps arbitrary: m)
  case Nil
  then show ?case by (cases "map_of m k") auto
next
  case (Cons p ps)
  then show ?case by (auto simp: push_def update_conv')
qed

lemma map_of_group_by:
  "map_of (group_by ps) k = (if k \<in> fst ` set ps then Some (map snd (filter (\<lambda>p. fst p = k) ps)) else None)"
  by (simp add: group_by_def foldl_push)

lemma group_by_member:
  "(k, xs) \<in> set (group_by ps) \<longleftrightarrow> k \<in> fst ` set ps \<and> xs = map snd (filter (\<lambda>p. fst p = k) ps)"
  unfolding map_of_eq_Some_iff [OF distinct_group_by, symmetric] map_of_group_by by auto

end
