(* ===== verification/Governance.thy ===== *)
theory Governance
  imports Catalog "HOL-Library.AList"
begin

section \<open>The governance gate: \<open>src/governance/validator.ts\<close>, \<open>src/agents/governance-auditor.ts\<close>\<close>

text \<open>
  One result per rule and entity. The policy is compiled first: hints trimmed and lower-cased,
  classification identifiers exact. A policy that cannot be compiled throws, and so does G4 on a
  deprecated entity whose downstream topology the snapshot lacks.
\<close>

record GovernancePolicy =
  gp_sensitiveFieldHints :: "string list"
  gp_acceptedClassificationTagIdentifiers :: "string list"
  gp_acceptedClassificationTermIdentifiers :: "string list"

definition DEFAULT_GOVERNANCE_POLICY :: GovernancePolicy where
  "DEFAULT_GOVERNANCE_POLICY = \<lparr>gp_sensitiveFieldHints = DEFAULT_SENSITIVE_FIELD_HINTS,
     gp_acceptedClassificationTagIdentifiers = [''PII'', ''pii'', ''urn:li:tag:PII''],
     gp_acceptedClassificationTermIdentifiers = [''PII'', ''pii'', ''Classification.PII'',
       ''urn:li:glossaryTerm:Classification.PII'']\<rparr>"

text \<open>The compiled policy has the same three fields, its identifier sets without duplicates.\<close>

datatype GovernanceError = TypeError string | HarvestFailure DataHubHarvestError

definition compile_hint :: "string \<Rightarrow> GovernanceError + string" where
  "compile_hint value =
     (if trim value = []
      then Inl (TypeError ''GovernancePolicy.sensitiveFieldHints must contain only non-empty strings.'')
      else Inr (toLowerCase (trim value)))"

definition compileSensitiveFieldHints :: "string list \<Rightarrow> GovernanceError + string list" where
  "compileSensitiveFieldHints values =
     (if values = []
      then Inl (TypeError ''GovernancePolicy.sensitiveFieldHints must contain at least one hint.'')
      else map_result dedupe (collect (map compile_hint values)))"

definition exact_identifier :: "string \<Rightarrow> bool" where
  "exact_identifier value \<longleftrightarrow> value \<noteq> [] \<and> value = trim value \<and> \<not> list_ex is_control value"

definition compileExactIdentifiers :: "string list \<Rightarrow> string \<Rightarrow> GovernanceError + string list" where
  "compileExactIdentifiers values property =
     map_result dedupe (collect (map (\<lambda>value.
       if \<not> exact_identifier value
       then Inl (TypeError (''GovernancePolicy.'' @ property @ '' must contain only non-empty, exact identifiers.''))
       else Inr value) values))"

definition compileGovernancePolicy :: "GovernancePolicy \<Rightarrow> GovernanceError + GovernancePolicy" where
  "compileGovernancePolicy policy =
     bind_result (compileExactIdentifiers (gp_acceptedClassificationTagIdentifiers policy)
       ''acceptedClassificationTagIdentifiers'') (\<lambda>tags.
     bind_result (compileExactIdentifiers (gp_acceptedClassificationTermIdentifiers policy)
       ''acceptedClassificationTermIdentifiers'') (\<lambda>terms.
     if tags = [] \<and> terms = []
     then Inl (TypeError ''GovernancePolicy must accept at least one classification tag or term identifier.'')
     else bind_result (compileSensitiveFieldHints (gp_sensitiveFieldHints policy)) (\<lambda>hints.
     Inr \<lparr>gp_sensitiveFieldHints = hints, gp_acceptedClassificationTagIdentifiers = tags,
          gp_acceptedClassificationTermIdentifiers = terms\<rparr>)))"

datatype RuleId = G1 | G2 | G3 | G4 | G5 | G6

record GovernanceResult =
  gr_rule :: string
  gr_ruleId :: RuleId
  gr_subject :: string
  gr_passed :: bool
  gr_severity :: Severity
  gr_message :: string
  gr_evidence :: "(string \<times> json) list option"

subsection \<open>The rules\<close>

definition g1 :: "CatalogEntity \<Rightarrow> GovernanceResult" where
  "g1 e = (let owners = list_or_empty (ent_owners e); passed = owners \<noteq> [] in
     \<lparr>gr_rule = ''G1: dataset has an owner'', gr_ruleId = G1, gr_subject = ent_urn e, gr_passed = passed,
      gr_severity = (if passed then SEV_low else SEV_high),
      gr_message = (if passed then ''Owned by '' @ join '', '' owners @ ''.''
        else ''No owner assigned '' @ em_dash @ '' ungoverned asset (ownership aspect empty).''),
      gr_evidence = None\<rparr>)"

definition g2 :: "CatalogEntity \<Rightarrow> GovernanceResult" where
  "g2 e = (let passed = truthy (ent_domain e) in
     \<lparr>gr_rule = ''G2: dataset is assigned to a domain'', gr_ruleId = G2, gr_subject = ent_urn e,
      gr_passed = passed, gr_severity = (if passed then SEV_low else SEV_medium),
      gr_message = (if passed then ''In domain '' @ or_else (ent_domain e) [] @ ''.''
        else ''No domain assigned (domains aspect empty).''),
      gr_evidence = None\<rparr>)"

definition g3 :: "CatalogEntity \<Rightarrow> GovernanceResult" where
  "g3 e = (let desc = trim (or_else (ent_description e) []); passed = desc \<noteq> [] in
     \<lparr>gr_rule = ''G3: dataset has a description'', gr_ruleId = G3, gr_subject = ent_urn e,
      gr_passed = passed, gr_severity = (if passed then SEV_low else SEV_medium),
      gr_message = (if passed then ''Documented ('' @ show_nat (length desc) @ '' chars).''
        else ''No description '' @ em_dash @ '' undocumented asset.''),
      gr_evidence = None\<rparr>)"

definition g4 :: "CatalogEntity \<Rightarrow> CatalogSnapshot \<Rightarrow> GovernanceError + GovernanceResult" where
  "g4 e snapshot =
     (let rule = ''G4: deprecated dataset has no active downstream'' in
      if ent_deprecated e \<noteq> Some True
      then Inr \<lparr>gr_rule = rule, gr_ruleId = G4, gr_subject = ent_urn e, gr_passed = True,
        gr_severity = SEV_low, gr_message = ''Not deprecated '' @ em_dash @ '' skipped.'', gr_evidence = None\<rparr>
      else (case map_of (snap_downstreamByRoot snapshot) (ent_urn e) of
        None \<Rightarrow> Inl (HarvestFailure (DataHubHarvestError LINEAGE_RESPONSE_INCOMPLETE
          ''Complete downstream lineage is required to evaluate G4.''))
      | Some topology \<Rightarrow>
          let consumers = map top_urn (filter (\<lambda>n. top_minHops n = 1 \<and> \<not> top_deprecated n) topology);
              passed = consumers = [] in
          Inr \<lparr>gr_rule = rule, gr_ruleId = G4, gr_subject = ent_urn e, gr_passed = passed,
            gr_severity = (if passed then SEV_low else SEV_high),
            gr_message = (if passed then ''Deprecated with no active downstream consumers.''
              else ''Deprecated but still feeds '' @ formatCount (length consumers) ''active consumer''
                @ '': '' @ join '', '' consumers @ ''.''),
            gr_evidence = None\<rparr>))"

definition untyped_field :: "SchemaField \<Rightarrow> bool" where
  "untyped_field f \<longleftrightarrow> trim (or_else (fld_type f) []) = []"

definition g5 :: "CatalogEntity \<Rightarrow> GovernanceResult" where
  "g5 e = (let rule = ''G5: every schema field has a type''; fields = list_or_empty (ent_fields e) in
     if fields = []
     then \<lparr>gr_rule = rule, gr_ruleId = G5, gr_subject = ent_urn e, gr_passed = True, gr_severity = SEV_low,
       gr_message = ''No schema fields '' @ em_dash @ '' skipped.'', gr_evidence = None\<rparr>
     else let untyped = map fld_path (filter untyped_field fields); passed = untyped = [] in
       \<lparr>gr_rule = rule, gr_ruleId = G5, gr_subject = ent_urn e, gr_passed = passed,
        gr_severity = (if passed then SEV_low else SEV_medium),
        gr_message = (if passed then ''All '' @ formatCount (length fields) ''field'' @ '' typed.''
          else formatCount (length untyped) ''field'' @ '' missing a type: '' @ join '', '' untyped @ ''.''),
        gr_evidence = None\<rparr>)"

text \<open>A field the policy accepts as classified: one of its tags or terms is an accepted identifier.\<close>

definition classified :: "GovernancePolicy \<Rightarrow> SchemaField \<Rightarrow> bool" where
  "classified policy f \<longleftrightarrow>
     list_ex (\<lambda>t. t \<in> set (gp_acceptedClassificationTagIdentifiers policy)) (list_or_empty (fld_tags f))
     \<or> list_ex (\<lambda>t. t \<in> set (gp_acceptedClassificationTermIdentifiers policy)) (list_or_empty (fld_glossaryTerms f))"

definition g6 :: "CatalogEntity \<Rightarrow> GovernancePolicy \<Rightarrow> GovernanceResult" where
  "g6 e policy =
     (let rule = ''G6: sensitive fields carry a governance classification'';
          sensitive = filter (\<lambda>f. looksSensitive (fld_path f) (gp_sensitiveFieldHints policy))
            (list_or_empty (ent_fields e)) in
      if sensitive = []
      then \<lparr>gr_rule = rule, gr_ruleId = G6, gr_subject = ent_urn e, gr_passed = True, gr_severity = SEV_low,
        gr_message = ''No sensitive fields detected '' @ em_dash @ '' skipped.'', gr_evidence = None\<rparr>
      else let unclassified = map fld_path (filter (\<lambda>f. \<not> classified policy f) sensitive);
               passed = unclassified = [] in
        \<lparr>gr_rule = rule, gr_ruleId = G6, gr_subject = ent_urn e, gr_passed = passed,
         gr_severity = (if passed then SEV_low else SEV_high),
         gr_message = (if passed then ''All '' @ formatCount (length sensitive) ''sensitive field'' @ '' classified.''
           else formatCount (length unclassified) ''sensitive field'' @ '' ''
             @ (if length unclassified = 1 then ''lacks'' else ''lack'')
             @ '' an accepted classification tag/term: '' @ join '', '' unclassified @ ''.''),
         gr_evidence = Some
           [(''sensitiveFields'', JArr (map JStr (js_sort cmp_units (map fld_path sensitive)))),
            (''unclassifiedFields'', JArr (map JStr (js_sort cmp_units unclassified)))]\<rparr>)"

subsection \<open>Entities, snapshots, and the findings of the auditor\<close>

definition validateEntityWithPolicy ::
    "CatalogEntity \<Rightarrow> CatalogSnapshot \<Rightarrow> GovernancePolicy \<Rightarrow> GovernanceError + GovernanceResult list" where
  "validateEntityWithPolicy e snapshot policy =
     map_result (\<lambda>r4. [g1 e, g2 e, g3 e, r4, g5 e, g6 e policy]) (g4 e snapshot)"

definition validateEntity ::
    "CatalogEntity \<Rightarrow> CatalogSnapshot \<Rightarrow> GovernancePolicy \<Rightarrow> GovernanceError + GovernanceResult list" where
  "validateEntity e snapshot policy =
     bind_result (compileGovernancePolicy policy) (validateEntityWithPolicy e snapshot)"

text \<open>\<open>flatMap\<close> of a function that may throw.\<close>

definition gov_flatMap :: "('a \<Rightarrow> 'e + 'b list) \<Rightarrow> 'a list \<Rightarrow> 'e + 'b list" where
  "gov_flatMap f xs = map_result concat (collect (map f xs))"

text \<open>\<open>GovernanceValidator\<close>: its state is the compiled policy.\<close>

definition governance_validate :: "GovernancePolicy \<Rightarrow> CatalogSnapshot \<Rightarrow> GovernanceError + GovernanceResult list" where
  "governance_validate compiled snapshot =
     gov_flatMap (\<lambda>e. validateEntityWithPolicy e snapshot compiled) (snap_entities snapshot)"

definition gov_validateSnapshot ::
    "CatalogSnapshot \<Rightarrow> GovernancePolicy \<Rightarrow> GovernanceError + GovernanceResult list" where
  "gov_validateSnapshot snapshot policy =
     bind_result (compileGovernancePolicy policy) (\<lambda>compiled. governance_validate compiled snapshot)"

fun rule_name :: "RuleId \<Rightarrow> string" where
  "rule_name G1 = ''G1''" | "rule_name G2 = ''G2''" | "rule_name G3 = ''G3''"
| "rule_name G4 = ''G4''" | "rule_name G5 = ''G5''" | "rule_name G6 = ''G6''"

definition governance_finding :: "GovernanceResult \<Rightarrow> Finding" where
  "governance_finding r =
     \<lparr>fnd_type = F_governance_violation, fnd_severity = gr_severity r, fnd_subject = gr_subject r,
      fnd_summary = rule_name (gr_ruleId r) @ '': '' @ gr_message r,
      fnd_detail = JObj ([(''rule'', JStr (gr_rule r)), (''ruleId'', JStr (rule_name (gr_ruleId r)))]
        @ or_else (gr_evidence r) []),
      fnd_recommendation = Some (''Remediate '' @ rule_name (gr_ruleId r) @ '' ('' @ gr_rule r
        @ ''). Read-only '' @ em_dash @ '' a steward decides.'')\<rparr>"

definition governance_audit :: "GovernancePolicy \<Rightarrow> CatalogSnapshot \<Rightarrow> GovernanceError + Finding list" where
  "governance_audit compiled snapshot =
     map_result (\<lambda>rs. map governance_finding (filter (\<lambda>r. \<not> gr_passed r) rs))
       (governance_validate compiled snapshot)"

text \<open>\<open>ClassifierAgent.classify\<close>, the counts per domain and platform as association lists.\<close>

record Classification =
  cls_totalEntities :: nat
  cls_withLineage :: nat
  cls_sensitiveEntities :: nat
  cls_domains :: "(string \<times> nat) list"
  cls_platforms :: "(string \<times> nat) list"

definition bump :: "string \<Rightarrow> (string \<times> nat) list \<Rightarrow> (string \<times> nat) list" where
  "bump k m = AList.update k (or_else (map_of m k) 0 + 1) m"

definition classify_step :: "Classification \<Rightarrow> CatalogEntity \<Rightarrow> Classification" where
  "classify_step c e =
     c\<lparr>cls_domains := bump (or_else (ent_domain e) ''(none)'') (cls_domains c),
       cls_platforms := bump (ent_platform e) (cls_platforms c),
       cls_withLineage := cls_withLineage c + (if list_or_empty (ent_upstreams e) \<noteq> [] then 1 else 0),
       cls_sensitiveEntities := cls_sensitiveEntities c +
         (if list_ex (\<lambda>f. looksSensitive (fld_path f) DEFAULT_SENSITIVE_FIELD_HINTS) (list_or_empty (ent_fields e))
          then 1 else 0)\<rparr>"

definition classify :: "CatalogSnapshot \<Rightarrow> Classification" where
  "classify snapshot = foldl classify_step
     \<lparr>cls_totalEntities = length (snap_entities snapshot), cls_withLineage = 0, cls_sensitiveEntities = 0,
      cls_domains = [], cls_platforms = []\<rparr> (snap_entities snapshot)"

subsection \<open>What the rules mean\<close>

text \<open>The policy a rule states, without messages, evidence or the order of evaluation.\<close>

definition blank :: "string option \<Rightarrow> bool" where
  "blank s \<longleftrightarrow> (\<forall>c \<in> set (or_else s []). is_ws c)"

fun rule_holds :: "GovernancePolicy \<Rightarrow> CatalogSnapshot \<Rightarrow> CatalogEntity \<Rightarrow> RuleId \<Rightarrow> bool" where
  "rule_holds p snap e G1 \<longleftrightarrow> (\<exists>o1 os. ent_owners e = Some (o1 # os))"
| "rule_holds p snap e G2 \<longleftrightarrow> (\<exists>d. ent_domain e = Some d \<and> d \<noteq> [])"
| "rule_holds p snap e G3 \<longleftrightarrow> \<not> blank (ent_description e)"
| "rule_holds p snap e G4 \<longleftrightarrow> (ent_deprecated e = Some True \<longrightarrow>
     (\<forall>ns. map_of (snap_downstreamByRoot snap) (ent_urn e) = Some ns \<longrightarrow>
       (\<forall>n \<in> set ns. top_minHops n = 1 \<longrightarrow> top_deprecated n)))"
| "rule_holds p snap e G5 \<longleftrightarrow> (\<forall>f \<in> set (list_or_empty (ent_fields e)). \<not> blank (fld_type f))"
| "rule_holds p snap e G6 \<longleftrightarrow> (\<forall>f \<in> set (list_or_empty (ent_fields e)).
     looksSensitive (fld_path f) (gp_sensitiveFieldHints p) \<longrightarrow>
       (\<exists>t \<in> set (list_or_empty (fld_tags f)). t \<in> set (gp_acceptedClassificationTagIdentifiers p))
       \<or> (\<exists>t \<in> set (list_or_empty (fld_glossaryTerms f)). t \<in> set (gp_acceptedClassificationTermIdentifiers p)))"

definition lineage_known :: "CatalogSnapshot \<Rightarrow> CatalogEntity \<Rightarrow> bool" where
  "lineage_known snap e \<longleftrightarrow> (ent_deprecated e = Some True \<longrightarrow>
     map_of (snap_downstreamByRoot snap) (ent_urn e) \<noteq> None)"

definition verdict :: "GovernanceResult \<Rightarrow> string \<times> RuleId \<times> bool" where
  "verdict r = (gr_subject r, gr_ruleId r, gr_passed r)"

lemma truthy_iff: "truthy s \<longleftrightarrow> (\<exists>d. s = Some d \<and> d \<noteq> [])"
  by (cases s) auto

lemma trim_blank: "trim (or_else s []) = [] \<longleftrightarrow> blank s"
  using trim_nonempty [of "or_else s []"] by (auto simp: blank_def)

lemma classified_iff: "classified p f \<longleftrightarrow>
    (\<exists>t \<in> set (list_or_empty (fld_tags f)). t \<in> set (gp_acceptedClassificationTagIdentifiers p))
    \<or> (\<exists>t \<in> set (list_or_empty (fld_glossaryTerms f)). t \<in> set (gp_acceptedClassificationTermIdentifiers p))"
  by (auto simp: classified_def list_ex_iff)

lemma verdict_g1: "verdict (g1 e) = (ent_urn e, G1, rule_holds p snap e G1)"
  by (cases "ent_owners e"; cases "list_or_empty (ent_owners e)") (auto simp: verdict_def g1_def Let_def)

lemma verdict_g2: "verdict (g2 e) = (ent_urn e, G2, rule_holds p snap e G2)"
  by (simp add: verdict_def g2_def Let_def truthy_iff)

lemma verdict_g3: "verdict (g3 e) = (ent_urn e, G3, rule_holds p snap e G3)"
  by (simp add: verdict_def g3_def Let_def trim_blank)

lemma verdict_g4:
  "map_result verdict (g4 e snap) =
     (if lineage_known snap e then Inr (ent_urn e, G4, rule_holds p snap e G4)
      else Inl (HarvestFailure (DataHubHarvestError LINEAGE_RESPONSE_INCOMPLETE
        ''Complete downstream lineage is required to evaluate G4.'')))"
  by (auto simp: verdict_def g4_def Let_def lineage_known_def filter_empty_conv split: option.splits)

lemma verdict_g5: "verdict (g5 e) = (ent_urn e, G5, rule_holds p snap e G5)"
  by (auto simp: verdict_def g5_def Let_def filter_empty_conv untyped_field_def trim_blank)

lemma verdict_g6: "verdict (g6 e p) = (ent_urn e, G6, rule_holds p snap e G6)"
  by (auto simp: verdict_def g6_def Let_def filter_empty_conv classified_iff)

lemma entity_verdicts:
  "map_result (map verdict) (validateEntityWithPolicy e snap p) =
     (if lineage_known snap e
      then Inr (map (\<lambda>r. (ent_urn e, r, rule_holds p snap e r)) [G1, G2, G3, G4, G5, G6])
      else Inl (HarvestFailure (DataHubHarvestError LINEAGE_RESPONSE_INCOMPLETE
        ''Complete downstream lineage is required to evaluate G4.'')))"
proof (cases "g4 e snap")
  case (Inl x)
  then show ?thesis using verdict_g4 [of e snap p] by (auto simp: validateEntityWithPolicy_def split: if_splits)
next
  case (Inr r4)
  then have "lineage_known snap e" "verdict r4 = (ent_urn e, G4, rule_holds p snap e G4)"
    using verdict_g4 [of e snap p] by (auto split: if_splits)
  with Inr show ?thesis
    by (simp add: validateEntityWithPolicy_def verdict_g1 [of e p snap] verdict_g2 [of e p snap]
        verdict_g3 [of e p snap] verdict_g5 [of e p snap] verdict_g6 [of e p snap] del: rule_holds.simps)
qed

lemma flatMap_results:
  assumes "\<And>x. x \<in> set xs \<Longrightarrow> map_result (map v) (f x) = (if P x then Inr (h x) else Inl e)"
  shows "map_result (map v) (gov_flatMap f xs) = (if \<forall>x \<in> set xs. P x then Inr (concat (map h xs)) else Inl e)"
  using assms unfolding gov_flatMap_def
proof (induction xs)
  case (Cons x xs)
  have IH: "map_result (map v) (map_result concat (collect (map f xs)))
      = (if \<forall>x \<in> set xs. P x then Inr (concat (map h xs)) else Inl e)"
    using Cons by simp
  have x: "map_result (map v) (f x) = (if P x then Inr (h x) else Inl e)" using Cons.prems [of x] by simp
  show ?case
    using IH x by (cases "f x"; cases "collect (map f xs)") (auto split: if_splits)
qed simp

lemma validate_verdicts:
  "map_result (map verdict) (governance_validate p snap) =
     (if \<forall>e \<in> set (snap_entities snap). lineage_known snap e
      then Inr (concat (map (\<lambda>e. map (\<lambda>r. (ent_urn e, r, rule_holds p snap e r)) [G1, G2, G3, G4, G5, G6])
        (snap_entities snap)))
      else Inl (HarvestFailure (DataHubHarvestError LINEAGE_RESPONSE_INCOMPLETE
        ''Complete downstream lineage is required to evaluate G4.'')))"
  unfolding governance_validate_def by (rule flatMap_results) (rule entity_verdicts)

subsection \<open>Compiling the policy\<close>

lemma is_ws_lower [simp]: "is_ws (lower_char c) = is_ws c"
  by (auto simp: is_ws_def lower_char_def Let_def)

lemma lower_lower [simp]: "lower_char (lower_char c) = lower_char c"
  by (auto simp: lower_char_def Let_def)

lemma toLowerCase_idem [simp]: "toLowerCase (toLowerCase s) = toLowerCase s"
  by (simp add: toLowerCase_def)

lemma dropWhile_ws_lower: "dropWhile is_ws (map lower_char s) = map lower_char (dropWhile is_ws s)"
  by (induction s) auto

lemma trim_toLowerCase: "trim (toLowerCase s) = toLowerCase (trim s)"
  by (simp add: trim_def toLowerCase_def rev_map dropWhile_ws_lower)

lemma dropWhile_both:
  "dropWhile P (rev (dropWhile P (rev (dropWhile P s)))) = rev (dropWhile P (rev (dropWhile P s)))"
proof (cases "dropWhile P (rev (dropWhile P s))")
  case (Cons a u)
  define t where "t = dropWhile P s"
  have t: "dropWhile P (rev t) = a # u" using Cons by (simp add: t_def)
  then have "t \<noteq> []" by auto
  have "last (a # u) = last (rev t)"
    using t by (metis last_appendR list.distinct(1) takeWhile_dropWhile_id)
  also have "\<dots> = hd t" using \<open>t \<noteq> []\<close> by (simp add: last_rev)
  finally have "\<not> P (last (a # u))" using \<open>t \<noteq> []\<close> hd_dropWhile [of P s] by (simp add: t_def)
  moreover have "rev (a # u) = last (a # u) # tl (rev (a # u))"
    by (metis hd_Cons_tl hd_rev list.distinct(1) rev_is_Nil_conv)
  ultimately show ?thesis unfolding Cons by (metis dropWhile.simps(2))
next
  case Nil
  show ?thesis unfolding Nil by simp
qed

lemma trim_idem [simp]: "trim (trim s) = trim s"
  unfolding trim_def using dropWhile_both [of is_ws s] by simp

lemma collect_map_ok:
  "collect (map (\<lambda>x. if P x then Inl (e x) else Inr (g x)) xs) = Inr ys \<longleftrightarrow> (\<forall>x \<in> set xs. \<not> P x) \<and> ys = map g xs"
  by (induction xs arbitrary: ys) (auto split: if_splits)

lemma compileExactIdentifiers_Inr:
  "compileExactIdentifiers vs prop = Inr ids \<longleftrightarrow> (\<forall>v \<in> set vs. exact_identifier v) \<and> ids = dedupe vs"
  by (auto simp: compileExactIdentifiers_def collect_map_ok)

lemma compileSensitiveFieldHints_Inr:
  "compileSensitiveFieldHints vs = Inr hs \<longleftrightarrow>
     vs \<noteq> [] \<and> (\<forall>v \<in> set vs. trim v \<noteq> []) \<and> hs = dedupe (map (\<lambda>v. toLowerCase (trim v)) vs)"
  unfolding compileSensitiveFieldHints_def compile_hint_def [abs_def] by (auto simp: collect_map_ok)

lemma looksSensitive_compiled:
  "compileSensitiveFieldHints vs = Inr hs \<Longrightarrow> looksSensitive p hs = looksSensitive p vs"
  by (auto simp: compileSensitiveFieldHints_Inr looksSensitive_iff trim_toLowerCase)

lemma compiled_means_same:
  assumes "compileGovernancePolicy policy = Inr p"
  shows "rule_holds p snap e r = rule_holds policy snap e r"
proof -
  from assms have "compileSensitiveFieldHints (gp_sensitiveFieldHints policy) = Inr (gp_sensitiveFieldHints p)"
    "set (gp_acceptedClassificationTagIdentifiers p) = set (gp_acceptedClassificationTagIdentifiers policy)"
    "set (gp_acceptedClassificationTermIdentifiers p) = set (gp_acceptedClassificationTermIdentifiers policy)"
    by (auto simp: compileGovernancePolicy_def compileExactIdentifiers_Inr split: if_splits)
  then show ?thesis
    using looksSensitive_compiled by (cases r) auto
qed

subsection \<open>Properties\<close>

text \<open>
  C23: the governance gate decides the policy as written. For a policy that compiles, the gate returns
  exactly when the snapshot holds the downstream topology of every deprecated entity, and then gives for
  every entity in order the six rules in order, each passed exactly when it holds of the entity under the
  policy as configured: an owner, a domain, a description with a visible character, no active direct
  consumer of a deprecated dataset, typed fields, and an accepted identifier, exact, on every sensitive
  field. The auditor is silent exactly when all rules hold.
\<close>

theorem governance_verdicts:
  assumes "compileGovernancePolicy policy = Inr p"
  shows "map_result (map verdict) (gov_validateSnapshot snap policy) =
     (if \<forall>e \<in> set (snap_entities snap). lineage_known snap e
      then Inr (concat (map (\<lambda>e. map (\<lambda>r. (ent_urn e, r, rule_holds policy snap e r)) [G1, G2, G3, G4, G5, G6])
        (snap_entities snap)))
      else Inl (HarvestFailure (DataHubHarvestError LINEAGE_RESPONSE_INCOMPLETE
        ''Complete downstream lineage is required to evaluate G4.'')))
   \<and> (governance_audit p snap = Inr [] \<longleftrightarrow>
        (\<forall>e \<in> set (snap_entities snap). lineage_known snap e \<and> (\<forall>r. rule_holds policy snap e r)))"
proof -
  note v = validate_verdicts [of p snap, unfolded compiled_means_same [OF assms]]
  have "governance_audit p snap = Inr [] \<longleftrightarrow>
      (\<exists>rs. governance_validate p snap = Inr rs \<and> (\<forall>x \<in> set (map verdict rs). snd (snd x)))"
    by (cases "governance_validate p snap") (auto simp: governance_audit_def verdict_def filter_empty_conv)
  also have "\<dots> \<longleftrightarrow> (\<exists>vs. map_result (map verdict) (governance_validate p snap) = Inr vs \<and> (\<forall>x \<in> set vs. snd (snd x)))"
    by (cases "governance_validate p snap") auto
  also have "\<dots> \<longleftrightarrow> (\<forall>e \<in> set (snap_entities snap). lineage_known snap e \<and> (\<forall>r. rule_holds policy snap e r))"
  proof -
    have all: "(\<forall>r. rule_holds policy snap e r) \<longleftrightarrow> (\<forall>r \<in> {G1, G2, G3, G4, G5, G6}. rule_holds policy snap e r)" for e
    proof
      assume *: "\<forall>r \<in> {G1, G2, G3, G4, G5, G6}. rule_holds policy snap e r"
      show "\<forall>r. rule_holds policy snap e r"
      proof
        fix r show "rule_holds policy snap e r" using * by (cases r) auto
      qed
    qed blast
    show ?thesis unfolding v all by (auto simp del: rule_holds.simps)
  qed
  finally show ?thesis
    using v assms by (simp add: gov_validateSnapshot_def del: rule_holds.simps)
qed

lemma default_compiles: "\<exists>p. compileGovernancePolicy DEFAULT_GOVERNANCE_POLICY = Inr p"
proof -
  have "list_all exact_identifier (gp_acceptedClassificationTagIdentifiers DEFAULT_GOVERNANCE_POLICY)"
    "list_all exact_identifier (gp_acceptedClassificationTermIdentifiers DEFAULT_GOVERNANCE_POLICY)"
    "list_all (\<lambda>h. trim h \<noteq> []) (gp_sensitiveFieldHints DEFAULT_GOVERNANCE_POLICY)"
    by code_simp+
  then obtain hs where "compileSensitiveFieldHints (gp_sensitiveFieldHints DEFAULT_GOVERNANCE_POLICY) = Inr hs"
    by (auto simp: compileSensitiveFieldHints_Inr list_all_iff DEFAULT_GOVERNANCE_POLICY_def
        DEFAULT_SENSITIVE_FIELD_HINTS_def)
  moreover have "dedupe (gp_acceptedClassificationTagIdentifiers DEFAULT_GOVERNANCE_POLICY) \<noteq> []"
    by (simp add: DEFAULT_GOVERNANCE_POLICY_def dedupe_def)
  moreover note \<open>list_all exact_identifier (gp_acceptedClassificationTagIdentifiers DEFAULT_GOVERNANCE_POLICY)\<close>
    \<open>list_all exact_identifier (gp_acceptedClassificationTermIdentifiers DEFAULT_GOVERNANCE_POLICY)\<close>
  ultimately show ?thesis
    by (simp add: compileGovernancePolicy_def compileExactIdentifiers_def collect_map_ok list_all_iff)
qed

text \<open>An ungoverned dataset with a sensitive field whose only tag is a lookalike.\<close>

definition demo_entity :: CatalogEntity where
  "demo_entity = \<lparr>ent_urn = ''urn:li:dataset:users'', ent_name = ''users'', ent_platform = ''snowflake'',
     ent_source = ''ingest'', ent_fabric = None, ent_description = Some '' '', ent_owners = Some [''urn:li:corpuser:a''],
     ent_domain = None, ent_tags = None, ent_glossaryTerms = None, ent_deprecated = None,
     ent_fields = Some [\<lparr>fld_path = ''user.Email'', fld_type = Some ''string'', fld_tags = Some [''NOT_PII''],
       fld_glossaryTerms = None\<rparr>], ent_upstreams = None\<rparr>"

definition demo_snapshot :: CatalogSnapshot where
  "demo_snapshot = \<lparr>snap_scanId = ''scan-1'', snap_entities = [demo_entity],
     snap_knownUrns = [''urn:li:dataset:users''], snap_downstreamByRoot = []\<rparr>"

theorem governance_verdicts_witness:
  "map_result (map verdict) (gov_validateSnapshot demo_snapshot DEFAULT_GOVERNANCE_POLICY) =
     Inr (map (\<lambda>(r, b). (''urn:li:dataset:users'', r, b))
       [(G1, True), (G2, False), (G3, False), (G4, True), (G5, True), (G6, False)])"
proof -
  obtain p where p: "compileGovernancePolicy DEFAULT_GOVERNANCE_POLICY = Inr p" using default_compiles by blast
  have "looksSensitive ''user.Email'' DEFAULT_SENSITIVE_FIELD_HINTS" by code_simp
  with governance_verdicts [OF p, of demo_snapshot] show ?thesis
    by (simp add: demo_snapshot_def demo_entity_def lineage_known_def blank_def is_ws_def
        DEFAULT_GOVERNANCE_POLICY_def)
qed

end
