(* ===== verification/BlastRadius.thy ===== *)
theory BlastRadius
  imports Catalog "HOL-Library.AList"
begin

section \<open>Downstream impact: \<open>src/datahub/blast-radius.ts\<close>\<close>

text \<open>
  The impact of a subject is read off its proven topology when the snapshot has one. Otherwise a
  breadth-first search over the upstream edges of the audited entities finds its in-scope consumers, and
  each consumer's proven topology is composed with the distance found. Hops of the search are natural
  numbers; the \<open>distances\<close> map is its list of entries in insertion order.
\<close>

record ImpactedAsset =
  imp_urn :: string
  imp_minHops :: int

datatype Impact = IMP_none | IMP_low | IMP_medium | IMP_high | IMP_critical

record BlastRadiusResult =
  brr_rootUrn :: string
  brr_downstream :: "ImpactedAsset list"
  brr_maxHops :: int
  brr_truncated :: bool
  brr_impact :: Impact

record BlastRadiusOptions =
  bro_maxHops :: "int option"
  bro_maxAssets :: "int option"

definition impactOf :: "nat \<Rightarrow> Impact" where
  "impactOf n = (if n = 0 then IMP_none else if n \<le> 2 then IMP_low
     else if n \<le> 5 then IMP_medium else if n \<le> 20 then IMP_high else IMP_critical)"

definition compareImpacted :: "ImpactedAsset \<Rightarrow> ImpactedAsset \<Rightarrow> int" where
  "compareImpacted a b = (if imp_minHops a - imp_minHops b \<noteq> 0 then imp_minHops a - imp_minHops b
     else cmp_units (imp_urn a) (imp_urn b))"

definition impacted :: "string \<times> int \<Rightarrow> ImpactedAsset" where
  "impacted p = \<lparr>imp_urn = fst p, imp_minHops = snd p\<rparr>"

definition fromProvenTopology ::
    "string \<Rightarrow> LineageTopologyNode list \<Rightarrow> int \<Rightarrow> int \<Rightarrow> BlastRadiusResult" where
  "fromProvenTopology rootUrn nodes maxHops maxAssets =
     (let withinHopBound = js_sort compareImpacted
            (map (\<lambda>n. impacted (top_urn n, top_minHops n)) (filter (\<lambda>n. top_minHops n \<le> maxHops) nodes));
          downstream = take (nat maxAssets) withinHopBound;
          truncated = list_ex (\<lambda>n. top_minHops n > maxHops) nodes \<or> int (length withinHopBound) > maxAssets in
      \<lparr>brr_rootUrn = rootUrn, brr_downstream = downstream, brr_maxHops = maxHops, brr_truncated = truncated,
       brr_impact = impactOf (length downstream)\<rparr>)"

subsection \<open>Consumers and the search\<close>

text \<open>The \<open>consumers\<close> map, filled edge by edge, its values then sorted.\<close>

definition add_edge :: "string \<Rightarrow> (string \<Rightarrow> string list option) \<Rightarrow> LineageEdge \<Rightarrow> (string \<Rightarrow> string list option)" where
  "add_edge urn m edge = m(edge_upstream edge \<mapsto> or_else (m (edge_upstream edge)) [] @ [urn])"

definition add_entity :: "(string \<Rightarrow> string list option) \<Rightarrow> CatalogEntity \<Rightarrow> (string \<Rightarrow> string list option)" where
  "add_entity m e = foldl (add_edge (ent_urn e)) m (list_or_empty (ent_upstreams e))"

definition consumers :: "CatalogEntity list \<Rightarrow> string \<Rightarrow> string list option" where
  "consumers es u = map_option (js_sort cmp_units) (foldl add_entity Map.empty es u)"

definition consumers_of :: "CatalogEntity list \<Rightarrow> string \<Rightarrow> string list" where
  "consumers_of es u = or_else (consumers es u) []"

text \<open>The inner loop: new consumers get a distance and a place in the queue.\<close>

fun visit :: "string \<Rightarrow> nat \<Rightarrow> string list \<Rightarrow> (string \<times> nat) list \<Rightarrow> (string \<times> nat) list \<Rightarrow>
    (string \<times> nat) list \<times> (string \<times> nat) list" where
  "visit origin hops [] dst queue = (dst, queue)"
| "visit origin hops (d # ds) dst queue =
     (if d = origin \<or> d \<in> set (map fst dst) then visit origin hops ds dst queue
      else visit origin hops ds (dst @ [(d, hops)]) (queue @ [(d, hops)]))"

lemma set_consumers_fold:
  "set (or_else (foldl (add_edge urn) m edges u) []) =
     set (or_else (m u) []) \<union> (if \<exists>edge \<in> set edges. edge_upstream edge = u then {urn} else {})"
  by (induction edges arbitrary: m) (auto simp: add_edge_def)

lemma set_consumers_entities:
  "set (or_else (foldl add_entity m es u) []) = set (or_else (m u) []) \<union>
     {ent_urn e |e. e \<in> set es \<and> (\<exists>edge \<in> set (list_or_empty (ent_upstreams e)). edge_upstream edge = u)}"
  by (induction es arbitrary: m) (auto simp: add_entity_def set_consumers_fold)

lemma set_consumers_of:
  "set (consumers_of es u) =
     {ent_urn e |e. e \<in> set es \<and> (\<exists>edge \<in> set (list_or_empty (ent_upstreams e)). edge_upstream edge = u)}"
  using set_consumers_entities [of Map.empty es u]
  by (cases "foldl add_entity Map.empty es u") (auto simp: consumers_of_def consumers_def)

definition unseen :: "CatalogEntity list \<Rightarrow> (string \<times> nat) list \<Rightarrow> string set" where
  "unseen es dst = ent_urn ` set es - set (map fst dst)"

lemma finite_unseen [simp]: "finite (unseen es dst)"
  by (simp add: unseen_def)

lemma visit_measure:
  assumes "visit origin hops ds dst queue = (dst', queue')" "set ds \<subseteq> ent_urn ` set es"
  shows "card (unseen es dst') + length queue' = card (unseen es dst) + length queue"
  using assms
proof (induction origin hops ds dst queue rule: visit.induct)
  case (2 origin hops d ds dst queue)
  show ?case
  proof (cases "d = origin \<or> d \<in> set (map fst dst)")
    case True
    then show ?thesis using 2 by simp
  next
    case False
    have "unseen es (dst @ [(d, hops)]) = unseen es dst - {d}" by (auto simp: unseen_def)
    moreover have "d \<in> unseen es dst" using False 2(4) by (simp add: unseen_def)
    ultimately have "card (unseen es (dst @ [(d, hops)])) + 1 = card (unseen es dst)"
      using card.remove [OF finite_unseen, of d es dst] by simp
    moreover have "card (unseen es dst') + length queue'
        = card (unseen es (dst @ [(d, hops)])) + length (queue @ [(d, hops)])"
      using 2(2) [OF False] 2(3,4) False by simp
    ultimately show ?thesis by simp
  qed
qed simp

function bfs :: "CatalogEntity list \<Rightarrow> string \<Rightarrow> nat \<Rightarrow> (string \<times> nat) list \<Rightarrow> (string \<times> nat) list \<Rightarrow> bool \<Rightarrow>
    (string \<times> nat) list \<times> bool" where
  "bfs es origin maxHops dst [] truncated = (dst, truncated)"
| "bfs es origin maxHops dst ((u, hops) # queue) truncated =
     (if hops \<ge> maxHops
      then bfs es origin maxHops dst queue (truncated \<or> consumers_of es u \<noteq> [])
      else let (dst', queue') = visit origin (hops + 1) (consumers_of es u) dst queue in
        bfs es origin maxHops dst' queue' truncated)"
  by pat_completeness auto
termination
proof (relation "measure (\<lambda>(es, origin, maxHops, dst, queue, truncated). card (unseen es dst) + length queue)")
  fix es origin maxHops dst u hops queue truncated x dst' queue'
  assume "\<not> maxHops \<le> hops" "x = visit origin (hops + 1) (consumers_of es u) dst queue" "(dst', queue') = x"
  then have "visit origin (hops + 1) (consumers_of es u) dst queue = (dst', queue')" by simp
  then have "card (unseen es dst') + length queue' = card (unseen es dst) + length queue"
    by (rule visit_measure) (auto simp: set_consumers_of)
  then show "((es, origin, maxHops, dst', queue', truncated), (es, origin, maxHops, dst, (u, hops) # queue, truncated))
      \<in> measure (\<lambda>(es, origin, maxHops, dst, queue, truncated). card (unseen es dst) + length queue)"
    by simp
qed auto

subsection \<open>Composition with the proven topologies\<close>

definition incomplete :: "string \<Rightarrow> DataHubHarvestError" where
  "incomplete what = DataHubHarvestError LINEAGE_RESPONSE_INCOMPLETE
     (''Complete downstream lineage is unavailable for '' @ what @ ''.'')"

definition compose_node ::
    "string \<Rightarrow> int \<Rightarrow> int \<Rightarrow> (string \<times> int) list \<times> bool \<Rightarrow> LineageTopologyNode \<Rightarrow> (string \<times> int) list \<times> bool" where
  "compose_node origin maxHops consumerHops s node =
     (let minHops = consumerHops + top_minHops node; distances = fst s in
      if minHops > maxHops then (distances, True)
      else if top_urn node \<noteq> origin
              \<and> (case map_of distances (top_urn node) of None \<Rightarrow> True | Some current \<Rightarrow> minHops < current)
      then (AList.update (top_urn node) minHops distances, snd s)
      else s)"

fun compose_all ::
    "CatalogSnapshot \<Rightarrow> string \<Rightarrow> int \<Rightarrow> (string \<times> int) list \<Rightarrow> (string \<times> int) list \<times> bool \<Rightarrow>
     DataHubHarvestError + (string \<times> int) list \<times> bool" where
  "compose_all snap origin maxHops [] s = Inr s"
| "compose_all snap origin maxHops ((consumerUrn, consumerHops) # cs) s =
     (case map_of (snap_downstreamByRoot snap) consumerUrn of
        None \<Rightarrow> Inl (incomplete ''an audited consumer'')
      | Some topology \<Rightarrow>
          compose_all snap origin maxHops cs (foldl (compose_node origin maxHops consumerHops) s topology))"

definition clamp :: "int \<Rightarrow> int \<Rightarrow> int \<Rightarrow> int" where
  "clamp lo hi n = max lo (min hi n)"

definition computeBlastRadius ::
    "CatalogSnapshot \<Rightarrow> string \<Rightarrow> BlastRadiusOptions \<Rightarrow> DataHubHarvestError + BlastRadiusResult" where
  "computeBlastRadius snap subject options =
     (let rootUrn = takeWhile (\<lambda>c. c \<noteq> CHR ''#'') subject;
          maxHops = clamp 1 10 (or_else (bro_maxHops options) 3);
          maxAssets = clamp 1 10000 (or_else (bro_maxAssets options) 500) in
      case map_of (snap_downstreamByRoot snap) rootUrn of
        Some topology \<Rightarrow> Inr (fromProvenTopology rootUrn topology maxHops maxAssets)
      | None \<Rightarrow>
          if list_ex (\<lambda>e. ent_urn e = rootUrn) (snap_entities snap) then Inl (incomplete ''the audited asset'')
          else
            let (found, short) = bfs (snap_entities snap) rootUrn (nat maxHops) [] [(rootUrn, 0)] False;
                inScope = map (\<lambda>(u, h). (u, int h)) found in
            bind_result (compose_all snap rootUrn maxHops inScope (inScope, short)) (\<lambda>(distances, truncated).
            let withinAssetBound = js_sort compareImpacted (map impacted distances);
                downstream = take (nat maxAssets) withinAssetBound in
            Inr \<lparr>brr_rootUrn = rootUrn, brr_downstream = downstream, brr_maxHops = maxHops,
                 brr_truncated = (truncated \<or> int (length withinAssetBound) > maxAssets),
                 brr_impact = impactOf (length downstream)\<rparr>))"

subsection \<open>The search finds shortest distances\<close>

definition feeds :: "CatalogEntity list \<Rightarrow> (string \<times> string) set" where
  "feeds es = {(u, v). v \<in> set (consumers_of es u)}"

text \<open>The number of edges on a shortest path.\<close>

definition at_hops :: "CatalogEntity list \<Rightarrow> string \<Rightarrow> nat \<Rightarrow> string \<Rightarrow> bool" where
  "at_hops es origin n v \<longleftrightarrow> (origin, v) \<in> feeds es ^^ n \<and> (\<forall>m < n. (origin, v) \<notin> feeds es ^^ m)"

lemma at_hops_unique: "at_hops es origin m v \<Longrightarrow> at_hops es origin n v \<Longrightarrow> m = n"
  unfolding at_hops_def by (metis linorder_neqE_nat)

lemma at_hops_le:
  assumes "(origin, v) \<in> feeds es ^^ n"
  obtains m where "m \<le> n" "at_hops es origin m v"
proof -
  have "at_hops es origin (LEAST m. (origin, v) \<in> feeds es ^^ m) v"
    unfolding at_hops_def using LeastI [of "\<lambda>m. (origin, v) \<in> feeds es ^^ m", OF assms] not_less_Least by blast
  with that show ?thesis using Least_le [of "\<lambda>m. (origin, v) \<in> feeds es ^^ m", OF assms] by blast
qed

definition known :: "string \<Rightarrow> (string \<times> nat) list \<Rightarrow> string set" where
  "known origin dst = insert origin (set (map fst dst))"

lemma visit_spec:
  "visit origin k ds dst queue = (dst', queue') \<Longrightarrow>
   \<exists>new. dst' = dst @ map (\<lambda>d. (d, k)) new \<and> queue' = queue @ map (\<lambda>d. (d, k)) new
     \<and> distinct new \<and> set new = set ds - known origin dst"
proof (induction origin k ds dst queue rule: visit.induct)
  case (2 origin k d ds dst queue)
  show ?case
  proof (cases "d = origin \<or> d \<in> set (map fst dst)")
    case True
    then have "d \<in> known origin dst" by (auto simp: known_def)
    with True 2 show ?thesis by auto
  next
    case False
    then obtain new where new: "dst' = (dst @ [(d, k)]) @ map (\<lambda>d. (d, k)) new"
      "queue' = (queue @ [(d, k)]) @ map (\<lambda>d. (d, k)) new" "distinct new"
      "set new = set ds - known origin (dst @ [(d, k)])"
      using 2(2) [OF False] 2(3) by auto
    moreover have "d \<notin> known origin dst" using False by (auto simp: known_def)
    ultimately show ?thesis by (intro exI [of _ "d # new"]) (auto simp: known_def)
  qed
qed simp

definition bfs_inv :: "CatalogEntity list \<Rightarrow> string \<Rightarrow> nat \<Rightarrow> (string \<times> nat) list \<Rightarrow> (string \<times> nat) list \<Rightarrow> bool" where
  "bfs_inv es origin maxHops dst queue \<longleftrightarrow>
     distinct (map fst dst) \<and> origin \<notin> set (map fst dst)
     \<and> (\<forall>(v, d) \<in> set dst. at_hops es origin d v \<and> d \<le> maxHops)
     \<and> set queue \<subseteq> insert (origin, 0) (set dst)
     \<and> sorted (map snd queue) \<and> (\<forall>p \<in> set queue. snd p \<le> snd (hd queue) + 1)
     \<and> (\<forall>(u, h) \<in> insert (origin, 0) (set dst) - set queue. h < maxHops \<longrightarrow> set (consumers_of es u) \<subseteq> known origin dst)"

lemma root_at_0 [simp]: "at_hops es origin 0 origin"
  by (simp add: at_hops_def)

lemma bfs_inv_start: "bfs_inv es origin maxHops [] [(origin, 0)]"
  by (simp add: bfs_inv_def)

lemma bfs_inv_placed:
  assumes "bfs_inv es origin maxHops dst queue" "(u, h) \<in> insert (origin, 0) (set dst)"
  shows "at_hops es origin h u" "h \<le> maxHops"
  using assms by (auto simp: bfs_inv_def)

lemma known_placed: "v \<in> known origin dst \<longleftrightarrow> (\<exists>h. (v, h) \<in> insert (origin, 0) (set dst))"
  by (force simp: known_def)

text \<open>Everything nearer than the head of the queue has been found.\<close>

lemma bfs_inv_complete:
  assumes inv: "bfs_inv es origin maxHops dst queue" and "\<forall>p \<in> set queue. n \<le> snd p" "n \<le> maxHops"
    and "(origin, v) \<in> feeds es ^^ n"
  shows "v \<in> known origin dst"
  using assms(2-4)
proof (induction n arbitrary: v)
  case 0
  then show ?case by (simp add: known_def)
next
  case (Suc n)
  then obtain w where w: "(origin, w) \<in> feeds es ^^ n" "(w, v) \<in> feeds es" by auto
  have "w \<in> known origin dst" using Suc.IH [OF _ _ w(1)] Suc.prems(1,2) by fastforce
  then obtain h where h: "(w, h) \<in> insert (origin, 0) (set dst)" unfolding known_placed by blast
  obtain m where m: "m \<le> n" "at_hops es origin m w" by (rule at_hops_le [OF w(1)])
  have "h = m" using at_hops_unique [OF bfs_inv_placed(1) [OF inv h] m(2)] .
  then have "(w, h) \<notin> set queue" "h < maxHops" using Suc.prems(1,2) m(1) by fastforce+
  then have "set (consumers_of es w) \<subseteq> known origin dst"
    using inv h unfolding bfs_inv_def by blast
  then show ?case using w(2) by (auto simp: feeds_def)
qed

lemma bfs_inv_skip:
  assumes inv: "bfs_inv es origin maxHops dst ((u, h) # queue)" and "h \<ge> maxHops"
  shows "bfs_inv es origin maxHops dst queue"
proof -
  have "\<forall>p \<in> set queue. snd p \<le> snd (hd queue) + 1"
    using inv by (cases queue) (fastforce simp: bfs_inv_def)+
  then show ?thesis using assms unfolding bfs_inv_def by auto
qed

lemma bfs_inv_expand:
  assumes inv: "bfs_inv es origin maxHops dst ((u, h) # queue)" and "h < maxHops"
    and vis: "visit origin (h + 1) (consumers_of es u) dst queue = (dst', queue')"
  shows "bfs_inv es origin maxHops dst' queue'"
proof -
  obtain new where new: "dst' = dst @ map (\<lambda>d. (d, h + 1)) new" "queue' = queue @ map (\<lambda>d. (d, h + 1)) new"
    "distinct new" "set new = set (consumers_of es u) - known origin dst"
    using visit_spec [OF vis] by blast
  have placed: "(u, h) \<in> insert (origin, 0) (set dst)" using inv by (auto simp: bfs_inv_def)
  have hops: "at_hops es origin (h + 1) v" if "v \<in> set new" for v
  proof -
    have "(origin, v) \<in> feeds es ^^ (h + 1)"
      using bfs_inv_placed(1) [OF inv placed] that new(4) by (auto simp: at_hops_def feeds_def)
    moreover have "(origin, v) \<notin> feeds es ^^ m" if "m < h + 1" for m
    proof
      assume r: "(origin, v) \<in> feeds es ^^ m"
      have "\<forall>p \<in> set ((u, h) # queue). m \<le> snd p" "m \<le> maxHops"
        using inv that \<open>h < maxHops\<close> by (fastforce simp: bfs_inv_def)+
      then have "v \<in> known origin dst" using bfs_inv_complete [OF inv _ _ r] by blast
      with \<open>v \<in> set new\<close> new(4) show False by blast
    qed
    ultimately show ?thesis by (simp add: at_hops_def)
  qed
  have known': "known origin dst' = known origin dst \<union> set new" by (auto simp: known_def new(1) image_image)
  have q: "sorted (map snd queue)" "\<forall>p \<in> set queue. h \<le> snd p \<and> snd p \<le> h + 1"
    using inv by (auto simp: bfs_inv_def)
  have "sorted (map (\<lambda>x. Suc h) new)" by (induction new) auto
  then have sorted': "sorted (map snd queue')" using q by (auto simp: new(2) sorted_append comp_def)
  have near: "\<forall>p \<in> set queue'. snd p \<le> snd (hd queue') + 1"
    using q new(2) by (cases queue; cases new) auto
  have keys: "distinct (map fst dst')" "origin \<notin> set (map fst dst')"
    using inv new by (auto simp: bfs_inv_def known_def comp_def)
  have found: "\<forall>(v, d) \<in> set dst'. at_hops es origin d v \<and> d \<le> maxHops"
    using inv hops \<open>h < maxHops\<close> by (auto simp: bfs_inv_def new(1))
  have queued: "set queue' \<subseteq> insert (origin, 0) (set dst')"
    using inv by (auto simp: bfs_inv_def new(1,2))
  have "set (consumers_of es w) \<subseteq> known origin dst'"
    if w: "(w, k) \<in> insert (origin, 0) (set dst') - set queue'" "k < maxHops" for w k
  proof (cases "(w, k) = (u, h)")
    case True
    then show ?thesis using known' new(4) by auto
  next
    case False
    then have "(w, k) \<in> insert (origin, 0) (set dst) - set ((u, h) # queue)"
      using w(1) by (auto simp: new(1,2))
    then show ?thesis using inv w(2) known' unfolding bfs_inv_def by blast
  qed
  then have closed: "\<forall>(w, k) \<in> insert (origin, 0) (set dst') - set queue'.
      k < maxHops \<longrightarrow> set (consumers_of es w) \<subseteq> known origin dst'"
    by blast
  show ?thesis
    unfolding bfs_inv_def by (intro conjI keys found queued sorted' near closed)
qed

lemma bfs_correct:
  "bfs es origin maxHops dst queue truncated = (found, short) \<Longrightarrow> bfs_inv es origin maxHops dst queue \<Longrightarrow>
   bfs_inv es origin maxHops found []"
proof (induction es origin maxHops dst queue truncated rule: bfs.induct)
  case (2 es origin maxHops dst u hops queue truncated)
  show ?case
  proof (cases "hops \<ge> maxHops")
    case True
    then show ?thesis using 2(1) [OF True] 2(3,4) bfs_inv_skip by simp
  next
    case False
    obtain dst' queue' where v: "visit origin (hops + 1) (consumers_of es u) dst queue = (dst', queue')"
      by (cases "visit origin (hops + 1) (consumers_of es u) dst queue")
    then have "bfs_inv es origin maxHops dst' queue'" using bfs_inv_expand [OF 2(4)] False by simp
    then show ?thesis using 2(2) [OF False _ refl] v 2(3) False by (simp add: v)
  qed
qed simp

lemma bfs_distances:
  assumes "bfs es origin maxHops [] [(origin, 0)] False = (found, short)"
  shows "distinct (map fst found)"
    "(v, n) \<in> set found \<longleftrightarrow> v \<noteq> origin \<and> at_hops es origin n v \<and> n \<le> maxHops"
proof -
  note inv = bfs_correct [OF assms bfs_inv_start]
  show "distinct (map fst found)" using inv by (simp add: bfs_inv_def)
  have root_free: "origin \<notin> set (map fst found)" using inv by (simp add: bfs_inv_def)
  show "(v, n) \<in> set found \<longleftrightarrow> v \<noteq> origin \<and> at_hops es origin n v \<and> n \<le> maxHops"
  proof
    assume "(v, n) \<in> set found"
    then show "v \<noteq> origin \<and> at_hops es origin n v \<and> n \<le> maxHops"
      using bfs_inv_placed [OF inv, of v n] root_free by force
  next
    assume a: "v \<noteq> origin \<and> at_hops es origin n v \<and> n \<le> maxHops"
    then have "v \<in> known origin found"
      using bfs_inv_complete [OF inv] by (auto simp: at_hops_def)
    with a obtain m where m: "(v, m) \<in> set found" by (auto simp: known_def)
    then have "at_hops es origin m v" using bfs_inv_placed(1) [OF inv] by blast
    with a m show "(v, n) \<in> set found" using at_hops_unique by blast
  qed
qed

text \<open>The flag: a node at the bound still has consumers.\<close>

definition cut_off :: "CatalogEntity list \<Rightarrow> nat \<Rightarrow> (string \<times> nat) set \<Rightarrow> bool" where
  "cut_off es maxHops ps \<longleftrightarrow> (\<exists>(u, h) \<in> ps. maxHops \<le> h \<and> consumers_of es u \<noteq> [])"

lemma cut_off_at:
  assumes "\<And>u h. (u, h) \<in> ps \<Longrightarrow> h \<le> maxHops"
  shows "cut_off es maxHops ps \<longleftrightarrow> (\<exists>u. (u, maxHops) \<in> ps \<and> consumers_of es u \<noteq> [])"
proof
  assume "cut_off es maxHops ps"
  then obtain u h where "(u, h) \<in> ps" "maxHops \<le> h" "consumers_of es u \<noteq> []" by (auto simp: cut_off_def)
  moreover from this assms have "h = maxHops" by (simp add: le_antisym)
  ultimately show "\<exists>u. (u, maxHops) \<in> ps \<and> consumers_of es u \<noteq> []" by blast
qed (auto simp: cut_off_def)

lemma bfs_flag:
  "bfs es origin maxHops dst queue truncated = (found, short) \<Longrightarrow>
   set queue \<subseteq> insert (origin, 0) (set dst) \<Longrightarrow>
   (truncated \<Longrightarrow> cut_off es maxHops (insert (origin, 0) (set dst))) \<Longrightarrow>
   (cut_off es maxHops (insert (origin, 0) (set dst) - set queue) \<Longrightarrow> truncated) \<Longrightarrow>
   short \<longleftrightarrow> cut_off es maxHops (insert (origin, 0) (set found))"
proof (induction es origin maxHops dst queue truncated rule: bfs.induct)
  case (1 es origin maxHops dst truncated)
  then show ?case by auto
next
  case (2 es origin maxHops dst u h queue truncated)
  show ?case
  proof (cases "h \<ge> maxHops")
    case True
    have "bfs es origin maxHops dst queue (truncated \<or> consumers_of es u \<noteq> []) = (found, short)"
      using 2(3) True by simp
    then show ?thesis
      using 2(4-6) True by (intro 2(1) [OF True]) (auto simp: cut_off_def)
  next
    case False
    obtain dst' queue' where v: "visit origin (h + 1) (consumers_of es u) dst queue = (dst', queue')"
      by (cases "visit origin (h + 1) (consumers_of es u) dst queue")
    obtain new where new: "dst' = dst @ map (\<lambda>d. (d, h + 1)) new" "queue' = queue @ map (\<lambda>d. (d, h + 1)) new"
      using visit_spec [OF v] by blast
    have "bfs es origin maxHops dst' queue' truncated = (found, short)"
      using 2(3) False v by simp
    then show ?thesis
      using 2(4-6) False new by (intro 2(2) [OF False v [symmetric] refl]) (auto simp: cut_off_def)
  qed
qed

subsection \<open>Composition keeps the least distance\<close>

text \<open>One proven downstream asset, offered at a distance.\<close>

definition offer :: "string \<Rightarrow> int \<Rightarrow> (string \<times> int) list \<times> bool \<Rightarrow> string \<times> int \<Rightarrow> (string \<times> int) list \<times> bool" where
  "offer origin maxHops s p =
     (if snd p > maxHops then (fst s, True)
      else if fst p \<noteq> origin \<and> (case map_of (fst s) (fst p) of None \<Rightarrow> True | Some current \<Rightarrow> snd p < current)
      then (AList.update (fst p) (snd p) (fst s), snd s)
      else s)"

definition offers :: "CatalogSnapshot \<Rightarrow> (string \<times> int) list \<Rightarrow> (string \<times> int) list" where
  "offers snap cs = concat (map (\<lambda>(c, h). map (\<lambda>n. (top_urn n, h + top_minHops n))
     (or_else (map_of (snap_downstreamByRoot snap) c) [])) cs)"

lemma compose_node_offer:
  "compose_node origin maxHops h s n = offer origin maxHops s (top_urn n, h + top_minHops n)"
  by (simp only: compose_node_def offer_def Let_def fst_conv snd_conv)

lemma compose_all_offers:
  "compose_all snap origin maxHops cs s =
     (if \<forall>(c, h) \<in> set cs. map_of (snap_downstreamByRoot snap) c \<noteq> None
      then Inr (foldl (offer origin maxHops) s (offers snap cs))
      else Inl (incomplete ''an audited consumer''))"
proof (induction snap origin maxHops cs s rule: compose_all.induct)
  case (2 snap origin maxHops c h cs s)
  have "foldl (compose_node origin maxHops h) s ns
      = foldl (offer origin maxHops) s (map (\<lambda>n. (top_urn n, h + top_minHops n)) ns)" for ns
    by (simp add: foldl_map compose_node_offer [abs_def])
  with 2 show ?case by (auto simp: offers_def split: option.splits)
qed (simp add: offers_def)

definition candidate :: "string \<Rightarrow> int \<Rightarrow> (string \<times> int) list \<Rightarrow> (string \<times> int) list \<Rightarrow> string \<Rightarrow> int \<Rightarrow> bool" where
  "candidate origin maxHops d os v n \<longleftrightarrow> map_of d v = Some n \<or> (v, n) \<in> set os \<and> v \<noteq> origin \<and> n \<le> maxHops"

definition least :: "(int \<Rightarrow> bool) \<Rightarrow> int \<Rightarrow> bool" where
  "least P n \<longleftrightarrow> P n \<and> (\<forall>m. P m \<longrightarrow> n \<le> m)"

lemma least_cong:
  assumes "\<And>m. Q m \<Longrightarrow> P m" "\<And>m. P m \<Longrightarrow> \<exists>l \<le> m. Q l"
  shows "least Q n \<longleftrightarrow> least P n"
proof
  assume n: "least Q n"
  have "n \<le> m" if m: "P m" for m
  proof -
    obtain l where "l \<le> m" "Q l" using assms(2) [OF m] by blast
    then show ?thesis using n by (force simp: least_def)
  qed
  with n assms(1) show "least P n" by (simp add: least_def)
next
  assume n: "least P n"
  then obtain l where l: "l \<le> n" "Q l" using assms(2) by (auto simp: least_def)
  then have "l = n" using n assms(1) by (force simp: least_def)
  with l n assms(1) show "least Q n" by (simp add: least_def)
qed

lemma offer_candidates:
  "least (candidate origin maxHops (fst (offer origin maxHops s p)) os v) n \<longleftrightarrow>
   least (candidate origin maxHops (fst s) (p # os) v) n"
proof (rule least_cong)
  obtain q k where p: "p = (q, k)" by (cases p)
  have m: "map_of (fst (offer origin maxHops s p)) =
      (if k > maxHops \<or> q = origin then map_of (fst s)
       else if map_of (fst s) q = None \<or> k < the (map_of (fst s) q) then (map_of (fst s))(q \<mapsto> k) else map_of (fst s))"
    by (cases "map_of (fst s) q") (simp_all add: p offer_def update_conv')
  show "candidate origin maxHops (fst s) (p # os) v m"
    if "candidate origin maxHops (fst (offer origin maxHops s p)) os v m" for m
    using that unfolding candidate_def m by (auto simp: p split: if_splits)
  show "\<exists>l \<le> m. candidate origin maxHops (fst (offer origin maxHops s p)) os v l"
    if "candidate origin maxHops (fst s) (p # os) v m" for m
  proof (cases "v = q \<and> q \<noteq> origin \<and> k \<le> maxHops \<and> (map_of (fst s) v = Some m \<or> m = k)")
    case True
    then have "\<exists>l \<le> m. map_of (fst (offer origin maxHops s p)) v = Some l"
      unfolding m by (cases "map_of (fst s) q") auto
    then show ?thesis by (auto simp: candidate_def)
  next
    case False
    then have "candidate origin maxHops (fst (offer origin maxHops s p)) os v m"
      using that unfolding candidate_def m by (auto simp: p)
    then show ?thesis by blast
  qed
qed

lemma mem_list_or_empty: "x \<in> set (list_or_empty xs) \<longleftrightarrow> (\<exists>ys. xs = Some ys \<and> x \<in> set ys)"
  by (cases xs) auto

lemma offers_least:
  "map_of (fst (foldl (offer origin maxHops) s os)) v = Some n \<longleftrightarrow> least (candidate origin maxHops (fst s) os v) n"
proof (induction os arbitrary: s)
  case Nil
  then show ?case by (auto simp: least_def candidate_def)
next
  case (Cons p os)
  then show ?case using offer_candidates by simp
qed

lemma offers_distinct:
  "distinct (map fst (fst s)) \<Longrightarrow> distinct (map fst (fst (foldl (offer origin maxHops) s os)))"
  by (induction os arbitrary: s) (auto simp: offer_def distinct_update)

lemma offers_flag:
  "snd (foldl (offer origin maxHops) s os) \<longleftrightarrow> snd s \<or> (\<exists>(v, n) \<in> set os. n > maxHops)"
  by (induction os arbitrary: s) (auto simp: offer_def)

subsection \<open>Sorting\<close>

interpretation by_distance: comparator compareImpacted
proof unfold_locales
  show "0 \<le> compareImpacted a b \<longleftrightarrow> compareImpacted b a \<le> 0" for a b
    using units.cmp_sym by (auto simp: compareImpacted_def)
  show "compareImpacted a c \<le> 0" if "compareImpacted a b \<le> 0" "compareImpacted b c \<le> 0" for a b c
    using that units.cmp_trans [of "imp_urn a" "imp_urn b" "imp_urn c"]
    by (auto simp: compareImpacted_def split: if_splits)
qed

subsection \<open>Properties\<close>

text \<open>
  The reference: \<open>v\<close> can be reached in \<open>n\<close> hops, along the shortest path of upstream edges inside the audited
  scope, or by such a path to a consumer and on through that consumer's proven topology.
\<close>

definition reachable_in :: "CatalogSnapshot \<Rightarrow> string \<Rightarrow> nat \<Rightarrow> string \<Rightarrow> int \<Rightarrow> bool" where
  "reachable_in snap origin maxHops v n \<longleftrightarrow> v \<noteq> origin \<and> n \<le> int maxHops \<and>
     ((\<exists>k. at_hops (snap_entities snap) origin k v \<and> n = int k)
      \<or> (\<exists>c k ns node. c \<noteq> origin \<and> at_hops (snap_entities snap) origin k c \<and> k \<le> maxHops
           \<and> map_of (snap_downstreamByRoot snap) c = Some ns \<and> node \<in> set ns
           \<and> top_urn node = v \<and> n = int k + top_minHops node))"

definition in_scope_consumer :: "CatalogSnapshot \<Rightarrow> string \<Rightarrow> nat \<Rightarrow> string \<Rightarrow> bool" where
  "in_scope_consumer snap origin maxHops c \<longleftrightarrow> c \<noteq> origin \<and> (\<exists>k \<le> maxHops. at_hops (snap_entities snap) origin k c)"

definition bound_of :: "BlastRadiusOptions \<Rightarrow> nat" where
  "bound_of options = nat (clamp 1 10 (or_else (bro_maxHops options) 3))"

definition asset_bound :: "BlastRadiusOptions \<Rightarrow> nat" where
  "asset_bound options = nat (clamp 1 10000 (or_else (bro_maxAssets options) 500))"

lemma asset_bound_int: "int (asset_bound options) = clamp 1 10000 (or_else (bro_maxAssets options) 500)"
  by (simp add: asset_bound_def clamp_def)

lemma bound_of_int: "int (bound_of options) = clamp 1 10 (or_else (bro_maxHops options) 3)"
  by (simp add: bound_of_def clamp_def)

lemma inj_impacted: "inj impacted"
  by (auto simp: inj_def impacted_def)

text \<open>The distances as a sorted list of assets.\<close>

lemma sorted_assets:
  fixes ds
  defines "all \<equiv> js_sort compareImpacted (map impacted ds)"
  assumes "distinct (map fst ds)"
  shows "sorted_wrt (\<lambda>a b. compareImpacted a b \<le> 0) all" "distinct (map imp_urn all)"
    "impacted (v, n) \<in> set all \<longleftrightarrow> map_of ds v = Some n"
proof -
  show "sorted_wrt (\<lambda>a b. compareImpacted a b \<le> 0) all"
    unfolding all_def by (rule by_distance.sorted_js_sort)
  have urns: "map imp_urn (map impacted ds) = map fst ds" by (simp add: impacted_def comp_def)
  have "mset (map imp_urn all) = mset (map imp_urn (map impacted ds))"
    by (simp only: mset_map all_def mset_js_sort)
  then have "mset (map imp_urn all) = mset (map fst ds)" unfolding urns .
  then show "distinct (map imp_urn all)" using assms(2) mset_eq_imp_distinct_iff by blast
  show "impacted (v, n) \<in> set all \<longleftrightarrow> map_of ds v = Some n"
    unfolding all_def set_js_sort set_map inj_image_mem_iff [OF inj_impacted]
    using assms(2) by (simp add: map_of_eq_Some_iff)
qed

text \<open>What the composition offers is what the consumers' topologies reach.\<close>

lemma offers_Nil: "offers snap [] = []"
  by (simp add: offers_def)

lemma offers_Cons: "offers snap ((c, h) # cs) =
    map (\<lambda>node. (top_urn node, h + top_minHops node)) (list_or_empty (map_of (snap_downstreamByRoot snap) c)) @ offers snap cs"
  by (simp add: offers_def)

lemma offers_mem: "(v, n) \<in> set (offers snap (map (\<lambda>(u, h). (u, int h)) found)) \<longleftrightarrow>
    (\<exists>c k ns node. (c, k) \<in> set found \<and> map_of (snap_downstreamByRoot snap) c = Some ns \<and> node \<in> set ns
       \<and> top_urn node = v \<and> n = int k + top_minHops node)"
proof (induction found)
  case (Cons p found)
  obtain u h where p: "p = (u, h)" by (cases p)
  have "(v, n) \<in> set (offers snap (map (\<lambda>(u, h). (u, int h)) (p # found))) \<longleftrightarrow>
      (\<exists>ns node. map_of (snap_downstreamByRoot snap) u = Some ns \<and> node \<in> set ns \<and> top_urn node = v
         \<and> n = int h + top_minHops node)
      \<or> (v, n) \<in> set (offers snap (map (\<lambda>(u, h). (u, int h)) found))"
    unfolding p by (cases "map_of (snap_downstreamByRoot snap) u") (auto simp: offers_Cons)
  then show ?case unfolding Cons.IH p by (simp add: ex_disj_distrib conj_disj_distribR)
qed (simp add: offers_Nil)

text \<open>Something is left out: a proven asset, a consumer or a composed asset further away than the bound.\<close>

definition beyond_bound :: "CatalogSnapshot \<Rightarrow> string \<Rightarrow> nat \<Rightarrow> bool" where
  "beyond_bound snap origin maxHops \<longleftrightarrow> (case map_of (snap_downstreamByRoot snap) origin of
      Some ns \<Rightarrow> \<exists>node \<in> set ns. int maxHops < top_minHops node
    | None \<Rightarrow> (\<exists>u. at_hops (snap_entities snap) origin maxHops u \<and> consumers_of (snap_entities snap) u \<noteq> [])
        \<or> (\<exists>c k ns node. c \<noteq> origin \<and> at_hops (snap_entities snap) origin k c \<and> k \<le> maxHops
             \<and> map_of (snap_downstreamByRoot snap) c = Some ns \<and> node \<in> set ns \<and> int maxHops < int k + top_minHops node))"

text \<open>The result on a list of all the assets within the hop bound, cut at the asset bound.\<close>

definition cut_result :: "string \<Rightarrow> nat \<Rightarrow> nat \<Rightarrow> bool \<Rightarrow> ImpactedAsset list \<Rightarrow> BlastRadiusResult" where
  "cut_result origin maxHops maxAssets beyond all =
     \<lparr>brr_rootUrn = origin, brr_downstream = take maxAssets all, brr_maxHops = int maxHops,
      brr_truncated = (beyond \<or> maxAssets < length all), brr_impact = impactOf (length (take maxAssets all))\<rparr>"

text \<open>All the assets: those of the root's proven topology, or those the search and the composition reach.\<close>

definition all_assets :: "CatalogSnapshot \<Rightarrow> string \<Rightarrow> nat \<Rightarrow> ImpactedAsset list \<Rightarrow> bool" where
  "all_assets snap origin maxHops all \<longleftrightarrow> sorted_wrt (\<lambda>a b. compareImpacted a b \<le> 0) all
     \<and> (case map_of (snap_downstreamByRoot snap) origin of
          Some ns \<Rightarrow> mset all = {#impacted (top_urn node, top_minHops node). node \<in># filter_mset (\<lambda>n. top_minHops n \<le> int maxHops) (mset ns)#}
        | None \<Rightarrow> distinct (map imp_urn all)
            \<and> (\<forall>v n. impacted (v, n) \<in> set all \<longleftrightarrow> least (reachable_in snap origin maxHops v) n))"

lemma proven_result:
  assumes "map_of (snap_downstreamByRoot snap) origin = Some ns"
  shows "\<exists>all. fromProvenTopology origin ns (int H) (int A) = cut_result origin H A (beyond_bound snap origin H) all
    \<and> all_assets snap origin H all"
proof -
  let ?all = "js_sort compareImpacted (map (\<lambda>n. impacted (top_urn n, top_minHops n)) (filter (\<lambda>n. top_minHops n \<le> int H) ns))"
  have "sorted_wrt (\<lambda>a b. compareImpacted a b \<le> 0) ?all" by (rule by_distance.sorted_js_sort)
  then have "all_assets snap origin H ?all" using assms by (simp add: all_assets_def mset_js_sort)
  moreover have "fromProvenTopology origin ns (int H) (int A) = cut_result origin H A (beyond_bound snap origin H) ?all"
    using assms by (simp add: fromProvenTopology_def cut_result_def beyond_bound_def Let_def list_ex_iff del: length_take)
  ultimately show ?thesis by blast
qed

lemma composed_result:
  fixes options
  assumes "map_of (snap_downstreamByRoot snap) origin = None" "origin \<notin> ent_urn ` set (snap_entities snap)"
    and "takeWhile (\<lambda>c. c \<noteq> CHR ''#'') subject = origin"
  defines "H \<equiv> bound_of options" and "A \<equiv> asset_bound options"
  shows "(\<exists>c. in_scope_consumer snap origin H c \<and> map_of (snap_downstreamByRoot snap) c = None)
      \<and> computeBlastRadius snap subject options = Inl (incomplete ''an audited consumer'')
    \<or> (\<forall>c. in_scope_consumer snap origin H c \<longrightarrow> map_of (snap_downstreamByRoot snap) c \<noteq> None)
      \<and> (\<exists>all. computeBlastRadius snap subject options = Inr (cut_result origin H A (beyond_bound snap origin H) all)
           \<and> all_assets snap origin H all)"
proof -
  obtain found short where b: "bfs (snap_entities snap) origin H [] [(origin, 0)] False = (found, short)"
    by (cases "bfs (snap_entities snap) origin H [] [(origin, 0)] False")
  note found = bfs_distances [OF b]
  have short: "short \<longleftrightarrow> cut_off (snap_entities snap) H (insert (origin, 0) (set found))"
    by (rule bfs_flag [OF b]) (auto simp: cut_off_def)
  define cs where "cs = map (\<lambda>(u, h). (u, int h)) found"
  have cs: "(v, n) \<in> set cs \<longleftrightarrow> (\<exists>k. n = int k \<and> (v, k) \<in> set found)" for v n
    unfolding cs_def by (auto simp: image_iff intro: bexI [of _ "(v, _)"])
  have keys: "map fst cs = map fst found" by (auto simp: cs_def)
  have scope: "in_scope_consumer snap origin H c \<longleftrightarrow> c \<in> set (map fst cs)" for c
  proof -
    have "c \<in> set (map fst found) \<longleftrightarrow> (\<exists>k. (c, k) \<in> set found)" by force
    then show ?thesis unfolding keys in_scope_consumer_def by (auto simp: found(2))
  qed
  have outside: "\<not> list_ex (\<lambda>e. ent_urn e = origin) (snap_entities snap)"
    using assms(2) by (auto simp: list_ex_iff)
  define final where "final = foldl (offer origin (int H)) (cs, short) (offers snap cs)"
  define all where "all = js_sort compareImpacted (map impacted (fst final))"
  have compute: "computeBlastRadius snap subject options =
      (if \<forall>(c, h) \<in> set cs. map_of (snap_downstreamByRoot snap) c \<noteq> None
       then Inr (cut_result origin H A (snd final) all) else Inl (incomplete ''an audited consumer''))"
    using assms(1) outside compose_all_offers [of snap origin "int H" cs "(cs, short)", folded final_def]
    unfolding computeBlastRadius_def assms(3) bound_of_int [symmetric] asset_bound_int [symmetric]
      H_def [symmetric] A_def [symmetric] nat_int b Let_def prod.case cs_def [symmetric] cut_result_def all_def
    by (simp split: prod.split del: bfs.simps)
  have start: "distinct (map fst (fst (cs, short)))" using found(1) keys by simp
  have final: "map_of (fst final) v = Some n \<longleftrightarrow> least (candidate origin (int H) cs (offers snap cs) v) n" for v n
    unfolding final_def using offers_least [of origin "int H" "(cs, short)"] by simp
  have final_distinct: "distinct (map fst (fst final))"
    unfolding final_def by (rule offers_distinct [OF start])
  have cand: "candidate origin (int H) cs (offers snap cs) v n \<longleftrightarrow> reachable_in snap origin H v n" for v n
  proof -
    have "map_of cs v = Some n \<longleftrightarrow> v \<noteq> origin \<and> n \<le> int H \<and> (\<exists>k. at_hops (snap_entities snap) origin k v \<and> n = int k)"
      using start found(2) cs by (auto simp: map_of_eq_Some_iff)
    then show ?thesis
      unfolding candidate_def reachable_in_def cs_def offers_mem found(2) by blast
  qed
  note assets = sorted_assets [OF final_distinct, folded all_def]
  have "all_assets snap origin H all"
    using assets assms(1) by (simp add: all_assets_def final cand [abs_def])
  moreover have "snd final \<longleftrightarrow> beyond_bound snap origin H"
  proof -
    have "0 < H" by (simp add: H_def bound_of_def clamp_def)
    then have at_bound: "(u, H) \<in> insert (origin, 0) (set found) \<longleftrightarrow> at_hops (snap_entities snap) origin H u" for u
      using found(2) [of u H] at_hops_unique [of "snap_entities snap" origin H origin 0] by auto
    have "\<And>u h. (u, h) \<in> insert (origin, 0) (set found) \<Longrightarrow> h \<le> H" using found(2) by auto
    then have "short \<longleftrightarrow> (\<exists>u. at_hops (snap_entities snap) origin H u \<and> consumers_of (snap_entities snap) u \<noteq> [])"
      unfolding short at_bound [symmetric] by (rule cut_off_at)
    moreover have "(\<exists>(v, n) \<in> set (offers snap cs). int H < n) \<longleftrightarrow>
        (\<exists>v n. (v, n) \<in> set (offers snap cs) \<and> int H < n)" by auto
    ultimately show ?thesis
      unfolding final_def offers_flag snd_conv beyond_bound_def assms(1) option.case
      by (auto simp: cs_def offers_mem found(2)) blast+
  qed
  moreover have "(\<forall>(c, h) \<in> set cs. map_of (snap_downstreamByRoot snap) c \<noteq> None) \<longleftrightarrow>
      (\<forall>c. in_scope_consumer snap origin H c \<longrightarrow> map_of (snap_downstreamByRoot snap) c \<noteq> None)"
    unfolding scope by auto
  ultimately show ?thesis unfolding compute by auto
qed

text \<open>
  C22: the blast radius of any subject. Let the root be the subject without its field. If the root has a proven
  topology, the result lists its assets within the hop bound. If it has none and is itself audited, the call
  fails; otherwise it fails exactly when an in-scope consumer within the bound has no proven topology, and else
  lists the assets reachable within the bound by the search and by composition, each once and at its least
  distance. The list is in order of distance and then URN, is cut at the asset bound, and is marked truncated if and only if
  it was cut there or something reachable lies beyond the hop bound.
\<close>

theorem blast_radius_shortest:
  fixes subject :: string
  defines "origin \<equiv> takeWhile (\<lambda>c. c \<noteq> CHR ''#'') subject"
  shows "case computeBlastRadius snap subject options of
      Inl e \<Rightarrow> map_of (snap_downstreamByRoot snap) origin = None
        \<and> (if origin \<in> ent_urn ` set (snap_entities snap) then e = incomplete ''the audited asset''
           else e = incomplete ''an audited consumer''
             \<and> (\<exists>c. in_scope_consumer snap origin (bound_of options) c \<and> map_of (snap_downstreamByRoot snap) c = None))
    | Inr r \<Rightarrow> (map_of (snap_downstreamByRoot snap) origin = None \<longrightarrow> origin \<notin> ent_urn ` set (snap_entities snap)
          \<and> (\<forall>c. in_scope_consumer snap origin (bound_of options) c \<longrightarrow> map_of (snap_downstreamByRoot snap) c \<noteq> None))
        \<and> (\<exists>all. all_assets snap origin (bound_of options) all
             \<and> r = cut_result origin (bound_of options) (asset_bound options) (beyond_bound snap origin (bound_of options)) all)"
proof (cases "map_of (snap_downstreamByRoot snap) origin")
  case (Some ns)
  then have "computeBlastRadius snap subject options
      = Inr (fromProvenTopology origin ns (int (bound_of options)) (int (asset_bound options)))"
    by (simp add: computeBlastRadius_def origin_def Let_def bound_of_int asset_bound_int)
  with Some proven_result [OF Some, of "bound_of options" "asset_bound options"] show ?thesis by auto
next
  case None
  show ?thesis
  proof (cases "origin \<in> ent_urn ` set (snap_entities snap)")
    case True
    then have "computeBlastRadius snap subject options = Inl (incomplete ''the audited asset'')"
      using None unfolding origin_def by (auto simp: computeBlastRadius_def list_ex_iff Let_def)
    with None True show ?thesis by simp
  next
    case False
    from composed_result [OF None False, of subject options] None False show ?thesis
      unfolding origin_def by auto
  qed
qed

text \<open>A dangling upstream \<open>x\<close> with one audited consumer \<open>a\<close>, whose proven topology names \<open>b\<close>.\<close>

definition demo_consumer :: CatalogEntity where
  "demo_consumer = \<lparr>ent_urn = ''a'', ent_name = ''a'', ent_platform = ''p'', ent_source = ''s'',
     ent_fabric = None, ent_description = None, ent_owners = None, ent_domain = None, ent_tags = None,
     ent_glossaryTerms = None, ent_deprecated = None, ent_fields = None,
     ent_upstreams = Some [\<lparr>edge_upstream = ''x'', edge_upstreamResolved = False, edge_type = None\<rparr>]\<rparr>"

definition demo_scope :: CatalogSnapshot where
  "demo_scope = \<lparr>snap_scanId = ''scan'', snap_entities = [demo_consumer], snap_knownUrns = [''a'', ''b''],
     snap_downstreamByRoot = [(''a'',
       [\<lparr>top_urn = ''b'', top_minHops = 1, top_entityType = ''dataset'', top_deprecated = False\<rparr>])]\<rparr>"

definition demo_bounds :: BlastRadiusOptions where
  "demo_bounds = \<lparr>bro_maxHops = None, bro_maxAssets = None\<rparr>"

lemma demo_radius:
  "map_result brr_downstream (computeBlastRadius demo_scope ''x#field'' demo_bounds) = Inr [impacted (''a'', 1), impacted (''b'', 2)]"
  by code_simp

theorem blast_radius_shortest_witness:
  "least (reachable_in demo_scope ''x'' 3 ''b'') 2"
proof -
  obtain r where r: "computeBlastRadius demo_scope ''x#field'' demo_bounds = Inr r"
    "brr_downstream r = [impacted (''a'', 1), impacted (''b'', 2)]"
    using demo_radius by (cases "computeBlastRadius demo_scope ''x#field'' demo_bounds") auto
  have bounds: "bound_of demo_bounds = 3" by (simp add: bound_of_def demo_bounds_def clamp_def)
  have origin: "takeWhile (\<lambda>c. c \<noteq> CHR ''#'') ''x#field'' = ''x''" by simp
  obtain all where all: "all_assets demo_scope ''x'' 3 all"
    "r = cut_result ''x'' 3 (asset_bound demo_bounds) (beyond_bound demo_scope ''x'' 3) all"
    using blast_radius_shortest [of demo_scope "''x#field''" demo_bounds] unfolding r(1) bounds origin sum.case
    by blast
  have "map_of (snap_downstreamByRoot demo_scope) ''x'' = None" by (simp add: demo_scope_def)
  moreover have "impacted (''b'', 2) \<in> set (brr_downstream r)" unfolding r(2) by simp
  then have "impacted (''b'', 2) \<in> set all" unfolding all(2) by (auto simp: cut_result_def dest: in_set_takeD)
  ultimately show ?thesis using all(1) by (simp add: all_assets_def)
qed

end
