(* ===== verification/Harvest.thy ===== *)
theory Harvest
  imports Catalog
begin

section \<open>From source reports to facts: \<open>src/audit/harvest.ts\<close>\<close>

text \<open>Every report of an entity gives one fact per auditable aspect value; a field fact is about the field.\<close>

record SourceReport =
  rep_source :: string
  rep_scanId :: string
  rep_createdAt :: string
  rep_entity :: CatalogEntity

definition primaryOwner :: "CatalogEntity \<Rightarrow> string option" where
  "primaryOwner e = (case list_or_empty (ent_owners e) of [] \<Rightarrow> None | o1 # os \<Rightarrow> Some o1)"

text \<open>The shared part \<open>base\<close> of a report's facts and what each fact adds to it.\<close>

definition fact_of ::
    "SourceReport \<Rightarrow> string \<Rightarrow> FactKind \<Rightarrow> string \<Rightarrow> string \<Rightarrow> (string \<times> json) list \<Rightarrow> AuditFact" where
  "fact_of r fid kd about content metadata =
     \<lparr>fct_id = fid, fct_kind = kd, fct_source = rep_source r, fct_scan = Some (rep_scanId r),
      fct_sourceRef = Some about, fct_content = content, fct_metadata = Some metadata,
      fct_createdAt = rep_createdAt r, fct_importance = None\<rparr>"

definition ownership_facts :: "SourceReport \<Rightarrow> AuditFact list" where
  "ownership_facts r = (let e = rep_entity r in
     case primaryOwner e of None \<Rightarrow> [] | Some owner \<Rightarrow>
       [fact_of r (rep_scanId r @ '':'' @ ent_urn e @ '':ownership'') K_ownership (ent_urn e)
          (ent_name e @ '' is owned by '' @ owner)
          [(''record'', JStr (ent_urn e)), (''owner'', JStr owner)]])"

definition domain_facts :: "SourceReport \<Rightarrow> AuditFact list" where
  "domain_facts r = (let e = rep_entity r; domain = or_else (ent_domain e) [] in
     if domain = [] then [] else
       [fact_of r (rep_scanId r @ '':'' @ ent_urn e @ '':domain'') K_domain (ent_urn e)
          (ent_name e @ '' is in domain '' @ domain)
          [(''record'', JStr (ent_urn e)), (''domain'', JStr domain)]])"

definition deprecation_facts :: "SourceReport \<Rightarrow> AuditFact list" where
  "deprecation_facts r = (let e = rep_entity r in
     case ent_deprecated e of None \<Rightarrow> [] | Some b \<Rightarrow>
       [fact_of r (rep_scanId r @ '':'' @ ent_urn e @ '':deprecation'') K_deprecation (ent_urn e)
          (ent_name e @ '' deprecated='' @ bool_text b)
          [(''record'', JStr (ent_urn e)), (''deprecated'', JBool b)]])"

definition field_facts :: "SourceReport \<Rightarrow> SchemaField \<Rightarrow> AuditFact list" where
  "field_facts r f = (let e = rep_entity r; ty = or_else (fld_type f) []; about = ent_urn e @ ''#'' @ fld_path f in
     if trim ty = [] then [] else
       [fact_of r (rep_scanId r @ '':'' @ about @ '':schema'') K_schema about
          (ent_name e @ ''.'' @ fld_path f @ '' : '' @ ty)
          [(''record'', JStr about), (''fieldType'', JStr ty)]])"

definition lineage_facts :: "SourceReport \<Rightarrow> AuditFact list" where
  "lineage_facts r = (let e = rep_entity r; upstreams = list_or_empty (ent_upstreams e) in
     if upstreams = [] then [] else
       [fact_of r (rep_scanId r @ '':'' @ ent_urn e @ '':lineage'') K_lineage (ent_urn e)
          (ent_name e @ '' reads from '' @ join '', '' (map edge_upstream upstreams))
          [(''record'', JStr (ent_urn e)),
           (''refs'', JArr (map (\<lambda>u. JStr (edge_upstream u)) (filter (\<lambda>u. \<not> edge_upstreamResolved u) upstreams)))]])"

definition entityToFacts :: "SourceReport \<Rightarrow> AuditFact list" where
  "entityToFacts r = ownership_facts r @ domain_facts r @ deprecation_facts r
     @ concat (map (field_facts r) (list_or_empty (ent_fields (rep_entity r)))) @ lineage_facts r"

definition reportsToFacts :: "SourceReport list \<Rightarrow> AuditFact list" where
  "reportsToFacts reports = concat (map entityToFacts reports)"

end
