(* ===== verification/Consistency.thy ===== *)
theory Consistency
  imports Catalog JsDate
begin

section \<open>The self-audit: \<open>src/audit/consistency.ts\<close>\<close>

text \<open>
  Facts are grouped by the entity they describe; two values of one attribute that disagree are a
  contradiction, a reference to an entity no fact describes is an absence. Numbers among the attribute
  values are integers; tolerances, importances, authorities and confidences are exact rationals instead of
  floating-point numbers. The prose of a resolution (\<open>rationale\<close>) is not modelled. A confidence is
  \<open>None\<close> where the source computes with an unparsable date (\<open>NaN\<close>).
\<close>

datatype ResolutionRule = RULE_recency | RULE_importance | RULE_source_authority

record AuditResolution =
  rsl_recommendedFactId :: string
  rsl_recommendedValue :: json
  rsl_rule :: ResolutionRule
  rsl_confidence :: "rat option"

record ContradictionValue =
  cv_factId :: string
  cv_source :: string
  cv_value :: json
  cv_createdAt :: string

record Contradiction =
  ctr_subject :: string
  ctr_attribute :: string
  ctr_values :: "ContradictionValue list"
  ctr_resolution :: AuditResolution

record Absence =
  abs_subject :: string
  abs_referencedBy :: "(string \<times> string) list"

record ConsistencyReport =
  crp_audited :: nat
  crp_subjects :: nat
  crp_contradictions :: "Contradiction list"
  crp_absences :: "Absence list"
  crp_ok :: bool

record AuditOptions =
  ao_numericTolerance :: "rat option"
  ao_kindAuthority :: "(string \<times> rat) list option"
  ao_requireDistinctSources :: "bool option"

definition RESERVED_KEYS :: "string set" where
  "RESERVED_KEYS = {''record'', ''refs''}"

text \<open>Reading an entry of \<open>metadata\<close>, which may be \<open>null\<close>.\<close>

definition meta :: "AuditFact \<Rightarrow> string \<Rightarrow> json option" where
  "meta m k = Option.bind (fct_metadata m) (\<lambda>kvs. map_of kvs k)"

definition nonempty_ref :: "string option \<Rightarrow> string option" where
  "nonempty_ref s = (case s of Some (c # cs) \<Rightarrow> Some (c # cs) | _ \<Rightarrow> None)"

definition subjectKey :: "AuditFact \<Rightarrow> string option" where
  "subjectKey m = (case meta m ''record'' of
      Some (JStr (c # cs)) \<Rightarrow> Some (c # cs)
    | Some (JNum n) \<Rightarrow> Some (show_int n)
    | _ \<Rightarrow> nonempty_ref (fct_sourceRef m))"

fun scalar :: "json \<Rightarrow> bool" where
  "scalar (JNum n) = True"
| "scalar (JStr s) = True"
| "scalar (JBool b) = True"
| "scalar _ = False"

text \<open>\<open>String(v)\<close> of a scalar.\<close>

fun text_of :: "json \<Rightarrow> string" where
  "text_of (JNum n) = show_int n"
| "text_of (JStr s) = s"
| "text_of (JBool b) = (if b then ''true'' else ''false'')"
| "text_of v = stringify v"

definition valuesAgree :: "json \<Rightarrow> json \<Rightarrow> rat \<Rightarrow> bool" where
  "valuesAgree a b tol = (case (a, b) of
      (JNum m, JNum n) \<Rightarrow> of_int (abs (m - n)) \<le> tol
    | (JNum m, _) \<Rightarrow> text_of a = text_of b
    | (_, JNum n) \<Rightarrow> text_of a = text_of b
    | _ \<Rightarrow> stringify a = stringify b)"

definition attributesOf :: "AuditFact \<Rightarrow> (string \<times> json) list" where
  "attributesOf m = (case fct_metadata m of None \<Rightarrow> [] | Some md \<Rightarrow>
     filter (\<lambda>kv. fst kv \<notin> RESERVED_KEYS \<and> scalar (snd kv)) (own_key_order md))"

subsection \<open>The recommender\<close>

definition STRUCTURED_AUTHORITY :: rat where
  "STRUCTURED_AUTHORITY = 2"

definition DEFAULT_KIND_AUTHORITY :: "(string \<times> rat) list" where
  "DEFAULT_KIND_AUTHORITY = [(''insight'', 1)]"

fun kind_name :: "FactKind \<Rightarrow> string" where
  "kind_name K_schema = ''schema''" | "kind_name K_ownership = ''ownership''"
| "kind_name K_lineage = ''lineage''" | "kind_name K_glossary = ''glossary''"
| "kind_name K_domain = ''domain''" | "kind_name K_deprecation = ''deprecation''"
| "kind_name K_insight = ''insight''"

definition authorityOf :: "string \<Rightarrow> (string \<times> rat) list \<Rightarrow> rat" where
  "authorityOf kd m = or_else (map_of m kd) STRUCTURED_AUTHORITY"

definition importanceOf :: "AuditFact \<Rightarrow> rat option" where
  "importanceOf m = (case fct_importance m of Some i \<Rightarrow> Some i | None \<Rightarrow>
     (case meta m ''importance'' of Some (JNum n) \<Rightarrow> Some (of_int n) | _ \<Rightarrow> None))"

record ValueCluster =
  vc_value :: json
  vc_facts :: "AuditFact list"

text \<open>The sign of \<open>b - a\<close>, for sorting in descending order.\<close>

definition descending :: "('a \<Rightarrow> rat) \<Rightarrow> 'a \<Rightarrow> 'a \<Rightarrow> int" where
  "descending f a b = (if f a < f b then 1 else if f b < f a then -1 else 0)"

definition later_first :: "AuditFact \<Rightarrow> AuditFact \<Rightarrow> int" where
  "later_first a b = (if fct_createdAt a < fct_createdAt b then 1
     else if fct_createdAt b < fct_createdAt a then -1 else if fct_id a < fct_id b then -1 else 1)"

definition latestOf :: "AuditFact list \<Rightarrow> AuditFact" where
  "latestOf facts = hd (js_sort later_first facts)"

record Aggregate =
  agg_value :: json
  agg_importance :: "rat option"
  agg_importanceCarrier :: "AuditFact option"
  agg_authority :: rat
  agg_authorityCarrier :: AuditFact
  agg_latest :: AuditFact

definition aggregate :: "(string \<times> rat) list \<Rightarrow> ValueCluster \<Rightarrow> Aggregate" where
  "aggregate authority c =
     (let carriers = js_sort (descending (\<lambda>m. or_else (importanceOf m) 0))
            (filter (\<lambda>m. importanceOf m \<noteq> None) (vc_facts c));
          impCarrier = (case carriers of [] \<Rightarrow> None | m # ms \<Rightarrow> Some m);
          authCarrier = hd (js_sort (descending (\<lambda>m. authorityOf (kind_name (fct_kind m)) authority)) (vc_facts c)) in
      \<lparr>agg_value = vc_value c, agg_importance = Option.bind impCarrier importanceOf,
       agg_importanceCarrier = impCarrier,
       agg_authority = authorityOf (kind_name (fct_kind authCarrier)) authority,
       agg_authorityCarrier = authCarrier, agg_latest = latestOf (vc_facts c)\<rparr>)"

definition clamp_rat :: "rat \<Rightarrow> rat \<Rightarrow> rat \<Rightarrow> rat" where
  "clamp_rat n lo hi = max lo (min hi n)"

definition round2 :: "rat \<Rightarrow> rat" where
  "round2 n = of_int \<lfloor>n * 100 + 1 / 2\<rfloor> / 100"

definition by_recency :: "Aggregate \<Rightarrow> Aggregate \<Rightarrow> int" where
  "by_recency a b = later_first (agg_latest a) (agg_latest b)"

definition recency_confidence :: "js_env \<Rightarrow> string \<Rightarrow> string \<Rightarrow> rat option" where
  "recency_confidence E winner runnerUp =
     (if winner = runnerUp then Some (2 / 5)
      else (case (date_parse E winner, date_parse E runnerUp) of
        (Some w, Some r) \<Rightarrow>
          Some (round2 (clamp_rat (1 / 2 + min (7 / 20) (of_int (w - r) / 86400000 / 30 * (7 / 20))) 0 (17 / 20)))
      | _ \<Rightarrow> None))"

definition resolveContradiction ::
    "js_env \<Rightarrow> ValueCluster list \<Rightarrow> (string \<times> rat) list \<Rightarrow> AuditResolution" where
  "resolveContradiction E clusters authority =
     (let agg = map (aggregate authority) clusters;
          sorted = js_sort (descending (\<lambda>a. or_else (agg_importance a) (-1))) agg;
          top = sorted ! 0; second = sorted ! 1;
          margin = or_else (agg_importance top) (-1) - or_else (agg_importance second) (-1);
          sortedAuth = js_sort (descending agg_authority) agg;
          topAuth = sortedAuth ! 0; secondAuth = sortedAuth ! 1;
          sortedRec = js_sort by_recency agg; win = sortedRec ! 0; runnerUp = sortedRec ! 1 in
      case (list_ex (\<lambda>a. agg_importance a \<noteq> None) agg \<and> agg_importance top \<noteq> None \<and> margin \<ge> 1 / 20,
            agg_importanceCarrier top) of
        (True, Some carrier) \<Rightarrow>
          \<lparr>rsl_recommendedFactId = fct_id carrier, rsl_recommendedValue = agg_value top,
           rsl_rule = RULE_importance,
           rsl_confidence = Some (round2 (clamp_rat (3 / 5 + min (3 / 10) (margin / 2)) 0 (19 / 20)))\<rparr>
      | _ \<Rightarrow>
          if agg_authority topAuth > agg_authority secondAuth
          then \<lparr>rsl_recommendedFactId = fct_id (agg_authorityCarrier topAuth),
                rsl_recommendedValue = agg_value topAuth, rsl_rule = RULE_source_authority,
                rsl_confidence = Some (3 / 4)\<rparr>
          else \<lparr>rsl_recommendedFactId = fct_id (agg_latest win), rsl_recommendedValue = agg_value win,
                rsl_rule = RULE_recency,
                rsl_confidence = recency_confidence E (fct_createdAt (agg_latest win))
                  (fct_createdAt (agg_latest runnerUp))\<rparr>)"

subsection \<open>The audit\<close>

text \<open>The buckets of values that agree with the first value put into them.\<close>

fun add_carrier ::
    "rat \<Rightarrow> (json \<times> (AuditFact \<times> json) list) list \<Rightarrow> AuditFact \<times> json \<Rightarrow> (json \<times> (AuditFact \<times> json) list) list" where
  "add_carrier tol [] c = [(snd c, [c])]"
| "add_carrier tol ((v, cs) # ds) c =
     (if valuesAgree v (snd c) tol then (v, cs @ [c]) # ds else (v, cs) # add_carrier tol ds c)"

definition buckets :: "rat \<Rightarrow> (AuditFact \<times> json) list \<Rightarrow> (json \<times> (AuditFact \<times> json) list) list" where
  "buckets tol carriers = foldl (add_carrier tol) [] carriers"

definition earlier_first :: "('a \<Rightarrow> string) \<Rightarrow> 'a \<Rightarrow> 'a \<Rightarrow> int" where
  "earlier_first f a b = cmp_units (f a) (f b)"

definition value_row :: "json \<times> (AuditFact \<times> json) list \<Rightarrow> ContradictionValue" where
  "value_row d = (let rep = fst (hd (js_sort (earlier_first (\<lambda>c. fct_createdAt (fst c))) (snd d))) in
     \<lparr>cv_factId = fct_id rep, cv_source = fct_source rep, cv_value = fst d, cv_createdAt = fct_createdAt rep\<rparr>)"

definition tolerance :: "AuditOptions \<Rightarrow> rat" where
  "tolerance opts = or_else (ao_numericTolerance opts) (1 / 2)"

definition contradiction_of ::
    "js_env \<Rightarrow> AuditOptions \<Rightarrow> string \<Rightarrow> string \<times> (AuditFact \<times> json) list \<Rightarrow> Contradiction list" where
  "contradiction_of E opts subject ac =
     (let attr = fst ac; carriers = snd ac in
      if length carriers < 2 then []
      else let distinct = buckets (tolerance opts) carriers in
      if length distinct < 2 then []
      else if or_else (ao_requireDistinctSources opts) False \<and> length (dedupe (map (fct_source \<circ> fst) carriers)) < 2
      then []
      else [\<lparr>ctr_subject = subject, ctr_attribute = attr,
             ctr_values = js_sort (earlier_first cv_createdAt) (map value_row distinct),
             ctr_resolution = resolveContradiction E
               (map (\<lambda>d. \<lparr>vc_value = fst d, vc_facts = map fst (snd d)\<rparr>) distinct)
               (or_else (ao_kindAuthority opts) DEFAULT_KIND_AUTHORITY)\<rparr>])"

definition attribute_carriers :: "AuditFact list \<Rightarrow> (string \<times> (AuditFact \<times> json) list) list" where
  "attribute_carriers facts = group_by (concat (map (\<lambda>m. map (\<lambda>(attr, v). (attr, (m, v))) (attributesOf m)) facts))"

definition by_subject :: "AuditFact list \<Rightarrow> (string \<times> AuditFact list) list" where
  "by_subject facts = group_by (concat (map (\<lambda>m. case subjectKey m of None \<Rightarrow> [] | Some s \<Rightarrow>
     if s = [] then [] else [(s, m)]) facts))"

definition contradictions :: "js_env \<Rightarrow> AuditOptions \<Rightarrow> AuditFact list \<Rightarrow> Contradiction list" where
  "contradictions E opts facts = concat (map (\<lambda>(subject, grp).
     if length grp < 2 then []
     else concat (map (contradiction_of E opts subject) (attribute_carriers grp))) (by_subject facts))"

text \<open>The references of a fact: the strings and numbers of its \<open>refs\<close> array, empty ones skipped.\<close>

fun ref_key :: "json \<Rightarrow> string option" where
  "ref_key (JNum n) = Some (show_int n)"
| "ref_key (JStr (c # cs)) = Some (c # cs)"
| "ref_key _ = None"

definition refs_of :: "AuditFact \<Rightarrow> string list" where
  "refs_of m = (case meta m ''refs'' of Some (JArr rs) \<Rightarrow> List.map_filter ref_key rs | _ \<Rightarrow> [])"

definition absences :: "AuditFact list \<Rightarrow> Absence list" where
  "absences facts =
     (let present = map fst (by_subject facts);
          missing = concat (map (\<lambda>m. map (\<lambda>r. (r, (fct_id m, fct_source m)))
            (filter (\<lambda>r. r \<notin> set present) (refs_of m))) facts) in
      map (\<lambda>(s, rs). \<lparr>abs_subject = s, abs_referencedBy = rs\<rparr>) (group_by missing))"

definition by_subject_attribute :: "Contradiction \<Rightarrow> Contradiction \<Rightarrow> int" where
  "by_subject_attribute a b =
     (if ctr_subject a \<noteq> ctr_subject b then (if ctr_subject a < ctr_subject b then -1 else 1)
      else cmp_units (ctr_attribute a) (ctr_attribute b))"

definition auditConsistency :: "js_env \<Rightarrow> AuditFact list \<Rightarrow> AuditOptions \<Rightarrow> ConsistencyReport" where
  "auditConsistency E facts opts =
     (let cs = js_sort by_subject_attribute (contradictions E opts facts);
          as = js_sort (\<lambda>a b. cmp_units (abs_subject a) (abs_subject b)) (absences facts) in
      \<lparr>crp_audited = length facts, crp_subjects = length (by_subject facts),
       crp_contradictions = cs, crp_absences = as, crp_ok = (cs = [] \<and> as = [])\<rparr>)"

subsection \<open>Buckets\<close>

lemma add_carrier_length: "length ds \<le> length (add_carrier tol ds c)"
  by (induction tol ds c rule: add_carrier.induct) auto

lemma foldl_add_carrier:
  "1 < length (foldl (add_carrier tol) ((v, xs) # ds) cs) \<longleftrightarrow> ds \<noteq> [] \<or> (\<exists>c \<in> set cs. \<not> valuesAgree v (snd c) tol)"
proof (induction cs arbitrary: xs ds)
  case (Cons c cs)
  have "add_carrier tol ds c \<noteq> []" by (cases ds) (auto split: if_splits)
  then show ?case using Cons by simp
qed simp

lemma buckets_split:
  "\<not> length (buckets tol cs) < 2 \<longleftrightarrow> cs \<noteq> [] \<and> (\<exists>c \<in> set (tl cs). \<not> valuesAgree (snd (hd cs)) (snd c) tol)"
proof (cases cs)
  case (Cons c cs')
  then show ?thesis using foldl_add_carrier [of tol "snd c" "[c]" "[]" cs'] by (auto simp: buckets_def)
qed (simp add: buckets_def)

text \<open>Every bucket holds carriers of the audit, the first one with the bucket's value.\<close>

definition bucket_ok :: "rat \<Rightarrow> (AuditFact \<times> json) set \<Rightarrow> json \<times> (AuditFact \<times> json) list \<Rightarrow> bool" where
  "bucket_ok tol C d \<longleftrightarrow> snd d \<noteq> [] \<and> set (snd d) \<subseteq> C
     \<and> (\<forall>c \<in> set (snd d). valuesAgree (fst d) (snd c) tol \<or> snd c = fst d)"

lemma add_carrier_ok:
  "\<forall>d \<in> set ds. bucket_ok tol C d \<Longrightarrow> c \<in> C \<Longrightarrow> \<forall>d \<in> set (add_carrier tol ds c). bucket_ok tol C d"
  by (induction tol ds c rule: add_carrier.induct) (auto simp: bucket_ok_def)

lemma buckets_ok: "d \<in> set (buckets tol cs) \<Longrightarrow> bucket_ok tol (set cs) d"
proof -
  have "\<forall>d \<in> set (foldl (add_carrier tol) ds cs). bucket_ok tol C d"
    if "\<forall>d \<in> set ds. bucket_ok tol C d" "set cs \<subseteq> C" for ds C
    using that
  proof (induction cs arbitrary: ds)
    case (Cons c cs)
    have "\<forall>d \<in> set (add_carrier tol ds c). bucket_ok tol C d"
      using Cons.prems by (intro add_carrier_ok) auto
    with Cons show ?case by simp
  qed simp
  from this [of "[]" "set cs"] show "d \<in> set (buckets tol cs) \<Longrightarrow> bucket_ok tol (set cs) d"
    by (simp add: buckets_def)
qed

subsection \<open>Which contradictions are reported\<close>

text \<open>The carriers of an attribute of a subject, in the order of the facts.\<close>

definition carriers_of :: "AuditFact list \<Rightarrow> string \<Rightarrow> string \<Rightarrow> (AuditFact \<times> json) list" where
  "carriers_of facts s attr = concat (map (\<lambda>m. if subjectKey m = Some s
     then map (\<lambda>kv. (m, snd kv)) (filter (\<lambda>kv. fst kv = attr) (attributesOf m)) else []) facts)"

definition objects :: "AuditFact list \<Rightarrow> bool" where
  "objects facts \<longleftrightarrow> (\<forall>m \<in> set facts. \<forall>md. fct_metadata m = Some md \<longrightarrow> distinct (map fst md))"

lemma subjectKey_nonempty: "subjectKey m = Some s \<Longrightarrow> s \<noteq> []"
  by (auto simp: subjectKey_def nonempty_ref_def show_int_def
      split: option.splits json.splits list.splits if_splits)

definition same_subject :: "AuditFact list \<Rightarrow> string \<Rightarrow> AuditFact list" where
  "same_subject facts s = filter (\<lambda>m. subjectKey m = Some s) facts"

lemma by_subject_member: "(s, grp) \<in> set (by_subject facts) \<longleftrightarrow> grp \<noteq> [] \<and> grp = same_subject facts s"
proof -
  define ps where "ps = concat (map (\<lambda>m. case subjectKey m of None \<Rightarrow> [] | Some s \<Rightarrow> if s = [] then [] else [(s, m)]) facts)"
  have "map snd (filter (\<lambda>p. fst p = s) ps) = same_subject facts s"
    unfolding ps_def same_subject_def
    by (induction facts) (auto split: option.splits dest: subjectKey_nonempty)
  moreover have "s \<in> fst ` set ps \<longleftrightarrow> map snd (filter (\<lambda>p. fst p = s) ps) \<noteq> []"
    by (auto simp: filter_empty_conv image_iff)
  ultimately show ?thesis
    unfolding by_subject_def ps_def [symmetric] group_by_member by auto
qed

lemma attribute_carriers_member:
  "(attr, cs) \<in> set (attribute_carriers (same_subject facts s)) \<longleftrightarrow> cs \<noteq> [] \<and> cs = carriers_of facts s attr"
proof -
  define ps where "ps = concat (map (\<lambda>m. map (\<lambda>(attr, v). (attr, (m, v))) (attributesOf m)) (same_subject facts s))"
  have one: "map snd (filter (\<lambda>p. fst p = attr) (map (\<lambda>(attr, v). (attr, (m, v))) kvs))
      = map (\<lambda>kv. (m, snd kv)) (filter (\<lambda>kv. fst kv = attr) kvs)" for m and kvs :: "(string \<times> json) list"
    by (induction kvs) auto
  have "map snd (filter (\<lambda>p. fst p = attr) ps) = carriers_of facts s attr"
    unfolding ps_def same_subject_def carriers_of_def
    by (induction facts) (auto simp: one)
  moreover have "attr \<in> fst ` set ps \<longleftrightarrow> map snd (filter (\<lambda>p. fst p = attr) ps) \<noteq> []"
    by (auto simp: filter_empty_conv image_iff)
  ultimately show ?thesis
    unfolding attribute_carriers_def ps_def [symmetric] group_by_member by auto
qed

definition gate :: "AuditOptions \<Rightarrow> (AuditFact \<times> json) list \<Rightarrow> bool" where
  "gate opts cs \<longleftrightarrow> (or_else (ao_requireDistinctSources opts) False \<longrightarrow>
     (\<exists>c \<in> set cs. \<exists>d \<in> set cs. fct_source (fst c) \<noteq> fct_source (fst d)))"

lemma two_distinct: "length (dedupe xs) < 2 \<longleftrightarrow> (\<forall>x \<in> set xs. \<forall>y \<in> set xs. x = y)"
proof -
  have "length (dedupe xs) = card (set xs)" by (metis distinct_card distinct_dedupe set_dedupe)
  then show ?thesis using card_le_Suc0_iff_eq [of "set xs"] by (simp add: numeral_2_eq_2 less_Suc_eq_le)
qed

lemma contradiction_of_member:
  "c \<in> set (contradiction_of E opts s (attr, cs)) \<longleftrightarrow>
     \<not> length cs < 2 \<and> \<not> length (buckets (tolerance opts) cs) < 2 \<and> gate opts cs
     \<and> c = \<lparr>ctr_subject = s, ctr_attribute = attr,
             ctr_values = js_sort (earlier_first cv_createdAt) (map value_row (buckets (tolerance opts) cs)),
             ctr_resolution = resolveContradiction E
               (map (\<lambda>d. \<lparr>vc_value = fst d, vc_facts = map fst (snd d)\<rparr>) (buckets (tolerance opts) cs))
               (or_else (ao_kindAuthority opts) DEFAULT_KIND_AUTHORITY)\<rparr>"
proof -
  have g: "gate opts cs \<longleftrightarrow> \<not> (or_else (ao_requireDistinctSources opts) False
      \<and> length (dedupe (map (fct_source \<circ> fst) cs)) < 2)"
    unfolding two_distinct gate_def by auto
  show ?thesis unfolding g contradiction_of_def Let_def fst_conv snd_conv by simp
qed

lemma contradiction_of_keys:
  "c \<in> set (contradiction_of E opts s (attr, cs)) \<Longrightarrow> ctr_subject c = s \<and> ctr_attribute c = attr"
  by (auto simp: contradiction_of_member)

lemma carriers_of_fact:
  "(m, v) \<in> set (carriers_of facts s attr) \<longleftrightarrow> m \<in> set facts \<and> subjectKey m = Some s \<and> (attr, v) \<in> set (attributesOf m)"
  by (auto simp: carriers_of_def image_iff split: if_splits)

lemma attributesOf_mem:
  "(k, v) \<in> set (attributesOf m) \<longleftrightarrow>
     (\<exists>md. fct_metadata m = Some md \<and> (k, v) \<in> set md \<and> k \<notin> RESERVED_KEYS \<and> scalar v)"
proof -
  have "set (own_key_order md) = set md" for md :: "(string \<times> json) list"
    by (rule mset_eq_setD) simp
  then show ?thesis by (cases "fct_metadata m") (auto simp: attributesOf_def)
qed

text \<open>One fact gives an attribute at most one value, as its metadata is an object.\<close>

lemma attribute_once:
  assumes "objects [m]"
  shows "length (filter (\<lambda>kv. fst kv = attr) (attributesOf m)) \<le> 1"
proof (cases "fct_metadata m")
  case (Some md)
  have "mset (own_key_order md) = mset md" by simp
  then have "mset (map fst (own_key_order md)) = mset (map fst md)" by simp
  from mset_eq_imp_distinct_iff [OF this] have "distinct (map fst (own_key_order md))"
    using assms Some by (simp add: objects_def)
  then have d: "distinct (map fst (filter (\<lambda>kv. fst kv = attr) (attributesOf m)))"
    by (simp add: attributesOf_def Some distinct_map_filter)
  have "set (map fst (filter (\<lambda>kv. fst kv = attr) (attributesOf m))) \<subseteq> {attr}" by auto
  from card_mono [OF _ this] have "card (set (map fst (filter (\<lambda>kv. fst kv = attr) (attributesOf m)))) \<le> 1"
    by simp
  with d show ?thesis by (metis distinct_card length_map)
qed (simp add: attributesOf_def)

lemma carriers_length: "objects facts \<Longrightarrow> length (carriers_of facts s attr) \<le> length (same_subject facts s)"
proof (induction facts)
  case (Cons m facts)
  have "length (filter (\<lambda>kv. fst kv = attr) (attributesOf m)) \<le> 1"
    using Cons.prems by (intro attribute_once) (simp add: objects_def)
  with Cons show ?case by (auto simp: carriers_of_def same_subject_def objects_def)
qed (simp add: carriers_of_def)

lemma contradictions_member:
  assumes "objects facts"
  shows "c \<in> set (contradictions E opts facts) \<longleftrightarrow>
    (\<exists>s attr. c \<in> set (contradiction_of E opts s (attr, carriers_of facts s attr)))"
proof -
  have "c \<in> set (contradictions E opts facts) \<longleftrightarrow>
      (\<exists>s grp. (s, grp) \<in> set (by_subject facts) \<and> \<not> length grp < 2
        \<and> (\<exists>attr cs. (attr, cs) \<in> set (attribute_carriers grp) \<and> c \<in> set (contradiction_of E opts s (attr, cs))))"
    by (auto simp: contradictions_def)
  also have "\<dots> \<longleftrightarrow> (\<exists>s attr. \<not> length (same_subject facts s) < 2 \<and> carriers_of facts s attr \<noteq> []
        \<and> c \<in> set (contradiction_of E opts s (attr, carriers_of facts s attr)))"
  proof -
    have "\<not> length xs < 2 \<Longrightarrow> xs \<noteq> []" for xs :: "AuditFact list" by auto
    then show ?thesis unfolding by_subject_member using attribute_carriers_member by metis
  qed
  also have "\<dots> \<longleftrightarrow> (\<exists>s attr. c \<in> set (contradiction_of E opts s (attr, carriers_of facts s attr)))"
  proof -
    have "\<not> length (same_subject facts s) < 2 \<and> carriers_of facts s attr \<noteq> []"
      if "c \<in> set (contradiction_of E opts s (attr, carriers_of facts s attr))" for s attr
      using that carriers_length [OF assms, of s attr] by (auto simp: contradiction_of_member)
    then show ?thesis by blast
  qed
  finally show ?thesis .
qed

text \<open>An attribute of a subject is flagged in a report.\<close>

definition flagged :: "js_env \<Rightarrow> AuditFact list \<Rightarrow> AuditOptions \<Rightarrow> string \<Rightarrow> string \<Rightarrow> bool" where
  "flagged E facts opts s attr \<longleftrightarrow>
     (\<exists>c \<in> set (crp_contradictions (auditConsistency E facts opts)). ctr_subject c = s \<and> ctr_attribute c = attr)"

lemma flagged_iff:
  fixes s attr
  assumes "objects facts"
  defines "cs \<equiv> carriers_of facts s attr"
  shows "flagged E facts opts s attr \<longleftrightarrow> cs \<noteq> []
    \<and> (\<exists>c \<in> set (tl cs). \<not> valuesAgree (snd (hd cs)) (snd c) (tolerance opts)) \<and> gate opts cs"
proof -
  have "flagged E facts opts s attr \<longleftrightarrow> (\<exists>c \<in> set (contradictions E opts facts). ctr_subject c = s \<and> ctr_attribute c = attr)"
    by (simp add: flagged_def auditConsistency_def Let_def)
  also have "\<dots> \<longleftrightarrow> (\<exists>c. c \<in> set (contradiction_of E opts s (attr, cs)))"
    unfolding cs_def using contradictions_member [OF assms(1)] contradiction_of_keys by metis
  also have split: "\<dots> \<longleftrightarrow> \<not> length (buckets (tolerance opts) cs) < 2 \<and> gate opts cs"
  proof -
    have "\<not> length cs < 2" if "\<not> length (buckets (tolerance opts) cs) < 2"
      using that unfolding buckets_split by (cases cs; cases "tl cs") auto
    then show ?thesis unfolding contradiction_of_member by blast
  qed
  finally show ?thesis unfolding buckets_split by blast
qed

subsection \<open>The recommendation\<close>

lemma hd_js_sort: "xs \<noteq> [] \<Longrightarrow> hd (js_sort cmp xs) \<in> set xs"
  by (metis hd_in_set js_sort_Nil set_js_sort)

lemma nth_js_sort: "xs \<noteq> [] \<Longrightarrow> js_sort cmp xs ! 0 \<in> set xs"
  by (metis hd_conv_nth hd_js_sort js_sort_Nil)

lemma aggregate_carriers:
  assumes "vc_facts c \<noteq> []"
  shows "agg_value (aggregate au c) = vc_value c"
    "agg_importanceCarrier (aggregate au c) = Some m \<Longrightarrow> m \<in> set (vc_facts c)"
    "agg_authorityCarrier (aggregate au c) \<in> set (vc_facts c)"
    "agg_latest (aggregate au c) \<in> set (vc_facts c)"
proof -
  show "agg_value (aggregate au c) = vc_value c" by (simp add: aggregate_def Let_def)
  define carriers where "carriers = js_sort (descending (\<lambda>m. or_else (importanceOf m) 0))
    (filter (\<lambda>m. importanceOf m \<noteq> None) (vc_facts c))"
  have "set carriers \<subseteq> set (vc_facts c)" by (auto simp: carriers_def)
  moreover assume "agg_importanceCarrier (aggregate au c) = Some m"
  then have "m \<in> set carriers"
    unfolding aggregate_def Let_def carriers_def [symmetric] by (simp split: list.splits) 
  ultimately show "m \<in> set (vc_facts c)" by blast
next
  show "agg_authorityCarrier (aggregate au c) \<in> set (vc_facts c)" "agg_latest (aggregate au c) \<in> set (vc_facts c)"
    using assms by (simp_all add: aggregate_def Let_def latestOf_def hd_js_sort)
qed

lemma resolve_sound:
  assumes "clusters \<noteq> []" "\<forall>c \<in> set clusters. vc_facts c \<noteq> []"
  shows "\<exists>c \<in> set clusters. \<exists>m \<in> set (vc_facts c).
    rsl_recommendedFactId (resolveContradiction E clusters au) = fct_id m
    \<and> rsl_recommendedValue (resolveContradiction E clusters au) = vc_value c"
proof -
  define agg where "agg = map (aggregate au) clusters"
  have agg: "\<exists>c \<in> set clusters. a = aggregate au c" if "a \<in> set agg" for a
    using that by (auto simp: agg_def)
  have ne: "agg \<noteq> []" using assms(1) by (simp add: agg_def)
  define r where "r = resolveContradiction E clusters au"
  have first: "js_sort cmp agg ! 0 \<in> set agg" for cmp using nth_js_sort [OF ne] .
  have "\<exists>a m. a \<in> set agg \<and> rsl_recommendedFactId r = fct_id m \<and> rsl_recommendedValue r = agg_value a
    \<and> (agg_importanceCarrier a = Some m \<or> m = agg_authorityCarrier a \<or> m = agg_latest a)"
    unfolding r_def resolveContradiction_def Let_def agg_def [symmetric]
    by (split prod.split, intro allI impI, split bool.split, split option.split)
       (use first in \<open>auto simp del: split_paired_Ex; blast\<close>)
  then obtain a m where a: "a \<in> set agg" "rsl_recommendedFactId r = fct_id m" "rsl_recommendedValue r = agg_value a"
    "agg_importanceCarrier a = Some m \<or> m = agg_authorityCarrier a \<or> m = agg_latest a"
    by blast
  obtain c where c: "c \<in> set clusters" "a = aggregate au c" using agg [OF a(1)] by blast
  then have "m \<in> set (vc_facts c)" "agg_value a = vc_value c"
    using a(4) aggregate_carriers [of c] assms(2) by auto
  with a c show ?thesis unfolding r_def [symmetric] by auto
qed

end
