(* ===== verification/SelfAudit.thy ===== *)
theory SelfAudit
  imports Harvest Consistency
begin

section \<open>What the self-audit promises\<close>

text \<open>
  The contradictions and lineage gaps the audit reports, in terms of the facts and, through the harvest,
  of the source reports.
\<close>

subsection \<open>Contradictions\<close>

definition says :: "AuditFact \<Rightarrow> string \<Rightarrow> string \<Rightarrow> json \<Rightarrow> bool" where
  "says m s attr v \<longleftrightarrow> subjectKey m = Some s \<and> (attr, v) \<in> set (attributesOf m)"

fun numeric :: "json \<Rightarrow> bool" where
  "numeric (JNum n) = True"
| "numeric _ = False"

lemma valuesAgree_exact: "\<not> numeric v \<Longrightarrow> \<not> numeric w \<Longrightarrow> valuesAgree v w tol \<longleftrightarrow> v = w"
  by (cases v; cases w) (simp_all add: valuesAgree_def stringify_inj del: stringify.simps)

text \<open>Two sources and two values: some pair of carriers differs in both.\<close>

lemma differ_in_both:
  assumes "c \<in> C" "d \<in> C" "snd c \<noteq> snd d" and "e \<in> C" "f \<in> C" "g e \<noteq> g f"
  shows "\<exists>x \<in> C. \<exists>y \<in> C. snd x \<noteq> snd y \<and> g x \<noteq> g y"
  using assms by metis

lemma hd_differs: "xs \<noteq> [] \<and> (\<exists>c \<in> set (tl xs). f (hd xs) \<noteq> f c) \<longleftrightarrow> (\<exists>c \<in> set xs. \<exists>d \<in> set xs. f c \<noteq> f d)"
  by (cases xs) (auto, metis+)

lemma flagged_exact:
  assumes "objects facts" "\<forall>m \<in> set facts. \<forall>v. says m s attr v \<longrightarrow> \<not> numeric v"
  shows "flagged E facts opts s attr \<longleftrightarrow>
    (\<exists>m \<in> set facts. \<exists>n \<in> set facts. \<exists>v w. says m s attr v \<and> says n s attr w \<and> v \<noteq> w
      \<and> (or_else (ao_requireDistinctSources opts) False \<longrightarrow> fct_source m \<noteq> fct_source n))"
proof -
  define cs where "cs = carriers_of facts s attr"
  have mem: "(m, v) \<in> set cs \<longleftrightarrow> m \<in> set facts \<and> says m s attr v" for m v
    by (simp add: cs_def carriers_of_fact says_def)
  have exact: "valuesAgree (snd c) (snd d) t \<longleftrightarrow> snd c = snd d" if "c \<in> set cs" "d \<in> set cs" for c d t
    using that assms(2) mem by (metis prod.collapse valuesAgree_exact)
  have "flagged E facts opts s attr \<longleftrightarrow> (cs \<noteq> [] \<and> (\<exists>c \<in> set (tl cs). snd (hd cs) \<noteq> snd c)) \<and> gate opts cs"
  proof (cases cs)
    case (Cons c ds)
    then have "valuesAgree (snd c) (snd d) t \<longleftrightarrow> snd c = snd d" if "d \<in> set ds" for d t
      using that by (intro exact) simp_all
    then show ?thesis unfolding flagged_iff [OF assms(1)] cs_def [symmetric] by (auto simp: Cons)
  qed (simp add: flagged_iff [OF assms(1)] cs_def)
  also have "\<dots> \<longleftrightarrow> (\<exists>c \<in> set cs. \<exists>d \<in> set cs. snd c \<noteq> snd d) \<and> gate opts cs"
    by (simp only: hd_differs)
  also have "\<dots> \<longleftrightarrow> (\<exists>c \<in> set cs. \<exists>d \<in> set cs. snd c \<noteq> snd d
      \<and> (or_else (ao_requireDistinctSources opts) False \<longrightarrow> fct_source (fst c) \<noteq> fct_source (fst d)))"
    using differ_in_both [where C = "set cs" and g = "\<lambda>c. fct_source (fst c)"] unfolding gate_def by blast
  also have "\<dots> \<longleftrightarrow> (\<exists>m v. (m, v) \<in> set cs \<and> (\<exists>n w. (n, w) \<in> set cs \<and> v \<noteq> w
      \<and> (or_else (ao_requireDistinctSources opts) False \<longrightarrow> fct_source m \<noteq> fct_source n)))"
    by (simp add: Bex_def)
  finally show ?thesis unfolding mem by blast
qed

subsection \<open>The facts of the reports\<close>

lemma objects_reports: "objects (reportsToFacts reports)"
  by (auto simp: objects_def reportsToFacts_def entityToFacts_def ownership_facts_def domain_facts_def
      deprecation_facts_def field_facts_def lineage_facts_def fact_of_def Let_def split: option.splits if_splits)

text \<open>The value a report declares for an attribute of a dataset or of one of its fields.\<close>

definition declares :: "SourceReport \<Rightarrow> string \<Rightarrow> string \<Rightarrow> json \<Rightarrow> bool" where
  "declares r s attr v \<longleftrightarrow> (let e = rep_entity r in
     s = ent_urn e \<and> attr = ''owner'' \<and> (\<exists>x. primaryOwner e = Some x \<and> v = JStr x)
   \<or> s = ent_urn e \<and> attr = ''domain'' \<and> (\<exists>x. ent_domain e = Some x \<and> x \<noteq> [] \<and> v = JStr x)
   \<or> s = ent_urn e \<and> attr = ''deprecated'' \<and> (\<exists>b. ent_deprecated e = Some b \<and> v = JBool b)
   \<or> attr = ''fieldType'' \<and> (\<exists>f \<in> set (list_or_empty (ent_fields e)). \<exists>t.
       s = ent_urn e @ ''#'' @ fld_path f \<and> fld_type f = Some t \<and> trim t \<noteq> [] \<and> v = JStr t))"

lemma subjectKey_fact: "subjectKey (fact_of r i kd about c ((''record'', JStr about) # md)) =
    (if about = [] then None else Some about)"
  by (cases about) (simp_all add: subjectKey_def meta_def fact_of_def nonempty_ref_def)

lemma attributes_fact: "(attr, v) \<in> set (attributesOf (fact_of r i kd about c [(''record'', JStr about), (k, x)])) \<longleftrightarrow>
    attr = k \<and> k \<notin> RESERVED_KEYS \<and> v = x \<and> scalar x"
  by (auto simp: attributesOf_mem RESERVED_KEYS_def fact_of_def)

lemma says_fact: "says (fact_of r i kd about c [(''record'', JStr about), (k, x)]) s attr v \<longleftrightarrow>
    s = about \<and> s \<noteq> [] \<and> attr = k \<and> k \<notin> RESERVED_KEYS \<and> v = x \<and> scalar x"
  unfolding says_def attributes_fact subjectKey_fact by auto

lemmas aspect_facts = ownership_facts_def domain_facts_def deprecation_facts_def lineage_facts_def Let_def

lemma says_ownership: "(\<exists>m \<in> set (ownership_facts r). says m s attr v) \<longleftrightarrow>
    s = ent_urn (rep_entity r) \<and> s \<noteq> [] \<and> attr = ''owner'' \<and> (\<exists>x. primaryOwner (rep_entity r) = Some x \<and> v = JStr x)"
  by (cases "primaryOwner (rep_entity r)") (auto simp: aspect_facts says_fact RESERVED_KEYS_def)

lemma says_domain: "(\<exists>m \<in> set (domain_facts r). says m s attr v) \<longleftrightarrow>
    s = ent_urn (rep_entity r) \<and> s \<noteq> [] \<and> attr = ''domain''
    \<and> (\<exists>x. ent_domain (rep_entity r) = Some x \<and> x \<noteq> [] \<and> v = JStr x)"
  by (cases "ent_domain (rep_entity r)") (auto simp: aspect_facts says_fact RESERVED_KEYS_def)

lemma says_deprecation: "(\<exists>m \<in> set (deprecation_facts r). says m s attr v) \<longleftrightarrow>
    s = ent_urn (rep_entity r) \<and> s \<noteq> [] \<and> attr = ''deprecated''
    \<and> (\<exists>b. ent_deprecated (rep_entity r) = Some b \<and> v = JBool b)"
  by (cases "ent_deprecated (rep_entity r)") (auto simp: aspect_facts says_fact RESERVED_KEYS_def)

lemma says_field: "(\<exists>m \<in> set (field_facts r f). says m s attr v) \<longleftrightarrow> attr = ''fieldType'' \<and> (\<exists>t.
    s = ent_urn (rep_entity r) @ ''#'' @ fld_path f \<and> fld_type f = Some t \<and> trim t \<noteq> [] \<and> v = JStr t)"
  by (cases "fld_type f") (auto simp: field_facts_def Let_def says_fact RESERVED_KEYS_def)

lemma says_lineage: "\<not> (\<exists>m \<in> set (lineage_facts r). says m s attr v)"
  by (auto simp: aspect_facts says_fact RESERVED_KEYS_def)

lemma says_declares: "(\<exists>m \<in> set (entityToFacts r). says m s attr v) \<longleftrightarrow> s \<noteq> [] \<and> declares r s attr v"
proof -
  have "(\<exists>m \<in> set (entityToFacts r). says m s attr v) \<longleftrightarrow> (\<exists>m \<in> set (ownership_facts r). says m s attr v)
    \<or> (\<exists>m \<in> set (domain_facts r). says m s attr v) \<or> (\<exists>m \<in> set (deprecation_facts r). says m s attr v)
    \<or> (\<exists>f \<in> set (list_or_empty (ent_fields (rep_entity r))). \<exists>m \<in> set (field_facts r f). says m s attr v)
    \<or> (\<exists>m \<in> set (lineage_facts r). says m s attr v)"
    by (auto simp: entityToFacts_def)
  note this [unfolded says_ownership says_domain says_deprecation says_field]
  moreover have "\<not> (\<exists>m \<in> set (lineage_facts r). says m s attr v)" by (rule says_lineage)
  ultimately show ?thesis by (cases "s = []") (simp_all add: declares_def Let_def)
qed

lemma source_of_fact: "m \<in> set (entityToFacts r) \<Longrightarrow> fct_source m = rep_source r"
  by (auto simp: entityToFacts_def aspect_facts field_facts_def fact_of_def split: option.splits if_splits)

lemma numeric_declares: "declares r s attr v \<Longrightarrow> \<not> numeric v"
  by (auto simp: declares_def Let_def)

lemma says_report:
  "m \<in> set (entityToFacts r) \<Longrightarrow> says m s attr v \<Longrightarrow> s \<noteq> [] \<and> declares r s attr v \<and> fct_source m = rep_source r"
  using says_declares [of r s attr v] source_of_fact by blast

text \<open>
  C18: across source reports the audit flags exactly the real conflicts: an attribute of a subject is
  reported as a contradiction if and only if two reports declare different values for it (a primary owner,
  a domain or a deprecation flag of the dataset, a type of one of its fields), from different sources when
  the caller asks for distinct sources.
\<close>

theorem conflicts_flagged:
  "flagged E (reportsToFacts reports) opts s attr \<longleftrightarrow> s \<noteq> [] \<and>
    (\<exists>r \<in> set reports. \<exists>r' \<in> set reports. \<exists>v v'. declares r s attr v \<and> declares r' s attr v' \<and> v \<noteq> v'
      \<and> (if ao_requireDistinctSources opts = Some True then rep_source r \<noteq> rep_source r' else True))"
proof -
  have mem: "m \<in> set (reportsToFacts reports) \<longleftrightarrow> (\<exists>r \<in> set reports. m \<in> set (entityToFacts r))" for m
    by (simp add: reportsToFacts_def)
  have strict: "or_else (ao_requireDistinctSources opts) False \<longleftrightarrow> ao_requireDistinctSources opts = Some True"
    by (cases "ao_requireDistinctSources opts") auto
  have exact: "\<forall>m \<in> set (reportsToFacts reports). \<forall>v. says m s attr v \<longrightarrow> \<not> numeric v"
    using mem says_report numeric_declares by blast
  have gated: "(if A then B else True) = (A \<longrightarrow> B)" for A B by simp
  show ?thesis (is "?flag \<longleftrightarrow> _") unfolding gated
  proof
    assume ?flag
    then obtain m n v w where "m \<in> set (reportsToFacts reports)" "n \<in> set (reportsToFacts reports)"
      "says m s attr v" "says n s attr w" "v \<noteq> w"
      "ao_requireDistinctSources opts = Some True \<longrightarrow> fct_source m \<noteq> fct_source n"
      unfolding flagged_exact [OF objects_reports exact] strict by blast
    then obtain r r' where "r \<in> set reports" "m \<in> set (entityToFacts r)" "r' \<in> set reports" "n \<in> set (entityToFacts r')"
      unfolding mem by blast
    moreover from this have "s \<noteq> []" "declares r s attr v" "declares r' s attr w"
      "fct_source m = rep_source r" "fct_source n = rep_source r'"
      using says_report \<open>says m s attr v\<close> \<open>says n s attr w\<close> by blast+
    moreover from this have "ao_requireDistinctSources opts = Some True \<longrightarrow> rep_source r \<noteq> rep_source r'"
      using \<open>ao_requireDistinctSources opts = Some True \<longrightarrow> fct_source m \<noteq> fct_source n\<close> by simp
    ultimately show "s \<noteq> [] \<and> (\<exists>r \<in> set reports. \<exists>r' \<in> set reports. \<exists>v v'. declares r s attr v \<and> declares r' s attr v'
        \<and> v \<noteq> v' \<and> (ao_requireDistinctSources opts = Some True \<longrightarrow> rep_source r \<noteq> rep_source r'))"
      using \<open>v \<noteq> w\<close>
      by (intro conjI bexI [of _ r] bexI [of _ r'] exI [of _ v] exI [of _ w])
  next
    assume "s \<noteq> [] \<and> (\<exists>r \<in> set reports. \<exists>r' \<in> set reports. \<exists>v v'. declares r s attr v \<and> declares r' s attr v'
        \<and> v \<noteq> v' \<and> (ao_requireDistinctSources opts = Some True \<longrightarrow> rep_source r \<noteq> rep_source r'))"
    then obtain r r' v v' where r: "r \<in> set reports" "r' \<in> set reports" "declares r s attr v" "declares r' s attr v'"
      "v \<noteq> v'" "ao_requireDistinctSources opts = Some True \<longrightarrow> rep_source r \<noteq> rep_source r'" and "s \<noteq> []"
      by blast
    obtain m where m: "m \<in> set (entityToFacts r)" "says m s attr v"
      using says_declares [of r s attr v] r \<open>s \<noteq> []\<close> by blast
    obtain n where n: "n \<in> set (entityToFacts r')" "says n s attr v'"
      using says_declares [of r' s attr v'] r \<open>s \<noteq> []\<close> by blast
    have "m \<in> set (reportsToFacts reports)" "n \<in> set (reportsToFacts reports)"
      using r(1,2) m(1) n(1) unfolding mem by blast+
    then show ?flag
      unfolding flagged_exact [OF objects_reports exact] strict using r m(2) n(2)
        source_of_fact [OF m(1)] source_of_fact [OF n(1)]
      by (intro bexI [of _ m] bexI [of _ n] exI [of _ v] exI [of _ v'] conjI) simp_all
  qed
qed

subsection \<open>Lineage gaps\<close>

definition gap :: "js_env \<Rightarrow> AuditFact list \<Rightarrow> AuditOptions \<Rightarrow> string \<Rightarrow> bool" where
  "gap E facts opts s \<longleftrightarrow> (\<exists>a \<in> set (crp_absences (auditConsistency E facts opts)). abs_subject a = s)"

definition unresolved :: "SourceReport \<Rightarrow> string \<Rightarrow> bool" where
  "unresolved r s \<longleftrightarrow> (\<exists>u \<in> set (list_or_empty (ent_upstreams (rep_entity r))).
     edge_upstream u = s \<and> \<not> edge_upstreamResolved u)"

lemma keys_group_by: "fst ` set (group_by ps) = fst ` set ps"
proof -
  have "k \<in> fst ` set (group_by ps) \<longleftrightarrow> k \<in> fst ` set ps" for k
    using map_of_group_by [of ps k] map_of_eq_None_iff [of "group_by ps" k] by (simp split: if_splits)
  then show ?thesis by blast
qed

lemma gap_iff: "gap E facts opts s \<longleftrightarrow>
    (\<exists>m \<in> set facts. s \<in> set (refs_of m)) \<and> (\<forall>m \<in> set facts. subjectKey m \<noteq> Some s)"
proof -
  have present: "s \<in> fst ` set (by_subject facts) \<longleftrightarrow> (\<exists>m \<in> set facts. subjectKey m = Some s)"
    unfolding image_iff using by_subject_member [of s _ facts]
    by (auto simp: same_subject_def filter_empty_conv Bex_def)
  define missing where "missing = concat (map (\<lambda>m. map (\<lambda>r. (r, (fct_id m, fct_source m)))
      (filter (\<lambda>r. r \<notin> set (map fst (by_subject facts))) (refs_of m))) facts)"
  have "gap E facts opts s \<longleftrightarrow> s \<in> fst ` set (group_by missing)"
  proof -
    have "absences facts = map (\<lambda>(s, rs). \<lparr>abs_subject = s, abs_referencedBy = rs\<rparr>) (group_by missing)"
      unfolding absences_def Let_def missing_def by (rule refl)
    then have "set (crp_absences (auditConsistency E facts opts)) =
        (\<lambda>(s, rs). \<lparr>abs_subject = s, abs_referencedBy = rs\<rparr>) ` set (group_by missing)"
      by (simp add: auditConsistency_def Let_def)
    then have "gap E facts opts s \<longleftrightarrow> (\<exists>p \<in> set (group_by missing). fst p = s)"
      unfolding gap_def by (simp add: split_def)
    then show ?thesis unfolding image_iff by blast
  qed
  also have "\<dots> \<longleftrightarrow> s \<in> fst ` set missing"
    by (simp add: keys_group_by)
  also have "\<dots> \<longleftrightarrow> (\<exists>m \<in> set facts. s \<in> set (refs_of m)) \<and> s \<notin> fst ` set (by_subject facts)"
    by (force simp: missing_def)
  finally show ?thesis unfolding present by blast
qed

lemma map_filter_mem: "y \<in> set (List.map_filter f xs) \<longleftrightarrow> (\<exists>x \<in> set xs. f x = Some y)"
  by (force simp: map_filter_def image_iff)

lemma refs_of_facts: "(\<exists>m \<in> set (entityToFacts r). s \<in> set (refs_of m)) \<longleftrightarrow> s \<noteq> [] \<and> unresolved r s"
proof -
  have plain: "refs_of (fact_of r i kd about c [(''record'', JStr about), (k, x)]) = []" if "k \<noteq> ''refs''" for i kd about c k x
    using that by (simp add: refs_of_def meta_def fact_of_def)
  have key: "ref_key (JStr x) = Some s \<longleftrightarrow> x = s \<and> s \<noteq> []" for x by (cases x) auto
  have "(\<exists>m \<in> set (entityToFacts r). s \<in> set (refs_of m)) \<longleftrightarrow> (\<exists>m \<in> set (lineage_facts r). s \<in> set (refs_of m))"
    by (auto simp: entityToFacts_def ownership_facts_def domain_facts_def deprecation_facts_def field_facts_def Let_def plain
        split: option.splits if_splits)
  also have "\<dots> \<longleftrightarrow> s \<noteq> [] \<and> unresolved r s"
    by (auto simp: lineage_facts_def Let_def refs_of_def meta_def fact_of_def unresolved_def map_filter_mem key)
  finally show ?thesis .
qed

text \<open>
  a lineage gap is a dangling edge: the audit of the reports' facts reports an entity as absent if and
  only if some report has an upstream edge to it that the provider could not resolve, and no report says
  anything about it.
\<close>

theorem gaps_flagged:
  "gap E (reportsToFacts reports) opts s \<longleftrightarrow> s \<noteq> [] \<and> (\<exists>r \<in> set reports. unresolved r s)
    \<and> \<not> (\<exists>r \<in> set reports. \<exists>m \<in> set (entityToFacts r). subjectKey m = Some s)"
  unfolding gap_iff using refs_of_facts [of _ s] by (auto simp: reportsToFacts_def)

subsection \<open>The recommendation\<close>

text \<open>
  C26: every reported contradiction comes with a grounded recommendation: it shows at least two values, the
  recommended value is one of them, and the recommended fact is one of the audited facts, about that very
  subject, and asserts that attribute with the recommended value or one the tolerance counts as the same.
\<close>

theorem recommendation_grounded:
  assumes "objects facts" and "c \<in> set (crp_contradictions (auditConsistency E facts opts))"
  shows "2 \<le> length (ctr_values c) \<and> rsl_recommendedValue (ctr_resolution c) \<in> cv_value ` set (ctr_values c)
    \<and> (\<exists>m \<in> set facts. \<exists>v. fct_id m = rsl_recommendedFactId (ctr_resolution c)
         \<and> says m (ctr_subject c) (ctr_attribute c) v
         \<and> (v = rsl_recommendedValue (ctr_resolution c)
            \<or> valuesAgree (rsl_recommendedValue (ctr_resolution c)) v (tolerance opts)))"
proof -
  have "c \<in> set (contradictions E opts facts)"
    using assms(2) by (simp add: auditConsistency_def Let_def)
  then obtain s attr where c: "c \<in> set (contradiction_of E opts s (attr, carriers_of facts s attr))"
    unfolding contradictions_member [OF assms(1)] by blast
  define ds where "ds = buckets (tolerance opts) (carriers_of facts s attr)"
  define cl where "cl = map (\<lambda>d. \<lparr>vc_value = fst d, vc_facts = map fst (snd d)\<rparr>) ds"
  have two: "\<not> length ds < 2" and key: "ctr_subject c = s" "ctr_attribute c = attr"
    and vals: "ctr_values c = js_sort (earlier_first cv_createdAt) (map value_row ds)"
    and res: "ctr_resolution c = resolveContradiction E cl (or_else (ao_kindAuthority opts) DEFAULT_KIND_AUTHORITY)"
    using c unfolding contradiction_of_member ds_def cl_def by auto
  have ok: "bucket_ok (tolerance opts) (set (carriers_of facts s attr)) d" if "d \<in> set ds" for d
    using that buckets_ok unfolding ds_def by blast
  have "cl \<noteq> []" "\<forall>c \<in> set cl. vc_facts c \<noteq> []"
    using two ok by (auto simp: cl_def bucket_ok_def)
  from resolve_sound [OF this] obtain d m where d: "d \<in> set ds" "m \<in> fst ` set (snd d)"
    "rsl_recommendedFactId (ctr_resolution c) = fct_id m" "rsl_recommendedValue (ctr_resolution c) = fst d"
    unfolding res cl_def by fastforce
  then obtain v where v: "(m, v) \<in> set (snd d)" by auto
  then have "m \<in> set facts" "says m s attr v" "v = fst d \<or> valuesAgree (fst d) v (tolerance opts)"
    using ok [OF d(1)] unfolding bucket_ok_def says_def subset_iff using carriers_of_fact [of m v facts s attr] by fastforce+
  moreover have "fst d \<in> cv_value ` set (ctr_values c)" using d(1) by (force simp: vals value_row_def Let_def)
  moreover have "2 \<le> length (ctr_values c)" using two by (simp add: vals)
  ultimately show ?thesis unfolding key d(3,4)
    by (intro conjI bexI [of _ m] exI [of _ v] refl)
qed

text \<open>Two sources that name different owners of one dataset.\<close>

definition demo_owned :: "string \<Rightarrow> CatalogEntity" where
  "demo_owned owner = \<lparr>ent_urn = ''u'', ent_name = ''sales'', ent_platform = ''p'', ent_source = ''s'', ent_fabric = None,
     ent_description = None, ent_owners = Some [owner], ent_domain = None, ent_tags = None, ent_glossaryTerms = None,
     ent_deprecated = None, ent_fields = None, ent_upstreams = None\<rparr>"

definition demo_reports :: "SourceReport list" where
  "demo_reports =
     [\<lparr>rep_source = ''dbt'', rep_scanId = ''s1'', rep_createdAt = ''t1'', rep_entity = demo_owned ''finance''\<rparr>,
      \<lparr>rep_source = ''glue'', rep_scanId = ''s2'', rep_createdAt = ''t2'', rep_entity = demo_owned ''ops''\<rparr>]"

definition default_options :: AuditOptions where
  "default_options = \<lparr>ao_numericTolerance = None, ao_kindAuthority = None, ao_requireDistinctSources = None\<rparr>"

lemma demo_flagged: "flagged demo_env (reportsToFacts demo_reports) default_options ''u'' ''owner''"
proof -
  have "\<exists>c \<in> set (tl (carriers_of (reportsToFacts demo_reports) ''u'' ''owner'')).
      \<not> valuesAgree (snd (hd (carriers_of (reportsToFacts demo_reports) ''u'' ''owner''))) (snd c) (tolerance default_options)"
    and "carriers_of (reportsToFacts demo_reports) ''u'' ''owner'' \<noteq> []"
    by (simp_all add: demo_reports_def demo_owned_def reportsToFacts_def entityToFacts_def aspect_facts primaryOwner_def
        fact_of_def carriers_of_def subjectKey_def meta_def attributesOf_def own_key_order_def RESERVED_KEYS_def
        valuesAgree_exact stringify_inj del: stringify.simps)
  then show ?thesis unfolding flagged_iff [OF objects_reports] by (simp add: gate_def default_options_def)
qed

corollary recommendation_grounded_witness:
  "\<exists>c. c \<in> set (crp_contradictions (auditConsistency demo_env (reportsToFacts demo_reports) default_options))
     \<and> rsl_recommendedValue (ctr_resolution c) \<in> cv_value ` set (ctr_values c)"
  using demo_flagged recommendation_grounded [OF objects_reports, of _ demo_env demo_reports default_options]
  unfolding flagged_def by blast

subsection \<open>The order of the facts\<close>

text \<open>A fact of the dataset \<open>u\<close> that gives its row count.\<close>

definition row_count :: "int \<Rightarrow> AuditFact" where
  "row_count n = \<lparr>fct_id = show_int n, fct_kind = K_insight, fct_source = ''profile'', fct_scan = None,
     fct_sourceRef = Some ''u'', fct_content = [], fct_metadata = Some [(''rows'', JNum n)],
     fct_createdAt = ''t'', fct_importance = None\<rparr>"

lemma objects_row_counts: "objects (map row_count ns)"
  by (auto simp: objects_def row_count_def)

lemma carriers_row_counts: "carriers_of (map row_count ns) ''u'' ''rows'' = map (\<lambda>n. (row_count n, JNum n)) ns"
proof -
  have "subjectKey (row_count n) = Some ''u''" "attributesOf (row_count n) = [(''rows'', JNum n)]" for n
    by (simp_all add: row_count_def subjectKey_def meta_def nonempty_ref_def attributesOf_def own_key_order_def RESERVED_KEYS_def)
  then show ?thesis by (induction ns) (simp_all add: carriers_of_def)
qed

text \<open>
  C27: with a tolerance the audit depends on the order in which the facts come: agreement within a tolerance
  is not transitive and a bucket keeps its first value, so the same three facts are a contradiction in one
  order and consistent in another.
\<close>

theorem audit_depends_on_order:
  "\<exists>facts facts' opts. mset facts = mset facts'
     \<and> flagged E facts opts ''u'' ''rows'' \<and> \<not> flagged E facts' opts ''u'' ''rows''"
proof -
  define opts where "opts = default_options\<lparr>ao_numericTolerance := Some 1\<rparr>"
  have "flagged E (map row_count [0, 1, 2]) opts ''u'' ''rows''"
    unfolding flagged_iff [OF objects_row_counts] carriers_row_counts
    by (simp add: valuesAgree_def gate_def opts_def tolerance_def default_options_def)
  moreover have "\<not> flagged E (map row_count [1, 0, 2]) opts ''u'' ''rows''"
    unfolding flagged_iff [OF objects_row_counts] carriers_row_counts
    by (simp add: valuesAgree_def opts_def tolerance_def default_options_def)
  moreover have "mset (map row_count [0, 1, 2]) = mset (map row_count [1, 0, 2])"
    by simp
  ultimately show ?thesis by blast
qed

end
