(* ===== verification/VersionHistory.thy ===== *)
theory VersionHistory
  imports SelfAudit
begin

section \<open>Conflicts recovered from aspect history: \<open>src/datahub/version-history.ts\<close>\<close>

text \<open>
  Every retained version of an aspect becomes facts tagged with the stable source that wrote it, so that the
  self-audit can tell a disagreement of sources from a value one source changed. Aspect values are raw JSON,
  of which nothing is known beyond \<open>JSON.parse\<close>: an element access on a string or an object with numeric keys
  is modelled as JavaScript does it. Iterating or reading through a value of the wrong kind throws.
\<close>

datatype JsTypeError = JsTypeError | JsRangeError

record DhSystemMetadata =
  sm_version :: "string option"
  sm_lastObserved :: "int option"
  sm_runId :: "string option"
  sm_lastRunId :: "string option"
  sm_pipelineName :: "string option"

record DhVersionedAspect =
  ver_value :: "(string \<times> json) list option"
  ver_systemMetadata :: "DhSystemMetadata option"

datatype MutableAspectName = A_ownership | A_schemaMetadata | A_domains | A_deprecation

record AspectVersionHistory =
  avh_urn :: string
  avh_aspect :: MutableAspectName
  avh_versions :: "DhVersionedAspect list"
  avh_sourceIdentityByRunId :: "(string \<times> string) list option"

subsection \<open>Reading the raw values\<close>

text \<open>\<open>value?.[key]\<close>, and \<open>x ?? []\<close> with the element at index 0.\<close>

definition value_get :: "(string \<times> json) list option \<Rightarrow> string \<Rightarrow> json option" where
  "value_get v k = Option.bind v (\<lambda>kvs. map_of kvs k)"

fun element0 :: "json option \<Rightarrow> json option" where
  "element0 (Some (JArr (x # xs))) = Some x"
| "element0 (Some (JStr (c # cs))) = Some (JStr [c])"
| "element0 (Some (JObj kvs)) = map_of kvs ''0''"
| "element0 _ = None"

definition primaryOwnerOf :: "(string \<times> json) list option \<Rightarrow> string option" where
  "primaryOwnerOf v = (case element0 (value_get v ''owners'') of
     None \<Rightarrow> None | Some first \<Rightarrow> str_of (obj_get first ''owner''))"

definition primaryDomainOf :: "(string \<times> json) list option \<Rightarrow> string option" where
  "primaryDomainOf v = str_of (element0 (value_get v ''domains''))"

definition deprecatedOf :: "(string \<times> json) list option \<Rightarrow> bool option" where
  "deprecatedOf v = (case value_get v ''deprecated'' of Some (JBool b) \<Rightarrow> Some b | _ \<Rightarrow> None)"

text \<open>\<open>for (const f of fields)\<close>: an array yields its elements, a string its characters.\<close>

fun iterate :: "json option \<Rightarrow> JsTypeError + json list" where
  "iterate None = Inr []"
| "iterate (Some JNull) = Inr []"
| "iterate (Some (JArr xs)) = Inr xs"
| "iterate (Some (JStr s)) = Inr (map (\<lambda>c. JStr [c]) s)"
| "iterate _ = Inl JsTypeError"

definition typed_field :: "json \<Rightarrow> JsTypeError + (string \<times> string) list" where
  "typed_field f =
     (if f = JNull then Inl JsTypeError
      else Inr (case (str_of (obj_get f ''fieldPath''), str_of (obj_get f ''nativeDataType'')) of
          (Some path, Some native) \<Rightarrow>
            if path = [] \<or> native = [] then [] else [(path, toLowerCase native)]
        | _ \<Rightarrow> []))"

definition schemaFieldTypesOf :: "(string \<times> json) list option \<Rightarrow> JsTypeError + (string \<times> string) list" where
  "schemaFieldTypesOf v =
     bind_result (iterate (value_get v ''fields'')) (\<lambda>fs. map_result concat (collect (map typed_field fs)))"

text \<open>The latest instant a \<open>Date\<close> can hold.\<close>

definition MAX_TIME :: int where
  "MAX_TIME = 8640000000000000"

definition isoOf :: "DhSystemMetadata option \<Rightarrow> JsTypeError + string" where
  "isoOf sm = (let observed = or_else (Option.bind sm sm_lastObserved) 0;
       ms = (if observed > 0 then observed else 0) in
     if ms > MAX_TIME then Inl JsRangeError else Inr (toISO ms))"

subsection \<open>Who wrote a version\<close>

definition PLACEHOLDER_IDENTITIES :: "string list" where
  "PLACEHOLDER_IDENTITIES = [[], ''no-run-id-provided'', ''unknown'', ''unknown-run'', ''unknown-source'']"

definition meaningfulIdentity :: "string option \<Rightarrow> string option" where
  "meaningfulIdentity value = (case value of None \<Rightarrow> None | Some v \<Rightarrow>
     let normalized = trim v in
     if toLowerCase normalized \<in> set PLACEHOLDER_IDENTITIES then None else Some normalized)"

definition runOf :: "DhSystemMetadata option \<Rightarrow> string option" where
  "runOf sm = meaningfulIdentity (Option.bind sm sm_runId)"

definition sourceOf :: "AspectVersionHistory \<Rightarrow> DhSystemMetadata option \<Rightarrow> string" where
  "sourceOf h sm =
     (let resolved = (case runOf sm of None \<Rightarrow> None | Some runId \<Rightarrow>
            meaningfulIdentity (Option.bind (avh_sourceIdentityByRunId h) (\<lambda>m. map_of m runId))) in
      case resolved of Some r \<Rightarrow> r | None \<Rightarrow>
        (case meaningfulIdentity (Option.bind sm sm_pipelineName) of Some pipeline \<Rightarrow> pipeline
         | None \<Rightarrow> ''unknown-source''))"

subsection \<open>Facts\<close>

text \<open>The evidence of one version: its source, its run and the label in the ids of its facts.\<close>

definition evidenceId :: "nat \<Rightarrow> DhSystemMetadata option \<Rightarrow> string" where
  "evidenceId index sm = ''v'' @ or_else (meaningfulIdentity (Option.bind sm sm_version)) (show_nat (index + 1))
     @ '':'' @ or_else (runOf sm) ''unknown-run''"

definition version_fact ::
    "AspectVersionHistory \<Rightarrow> DhSystemMetadata option \<Rightarrow> string \<Rightarrow> string \<Rightarrow> FactKind \<Rightarrow> string \<Rightarrow> string \<Rightarrow>
     string \<Rightarrow> json \<Rightarrow> AuditFact" where
  "version_fact h sm createdAt fid kd about content attr value =
     \<lparr>fct_id = fid, fct_kind = kd, fct_source = sourceOf h sm, fct_scan = runOf sm, fct_sourceRef = Some about,
      fct_content = content @ '' (source '' @ sourceOf h sm @ ''; run '' @ or_else (runOf sm) ''unknown'' @ '')'',
      fct_metadata = Some [(''record'', JStr about), (attr, value)], fct_createdAt = createdAt,
      fct_importance = None\<rparr>"

definition version_facts ::
    "AspectVersionHistory \<Rightarrow> nat \<Rightarrow> DhVersionedAspect \<Rightarrow> JsTypeError + AuditFact list" where
  "version_facts h index v =
     (let urn = avh_urn h; sm = ver_systemMetadata v; ev = evidenceId index sm in
      bind_result (isoOf sm) (\<lambda>createdAt.
      case avh_aspect h of
        A_ownership \<Rightarrow> Inr (case primaryOwnerOf (ver_value v) of None \<Rightarrow> [] | Some owner \<Rightarrow>
          [version_fact h sm createdAt (urn @ '':ownership:'' @ ev) K_ownership urn
             (urn @ '' owned by '' @ owner) ''owner'' (JStr owner)])
      | A_domains \<Rightarrow> Inr (case primaryDomainOf (ver_value v) of None \<Rightarrow> [] | Some domain \<Rightarrow>
          [version_fact h sm createdAt (urn @ '':domain:'' @ ev) K_domain urn
             (urn @ '' in domain '' @ domain) ''domain'' (JStr domain)])
      | A_deprecation \<Rightarrow> Inr (case deprecatedOf (ver_value v) of None \<Rightarrow> [] | Some deprecated \<Rightarrow>
          [version_fact h sm createdAt (urn @ '':deprecation:'' @ ev) K_deprecation urn
             (urn @ '' deprecated='' @ bool_text deprecated) ''deprecated'' (JBool deprecated)])
      | A_schemaMetadata \<Rightarrow> map_result (map (\<lambda>(path, ty).
          version_fact h sm createdAt (urn @ ''#'' @ path @ '':schema:'' @ ev) K_schema (urn @ ''#'' @ path)
            (urn @ ''.'' @ path @ '' : '' @ ty) ''fieldType'' (JStr ty)))
          (schemaFieldTypesOf (ver_value v))))"

definition versionHistoryToFacts :: "AspectVersionHistory \<Rightarrow> JsTypeError + AuditFact list" where
  "versionHistoryToFacts h = map_result concat (collect (map (\<lambda>(index, v). version_facts h index v)
     (List.enumerate 0 (avh_versions h))))"

definition history_options :: AuditOptions where
  "history_options = \<lparr>ao_numericTolerance = None, ao_kindAuthority = None, ao_requireDistinctSources = Some True\<rparr>"

definition history_facts :: "AspectVersionHistory list \<Rightarrow> JsTypeError + AuditFact list" where
  "history_facts hs = map_result concat (collect (map versionHistoryToFacts hs))"

definition auditVersionHistory :: "js_env \<Rightarrow> AspectVersionHistory list \<Rightarrow> JsTypeError + ConsistencyReport" where
  "auditVersionHistory E hs = map_result (\<lambda>facts. auditConsistency E facts history_options) (history_facts hs)"

subsection \<open>What the history audit reports\<close>

text \<open>A field of the schema with a path and a native type, both non-empty texts; types are compared in lower case.\<close>

definition field_typed :: "(string \<times> json) list option \<Rightarrow> string \<Rightarrow> string \<Rightarrow> bool" where
  "field_typed v path ty \<longleftrightarrow> (\<exists>fs f native. value_get v ''fields'' = Some (JArr fs) \<and> f \<in> set fs
     \<and> obj_get f ''fieldPath'' = Some (JStr path) \<and> obj_get f ''nativeDataType'' = Some (JStr native)
     \<and> path \<noteq> [] \<and> native \<noteq> [] \<and> ty = toLowerCase native)"

text \<open>The value a version holds for an attribute of the dataset or of one of its fields.\<close>

definition version_wrote :: "AspectVersionHistory \<Rightarrow> DhVersionedAspect \<Rightarrow> string \<Rightarrow> string \<Rightarrow> json \<Rightarrow> bool" where
  "version_wrote h v s attr x = (case avh_aspect h of
       A_ownership \<Rightarrow> s = avh_urn h \<and> attr = ''owner'' \<and> (\<exists>y. primaryOwnerOf (ver_value v) = Some y \<and> x = JStr y)
     | A_domains \<Rightarrow> s = avh_urn h \<and> attr = ''domain'' \<and> (\<exists>y. primaryDomainOf (ver_value v) = Some y \<and> x = JStr y)
     | A_deprecation \<Rightarrow> s = avh_urn h \<and> attr = ''deprecated'' \<and> (\<exists>b. deprecatedOf (ver_value v) = Some b \<and> x = JBool b)
     | A_schemaMetadata \<Rightarrow> attr = ''fieldType'' \<and> (\<exists>path ty. field_typed (ver_value v) path ty
         \<and> s = avh_urn h @ ''#'' @ path \<and> x = JStr ty))"

text \<open>
  A version the audit can read: the instant it was observed at is in the range of a \<open>Date\<close>, and the fields of a
  schema are missing, \<open>null\<close>, a text or an array without \<open>null\<close>.
\<close>

definition readable :: "AspectVersionHistory \<Rightarrow> DhVersionedAspect \<Rightarrow> bool" where
  "readable h v \<longleftrightarrow> or_else (Option.bind (ver_systemMetadata v) sm_lastObserved) 0 \<le> MAX_TIME
     \<and> (avh_aspect h = A_schemaMetadata \<longrightarrow> (case value_get (ver_value v) ''fields'' of
          None \<Rightarrow> True | Some JNull \<Rightarrow> True | Some (JStr s) \<Rightarrow> True | Some (JArr fs) \<Rightarrow> JNull \<notin> set fs | Some j \<Rightarrow> False))"

lemma concat_results:
  assumes "map_result concat (collect (map f xs)) = Inr ys"
  shows "\<exists>g. (\<forall>x \<in> set xs. f x = Inr (g x)) \<and> set ys = (\<Union>x \<in> set xs. set (g x))"
proof -
  obtain zss where z: "collect (map f xs) = Inr zss" "ys = concat zss" using assms by auto
  then have m: "map f xs = map Inr zss" unfolding collect_Inr_iff by simp
  define g where "g x = (case f x of Inr zs \<Rightarrow> zs | Inl e \<Rightarrow> [])" for x
  have "map g xs = map (case_sum (\<lambda>e. []) (\<lambda>zs. zs)) (map f xs)" by (simp add: g_def)
  also have "\<dots> = zss" unfolding m by (simp add: comp_def)
  finally have "map g xs = zss" .
  moreover have "f x = Inr (g x)" if "x \<in> set xs" for x
  proof -
    have "f x \<in> set (map Inr zss)" using that m by (metis image_eqI list.set_map)
    then show ?thesis by (auto simp: g_def)
  qed
  ultimately show ?thesis using z(2) by (intro exI [of _ g]) auto
qed

lemma isoOf_Inr: "(\<exists>t. isoOf sm = Inr t) \<longleftrightarrow> or_else (Option.bind sm sm_lastObserved) 0 \<le> MAX_TIME"
  by (simp add: isoOf_def Let_def MAX_TIME_def)

lemma str_of_text: "str_of v = Some s \<longleftrightarrow> v = Some (JStr s)"
  by (cases v rule: str_of.cases) auto

lemma typed_fields_Inr: "(\<exists>ps. map_result concat (collect (map typed_field fs)) = Inr ps) \<longleftrightarrow> JNull \<notin> set fs"
proof -
  have "(\<exists>e. Inl e \<in> set (map typed_field fs)) \<longleftrightarrow> JNull \<in> set fs"
    by (induction fs) (auto simp: typed_field_def)
  then show ?thesis using collect_Inl_iff [of "map typed_field fs"] by (cases "collect (map typed_field fs)") auto
qed

lemma schema_Inr:
  "(\<exists>ps. schemaFieldTypesOf v = Inr ps) \<longleftrightarrow> (case value_get v ''fields'' of
     None \<Rightarrow> True | Some JNull \<Rightarrow> True | Some (JStr s) \<Rightarrow> True | Some (JArr fs) \<Rightarrow> JNull \<notin> set fs | Some j \<Rightarrow> False)"
proof -
  have "\<exists>ps. map_result concat (collect (map typed_field (map (\<lambda>c. JStr [c]) s))) = Inr ps" for s
    unfolding typed_fields_Inr by auto
  then show ?thesis
    using typed_fields_Inr by (cases "value_get v ''fields''" rule: iterate.cases) (simp_all add: schemaFieldTypesOf_def)
qed

lemma typed_field_mem:
  "typed_field f = Inr ps \<Longrightarrow> (path, ty) \<in> set ps \<longleftrightarrow> (\<exists>native. obj_get f ''fieldPath'' = Some (JStr path)
     \<and> obj_get f ''nativeDataType'' = Some (JStr native) \<and> path \<noteq> [] \<and> native \<noteq> [] \<and> ty = toLowerCase native)"
  by (auto simp: typed_field_def str_of_text split: option.splits if_splits)

lemma typed_fields_mem:
  "map_result concat (collect (map typed_field fs)) = Inr ps \<Longrightarrow> (path, ty) \<in> set ps \<longleftrightarrow>
     (\<exists>f \<in> set fs. \<exists>native. obj_get f ''fieldPath'' = Some (JStr path) \<and> obj_get f ''nativeDataType'' = Some (JStr native)
       \<and> path \<noteq> [] \<and> native \<noteq> [] \<and> ty = toLowerCase native)"
proof -
  assume "map_result concat (collect (map typed_field fs)) = Inr ps"
  from concat_results [OF this] obtain g where
    g: "\<forall>f \<in> set fs. typed_field f = Inr (g f)" "set ps = (\<Union>f \<in> set fs. set (g f))" by blast
  have "(path, ty) \<in> set ps \<longleftrightarrow> (\<exists>f \<in> set fs. (path, ty) \<in> set (g f))" unfolding g(2) by blast
  also have "\<dots> \<longleftrightarrow> (\<exists>f \<in> set fs. \<exists>native. obj_get f ''fieldPath'' = Some (JStr path)
      \<and> obj_get f ''nativeDataType'' = Some (JStr native) \<and> path \<noteq> [] \<and> native \<noteq> [] \<and> ty = toLowerCase native)"
    using g(1) typed_field_mem by (intro bex_cong refl) blast
  finally show ?thesis .
qed

lemma schema_mem:
  assumes "schemaFieldTypesOf v = Inr ps"
  shows "(path, ty) \<in> set ps \<longleftrightarrow> field_typed v path ty"
proof -
  obtain fs where fs: "iterate (value_get v ''fields'') = Inr fs" "map_result concat (collect (map typed_field fs)) = Inr ps"
    using assms by (auto simp: schemaFieldTypesOf_def)
  show ?thesis
    unfolding typed_fields_mem [OF fs(2)] field_typed_def
    using fs(1) by (cases "value_get v ''fields''" rule: iterate.cases) auto
qed

lemma concat_results_Inl:
  "(\<exists>e. map_result concat (collect (map f xs)) = Inl e) \<longleftrightarrow> (\<exists>x \<in> set xs. \<exists>e. f x = Inl e)"
proof -
  have "(\<exists>x \<in> set xs. \<exists>e. f x = Inl e) \<longleftrightarrow> (\<exists>e. Inl e \<in> set (map f xs))"
    unfolding set_map image_iff by metis
  then show ?thesis using collect_Inl_iff [of "map f xs"] by simp
qed

lemma says_version_fact:
  "says (version_fact h sm t fid kd about c attr' x') s attr x \<longleftrightarrow>
     s = about \<and> s \<noteq> [] \<and> attr = attr' \<and> attr' \<notin> RESERVED_KEYS \<and> x = x' \<and> scalar x'"
proof -
  have "subjectKey (version_fact h sm t fid kd about c attr' x') = (if about = [] then None else Some about)"
    by (cases about) (simp_all add: subjectKey_def meta_def version_fact_def nonempty_ref_def)
  moreover have "(attr, x) \<in> set (attributesOf (version_fact h sm t fid kd about c attr' x')) \<longleftrightarrow>
      attr = attr' \<and> attr' \<notin> RESERVED_KEYS \<and> x = x' \<and> scalar x'"
    by (auto simp: attributesOf_mem RESERVED_KEYS_def version_fact_def)
  ultimately show ?thesis unfolding says_def by auto
qed

lemma version_facts_Inl: "(\<exists>e. version_facts h i v = Inl e) \<longleftrightarrow> \<not> readable h v"
proof -
  have "readable h v \<longleftrightarrow> (\<exists>t. isoOf (ver_systemMetadata v) = Inr t)
      \<and> (avh_aspect h = A_schemaMetadata \<longrightarrow> (\<exists>fs. schemaFieldTypesOf (ver_value v) = Inr fs))"
    unfolding readable_def isoOf_Inr schema_Inr ..
  then show ?thesis
    by (cases "isoOf (ver_systemMetadata v)"; cases "schemaFieldTypesOf (ver_value v)"; cases "avh_aspect h")
      (simp_all add: version_facts_def Let_def)
qed

lemma version_facts_says:
  assumes "version_facts h i v = Inr fs"
  shows "(\<exists>m \<in> set fs. says m s attr x \<and> fct_source m = src) \<longleftrightarrow>
    s \<noteq> [] \<and> version_wrote h v s attr x \<and> src = sourceOf h (ver_systemMetadata v)"
proof -
  obtain t where t: "isoOf (ver_systemMetadata v) = Inr t"
    using assms by (auto simp: version_facts_def Let_def)
  have source: "fct_source (version_fact h sm t fid kd about c a y) = sourceOf h sm" for sm fid kd about c a y
    by (simp add: version_fact_def)
  show ?thesis
  proof (cases "avh_aspect h = A_schemaMetadata")
    case True
    then obtain ps where ps: "schemaFieldTypesOf (ver_value v) = Inr ps"
      using assms by (auto simp: version_facts_def t Let_def)
    have "(\<exists>m \<in> set fs. says m s attr x \<and> fct_source m = src) \<longleftrightarrow> (\<exists>p \<in> set ps.
        s = avh_urn h @ ''#'' @ fst p \<and> attr = ''fieldType'' \<and> x = JStr (snd p) \<and> src = sourceOf h (ver_systemMetadata v))"
      using assms by (auto simp: version_facts_def t True ps Let_def split_def says_version_fact source RESERVED_KEYS_def
          intro: bexI [of _ "(_, _)"]) force+
    then show ?thesis by (fastforce simp: version_wrote_def True schema_mem [OF ps, symmetric])
  next
    case False
    with assms show ?thesis
      by (cases "avh_aspect h")
         (auto simp: version_facts_def t Let_def version_wrote_def says_version_fact source RESERVED_KEYS_def split: option.splits)
  qed
qed

lemma version_facts_shape:
  assumes "version_facts h i v = Inr fs" "m \<in> set fs"
  shows "\<exists>t fid kd about c a y. m = version_fact h (ver_systemMetadata v) t fid kd about c a y \<and> a \<noteq> ''record''"
proof (cases "avh_aspect h = A_schemaMetadata")
  case True
  with assms obtain t ps where "isoOf (ver_systemMetadata v) = Inr t" "schemaFieldTypesOf (ver_value v) = Inr ps"
    by (auto simp: version_facts_def Let_def)
  with assms True show ?thesis
    by (fastforce simp: version_facts_def Let_def split_def)
next
  case False
  then show ?thesis using assms
    by (cases "avh_aspect h") (fastforce simp: version_facts_def Let_def split: option.splits)+
qed

lemma version_facts_objects:
  assumes "version_facts h i v = Inr fs"
  shows "objects fs"
  unfolding objects_def
proof (intro ballI allI impI)
  fix m md assume "m \<in> set fs" "fct_metadata m = Some md"
  with version_facts_shape [OF assms] show "distinct (map fst md)"
    by (fastforce simp: version_fact_def)
qed

lemma history_says:
  assumes "history_facts hs = Inr facts"
  shows "(\<exists>m \<in> set facts. says m s attr x \<and> fct_source m = src) \<longleftrightarrow>
    s \<noteq> [] \<and> (\<exists>h \<in> set hs. \<exists>v \<in> set (avh_versions h). version_wrote h v s attr x \<and> src = sourceOf h (ver_systemMetadata v))"
proof -
  from concat_results [OF assms [unfolded history_facts_def]] obtain g where
    g: "\<forall>h \<in> set hs. versionHistoryToFacts h = Inr (g h)" "set facts = (\<Union>h \<in> set hs. set (g h))" by blast
  have one: "(\<exists>m \<in> set (g h). says m s attr x \<and> fct_source m = src) \<longleftrightarrow>
      s \<noteq> [] \<and> (\<exists>v \<in> set (avh_versions h). version_wrote h v s attr x \<and> src = sourceOf h (ver_systemMetadata v))"
    if "h \<in> set hs" for h
  proof -
    from concat_results [OF g(1) [rule_format, OF that, unfolded versionHistoryToFacts_def]] obtain g' where
      g': "\<forall>iv \<in> set (List.enumerate 0 (avh_versions h)). version_facts h (fst iv) (snd iv) = Inr (g' iv)"
        "set (g h) = (\<Union>iv \<in> set (List.enumerate 0 (avh_versions h)). set (g' iv))"
      by (auto simp: split_def)
    have vs: "snd ` set (List.enumerate 0 (avh_versions h)) = set (avh_versions h)"
      by (metis list.set_map map_snd_enumerate)
    have "(\<exists>m \<in> set (g h). says m s attr x \<and> fct_source m = src) \<longleftrightarrow>
        (\<exists>iv \<in> set (List.enumerate 0 (avh_versions h)). \<exists>m \<in> set (g' iv). says m s attr x \<and> fct_source m = src)"
      unfolding g'(2) by blast
    also have "\<dots> \<longleftrightarrow> (\<exists>iv \<in> set (List.enumerate 0 (avh_versions h)).
        s \<noteq> [] \<and> version_wrote h (snd iv) s attr x \<and> src = sourceOf h (ver_systemMetadata (snd iv)))"
      using g'(1) version_facts_says by (intro bex_cong refl) blast
    also have "\<dots> \<longleftrightarrow> (\<exists>v \<in> snd ` set (List.enumerate 0 (avh_versions h)).
        s \<noteq> [] \<and> version_wrote h v s attr x \<and> src = sourceOf h (ver_systemMetadata v))" by blast
    finally show ?thesis unfolding vs by blast
  qed
  have "(\<exists>m \<in> set facts. says m s attr x \<and> fct_source m = src) \<longleftrightarrow>
      (\<exists>h \<in> set hs. \<exists>m \<in> set (g h). says m s attr x \<and> fct_source m = src)"
    unfolding g(2) by blast
  with one show ?thesis by blast
qed

lemma history_objects:
  assumes "history_facts hs = Inr facts"
  shows "objects facts"
  unfolding objects_def
proof (intro ballI allI impI)
  fix m md assume m: "m \<in> set facts" "fct_metadata m = Some md"
  from concat_results [OF assms [unfolded history_facts_def]] obtain g where
    "\<forall>h \<in> set hs. versionHistoryToFacts h = Inr (g h)" "set facts = (\<Union>h \<in> set hs. set (g h))" by blast
  with m(1) obtain h where h: "versionHistoryToFacts h = Inr (g h)" "m \<in> set (g h)" by blast
  from concat_results [OF h(1) [unfolded versionHistoryToFacts_def]] obtain g' where
    "\<forall>iv \<in> set (List.enumerate 0 (avh_versions h)). (case iv of (i, v) \<Rightarrow> version_facts h i v) = Inr (g' iv)"
    "set (g h) = (\<Union>iv \<in> set (List.enumerate 0 (avh_versions h)). set (g' iv))" by blast
  with h(2) obtain iv where "(case iv of (i, v) \<Rightarrow> version_facts h i v) = Inr (g' iv)" "m \<in> set (g' iv)" by blast
  moreover from this have "objects (g' iv)" by (cases iv) (auto dest: version_facts_objects)
  ultimately show "distinct (map fst md)" using m(2) by (simp add: objects_def)
qed

lemma history_Inl:
  "(\<exists>e. history_facts hs = Inl e) \<longleftrightarrow> (\<exists>h \<in> set hs. \<exists>v \<in> set (avh_versions h). \<not> readable h v)"
proof -
  have "(\<exists>e. versionHistoryToFacts h = Inl e) \<longleftrightarrow> (\<exists>v \<in> set (avh_versions h). \<not> readable h v)" for h
  proof -
    have vs: "set (avh_versions h) = snd ` set (List.enumerate 0 (avh_versions h))"
      by (metis list.set_map map_snd_enumerate)
    show ?thesis
      unfolding versionHistoryToFacts_def concat_results_Inl vs by (simp add: split_def version_facts_Inl)
  qed
  then show ?thesis unfolding history_facts_def concat_results_Inl by blast
qed

lemma wrote_not_numeric: "version_wrote h v s attr x \<Longrightarrow> \<not> numeric x"
  by (auto simp: version_wrote_def split: MutableAspectName.splits)

text \<open>
  C19: the history audit reports exactly the cross-source conflicts. It throws if and only if
  there is a version it cannot read (an instant past the range of a \<open>Date\<close>, or schema fields that are not a
  sequence of non-null values). Otherwise an attribute is reported if and only if two retained versions hold different values for it
  and were written by different resolved sources: values one source changed over time are never reported,
  and versions of unresolved provenance count as one source.
\<close>

theorem history_conflicts_flagged:
  "case auditVersionHistory E hs of
     Inl e \<Rightarrow> \<exists>h \<in> set hs. \<exists>v \<in> set (avh_versions h). \<not> readable h v
   | Inr r \<Rightarrow> \<not> (\<exists>h \<in> set hs. \<exists>v \<in> set (avh_versions h). \<not> readable h v)
     \<and> (\<forall>s attr. (\<exists>c \<in> set (crp_contradictions r). ctr_subject c = s \<and> ctr_attribute c = attr) \<longleftrightarrow>
       s \<noteq> [] \<and> (\<exists>h \<in> set hs. \<exists>v \<in> set (avh_versions h). \<exists>h' \<in> set hs. \<exists>v' \<in> set (avh_versions h'). \<exists>x x'.
         version_wrote h v s attr x \<and> version_wrote h' v' s attr x' \<and> x \<noteq> x'
         \<and> sourceOf h (ver_systemMetadata v) \<noteq> sourceOf h' (ver_systemMetadata v')))"
proof (cases "history_facts hs")
  case (Inl e)
  then show ?thesis using history_Inl [of hs] by (simp add: auditVersionHistory_def)
next
  case (Inr facts)
  have strict: "or_else (ao_requireDistinctSources history_options) False"
    by (simp add: history_options_def)
  have "flagged E facts history_options s attr \<longleftrightarrow>
       s \<noteq> [] \<and> (\<exists>h \<in> set hs. \<exists>v \<in> set (avh_versions h). \<exists>h' \<in> set hs. \<exists>v' \<in> set (avh_versions h'). \<exists>x x'.
         version_wrote h v s attr x \<and> version_wrote h' v' s attr x' \<and> x \<noteq> x'
         \<and> sourceOf h (ver_systemMetadata v) \<noteq> sourceOf h' (ver_systemMetadata v'))" for s attr
  proof -
    note says = history_says [OF Inr, of s attr]
    have exact: "\<forall>m \<in> set facts. \<forall>x. says m s attr x \<longrightarrow> \<not> numeric x"
      using says wrote_not_numeric by blast
    have "flagged E facts history_options s attr \<longleftrightarrow> (\<exists>x x' src src'. x \<noteq> x' \<and> src \<noteq> src'
        \<and> (\<exists>m \<in> set facts. says m s attr x \<and> fct_source m = src)
        \<and> (\<exists>m \<in> set facts. says m s attr x' \<and> fct_source m = src'))"
      unfolding flagged_exact [OF history_objects [OF Inr] exact] using strict by blast
    then show ?thesis unfolding says by blast
  qed
  moreover have "\<forall>h \<in> set hs. \<forall>v \<in> set (avh_versions h). readable h v"
    using history_Inl [of hs] Inr by auto
  ultimately show ?thesis
    using Inr by (simp add: auditVersionHistory_def flagged_def)
qed

end
