(* ===== verification/Requests.thy ===== *)
theory Requests
  imports Prelude
begin

section \<open>Programs that talk to a remote service\<close>

text \<open>
  An asynchronous operation is a tree: it has returned, or it awaits the response to one request. Between two
  requests other workers may be served, so a run of an operation is a sequence of requests with their
  responses, and an execution of the whole system is one sequence of served requests, of which each
  operation sees its own.
\<close>

datatype ('q, 'r, 'a) io = Return 'a | Ask 'q "'r \<Rightarrow> ('q, 'r, 'a) io"

primrec io_bind :: "('q, 'r, 'a) io \<Rightarrow> ('a \<Rightarrow> ('q, 'r, 'b) io) \<Rightarrow> ('q, 'r, 'b) io" where
  "io_bind (Return a) f = f a"
| "io_bind (Ask q k) f = Ask q (\<lambda>r. io_bind (k r) f)"

text \<open>A run: the responses received so far and what is left of the program.\<close>

fun io_after :: "('q, 'r, 'a) io \<Rightarrow> ('q \<times> 'r) list \<Rightarrow> ('q, 'r, 'a) io option" where
  "io_after p [] = Some p"
| "io_after (Return a) (e # es) = None"
| "io_after (Ask q k) ((q', r) # es) = (if q' = q then io_after (k r) es else None)"

definition returned :: "('q, 'r, 'a) io \<Rightarrow> ('q \<times> 'r) list \<Rightarrow> 'a \<Rightarrow> bool" where
  "returned p es a \<longleftrightarrow> io_after p es = Some (Return a)"

primrec all_requests :: "('q \<Rightarrow> bool) \<Rightarrow> ('q, 'r, 'a) io \<Rightarrow> bool" where
  "all_requests P (Return a) = True"
| "all_requests P (Ask q k) = (P q \<and> (\<forall>r. all_requests P (k r)))"

primrec all_results :: "('a \<Rightarrow> bool) \<Rightarrow> ('q, 'r, 'a) io \<Rightarrow> bool" where
  "all_results P (Return a) = P a"
| "all_results P (Ask q k) = (\<forall>r. all_results P (k r))"

lemma returned_Return [simp]: "returned (Return a) es b \<longleftrightarrow> es = [] \<and> b = a"
  by (cases es) (auto simp: returned_def)

lemma returned_Ask: "returned (Ask q k) es a \<longleftrightarrow> (\<exists>r es'. es = (q, r) # es' \<and> returned (k r) es' a)"
  by (cases es) (auto simp: returned_def split: if_splits)

lemma returned_result: "all_results P p \<Longrightarrow> returned p es a \<Longrightarrow> P a"
  by (induction p arbitrary: es) (auto simp: returned_Ask)

lemma io_after_append: "io_after p (es @ es') = Option.bind (io_after p es) (\<lambda>p'. io_after p' es')"
  by (induction p es rule: io_after.induct) auto

lemma all_requests_after:
  "all_requests P p \<Longrightarrow> io_after p es = Some p' \<Longrightarrow> (\<forall>e \<in> set es. P (fst e)) \<and> all_requests P p'"
  by (induction p es rule: io_after.induct) (auto split: if_splits)

lemma all_requests_bind:
  "all_requests P p \<Longrightarrow> (\<And>a. all_requests P (f a)) \<Longrightarrow> all_requests P (io_bind p f)"
  by (induction p) auto

lemma returned_bind:
  "returned (io_bind p f) es b \<longleftrightarrow> (\<exists>es1 es2 a. es = es1 @ es2 \<and> returned p es1 a \<and> returned (f a) es2 b)"
proof (induction p arbitrary: es)
  case (Ask q k)
  show ?case
  proof
    assume "returned (io_bind (Ask q k) f) es b"
    then obtain r es' where "es = (q, r) # es'" "returned (io_bind (k r) f) es' b"
      by (auto simp: returned_Ask)
    moreover from this Ask.IH [OF rangeI] obtain es1 es2 a where
      "es' = es1 @ es2" "returned (k r) es1 a" "returned (f a) es2 b" by blast
    ultimately show "\<exists>es1 es2 a. es = es1 @ es2 \<and> returned (Ask q k) es1 a \<and> returned (f a) es2 b"
      by (intro exI [of _ "(q, r) # es1"] exI [of _ es2] exI [of _ a]) (simp add: returned_Ask)
  next
    assume "\<exists>es1 es2 a. es = es1 @ es2 \<and> returned (Ask q k) es1 a \<and> returned (f a) es2 b"
    then show "returned (io_bind (Ask q k) f) es b"
      using Ask.IH [OF rangeI] by (fastforce simp: returned_Ask)
  qed
qed auto

subsection \<open>Reasoning about programs of requests\<close>

text \<open>
  Every request is issued after a history that satisfies \<open>P\<close>, every result is returned after one that
  satisfies \<open>R\<close>, whatever the answers.
\<close>

primrec wp :: "(('q \<times> 'r) list \<Rightarrow> 'q \<Rightarrow> bool) \<Rightarrow> ('a \<Rightarrow> ('q \<times> 'r) list \<Rightarrow> bool) \<Rightarrow> ('q, 'r, 'a) io \<Rightarrow> ('q \<times> 'r) list \<Rightarrow> bool" where
  "wp P R (Return a) h = R a h"
| "wp P R (Ask q k) h = (P h q \<and> (\<forall>r. wp P R (k r) (h @ [(q, r)])))"

lemma wp_bind: "wp P R (io_bind p f) h = wp P (\<lambda>a. wp P R (f a)) p h"
  by (induction p arbitrary: h) simp_all

lemma wp_after:
  "wp P R p h \<Longrightarrow> io_after p es = Some p' \<Longrightarrow>
     wp P R p' (h @ es) \<and> (\<forall>n < length es. P (h @ take n es) (fst (es ! n)))"
proof (induction p es arbitrary: h rule: io_after.induct)
  case (3 q k q' r es)
  then have e: "q' = q" "wp P R (k r) (h @ [(q, r)])" "io_after (k r) es = Some p'" "P h q" by (auto split: if_splits)
  from "3.IH" [OF e(1-3)] show ?case using e(1,4) by (auto simp: less_Suc_eq_0_disj)
qed auto

lemma wp_calls:
  assumes "wp P R p []" "io_after p es \<noteq> None" "n < length es"
  shows "P (take n es) (fst (es ! n))"
  using wp_after [OF assms(1)] assms(2,3) by fastforce

lemma wp_sum: "(\<lambda>x. wp P R (case x of Inl e \<Rightarrow> p e | Inr a \<Rightarrow> f a))
    = (\<lambda>x. case x of Inl e \<Rightarrow> wp P R (p e) | Inr a \<Rightarrow> wp P R (f a))"
  by (rule ext) (simp split: sum.split)

lemma wp_mono: "wp P R p h \<Longrightarrow> (\<And>h q. P h q \<Longrightarrow> P' h q) \<Longrightarrow> (\<And>a h. R a h \<Longrightarrow> R' a h) \<Longrightarrow> wp P' R' p h"
  by (induction p arbitrary: h) auto

subsection \<open>Serving\<close>

text \<open>A service answers one request at a time, perhaps in several ways.\<close>

type_synonym ('d, 'q, 'r) service = "'d \<Rightarrow> 'q \<Rightarrow> 'r \<Rightarrow> 'd \<Rightarrow> bool"

inductive served :: "('d, 'q, 'r) service \<Rightarrow> 'd \<Rightarrow> ('q \<times> 'r) list \<Rightarrow> 'd \<Rightarrow> bool" for S where
  served_nil: "served S d [] d"
| served_cons: "S d q r d1 \<Longrightarrow> served S d1 es d' \<Longrightarrow> served S d ((q, r) # es) d'"

inductive_simps served_Nil [simp]: "served S d [] d'"
inductive_simps served_Cons: "served S d (e # es) d'"

lemma served_append: "served S d (es @ es') d' \<longleftrightarrow> (\<exists>d1. served S d es d1 \<and> served S d1 es' d')"
  by (induction es arbitrary: d) (auto simp: served_Cons)

text \<open>
  An execution of several operations: the log of all served requests, each tagged with its operation. What
  an operation has seen is its part of the log.
\<close>

definition part :: "'w \<Rightarrow> ('w \<times> 'q \<times> 'r) list \<Rightarrow> ('q \<times> 'r) list" where
  "part w log = map snd (filter (\<lambda>e. fst e = w) log)"

definition system_run ::
    "('d, 'q, 'r) service \<Rightarrow> ('w \<Rightarrow> ('q, 'r, 'a) io) \<Rightarrow> 'd \<Rightarrow> ('w \<times> 'q \<times> 'r) list \<Rightarrow> 'd \<Rightarrow> bool" where
  "system_run S prog d log d' \<longleftrightarrow> served S d (map snd log) d' \<and> (\<forall>w. io_after (prog w) (part w log) \<noteq> None)"

lemma system_requests:
  assumes "system_run S prog d log d'" "\<And>w. all_requests P (prog w)" "e \<in> set log"
  shows "P (fst (snd e))"
proof -
  obtain w q r where e: "e = (w, q, r)" by (cases e)
  obtain p where "io_after (prog w) (part w log) = Some p" using assms(1) by (auto simp: system_run_def)
  from all_requests_after [OF assms(2) this] have "\<forall>e \<in> set (part w log). P (fst e)" by blast
  moreover have "(q, r) \<in> set (part w log)" using assms(3) e by (force simp: part_def)
  ultimately show ?thesis using e by auto
qed

end
