(* ===== verification/AwsErrors.thy ===== *)
theory AwsErrors
  imports Journal Requests
begin

section \<open>Errors of the worker and of the services it calls: \<open>src/worker/aws-adapters.ts\<close>\<close>

text \<open>
  What a \<open>catch\<close> clause of the worker may receive: one of the program's own errors, or the error object of an
  AWS client, of which the worker reads the name, the two places for an HTTP status (\<open>None\<close> when it is not an
  integer), the \<open>retryable\<close> flag and the cancellation reasons of a transaction (\<open>None\<close> when not an array).
\<close>

datatype WorkerErrorCode = BODY_TOO_LARGE | INVALID_JSON | INVALID_MESSAGE | INVALID_EVIDENCE

record AwsError =
  aws_name :: string
  aws_status :: "int option"
  aws_httpStatusCode :: "int option"
  aws_retryable :: bool
  aws_reasons :: "string option list option"

datatype thrown = WorkerContractError WorkerErrorCode string | LoopThrew LoopError
  | RetryableExecutionJournalError | WorkerLeaseError bool | ServiceThrew AwsError

definition RETRYABLE_ERROR_NAMES :: "string list" where
  "RETRYABLE_ERROR_NAMES = [''AbortError'', ''ECONNRESET'', ''EAI_AGAIN'', ''ETIMEDOUT'', ''InternalError'',
     ''InternalServerError'', ''NetworkingError'', ''RequestTimeout'', ''ServiceUnavailable'', ''SlowDown'',
     ''Throttling'', ''ThrottlingException'', ''TimeoutError'', ''TooManyRequestsException'']"

definition TERMINAL_CONFIGURATION_ERROR_NAMES :: "string list" where
  "TERMINAL_CONFIGURATION_ERROR_NAMES = [''AccessDenied'', ''AccessDeniedException'', ''CredentialsProviderError'',
     ''InvalidSignatureException'', ''ResourceNotFoundException'', ''UnrecognizedClientException'',
     ''ValidationException'']"

fun awsErrorName :: "thrown \<Rightarrow> string" where
  "awsErrorName (WorkerContractError c m) = ''WorkerContractError''"
| "awsErrorName (LoopThrew (RemediationError c m)) = ''RemediationError''"
| "awsErrorName (LoopThrew (PlainError m)) = ''Error''"
| "awsErrorName RetryableExecutionJournalError = ''RetryableExecutionJournalError''"
| "awsErrorName (WorkerLeaseError terminal) = ''WorkerLeaseError''"
| "awsErrorName (ServiceThrew e) = aws_name e"

definition isTerminalTaskError :: "thrown \<Rightarrow> bool" where
  "isTerminalTaskError e \<longleftrightarrow> awsErrorName e \<in> {''TaskDoesNotExist'', ''TaskTimedOut'', ''InvalidToken''}"

definition http_status :: "int option \<Rightarrow> int option" where
  "http_status s = (case s of Some n \<Rightarrow> if 100 \<le> n \<and> n \<le> 599 then Some n else None | None \<Rightarrow> None)"

fun errorStatus :: "thrown \<Rightarrow> int option" where
  "errorStatus (ServiceThrew e) =
     (case http_status (aws_status e) of Some n \<Rightarrow> Some n | None \<Rightarrow> http_status (aws_httpStatusCode e))"
| "errorStatus _ = None"

fun retryable_flag :: "thrown \<Rightarrow> bool" where
  "retryable_flag (ServiceThrew e) = aws_retryable e"
| "retryable_flag RetryableExecutionJournalError = True"
| "retryable_flag _ = False"

fun is_contract_error :: "thrown \<Rightarrow> bool" where
  "is_contract_error (WorkerContractError c m) = True"
| "is_contract_error _ = False"

definition isRetryableError :: "thrown \<Rightarrow> bool" where
  "isRetryableError e =
     (if is_contract_error e then False
      else if retryable_flag e then True
      else if awsErrorName e \<in> set RETRYABLE_ERROR_NAMES then True
      else if awsErrorName e \<in> set TERMINAL_CONFIGURATION_ERROR_NAMES then False
      else (case errorStatus e of
          None \<Rightarrow> True
        | Some s \<Rightarrow> if s = 408 \<or> s = 429 \<or> s \<ge> 500 then True
            else if s \<ge> 400 \<and> s < 500 then False else True))"

definition isConditionalFailure :: "AwsError \<Rightarrow> bool" where
  "isConditionalFailure e =
     (if aws_name e = ''TransactionCanceledException''
      then (case aws_reasons e of None \<Rightarrow> False | Some rs \<Rightarrow>
        list_ex (\<lambda>r. r = Some ''ConditionalCheckFailed'') rs
        \<and> list_all (\<lambda>r. r = Some ''ConditionalCheckFailed'' \<or> r = Some ''None'' \<or> r = None) rs)
      else aws_httpStatusCode e = Some 409 \<or> aws_httpStatusCode e = Some 412
        \<or> aws_name e = ''ConditionalCheckFailedException'' \<or> aws_name e = ''PreconditionFailed'')"

definition isTransactionCancellationWithoutReasons :: "AwsError \<Rightarrow> bool" where
  "isTransactionCancellationWithoutReasons e \<longleftrightarrow>
     aws_name e = ''TransactionCanceledException'' \<and> (aws_reasons e = None \<or> aws_reasons e = Some [])"

definition CALLBACK_VISIBILITY_SECONDS :: int where "CALLBACK_VISIBILITY_SECONDS = 300"
definition CALLBACK_RETRY_VISIBILITY_SECONDS :: int where "CALLBACK_RETRY_VISIBILITY_SECONDS = 5"
definition EXECUTION_IN_PROGRESS_RETRY_VISIBILITY_SECONDS :: int where
  "EXECUTION_IN_PROGRESS_RETRY_VISIBILITY_SECONDS = 180"

fun execution_in_progress :: "thrown \<Rightarrow> bool" where
  "execution_in_progress (LoopThrew (RemediationError c m)) = (c = EXECUTION_IN_PROGRESS)"
| "execution_in_progress _ = False"

definition retryVisibilitySeconds :: "thrown \<Rightarrow> int" where
  "retryVisibilitySeconds e = (if execution_in_progress e then EXECUTION_IN_PROGRESS_RETRY_VISIBILITY_SECONDS
     else CALLBACK_RETRY_VISIBILITY_SECONDS)"

definition shouldFinalizePoisonDelivery :: "thrown \<Rightarrow> int \<Rightarrow> int \<Rightarrow> bool" where
  "shouldFinalizePoisonDelivery e receiveCount maxReceiveCount =
     (if execution_in_progress e then False
      else \<not> isRetryableError e \<or> receiveCount \<ge> maxReceiveCount)"

end
