(* ===== verification/DynamoJournal.thy ===== *)
theory DynamoJournal
  imports AwsErrors
begin

section \<open>The durable execution journal: \<open>DynamoExecutionJournal\<close> of \<open>src/worker/aws-adapters.ts\<close>\<close>

text \<open>
  The journal of the hosted worker lives in a DynamoDB table. Its operations are programs of requests; a
  condition or an update expression is a term of the grammar the code uses. What DynamoDB does with a request
  is not modelled here: it is a hypothesis of the properties (\<open>DynamoProperties\<close>).

  An attribute is a string or a number. The receipt of a completed execution, which the table holds as its
  canonical JSON text, is kept as the receipt itself; a receipt attribute that is another string stands for a
  text that is not such JSON.
\<close>

datatype attribute = S string | N int | ReceiptText ExecutionReceiptV1

type_synonym item = "string \<Rightarrow> attribute option"
type_synonym item_key = "string \<times> string"

datatype condition = NotExists string | Equals string attribute | AtLeast string int
  | And condition condition | Or condition condition

datatype assignment = Set string attribute | Bump string int int | Remove string

datatype db_request = TransactPut "(item_key \<times> item \<times> condition) list"
  | PutItem item_key item condition | GetItem item_key
  | UpdateItem item_key condition "assignment list"

datatype db_response = Done | Found "item option" | Failed AwsError

type_synonym 'a db = "(db_request, db_response, thrown + 'a) io"

definition JOURNAL_TTL_SECONDS :: int where "JOURNAL_TTL_SECONDS = 90 * 24 * 60 * 60"
definition EXECUTION_LEASE_SECONDS :: int where "EXECUTION_LEASE_SECONDS = 10 * 60"

definition stringAttribute :: "item option \<Rightarrow> string \<Rightarrow> string option" where
  "stringAttribute i name = (case Option.bind i (\<lambda>it. it name) of Some (S s) \<Rightarrow> Some s | _ \<Rightarrow> None)"

definition numberAttribute :: "item option \<Rightarrow> string \<Rightarrow> int option" where
  "numberAttribute i name = (case Option.bind i (\<lambda>it. it name) of Some (N n) \<Rightarrow> Some n | _ \<Rightarrow> None)"

definition executionKey :: "string \<Rightarrow> item_key" where
  "executionKey k = (''EXECUTION#'' @ k, ''STATE'')"

definition approvalKey :: "string \<Rightarrow> item_key" where
  "approvalKey a = (''APPROVAL_EXECUTION#'' @ a, ''STATE'')"

text \<open>An item as written: the given attributes and the two parts of its key.\<close>

definition new_item :: "item_key \<Rightarrow> (string \<times> attribute) list \<Rightarrow> item" where
  "new_item k attrs = map_of ([(''pk'', S (fst k)), (''sk'', S (snd k))] @ attrs)"

definition absent :: condition where
  "absent = And (NotExists ''pk'') (NotExists ''sk'')"

definition nowEpoch :: "int \<Rightarrow> int" where "nowEpoch now = now div 1000"

subsection \<open>\<open>claim\<close>\<close>

definition claim_put :: "int \<Rightarrow> ClaimInput \<Rightarrow> db_request" where
  "claim_put now i =
     (let expiresAt = nowEpoch now + JOURNAL_TTL_SECONDS; leaseExpiresAt = nowEpoch now + EXECUTION_LEASE_SECONDS in
      TransactPut
        [(executionKey (ci_idempotencyKey i),
          new_item (executionKey (ci_idempotencyKey i))
            [(''status'', S ''IN_PROGRESS''), (''approvalId'', S (ci_approvalId i)),
             (''decisionDigest'', S (ci_approvalDecisionDigest i)), (''createdAt'', S (toISO now)),
             (''fencingToken'', N 1), (''leaseExpiresAt'', N leaseExpiresAt), (''attemptCount'', N 1),
             (''expiresAt'', N expiresAt)], absent),
         (approvalKey (ci_approvalId i),
          new_item (approvalKey (ci_approvalId i))
            [(''idempotencyKey'', S (ci_idempotencyKey i)), (''decisionDigest'', S (ci_approvalDecisionDigest i)),
             (''expiresAt'', N expiresAt)], absent)])"

definition reclaim :: "int \<Rightarrow> string \<Rightarrow> string \<Rightarrow> int \<Rightarrow> int \<Rightarrow> db_request" where
  "reclaim now k status currentLease currentFencingToken =
     UpdateItem (executionKey k)
       (And (Equals ''status'' (S status)) (And (Equals ''leaseExpiresAt'' (N currentLease))
         (Equals ''fencingToken'' (N currentFencingToken))))
       [Set ''status'' (S ''RECONCILING''), Set ''leaseExpiresAt'' (N (nowEpoch now + EXECUTION_LEASE_SECONDS)),
        Set ''fencingToken'' (N (currentFencingToken + 1)), Set ''reconciliationStartedAt'' (S (toISO now)),
        Bump ''recoveryCount'' 0 1]"

definition same_binding :: "ClaimInput \<Rightarrow> item option \<Rightarrow> item option \<Rightarrow> bool" where
  "same_binding i execution approval \<longleftrightarrow>
     stringAttribute execution ''approvalId'' = Some (ci_approvalId i)
     \<and> stringAttribute execution ''decisionDigest'' = Some (ci_approvalDecisionDigest i)
     \<and> stringAttribute approval ''idempotencyKey'' = Some (ci_idempotencyKey i)
     \<and> stringAttribute approval ''decisionDigest'' = Some (ci_approvalDecisionDigest i)"

definition invalid_lease :: thrown where
  "invalid_lease = WorkerContractError INVALID_EVIDENCE ''Execution journal has no valid bounded, fenced lease.''"

definition claim_leased :: "int \<Rightarrow> ClaimInput \<Rightarrow> string \<Rightarrow> item option \<Rightarrow> ExecutionClaim db" where
  "claim_leased now i status execution =
     (case (numberAttribute execution ''leaseExpiresAt'', numberAttribute execution ''fencingToken'') of
        (Some currentLease, Some currentFencingToken) \<Rightarrow>
          if currentFencingToken < 1 \<or> currentFencingToken \<ge> MAX_SAFE_INTEGER then Return (Inl invalid_lease)
          else if currentLease > nowEpoch now then Return (Inr IN_PROGRESS)
          else Ask (reclaim now (ci_idempotencyKey i) status currentLease currentFencingToken) (\<lambda>response.
            case response of
              Failed e \<Rightarrow> if isConditionalFailure e then Return (Inr IN_PROGRESS) else Return (Inl (ServiceThrew e))
            | _ \<Rightarrow> Return (Inr (RECONCILE (nat (currentFencingToken + 1)))))
      | _ \<Rightarrow> Return (Inl invalid_lease))"

definition claim_completed :: "js_env \<Rightarrow> ClaimInput \<Rightarrow> item option \<Rightarrow> ExecutionClaim db" where
  "claim_completed E i execution =
     (case Option.bind execution (\<lambda>it. it ''receipt'') of
        Some (ReceiptText receipt) \<Rightarrow>
          if \<not> receipt_valid E receipt then Return (Inr APPROVAL_ALREADY_USED)
          else if rcp_idempotencyKey receipt \<noteq> ci_idempotencyKey i
            \<or> rcp_approvalDecisionDigest receipt \<noteq> Some (ci_approvalDecisionDigest i)
          then Return (Inl (WorkerContractError INVALID_EVIDENCE
            ''Completed journal receipt does not match its immutable execution binding.''))
          else Return (Inr (COMPLETED receipt))
      | _ \<Rightarrow> Return (Inr APPROVAL_ALREADY_USED))"

definition claim_existing ::
    "js_env \<Rightarrow> int \<Rightarrow> ClaimInput \<Rightarrow> bool \<Rightarrow> item option \<Rightarrow> item option \<Rightarrow> ExecutionClaim db" where
  "claim_existing E now i unclassified execution approval =
     (if unclassified \<and> execution = None \<and> approval = None then Return (Inl RetryableExecutionJournalError)
      else if \<not> same_binding i execution approval then Return (Inr APPROVAL_ALREADY_USED)
      else (case stringAttribute execution ''status'' of
          Some status \<Rightarrow>
            if status = ''IN_PROGRESS'' \<or> status = ''RECONCILING'' then claim_leased now i status execution
            else if status \<noteq> ''COMPLETED'' then Return (Inr APPROVAL_ALREADY_USED)
            else claim_completed E i execution
        | None \<Rightarrow> Return (Inr APPROVAL_ALREADY_USED)))"

text \<open>The two reads run concurrently (\<open>Promise.all\<close>); a read changes nothing, so their order is immaterial.\<close>

definition get_item :: "item_key \<Rightarrow> item option db" where
  "get_item k = Ask (GetItem k) (\<lambda>response. case response of
     Found i \<Rightarrow> Return (Inr i) | Failed e \<Rightarrow> Return (Inl (ServiceThrew e)) | Done \<Rightarrow> Return (Inr None))"

definition db_bind :: "'a db \<Rightarrow> ('a \<Rightarrow> 'b db) \<Rightarrow> 'b db" where
  "db_bind p f = io_bind p (\<lambda>x. case x of Inl e \<Rightarrow> Return (Inl e) | Inr a \<Rightarrow> f a)"

text \<open>
  The two reads are awaited together in the source; they are served here in the order in which they are sent.
\<close>

definition claim_read :: "js_env \<Rightarrow> int \<Rightarrow> ClaimInput \<Rightarrow> bool \<Rightarrow> ExecutionClaim db" where
  "claim_read E now i unclassified =
     db_bind (get_item (executionKey (ci_idempotencyKey i))) (\<lambda>execution.
     db_bind (get_item (approvalKey (ci_approvalId i))) (\<lambda>approval.
       claim_existing E now i unclassified execution approval))"

definition dyn_claim :: "js_env \<Rightarrow> int \<Rightarrow> ClaimInput \<Rightarrow> ExecutionClaim db" where
  "dyn_claim E now i = Ask (claim_put now i) (\<lambda>response.
     case response of
       Failed e \<Rightarrow>
         if isConditionalFailure e then claim_read E now i False
         else if \<not> isTransactionCancellationWithoutReasons e then Return (Inl (ServiceThrew e))
         else claim_read E now i True
     | _ \<Rightarrow> Return (Inr (CLAIMED 1)))"

subsection \<open>\<open>resume\<close> and \<open>complete\<close>\<close>

definition resume_update :: "int \<Rightarrow> ExecutionJournalLease \<Rightarrow> db_request" where
  "resume_update now l =
     UpdateItem (executionKey (ls_idempotencyKey l))
       (And (Equals ''status'' (S ''RECONCILING'')) (And (AtLeast ''leaseExpiresAt'' (nowEpoch now))
         (Equals ''fencingToken'' (N (int (ls_fencingToken l))))))
       [Set ''status'' (S ''IN_PROGRESS''), Set ''leaseExpiresAt'' (N (nowEpoch now + EXECUTION_LEASE_SECONDS)),
        Set ''resumedAt'' (S (toISO now)), Bump ''attemptCount'' 0 1]"

definition dyn_resume :: "int \<Rightarrow> ExecutionJournalLease \<Rightarrow> bool db" where
  "dyn_resume now l = Ask (resume_update now l) (\<lambda>response.
     case response of
       Failed e \<Rightarrow> if isConditionalFailure e then Return (Inr False) else Return (Inl (ServiceThrew e))
     | _ \<Rightarrow> Return (Inr True))"

text \<open>The receipt as JSON, and the length of a text in UTF-8.\<close>

fun json_fields :: "json \<Rightarrow> (string \<times> json) list" where
  "json_fields (JObj kvs) = kvs"
| "json_fields _ = []"

definition receipt_json :: "ExecutionReceiptV1 \<Rightarrow> json" where
  "receipt_json r = JObj (json_fields (receipt_payload r)
     @ [(''receiptId'', JStr (rcp_receiptId r)), (''digest'', JStr (rcp_digest r))])"

definition utf8_length :: "string \<Rightarrow> nat" where
  "utf8_length s = sum_list (map (\<lambda>c. if of_char c < (128 :: nat) then 1 else 2) s)"

definition complete_update :: "ExecutionJournalLease \<Rightarrow> string \<Rightarrow> ExecutionReceiptV1 \<Rightarrow> db_request" where
  "complete_update l decisionDigest r =
     UpdateItem (executionKey (ls_idempotencyKey l))
       (And (Or (Equals ''status'' (S ''IN_PROGRESS'')) (Equals ''status'' (S ''RECONCILING'')))
         (And (Equals ''fencingToken'' (N (int (ls_fencingToken l))))
           (Equals ''decisionDigest'' (S decisionDigest))))
       [Set ''status'' (S ''COMPLETED''), Set ''receiptDigest'' (S (rcp_digest r)),
        Set ''receipt'' (ReceiptText r), Set ''completedAt'' (S (rcp_completedAt r)), Remove ''leaseExpiresAt'']"

definition dyn_complete :: "js_env \<Rightarrow> ExecutionJournalLease \<Rightarrow> ExecutionReceiptV1 \<Rightarrow> unit db" where
  "dyn_complete E l r =
     (if \<not> receipt_valid E r
      then Return (Inl (WorkerContractError INVALID_EVIDENCE ''Journal rejected an invalid receipt.''))
      else if rcp_idempotencyKey r \<noteq> ls_idempotencyKey l
      then Return (Inl (WorkerContractError INVALID_EVIDENCE
        ''Receipt idempotency key does not match the claimed execution.''))
      else (case rcp_approvalDecisionDigest r of
          Some (c # cs) \<Rightarrow>
            if utf8_length (canonical_text (receipt_json r)) > 300 * 1024
            then Return (Inl (WorkerContractError INVALID_EVIDENCE ''Receipt exceeds the journal limit.''))
            else Ask (complete_update l (c # cs) r) (\<lambda>response.
              case response of
                Failed e \<Rightarrow>
                  if isConditionalFailure e
                  then Return (Inl (LoopThrew (RemediationError EXECUTION_IN_PROGRESS
                    ''A newer worker owns this execution lease.'')))
                  else Return (Inl (ServiceThrew e))
              | _ \<Rightarrow> Return (Inr ()))
        | _ \<Rightarrow> Return (Inl (WorkerContractError INVALID_EVIDENCE
            ''Journal receipt has no approval decision binding.''))))"

end
