(* ===== verification/DynamoProperties.thy ===== *)
theory DynamoProperties
  imports DynamoJournal
begin

section \<open>The durable journal linearises to the in-memory one\<close>

subsection \<open>What the table is assumed to do\<close>

text \<open>
  The documented behaviour of a DynamoDB table the journal relies on. A request is atomic. It is answered with
  success only if its conditions held and its writes were applied, a consistent read returns the item, a
  conditional failure means that a condition failed and nothing was written, and a transaction cancelled without
  reasons wrote nothing. After any other failure the request may or may not have been applied: the response
  may have been lost.

  The items carry \<open>expiresAt\<close>, and the stack has the table delete them some time after it. Deletion is not a behaviour
  of this table: the laws, and what follows from them, are those of runs that end before the first item they wrote
  expires (\<open>JOURNAL_TTL_SECONDS\<close>, 90 days). Once an item is deleted its approval can be claimed again, and its
  fencing tokens start over.
\<close>

fun holds :: "condition \<Rightarrow> item option \<Rightarrow> bool" where
  "holds (NotExists a) i \<longleftrightarrow> Option.bind i (\<lambda>it. it a) = None"
| "holds (Equals a v) i \<longleftrightarrow> Option.bind i (\<lambda>it. it a) = Some v"
| "holds (AtLeast a n) i \<longleftrightarrow> (case Option.bind i (\<lambda>it. it a) of Some (N m) \<Rightarrow> n \<le> m | _ \<Rightarrow> False)"
| "holds (And c d) i \<longleftrightarrow> holds c i \<and> holds d i"
| "holds (Or c d) i \<longleftrightarrow> holds c i \<or> holds d i"

fun assign :: "item \<Rightarrow> assignment \<Rightarrow> item" where
  "assign it (Set a v) = it(a \<mapsto> v)"
| "assign it (Bump a zero one) = it(a \<mapsto> N ((case it a of Some (N n) \<Rightarrow> n | _ \<Rightarrow> zero) + one))"
| "assign it (Remove a) = it(a := None)"

type_synonym table = "item_key \<Rightarrow> item option"

fun admitted :: "db_request \<Rightarrow> table \<Rightarrow> bool" where
  "admitted (TransactPut ps) T \<longleftrightarrow> (\<forall>(k, i, c) \<in> set ps. holds c (T k))"
| "admitted (PutItem k i c) T \<longleftrightarrow> holds c (T k)"
| "admitted (GetItem k) T \<longleftrightarrow> True"
| "admitted (UpdateItem k c as) T \<longleftrightarrow> holds c (T k)"

fun written :: "db_request \<Rightarrow> table \<Rightarrow> table" where
  "written (TransactPut ps) T = foldl (\<lambda>T (k, i, c). T(k \<mapsto> i)) T ps"
| "written (PutItem k i c) T = T(k \<mapsto> i)"
| "written (GetItem k) T = T"
| "written (UpdateItem k c as) T = T(k \<mapsto> foldl assign (or_else (T k) (new_item k [])) as)"

locale conditional_store =
  fixes S :: "('d, db_request, db_response) service"
    and items :: "'d \<Rightarrow> table"
  assumes succeeded: "S d q Done d' \<Longrightarrow> (\<forall>k. q \<noteq> GetItem k) \<and> admitted q (items d) \<and> items d' = written q (items d)"
    and read: "S d q (Found x) d' \<Longrightarrow> \<exists>k. q = GetItem k \<and> x = items d k \<and> items d' = items d"
    and refused: "S d q (Failed e) d' \<Longrightarrow> isConditionalFailure e \<Longrightarrow> \<not> admitted q (items d) \<and> items d' = items d"
    and cancelled: "S d q (Failed e) d' \<Longrightarrow> isTransactionCancellationWithoutReasons e \<Longrightarrow> items d' = items d"
    and lost: "S d q (Failed e) d' \<Longrightarrow> items d' = items d \<or> admitted q (items d) \<and> items d' = written q (items d)"
begin

text \<open>Every answer either leaves the table as it was or reports or hides one admitted write.\<close>

lemma step_cases:
  assumes "S d q r d'"
  shows "(items d' = items d \<and> r \<noteq> Done) \<or> (admitted q (items d) \<and> items d' = written q (items d) \<and> (\<forall>k. q \<noteq> GetItem k))
    \<or> (\<exists>k. q = GetItem k \<and> items d' = items d)"
  using assms by (cases r) (auto dest: succeeded read lost)

end

subsection \<open>The simulation relation\<close>

fun journal_status_name :: "JournalStatus \<Rightarrow> string" where
  "journal_status_name JS_IN_PROGRESS = ''IN_PROGRESS''"
| "journal_status_name JS_RECONCILING = ''RECONCILING''"
| "journal_status_name JS_COMPLETED = ''COMPLETED''"

definition item_entry :: "js_env \<Rightarrow> item \<Rightarrow> JournalEntry \<Rightarrow> bool" where
  "item_entry E it e \<longleftrightarrow> it ''approvalId'' = Some (S (je_approvalId e))
     \<and> it ''decisionDigest'' = Some (S (je_approvalDecisionDigest e))
     \<and> it ''fencingToken'' = Some (N (int (je_fencingToken e)))
     \<and> it ''status'' = Some (S (journal_status_name (je_status e)))
     \<and> it ''pk'' \<noteq> None
     \<and> (je_status e \<noteq> JS_COMPLETED \<longrightarrow> it ''leaseExpiresAt'' = Some (N (je_leaseExpiresAt e)))
     \<and> (\<forall>r. je_receipt e = Some r \<longrightarrow> it ''receipt'' = Some (ReceiptText r) \<and> receipt_valid E r)"

definition represents :: "js_env \<Rightarrow> table \<Rightarrow> MemoryJournal \<Rightarrow> bool" where
  "represents E T j \<longleftrightarrow> mem_wf j
     \<and> (\<forall>k. rel_option (item_entry E) (T (executionKey k)) (byIdempotencyKey j k))
     \<and> (\<forall>a. rel_option (\<lambda>it k. it ''pk'' \<noteq> None \<and> it ''idempotencyKey'' = Some (S k)
            \<and> (\<forall>e. byIdempotencyKey j k = Some e \<longrightarrow> it ''decisionDigest'' = Some (S (je_approvalDecisionDigest e))))
          (T (approvalKey a)) (approvalToIdempotencyKey j a))"

lemma journal_keys [simp]:
  "executionKey k = executionKey k' \<longleftrightarrow> k = k'" "approvalKey a = approvalKey a' \<longleftrightarrow> a = a'"
  "executionKey k \<noteq> approvalKey a" "approvalKey a \<noteq> executionKey k"
  by (simp_all add: executionKey_def approvalKey_def)

lemma representsD:
  assumes "represents E T j"
  shows "mem_wf j" "rel_option (item_entry E) (T (executionKey k)) (byIdempotencyKey j k)"
    "rel_option (\<lambda>it k. it ''pk'' \<noteq> None \<and> it ''idempotencyKey'' = Some (S k)
       \<and> (\<forall>e. byIdempotencyKey j k = Some e \<longrightarrow> it ''decisionDigest'' = Some (S (je_approvalDecisionDigest e))))
     (T (approvalKey a)) (approvalToIdempotencyKey j a)"
  using assms unfolding represents_def by blast+

lemma represents_item:
  assumes "represents E T j" "T (executionKey k) = Some it"
  shows "\<exists>e. byIdempotencyKey j k = Some e \<and> item_entry E it e"
  using representsD(2) [OF assms(1), of k] assms(2) by (cases "byIdempotencyKey j k") simp_all

lemma represents_none:
  assumes "represents E T j"
  shows "T (executionKey k) = None \<longleftrightarrow> byIdempotencyKey j k = None"
    and "T (approvalKey a) = None \<longleftrightarrow> approvalToIdempotencyKey j a = None"
  using representsD(2) [OF assms, of k] representsD(3) [OF assms, of a]
  by (cases "T (executionKey k)"; cases "byIdempotencyKey j k"; cases "T (approvalKey a)";
      cases "approvalToIdempotencyKey j a"; simp)+

abbreviation lease_journal :: "MemoryJournal ExecutionJournal" where
  "lease_journal \<equiv> InMemoryExecutionJournal EXECUTION_LEASE_SECONDS"

text \<open>Changing the item of one execution and its entry together.\<close>

lemma represents_put:
  assumes "represents E T j" "byIdempotencyKey j k = Some e" "item_entry E it e'"
    and "je_approvalId e' = je_approvalId e" "je_approvalDecisionDigest e' = je_approvalDecisionDigest e" "entry_ok k e'"
  shows "represents E (T(executionKey k \<mapsto> it)) (put_entry k e' j)"
proof -
  have "mem_wf (put_entry k e' j)"
    using assms by (intro mem_wf_put) (simp_all add: represents_def)
  moreover have "rel_option (\<lambda>it k. it ''pk'' \<noteq> None \<and> it ''idempotencyKey'' = Some (S k)
      \<and> (\<forall>e. byIdempotencyKey (put_entry k' e' j) k = Some e \<longrightarrow> it ''decisionDigest'' = Some (S (je_approvalDecisionDigest e))))
      (T (approvalKey a)) (approvalToIdempotencyKey j a)" if "k' = k" for a k'
    using assms(1) [unfolded represents_def, THEN conjunct2, THEN conjunct2, rule_format, of a] assms(2,5) that
    by (auto elim!: option.rel_mono_strong split: if_splits)
  ultimately show ?thesis using assms(1,3) by (auto simp: represents_def)
qed

subsection \<open>One admitted write is one call of the in-memory journal\<close>

lemma claim_put_admitted:
  "admitted (claim_put now i) T \<longleftrightarrow> holds absent (T (executionKey (ci_idempotencyKey i)))
     \<and> holds absent (T (approvalKey (ci_approvalId i)))"
  by (simp add: claim_put_def Let_def)

lemma absent_represented:
  assumes "represents E T j"
  shows "holds absent (T (executionKey k)) \<longleftrightarrow> byIdempotencyKey j k = None"
    and "holds absent (T (approvalKey a)) \<longleftrightarrow> approvalToIdempotencyKey j a = None \<and> T (approvalKey a) = None"
proof -
  show "holds absent (T (executionKey k)) \<longleftrightarrow> byIdempotencyKey j k = None"
    using representsD(2) [OF assms, of k]
    by (cases "T (executionKey k)"; cases "byIdempotencyKey j k") (auto simp: absent_def item_entry_def)
  show "holds absent (T (approvalKey a)) \<longleftrightarrow> approvalToIdempotencyKey j a = None \<and> T (approvalKey a) = None"
    using representsD(3) [OF assms, of a]
    by (cases "T (approvalKey a)"; cases "approvalToIdempotencyKey j a") (auto simp: absent_def)
qed

lemma simulate_claim:
  assumes "represents E T j" "admitted (claim_put now i) T"
  shows "fst (journal_step lease_journal j (Claim (nowEpoch now) i)) = Granted (ci_idempotencyKey i) (ci_approvalId i) 1"
    and "represents E (written (claim_put now i) T) (snd (journal_step lease_journal j (Claim (nowEpoch now) i)))"
proof -
  have free: "byIdempotencyKey j (ci_idempotencyKey i) = None" "approvalToIdempotencyKey j (ci_approvalId i) = None"
    using assms(2) absent_represented [OF assms(1)] unfolding claim_put_admitted by blast+
  define e where "e = \<lparr>je_approvalId = ci_approvalId i, je_approvalDecisionDigest = ci_approvalDecisionDigest i,
    je_fencingToken = 1, je_leaseExpiresAt = nowEpoch now + EXECUTION_LEASE_SECONDS, je_status = JS_IN_PROGRESS,
    je_receipt = None\<rparr>"
  define j' where "j' = (put_entry (ci_idempotencyKey i) e j)\<lparr>approvalToIdempotencyKey :=
    (approvalToIdempotencyKey j)(ci_approvalId i := Some (ci_idempotencyKey i))\<rparr>"
  have step: "journal_step lease_journal j (Claim (nowEpoch now) i)
      = (Granted (ci_idempotencyKey i) (ci_approvalId i) 1, j')"
    by (simp add: mem_claim_def free j'_def e_def)
  have wf: "mem_wf j'"
    using mem_wf_step [OF representsD(1) [OF assms(1)], of EXECUTION_LEASE_SECONDS "Claim (nowEpoch now) i"] step by simp
  have "represents E (written (claim_put now i) T) j'"
    unfolding represents_def
  proof (intro conjI allI wf)
    show "rel_option (item_entry E) (written (claim_put now i) T (executionKey k)) (byIdempotencyKey j' k)" for k
      using representsD(2) [OF assms(1), of k]
      by (simp add: claim_put_def Let_def j'_def e_def item_entry_def new_item_def)
    have unused: "k \<noteq> ci_idempotencyKey i" if "approvalToIdempotencyKey j a = Some k" for a k
      using that free representsD(1) [OF assms(1)] unfolding mem_wf_def by force
    show "rel_option (\<lambda>it k. it ''pk'' \<noteq> None \<and> it ''idempotencyKey'' = Some (S k)
       \<and> (\<forall>e. byIdempotencyKey j' k = Some e \<longrightarrow> it ''decisionDigest'' = Some (S (je_approvalDecisionDigest e))))
       (written (claim_put now i) T (approvalKey a)) (approvalToIdempotencyKey j' a)" for a
      using representsD(3) [OF assms(1), of a] unused [of a]
      by (cases "approvalToIdempotencyKey j a"; cases "T (approvalKey a)")
         (auto simp: claim_put_def Let_def j'_def e_def new_item_def)
  qed
  with step show "fst (journal_step lease_journal j (Claim (nowEpoch now) i)) = Granted (ci_idempotencyKey i) (ci_approvalId i) 1"
    "represents E (written (claim_put now i) T) (snd (journal_step lease_journal j (Claim (nowEpoch now) i)))" by simp_all
qed

lemma held_item:
  "holds (Equals a v) i \<Longrightarrow> \<exists>it. i = Some it \<and> it a = Some v"
  by (cases i) auto

definition active :: "string \<Rightarrow> bool" where
  "active status \<longleftrightarrow> status = ''IN_PROGRESS'' \<or> status = ''RECONCILING''"

lemma active_entry:
  assumes "represents E T j" "T (executionKey k) = Some it" "it ''status'' = Some (S st)" "active st"
  obtains e where "byIdempotencyKey j k = Some e" "item_entry E it e" "entry_ok k e" "journal_status_name (je_status e) = st"
    "je_status e \<noteq> JS_COMPLETED" "je_receipt e = None"
proof -
  obtain e where e: "byIdempotencyKey j k = Some e" "item_entry E it e" using represents_item [OF assms(1,2)] by blast
  moreover have "entry_ok k e" using representsD(1) [OF assms(1)] e(1) by (rule mem_wf_entry)
  moreover have "journal_status_name (je_status e) = st" using e(2) assms(3) by (simp add: item_entry_def)
  moreover from this have "je_status e \<noteq> JS_COMPLETED" using assms(4) by (auto simp: active_def)
  ultimately show thesis using that by (auto simp: entry_ok_def)
qed

lemma simulate_reclaim:
  assumes "represents E T j" "admitted (reclaim now k st l t) T" "active st" "1 \<le> t" "l \<le> nowEpoch now"
  shows "\<exists>a i. fst (journal_step lease_journal j (Claim (nowEpoch now) i)) = Granted k a (nat (t + 1))
    \<and> represents E (written (reclaim now k st l t) T) (snd (journal_step lease_journal j (Claim (nowEpoch now) i)))"
proof -
  obtain it where it: "T (executionKey k) = Some it" "it ''status'' = Some (S st)" "it ''leaseExpiresAt'' = Some (N l)"
    "it ''fencingToken'' = Some (N t)"
    using assms(2) by (cases "T (executionKey k)") (auto simp: reclaim_def)
  obtain e where e: "byIdempotencyKey j k = Some e" "item_entry E it e" "entry_ok k e"
    "je_status e \<noteq> JS_COMPLETED" "je_receipt e = None"
    using active_entry [OF assms(1) it(1,2) assms(3)] by metis
  have lt: "je_leaseExpiresAt e = l" "int (je_fencingToken e) = t" using e it by (auto simp: item_entry_def)
  define i where "i = \<lparr>ci_approvalId = je_approvalId e, ci_approvalDecisionDigest = je_approvalDecisionDigest e,
    ci_idempotencyKey = k\<rparr>"
  define e' where "e' = e\<lparr>je_fencingToken := je_fencingToken e + 1,
    je_leaseExpiresAt := nowEpoch now + EXECUTION_LEASE_SECONDS, je_status := JS_RECONCILING\<rparr>"
  have tok: "nat (t + 1) = je_fencingToken e + 1" using lt(2) by simp
  have step: "journal_step lease_journal j (Claim (nowEpoch now) i)
      = (Granted k (je_approvalId e) (nat (t + 1)), put_entry k e' j)"
    using lt assms(5) e by (simp add: mem_claim_def i_def e'_def tok Let_def)
  have new: "item_entry E (foldl assign it
      [Set ''status'' (S ''RECONCILING''), Set ''leaseExpiresAt'' (N (nowEpoch now + EXECUTION_LEASE_SECONDS)),
       Set ''fencingToken'' (N (t + 1)), Set ''reconciliationStartedAt'' (S (toISO now)), Bump ''recoveryCount'' 0 1]) e'"
    using e(2) lt e(5) by (simp add: item_entry_def e'_def)
  have "entry_ok k e'" using e(3,5) by (simp add: entry_ok_def e'_def)
  from represents_put [OF assms(1) e(1) new _ _ this] have
    "represents E (written (reclaim now k st l t) T) (put_entry k e' j)"
    by (simp add: reclaim_def it(1) e'_def)
  with step show ?thesis by (metis fst_conv snd_conv)
qed

lemma simulate_resume:
  assumes "represents E T j" "admitted (resume_update now l) T"
  shows "represents E (written (resume_update now l) T) (snd (journal_step lease_journal j (Resume (nowEpoch now) l)))"
proof -
  let ?k = "ls_idempotencyKey l"
  obtain it m where it: "T (executionKey ?k) = Some it" "it ''status'' = Some (S ''RECONCILING'')"
    "it ''leaseExpiresAt'' = Some (N m)" "nowEpoch now \<le> m" "it ''fencingToken'' = Some (N (int (ls_fencingToken l)))"
    using assms(2) by (cases "T (executionKey ?k)") (auto simp: resume_update_def split: option.splits attribute.splits)
  obtain e where e: "byIdempotencyKey j ?k = Some e" "item_entry E it e" "entry_ok ?k e"
    "journal_status_name (je_status e) = ''RECONCILING''" "je_status e \<noteq> JS_COMPLETED" "je_receipt e = None"
    using active_entry [OF assms(1) it(1,2)] by (metis active_def)
  have st: "je_status e = JS_RECONCILING" using e(4) by (cases "je_status e") auto
  have lt: "je_leaseExpiresAt e = m" "je_fencingToken e = ls_fencingToken l" using e it by (auto simp: item_entry_def)
  define e' where "e' = e\<lparr>je_status := JS_IN_PROGRESS, je_leaseExpiresAt := nowEpoch now + EXECUTION_LEASE_SECONDS\<rparr>"
  have step: "snd (journal_step lease_journal j (Resume (nowEpoch now) l)) = put_entry ?k e' j"
    using lt st it(4) e by (simp add: mem_resume_def e'_def)
  have new: "item_entry E (foldl assign it
      [Set ''status'' (S ''IN_PROGRESS''), Set ''leaseExpiresAt'' (N (nowEpoch now + EXECUTION_LEASE_SECONDS)),
       Set ''resumedAt'' (S (toISO now)), Bump ''attemptCount'' 0 1]) e'"
    using e(2,6) by (simp add: item_entry_def e'_def)
  have "entry_ok ?k e'" using e(3,6) by (simp add: entry_ok_def e'_def)
  from represents_put [OF assms(1) e(1) new _ _ this] show ?thesis
    unfolding step by (simp add: resume_update_def it(1) e'_def)
qed

lemma simulate_complete:
  assumes "represents E T j" "admitted (complete_update l d r) T"
    and "receipt_valid E r" "rcp_idempotencyKey r = ls_idempotencyKey l" "rcp_approvalDecisionDigest r = Some d"
  shows "fst (journal_step lease_journal j (Complete l r)) = Stored l r"
    and "represents E (written (complete_update l d r) T) (snd (journal_step lease_journal j (Complete l r)))"
proof -
  let ?k = "ls_idempotencyKey l"
  obtain it st where it: "T (executionKey ?k) = Some it" "it ''status'' = Some (S st)" "active st"
    "it ''fencingToken'' = Some (N (int (ls_fencingToken l)))" "it ''decisionDigest'' = Some (S d)"
    using assms(2) by (cases "T (executionKey ?k)") (auto simp: complete_update_def active_def)
  obtain e where e: "byIdempotencyKey j ?k = Some e" "item_entry E it e" "entry_ok ?k e"
    "je_status e \<noteq> JS_COMPLETED" "je_receipt e = None"
    using active_entry [OF assms(1) it(1,2,3)] by metis
  have lt: "je_fencingToken e = ls_fencingToken l" "je_approvalDecisionDigest e = d" using e it by (auto simp: item_entry_def)
  define e' where "e' = e\<lparr>je_receipt := Some r, je_status := JS_COMPLETED\<rparr>"
  have "je_status e = JS_IN_PROGRESS \<or> je_status e = JS_RECONCILING" using e(4) by (cases "je_status e") auto
  then have step: "journal_step lease_journal j (Complete l r) = (Stored l r, put_entry ?k e' j)"
    using lt assms(4,5) e by (auto simp: mem_complete_def e'_def)
  have new: "item_entry E (foldl assign it [Set ''status'' (S ''COMPLETED''), Set ''receiptDigest'' (S (rcp_digest r)),
        Set ''receipt'' (ReceiptText r), Set ''completedAt'' (S (rcp_completedAt r)), Remove ''leaseExpiresAt'']) e'"
    using e(2) assms(3) by (simp add: item_entry_def e'_def)
  have "entry_ok ?k e'" using e(3) assms(4,5) lt by (simp add: entry_ok_def e'_def)
  from represents_put [OF assms(1) e(1) new _ _ this] have
    "represents E (written (complete_update l d r) T) (put_entry ?k e' j)"
    by (simp add: complete_update_def it(1) e'_def)
  with step show "fst (journal_step lease_journal j (Complete l r)) = Stored l r"
    "represents E (written (complete_update l d r) T) (snd (journal_step lease_journal j (Complete l r)))" by simp_all
qed

subsection \<open>Every served log is a run of the in-memory journal\<close>

text \<open>The requests the journal's programs issue.\<close>

definition journal_request :: "js_env \<Rightarrow> db_request \<Rightarrow> bool" where
  "journal_request E q \<longleftrightarrow> (\<exists>now i. q = claim_put now i) \<or> (\<exists>k. q = GetItem k)
     \<or> (\<exists>now k st l t. q = reclaim now k st l t \<and> active st \<and> 1 \<le> t \<and> l \<le> nowEpoch now)
     \<or> (\<exists>now l. q = resume_update now l)
     \<or> (\<exists>l d r. q = complete_update l d r \<and> receipt_valid E r \<and> rcp_idempotencyKey r = ls_idempotencyKey l
          \<and> rcp_approvalDecisionDigest r = Some d)"

lemma journal_requests:
  "journal_request E (claim_put now i)" "journal_request E (GetItem g)" "journal_request E (resume_update now l)"
  "active st \<Longrightarrow> 1 \<le> t \<Longrightarrow> m \<le> nowEpoch now \<Longrightarrow> journal_request E (reclaim now k st m t)"
  "receipt_valid E r \<Longrightarrow> rcp_idempotencyKey r = ls_idempotencyKey l \<Longrightarrow> rcp_approvalDecisionDigest r = Some d \<Longrightarrow>
     journal_request E (complete_update l d r)"
  unfolding journal_request_def by blast+

text \<open>What a served request says about its event in the run, and about the journal the run ends in.\<close>

definition explains :: "MemoryJournal \<Rightarrow> db_request \<times> db_response \<Rightarrow> journal_event \<Rightarrow> bool" where
  "explains j x ev \<longleftrightarrow>
     (\<forall>now i. x = (claim_put now i, Done) \<longrightarrow> ev = Granted (ci_idempotencyKey i) (ci_approvalId i) 1)
     \<and> (\<forall>now k st l t. x = (reclaim now k st l t, Done) \<longrightarrow> (\<exists>a. ev = Granted k a (nat (t + 1))))
     \<and> (\<forall>l d r. x = (complete_update l d r, Done) \<longrightarrow> (\<exists>r'. ev = Stored l r' \<and> r' = r))
     \<and> (\<forall>k it a d. x = (GetItem (executionKey k), Found (Some it)) \<longrightarrow> it ''approvalId'' = Some (S a) \<longrightarrow>
          it ''decisionDigest'' = Some (S d) \<longrightarrow> mem_owner j k = Some (a, d))
     \<and> (\<forall>k it r. x = (GetItem (executionKey k), Found (Some it)) \<longrightarrow> it ''status'' = Some (S ''COMPLETED'') \<longrightarrow>
          it ''receipt'' = Some (ReceiptText r) \<longrightarrow> mem_stored j k = Some r)
     \<and> (\<forall>y. snd x = Found y \<longrightarrow> (\<exists>k. fst x = GetItem k))"

text \<open>
  What the answer to a request says about the journal just before it, and which call it performs: reads report the entries of the
  journal, a resumption succeeds when the journal's would, and a refused write had a reason in the journal.
\<close>

abbreviation approval_item :: "MemoryJournal \<Rightarrow> item \<Rightarrow> string \<Rightarrow> bool" where
  "approval_item j it k \<equiv> it ''pk'' \<noteq> None \<and> it ''idempotencyKey'' = Some (S k)
     \<and> (\<forall>e. byIdempotencyKey j k = Some e \<longrightarrow> it ''decisionDigest'' = Some (S (je_approvalDecisionDigest e)))"

definition can_resume :: "MemoryJournal \<Rightarrow> int \<Rightarrow> ExecutionJournalLease \<Rightarrow> bool" where
  "can_resume j now l \<longleftrightarrow> fst (mem_resume EXECUTION_LEASE_SECONDS (nowEpoch now) j l)"

definition lease_state :: "MemoryJournal \<Rightarrow> string \<Rightarrow> string \<Rightarrow> int \<Rightarrow> int \<Rightarrow> bool" where
  "lease_state j k st l t \<longleftrightarrow> (\<exists>e. byIdempotencyKey j k = Some e \<and> je_status e \<noteq> JS_COMPLETED
     \<and> journal_status_name (je_status e) = st \<and> je_leaseExpiresAt e = l \<and> int (je_fencingToken e) = t)"

definition can_complete :: "MemoryJournal \<Rightarrow> ExecutionJournalLease \<Rightarrow> ExecutionReceiptV1 \<Rightarrow> bool" where
  "can_complete j l r \<longleftrightarrow> (\<exists>j'. mem_complete j l r = Inr j') \<and> mem_stored j (ls_idempotencyKey l) = None"

definition refusal :: "MemoryJournal \<Rightarrow> db_request \<Rightarrow> bool" where
  "refusal j q \<longleftrightarrow>
     (\<forall>now i. q = claim_put now i \<longrightarrow>
        byIdempotencyKey j (ci_idempotencyKey i) \<noteq> None \<or> approvalToIdempotencyKey j (ci_approvalId i) \<noteq> None)
     \<and> (\<forall>now k st l t. q = reclaim now k st l t \<longrightarrow> \<not> lease_state j k st l t)
     \<and> (\<forall>now l. q = resume_update now l \<longrightarrow> \<not> can_resume j now l)
     \<and> (\<forall>l d r. q = complete_update l d r \<and> rcp_approvalDecisionDigest r = Some d \<longrightarrow> \<not> can_complete j l r)"

definition sees :: "js_env \<Rightarrow> MemoryJournal \<Rightarrow> db_request \<times> db_response \<Rightarrow> bool" where
  "sees E j x \<longleftrightarrow> (\<forall>k. x \<noteq> (GetItem k, Done)) \<and> (\<forall>q it. x = (q, Found it) \<longrightarrow> (\<exists>k. q = GetItem k))
     \<and> (\<forall>k it. x = (GetItem (executionKey k), Found it) \<longrightarrow> rel_option (item_entry E) it (byIdempotencyKey j k))
     \<and> (\<forall>a it. x = (GetItem (approvalKey a), Found it) \<longrightarrow> rel_option (approval_item j) it (approvalToIdempotencyKey j a))
     \<and> (\<forall>q e. x = (q, Failed e) \<longrightarrow> isConditionalFailure e \<longrightarrow> refusal j q)
     \<and> (\<forall>now l. x = (resume_update now l, Done) \<longrightarrow> can_resume j now l)"

definition performs :: "db_request \<times> db_response \<Rightarrow> journal_call \<Rightarrow> bool" where
  "performs x c \<longleftrightarrow> (\<forall>now l. x = (resume_update now l, Done) \<longrightarrow> c = Resume (nowEpoch now) l)"

lemma resume_admitted:
  assumes "represents E T j"
  shows "admitted (resume_update now l) T \<longleftrightarrow> can_resume j now l"
proof -
  let ?k = "ls_idempotencyKey l"
  show ?thesis
  proof (cases "T (executionKey ?k)")
    case None
    then show ?thesis
      using represents_none(1) [OF assms, of ?k] by (simp add: resume_update_def can_resume_def mem_resume_def)
  next
    case (Some it)
    then obtain e where e: "byIdempotencyKey j ?k = Some e" "item_entry E it e" using represents_item [OF assms] by blast
    have ok: "entry_ok ?k e" using representsD(1) [OF assms] e(1) by (rule mem_wf_entry)
    show ?thesis
      using e Some ok by (cases "je_status e")
        (auto simp: resume_update_def can_resume_def mem_resume_def item_entry_def entry_ok_def)
  qed
qed

lemma refusal_represented:
  assumes "represents E T j" "\<not> admitted q T"
  shows "refusal j q"
proof -
  have "lease_state j k st l t \<Longrightarrow> admitted (reclaim now k st l t) T" for now k st l t
    using representsD(2) [OF assms(1), of k]
    by (cases "T (executionKey k)") (auto simp: lease_state_def reclaim_def item_entry_def)
  moreover have "can_complete j l r \<Longrightarrow> rcp_approvalDecisionDigest r = Some d \<Longrightarrow> admitted (complete_update l d r) T" for l d r
    using representsD(2) [OF assms(1), of "ls_idempotencyKey l"]
    by (cases "T (executionKey (ls_idempotencyKey l))"; cases "byIdempotencyKey j (ls_idempotencyKey l)")
      (auto simp: can_complete_def complete_update_def item_entry_def mem_complete_def mem_stored_def split: if_splits)
  moreover have "T (approvalKey a) = None" if "approvalToIdempotencyKey j a = None" for a
    using represents_none(2) [OF assms(1)] that by blast
  then have "byIdempotencyKey j (ci_idempotencyKey i) = None \<Longrightarrow> approvalToIdempotencyKey j (ci_approvalId i) = None \<Longrightarrow>
      admitted (claim_put now i) T" for now i
    unfolding claim_put_admitted absent_represented [OF assms(1)] by blast
  ultimately show ?thesis
    using assms(2) resume_admitted [OF assms(1)] unfolding refusal_def by blast
qed

text \<open>A call that does nothing, for the requests that change nothing: no lease has token 0.\<close>

definition idle :: journal_call where
  "idle = Resume 0 \<lparr>ls_idempotencyKey = [], ls_fencingToken = 0\<rparr>"

lemma idle_step: "mem_wf j \<Longrightarrow> journal_step lease_journal j idle = (Other, j)"
  using mem_wf_entry [of j "[]"] by (force simp: idle_def mem_resume_def entry_ok_def split: option.split)

lemma request_shapes [simp]:
  "claim_put now i \<noteq> GetItem k" "claim_put now i \<noteq> reclaim now' k' st m t" "claim_put now i \<noteq> resume_update now' l'"
  "claim_put now i \<noteq> complete_update l' d r" "reclaim now' k' st m t \<noteq> GetItem k" "resume_update now' l' \<noteq> GetItem k"
  "complete_update l' d r \<noteq> GetItem k" "reclaim now' k' st m t \<noteq> resume_update now'' l'"
  "reclaim now' k' st m t \<noteq> complete_update l' d r" "resume_update now'' l' \<noteq> complete_update l'' d r"
  by (simp_all add: claim_put_def Let_def reclaim_def resume_update_def complete_update_def)

lemmas request_shapes_sym [simp] = request_shapes [symmetric]

lemma request_inject:
  "claim_put now i = claim_put now' i' \<Longrightarrow> ci_idempotencyKey i = ci_idempotencyKey i' \<and> ci_approvalId i = ci_approvalId i'"
  "reclaim now k st m t = reclaim now' k' st' m' t' \<Longrightarrow> k = k' \<and> t = t'"
  "complete_update l d r = complete_update l' d' r' \<Longrightarrow>
     ls_idempotencyKey l = ls_idempotencyKey l' \<and> ls_fencingToken l = ls_fencingToken l' \<and> r = r'"
  "resume_update now l = resume_update now' l' \<Longrightarrow>
     ls_idempotencyKey l = ls_idempotencyKey l' \<and> ls_fencingToken l = ls_fencingToken l' \<and> nowEpoch now = nowEpoch now'"
  by (simp_all add: claim_put_def Let_def reclaim_def complete_update_def resume_update_def)

lemma explains_read:
  assumes "represents E T j" "x = T k"
  shows "explains j (GetItem k, Found x) ev"
proof -
  have "mem_owner j k' = Some (a, d)"
    if "k = executionKey k'" "T (executionKey k') = Some it" "it ''approvalId'' = Some (S a)" "it ''decisionDigest'' = Some (S d)"
    for k' it a d
    using represents_item [OF assms(1) that(2)] that(3,4) by (auto simp: mem_owner_def item_entry_def)
  moreover have "mem_stored j k' = Some r"
    if "k = executionKey k'" and it: "T (executionKey k') = Some it" and st: "it ''status'' = Some (S ''COMPLETED'')"
      "it ''receipt'' = Some (ReceiptText r)" for k' it r
  proof -
    obtain e where e: "byIdempotencyKey j k' = Some e" "item_entry E it e" using represents_item [OF assms(1) it] by blast
    then have "je_status e = JS_COMPLETED" using st by (cases "je_status e") (auto simp: item_entry_def)
    moreover have "entry_ok k' e" using representsD(1) [OF assms(1)] e(1) by (rule mem_wf_entry)
    ultimately have "je_receipt e \<noteq> None" by (simp add: entry_ok_def)
    then show ?thesis using e st by (auto simp: item_entry_def mem_stored_def)
  qed
  ultimately show ?thesis using assms(2) by (auto simp: explains_def)
qed

lemma performs_other:
  "performs (claim_put now i, r) c" "performs (reclaim now k st m t, r) c" "performs (complete_update l d x, r) c"
  "r \<noteq> Done \<Longrightarrow> performs (q, r) c" "performs (GetItem g, r) c"
  by (simp_all add: performs_def)

lemma performs_resume: "performs (resume_update now l, r) (Resume (nowEpoch now) l)"
  unfolding performs_def
proof (intro allI impI)
  fix now' l' assume "(resume_update now l, r) = (resume_update now' l', Done)"
  then have "resume_update now l = resume_update now' l'" by simp
  from request_inject(4) [OF this] show "Resume (nowEpoch now) l = Resume (nowEpoch now') l'"
    by simp
qed

lemma simulate_write:
  assumes "represents E T j" "journal_request E q" "admitted q T" "\<forall>k. q \<noteq> GetItem k"
  shows "\<exists>c. represents E (written q T) (snd (journal_step lease_journal j c))
    \<and> (\<forall>j' r. (\<forall>x. r \<noteq> Found x) \<longrightarrow> explains j' (q, r) (fst (journal_step lease_journal j c)))
    \<and> (\<forall>r. performs (q, r) c)"
proof -
  consider (claim) now i where "q = claim_put now i"
    | (reclaim) now k st l t where "q = reclaim now k st l t" "active st" "1 \<le> t" "l \<le> nowEpoch now"
    | (resume) now l where "q = resume_update now l"
    | (complete) l d r where "q = complete_update l d r" "receipt_valid E r" "rcp_idempotencyKey r = ls_idempotencyKey l"
        "rcp_approvalDecisionDigest r = Some d"
    using assms(2,4) unfolding journal_request_def by blast
  then show ?thesis
  proof cases
    case claim
    note sim = simulate_claim [OF assms(1) assms(3) [unfolded claim]]
    have "explains j' (q, r) (fst (journal_step lease_journal j (Claim (nowEpoch now) i)))"
      if "\<forall>x. r \<noteq> Found x" for j' r
      using that unfolding sim(1) claim
      by (auto simp: explains_def dest: request_inject(1))
    then show ?thesis using sim(2) unfolding claim by (metis performs_other(1))
  next
    case reclaim
    then obtain a i where sim: "fst (journal_step lease_journal j (Claim (nowEpoch now) i)) = Granted k a (nat (t + 1))"
      "represents E (written q T) (snd (journal_step lease_journal j (Claim (nowEpoch now) i)))"
      using simulate_reclaim [OF assms(1)] assms(3) by blast
    have "explains j' (q, r) (fst (journal_step lease_journal j (Claim (nowEpoch now) i)))"
      if "\<forall>x. r \<noteq> Found x" for j' r
      using that unfolding sim(1) reclaim(1) by (auto simp: explains_def dest: request_inject(2))
    then show ?thesis using sim(2) unfolding reclaim(1) by (metis performs_other(2))
  next
    case resume
    have "explains j' (q, r) ev" if "\<forall>x. r \<noteq> Found x" for j' r ev
      using that unfolding resume by (auto simp: explains_def)
    then show ?thesis
      using simulate_resume [OF assms(1) assms(3) [unfolded resume]] unfolding resume by (metis performs_resume)
  next
    case complete
    note sim = simulate_complete [OF assms(1) assms(3) [unfolded complete(1)] complete(2-4)]
    have "explains j' (q, r') (fst (journal_step lease_journal j (Complete l r)))" if "\<forall>x. r' \<noteq> Found x" for j' r'
      using that unfolding sim(1) complete(1) by (auto simp: explains_def dest: request_inject(3))
    then show ?thesis using sim(2) unfolding complete(1) by (metis performs_other(3))
  qed
qed

lemma explains_keeps:
  assumes "explains j x ev" "mem_wf j"
  shows "explains (snd (journal_run lease_journal j cs)) x ev"
proof -
  note keeps = memory.run_keeps(2,4) [OF assms(2), where L = EXECUTION_LEASE_SECONDS and cs = cs]
  note e = assms(1) [unfolded explains_def]
  show ?thesis
    unfolding explains_def
  proof (intro conjI)
    show "\<forall>k it a d. x = (GetItem (executionKey k), Found (Some it)) \<longrightarrow> it ''approvalId'' = Some (S a) \<longrightarrow>
        it ''decisionDigest'' = Some (S d) \<longrightarrow> mem_owner (snd (journal_run lease_journal j cs)) k = Some (a, d)"
      using e keeps(1) by blast
    show "\<forall>k it r. x = (GetItem (executionKey k), Found (Some it)) \<longrightarrow> it ''status'' = Some (S ''COMPLETED'') \<longrightarrow>
        it ''receipt'' = Some (ReceiptText r) \<longrightarrow> mem_stored (snd (journal_run lease_journal j cs)) k = Some r"
      using e keeps(2) by blast
  qed (rule e [THEN conjunct1], rule e [THEN conjunct2, THEN conjunct1],
      rule e [THEN conjunct2, THEN conjunct2, THEN conjunct1],
      rule e [THEN conjunct2, THEN conjunct2, THEN conjunct2, THEN conjunct2, THEN conjunct2])
qed

text \<open>The in-memory journal just before a call of a run.\<close>

definition journal_before :: "MemoryJournal \<Rightarrow> journal_call list \<Rightarrow> nat \<Rightarrow> MemoryJournal" where
  "journal_before j cs p = snd (journal_run lease_journal j (take p cs))"

lemma journal_before_Cons:
  "journal_before j (c # cs) 0 = j"
  "journal_before j (c # cs) (Suc p) = journal_before (snd (journal_step lease_journal j c)) cs p"
  by (simp_all add: journal_before_def split_beta Let_def del: journal_step.simps)

context conditional_store
begin

lemma step_simulated:
  assumes "S d q r d'" "represents E (items d) j" "journal_request E q"
  shows "\<exists>c. represents E (items d') (snd (journal_step lease_journal j c))
    \<and> explains (snd (journal_step lease_journal j c)) (q, r) (fst (journal_step lease_journal j c))
    \<and> performs (q, r) c"
proof -
  have still: "\<exists>c. represents E (items d') (snd (journal_step lease_journal j c))
      \<and> explains (snd (journal_step lease_journal j c)) (q, r) (fst (journal_step lease_journal j c)) \<and> performs (q, r) c"
    if "items d' = items d" "\<And>ev. explains j (q, r) ev" "performs (q, r) idle"
    using that assms(2) idle_step [OF representsD(1) [OF assms(2)]] by (intro exI [of _ idle]) simp
  from step_cases [OF assms(1)] consider (wrote) "admitted q (items d)" "items d' = written q (items d)" "\<forall>k. q \<noteq> GetItem k"
    | (none) "items d' = items d" "r \<noteq> Done" "\<forall>x. r \<noteq> Found x" | (found) x where "r = Found x"
    | (get) k where "q = GetItem k" "items d' = items d" "\<forall>x. r \<noteq> Found x"
    by blast
  then show ?thesis
  proof cases
    case wrote
    have "r \<noteq> Found x" for x using read assms(1) wrote(3) by blast
    with simulate_write [OF assms(2,3) wrote(1,3)] wrote(2) show ?thesis by metis
  next
    case none
    then show ?thesis by (intro still performs_other) (auto simp: explains_def)
  next
    case found
    with assms(1) obtain k where "q = GetItem k" "x = items d k" "items d' = items d" using read by blast
    with found show ?thesis using explains_read [OF assms(2)] performs_other(5) by (intro still) auto
  next
    case get
    then show ?thesis using performs_other(5) by (intro still) (auto simp: explains_def)
  qed
qed

lemma step_sees:
  assumes "S d q r d'" "represents E (items d) j"
  shows "sees E j (q, r)"
  unfolding sees_def
proof (intro conjI allI impI)
  show "(q, r) \<noteq> (GetItem k, Done)" for k using succeeded assms(1) by blast
next
  fix q' it assume "(q, r) = (q', Found it)"
  then show "\<exists>k. q' = GetItem k" using read assms(1) by blast
next
  fix k it assume "(q, r) = (GetItem (executionKey k), Found it)"
  then have "it = items d (executionKey k)" using read assms(1) by blast
  then show "rel_option (item_entry E) it (byIdempotencyKey j k)" using representsD(2) [OF assms(2)] by simp
next
  fix a it assume "(q, r) = (GetItem (approvalKey a), Found it)"
  then have "it = items d (approvalKey a)" using read assms(1) by blast
  then show "rel_option (approval_item j) it (approvalToIdempotencyKey j a)" using representsD(3) [OF assms(2)] by simp
next
  fix q' e assume "(q, r) = (q', Failed e)" "isConditionalFailure e"
  then show "refusal j q'" using refused assms(1) refusal_represented [OF assms(2)] by blast
next
  fix now l assume "(q, r) = (resume_update now l, Done)"
  then have "admitted (resume_update now l) (items d)" using succeeded assms(1) by blast
  then show "can_resume j now l" using resume_admitted [OF assms(2)] by blast
qed

lemma run_simulated:
  assumes "served S d es d'" "represents E (items d) j" "\<forall>x \<in> set es. journal_request E (fst x)"
  shows "\<exists>cs. represents E (items d') (snd (journal_run lease_journal j cs))
    \<and> list_all2 (explains (snd (journal_run lease_journal j cs))) es (fst (journal_run lease_journal j cs))
    \<and> (\<forall>p < length es. sees E (journal_before j cs p) (es ! p) \<and> performs (es ! p) (cs ! p))"
  using assms
proof (induction arbitrary: j rule: served.induct)
  case (served_nil d)
  then show ?case by (intro exI [of _ "[]"]) simp
next
  case (served_cons d q r d1 es d')
  from step_simulated [OF served_cons.hyps(1) served_cons.prems(1)] served_cons.prems(2) obtain c where
    c: "represents E (items d1) (snd (journal_step lease_journal j c))"
      "explains (snd (journal_step lease_journal j c)) (q, r) (fst (journal_step lease_journal j c))" "performs (q, r) c" by auto
  define j1 where "j1 = snd (journal_step lease_journal j c)"
  from served_cons.IH [OF c(1)] served_cons.prems(2) obtain cs where
    cs: "represents E (items d') (snd (journal_run lease_journal j1 cs))"
      "list_all2 (explains (snd (journal_run lease_journal j1 cs))) es (fst (journal_run lease_journal j1 cs))"
      "\<forall>p < length es. sees E (journal_before j1 cs p) (es ! p) \<and> performs (es ! p) (cs ! p)"
    unfolding j1_def by auto
  have run: "journal_run lease_journal j (c # cs) = (fst (journal_step lease_journal j c) # fst (journal_run lease_journal j1 cs),
      snd (journal_run lease_journal j1 cs))"
    by (simp add: j1_def split_beta Let_def del: journal_step.simps)
  have "sees E (journal_before j (c # cs) p) (((q, r) # es) ! p) \<and> performs (((q, r) # es) ! p) ((c # cs) ! p)"
    if "p < length ((q, r) # es)" for p
    using that cs(3) c(3) step_sees [OF served_cons.hyps(1) served_cons.prems(1)]
    by (cases p) (simp_all add: journal_before_Cons j1_def del: journal_step.simps)
  then show ?case
    using cs(1,2) explains_keeps [OF c(2) representsD(1) [OF c(1)], of cs]
    by (intro exI [of _ "c # cs"]) (simp add: run j1_def del: journal_run.simps journal_step.simps)
qed

end

subsection \<open>What the programs saw\<close>

lemma claim_leased_not_claimed: "all_results (\<lambda>x. \<forall>n. x \<noteq> Inr (CLAIMED n)) (claim_leased now i st it)"
  by (simp add: claim_leased_def split: db_response.split option.split)

lemma claim_completed_not_claimed: "all_results (\<lambda>x. \<forall>n. x \<noteq> Inr (CLAIMED n)) (claim_completed E i it)"
  by (simp add: claim_completed_def split: option.split attribute.split)

lemma claim_existing_not_claimed: "all_results (\<lambda>x. \<forall>n. x \<noteq> Inr (CLAIMED n)) (claim_existing E now i u it ap)"
  by (simp add: claim_existing_def claim_leased_not_claimed claim_completed_not_claimed split: option.split)

text \<open>The two reads, and what follows them.\<close>

lemma returned_claim_read:
  "returned (claim_read E now i u) es x \<longleftrightarrow>
     (\<exists>e es'. es = (GetItem (executionKey (ci_idempotencyKey i)), Failed e) # es' \<and> es' = [] \<and> x = Inl (ServiceThrew e))
     \<or> (\<exists>r e. es = [(GetItem (executionKey (ci_idempotencyKey i)), r), (GetItem (approvalKey (ci_approvalId i)), Failed e)]
         \<and> (\<forall>e. r \<noteq> Failed e) \<and> x = Inl (ServiceThrew e))
     \<or> (\<exists>r r' es'. es = (GetItem (executionKey (ci_idempotencyKey i)), r) # (GetItem (approvalKey (ci_approvalId i)), r') # es'
         \<and> (\<forall>e. r \<noteq> Failed e) \<and> (\<forall>e. r' \<noteq> Failed e)
         \<and> returned (claim_existing E now i u (case r of Found it \<Rightarrow> it | _ \<Rightarrow> None)
             (case r' of Found it \<Rightarrow> it | _ \<Rightarrow> None)) es' x)"
proof -
  have g: "returned (db_bind (get_item k) f) es x \<longleftrightarrow> (\<exists>r es'. es = (GetItem k, r) # es' \<and>
      (case r of Failed e \<Rightarrow> es' = [] \<and> x = Inl (ServiceThrew e) | Found it \<Rightarrow> returned (f it) es' x
        | Done \<Rightarrow> returned (f None) es' x))" for k and f :: "item option \<Rightarrow> 'b db" and es x
  proof -
    have "returned (io_bind (case r of Found i \<Rightarrow> Return (Inr i) | Failed e \<Rightarrow> Return (Inl (ServiceThrew e)) | Done \<Rightarrow> Return (Inr None))
          (\<lambda>x. case x of Inl e \<Rightarrow> Return (Inl e) | Inr a \<Rightarrow> f a)) es' x \<longleftrightarrow>
        (case r of Failed e \<Rightarrow> es' = [] \<and> x = Inl (ServiceThrew e) | Found it \<Rightarrow> returned (f it) es' x
          | Done \<Rightarrow> returned (f None) es' x)" for r es'
      by (cases r) simp_all
    then show ?thesis by (simp add: db_bind_def get_item_def returned_Ask)
  qed
  show ?thesis
    unfolding claim_read_def g by (fastforce split: db_response.splits)
qed

lemma claim_read_not_claimed: "\<not> returned (claim_read E now i u) es (Inr (CLAIMED n))"
  unfolding returned_claim_read using returned_result [OF claim_existing_not_claimed] by blast

lemma claim_put_done:
  assumes "returned (dyn_claim E now i) es (Inr (CLAIMED n))"
  shows "n = 1 \<and> (\<exists>r. (claim_put now i, r) \<in> set es \<and> (\<forall>e. r \<noteq> Failed e))"
proof -
  obtain r es' where "es = (claim_put now i, r) # es'" and
    r: "returned (case r of Failed e \<Rightarrow> if isConditionalFailure e then claim_read E now i False
         else if \<not> isTransactionCancellationWithoutReasons e then Return (Inl (ServiceThrew e))
         else claim_read E now i True | _ \<Rightarrow> Return (Inr (CLAIMED 1))) es' (Inr (CLAIMED n))"
    using assms unfolding dyn_claim_def returned_Ask by blast
  moreover have "\<not> returned (claim_read E now i u) es' (Inr (CLAIMED n))" for u
    by (rule claim_read_not_claimed)
  ultimately show ?thesis by (cases r) (auto split: if_splits)
qed

lemma stringAttribute_Some:
  "stringAttribute it a = Some s \<longleftrightarrow> (\<exists>it'. it = Some it' \<and> it' a = Some (S s))"
  by (cases it) (auto simp: stringAttribute_def split: option.splits attribute.splits)

lemma claim_leased_outcome:
  assumes "returned (claim_leased now i st it) es (Inr c)" "c = RECONCILE n \<or> c = COMPLETED r"
  shows "\<exists>l t x. es = [(reclaim now (ci_idempotencyKey i) st l t, x)] \<and> (\<forall>e. x \<noteq> Failed e) \<and> c = RECONCILE (nat (t + 1))"
proof -
  obtain l t where lt: "numberAttribute it ''leaseExpiresAt'' = Some l" "numberAttribute it ''fencingToken'' = Some t"
    using assms(1) by (auto simp: claim_leased_def split: option.splits)
  then obtain x es' where "es = (reclaim now (ci_idempotencyKey i) st l t, x) # es'"
    "returned (case x of Failed e \<Rightarrow> if isConditionalFailure e then Return (Inr IN_PROGRESS) else Return (Inl (ServiceThrew e))
       | _ \<Rightarrow> Return (Inr (RECONCILE (nat (t + 1))))) es' (Inr c)"
    using assms by (auto simp: claim_leased_def returned_Ask split: if_splits)
  then show ?thesis using assms(2) by (cases x) (auto split: if_splits)
qed

lemma claim_existing_outcome:
  assumes "returned (claim_existing E now i u it ap) es (Inr c)" "c = RECONCILE n \<or> c = COMPLETED r"
  shows "\<exists>it'. it = Some it' \<and> it' ''approvalId'' = Some (S (ci_approvalId i))
    \<and> it' ''decisionDigest'' = Some (S (ci_approvalDecisionDigest i))
    \<and> (c = RECONCILE n \<longrightarrow> (\<exists>st l t x. es = [(reclaim now (ci_idempotencyKey i) st l t, x)] \<and> (\<forall>e. x \<noteq> Failed e)
         \<and> n = nat (t + 1)))
    \<and> (c = COMPLETED r \<longrightarrow> it' ''status'' = Some (S ''COMPLETED'') \<and> it' ''receipt'' = Some (ReceiptText r))"
proof -
  have same: "same_binding i it ap"
    using assms by (auto simp: claim_existing_def split: if_splits)
  then obtain it' where it': "it = Some it'" "it' ''approvalId'' = Some (S (ci_approvalId i))"
    "it' ''decisionDigest'' = Some (S (ci_approvalDecisionDigest i))"
    by (auto simp: same_binding_def stringAttribute_Some)
  have given: "it \<noteq> None" using it' by simp
  obtain st where st: "stringAttribute it ''status'' = Some st"
    using assms same given by (cases "stringAttribute it ''status''") (auto simp: claim_existing_def)
  show ?thesis
  proof (cases "st = ''IN_PROGRESS'' \<or> st = ''RECONCILING''")
    case True
    then have "returned (claim_leased now i st it) es (Inr c)"
      using assms(1) same given st by (auto simp: claim_existing_def)
    then have "\<exists>l t x. es = [(reclaim now (ci_idempotencyKey i) st l t, x)] \<and> (\<forall>e. x \<noteq> Failed e) \<and> c = RECONCILE (nat (t + 1))"
      using assms(2) by (rule claim_leased_outcome)
    then show ?thesis using it' assms(2) by auto
  next
    case False
    then have "returned (claim_completed E i it) es (Inr c) \<and> st = ''COMPLETED''"
      using assms same given st by (auto simp: claim_existing_def split: if_splits)
    then show ?thesis
      using it' assms(2) st
      by (auto simp: claim_completed_def stringAttribute_Some split: option.splits attribute.splits if_splits)
  qed
qed

lemma claim_outcome:
  assumes "returned (dyn_claim E now i) es (Inr c)" "c = RECONCILE n \<or> c = COMPLETED r"
  shows "\<exists>it. (GetItem (executionKey (ci_idempotencyKey i)), Found (Some it)) \<in> set es
    \<and> it ''approvalId'' = Some (S (ci_approvalId i)) \<and> it ''decisionDigest'' = Some (S (ci_approvalDecisionDigest i))
    \<and> (c = RECONCILE n \<longrightarrow> (\<exists>st l t x. (reclaim now (ci_idempotencyKey i) st l t, x) \<in> set es \<and> (\<forall>e. x \<noteq> Failed e)
         \<and> n = nat (t + 1)))
    \<and> (c = COMPLETED r \<longrightarrow> it ''status'' = Some (S ''COMPLETED'') \<and> it ''receipt'' = Some (ReceiptText r))"
proof -
  obtain x es' where es: "es = (claim_put now i, x) # es'" and
    "returned (case x of Failed e \<Rightarrow> if isConditionalFailure e then claim_read E now i False
         else if \<not> isTransactionCancellationWithoutReasons e then Return (Inl (ServiceThrew e))
         else claim_read E now i True | _ \<Rightarrow> Return (Inr (CLAIMED 1))) es' (Inr c)"
    using assms(1) unfolding dyn_claim_def returned_Ask by blast
  then obtain u where "returned (claim_read E now i u) es' (Inr c)"
    using assms(2) by (cases x) (auto split: if_splits)
  then obtain y z es2 where es': "es' = (GetItem (executionKey (ci_idempotencyKey i)), y) # (GetItem (approvalKey (ci_approvalId i)), z) # es2"
    "returned (claim_existing E now i u (case y of Found it \<Rightarrow> it | _ \<Rightarrow> None) (case z of Found it \<Rightarrow> it | _ \<Rightarrow> None)) es2 (Inr c)"
    unfolding returned_claim_read by blast
  from claim_existing_outcome [OF es'(2) assms(2)] obtain it where it: "(case y of Found it \<Rightarrow> it | _ \<Rightarrow> None) = Some it"
    "it ''approvalId'' = Some (S (ci_approvalId i))" "it ''decisionDigest'' = Some (S (ci_approvalDecisionDigest i))"
    "c = RECONCILE n \<longrightarrow> (\<exists>st l t x. es2 = [(reclaim now (ci_idempotencyKey i) st l t, x)] \<and> (\<forall>e. x \<noteq> Failed e) \<and> n = nat (t + 1))"
    "c = COMPLETED r \<longrightarrow> it ''status'' = Some (S ''COMPLETED'') \<and> it ''receipt'' = Some (ReceiptText r)"
    by blast
  have "y = Found (Some it)" using it(1) by (cases y) auto
  then show ?thesis using it(2-5) es(1) es'(1)
    by (intro exI [of _ it] conjI) (auto, blast+)
qed

subsection \<open>Operations\<close>

datatype journal_op = OpClaim int ClaimInput | OpResume int ExecutionJournalLease
  | OpComplete ExecutionJournalLease ExecutionReceiptV1

datatype op_result = ClaimResult ExecutionClaim | ResumeResult bool | CompleteResult

fun op_program :: "js_env \<Rightarrow> journal_op \<Rightarrow> op_result db" where
  "op_program E (OpClaim now i) = db_bind (dyn_claim E now i) (\<lambda>c. Return (Inr (ClaimResult c)))"
| "op_program E (OpResume now l) = db_bind (dyn_resume now l) (\<lambda>b. Return (Inr (ResumeResult b)))"
| "op_program E (OpComplete l r) = db_bind (dyn_complete E l r) (\<lambda>_. Return (Inr CompleteResult))"

lemma all_requests_db_bind:
  "all_requests P p \<Longrightarrow> (\<And>a. all_requests P (f a)) \<Longrightarrow> all_requests P (db_bind p f)"
  unfolding db_bind_def by (intro all_requests_bind) (auto split: sum.split)

lemma returned_db_bind:
  "returned (db_bind p (\<lambda>a. Return (Inr (g a)))) es (Inr b) \<longleftrightarrow> (\<exists>a. returned p es (Inr a) \<and> b = g a)"
proof -
  have "returned (case x of Inl e \<Rightarrow> Return (Inl e) | Inr a \<Rightarrow> Return (Inr (g a))) es' (Inr b) \<longleftrightarrow>
      es' = [] \<and> (\<exists>a. x = Inr a \<and> b = g a)" for x es'
    by (cases x) auto
  then show ?thesis unfolding db_bind_def returned_bind by (metis append_Nil2)
qed

lemma claim_leased_requests: "all_requests (journal_request E) (claim_leased now i st it)" if "active st"
  using that by (auto simp: claim_leased_def journal_requests split: option.split db_response.split)

lemma claim_requests: "all_requests (journal_request E) (dyn_claim E now i)"
proof -
  have "all_requests (journal_request E) (claim_existing E now i u it ap)" for u it ap
    using claim_leased_requests [of _ E now i it]
    by (auto simp: claim_existing_def active_def claim_completed_def split: option.split attribute.split)
  moreover have "all_requests (journal_request E) (get_item k)" for k
    by (auto simp: get_item_def journal_requests split: db_response.split)
  ultimately have "all_requests (journal_request E) (claim_read E now i u)" for u
    unfolding claim_read_def by (intro all_requests_db_bind)
  then show ?thesis by (auto simp: dyn_claim_def journal_requests split: db_response.split)
qed

lemma op_requests: "all_requests (journal_request E) (op_program E op)"
proof (cases op)
  case (OpClaim now i)
  then show ?thesis using claim_requests by (auto intro: all_requests_db_bind)
next
  case (OpResume now l)
  then show ?thesis
    by (auto simp: dyn_resume_def journal_requests split: db_response.split intro!: all_requests_db_bind)
next
  case (OpComplete l r)
  then show ?thesis
    by (auto simp: dyn_complete_def journal_requests split: db_response.split option.split list.split intro!: all_requests_db_bind)
qed

subsection \<open>The journal linearises\<close>

text \<open>What an operation returned in an execution.\<close>

definition op_returned ::
    "js_env \<Rightarrow> ('w \<Rightarrow> journal_op) \<Rightarrow> ('w \<times> db_request \<times> db_response) list \<Rightarrow> 'w \<Rightarrow> op_result \<Rightarrow> bool" where
  "op_returned E ops log w x \<longleftrightarrow> returned (op_program E (ops w)) (part w log) (Inr x)"

lemma op_returned_claim:
  "op_returned E ops log w (ClaimResult c) \<longleftrightarrow>
     (\<exists>now i. ops w = OpClaim now i \<and> returned (dyn_claim E now i) (part w log) (Inr c))"
  by (cases "ops w") (auto simp: op_returned_def returned_db_bind)

lemma op_returned_complete:
  "op_returned E ops log w CompleteResult \<longleftrightarrow>
     (\<exists>l r. ops w = OpComplete l r \<and> returned (dyn_complete E l r) (part w log) (Inr ()))"
  by (cases "ops w") (auto simp: op_returned_def returned_db_bind)

lemma part_position:
  assumes "x \<in> set (part w log)"
  shows "\<exists>p < length log. log ! p = (w, x)"
proof -
  have "(w, x) \<in> set log" using assms by (auto simp: part_def)
  then show ?thesis by (simp add: in_set_conv_nth)
qed

lemma explainsD:
  "explains j (claim_put now i, Done) ev \<Longrightarrow> ev = Granted (ci_idempotencyKey i) (ci_approvalId i) 1"
  "explains j (reclaim now k st m t, Done) ev \<Longrightarrow> \<exists>a. ev = Granted k a (nat (t + 1))"
  "explains j (complete_update l d x, Done) ev \<Longrightarrow> ev = Stored l x"
  "explains j (q, Found y) ev \<Longrightarrow> \<exists>k. q = GetItem k"
  unfolding explains_def by (metis snd_conv fst_conv)+

lemma explains_write:
  assumes "\<forall>e. r \<noteq> Failed e"
  shows "explains j (claim_put now i, r) ev \<Longrightarrow> ev = Granted (ci_idempotencyKey i) (ci_approvalId i) 1"
    and "explains j (reclaim now k st m t, r) ev \<Longrightarrow> \<exists>a. ev = Granted k a (nat (t + 1))"
    and "explains j (complete_update l d x, r) ev \<Longrightarrow> ev = Stored l x"
  using assms explainsD(1) [of j now i ev] explainsD(2) [of j now k st m t ev] explainsD(3) [of j l d x ev]
    explainsD(4) [of j _ _ ev] request_shapes(1,5,7)
  by (cases r; blast)+

lemma explains_read_item:
  "explains j (GetItem (executionKey k), Found (Some it)) ev \<Longrightarrow> it ''approvalId'' = Some (S a) \<Longrightarrow>
     it ''decisionDigest'' = Some (S d) \<Longrightarrow> mem_owner j k = Some (a, d)"
  "explains j (GetItem (executionKey k), Found (Some it)) ev \<Longrightarrow> it ''status'' = Some (S ''COMPLETED'') \<Longrightarrow>
     it ''receipt'' = Some (ReceiptText r) \<Longrightarrow> mem_stored j k = Some r"
  unfolding explains_def by blast+

lemma complete_put:
  assumes "returned (dyn_complete E l r) es (Inr ())"
  shows "\<exists>d x. (complete_update l d r, x) \<in> set es \<and> (\<forall>e. x \<noteq> Failed e)"
proof -
  obtain c cs where d: "rcp_approvalDecisionDigest r = Some (c # cs)"
    using assms by (auto simp: dyn_complete_def split: if_splits option.splits list.splits)
  then obtain x es' where "es = (complete_update l (c # cs) r, x) # es'"
    "returned (case x of Failed e \<Rightarrow> if isConditionalFailure e
         then Return (Inl (LoopThrew (RemediationError EXECUTION_IN_PROGRESS ''A newer worker owns this execution lease.'')))
         else Return (Inl (ServiceThrew e)) | _ \<Rightarrow> Return (Inr ())) es' (Inr ())"
    using assms by (auto simp: dyn_complete_def returned_Ask split: if_splits)
  then show ?thesis by (cases x) (auto split: if_splits)
qed

text \<open>A run of the in-memory journal that explains an execution, position by position.\<close>

definition linearises ::
    "js_env \<Rightarrow> table \<Rightarrow> ('w \<times> db_request \<times> db_response) list \<Rightarrow> journal_event list \<Rightarrow> MemoryJournal \<Rightarrow> bool" where
  "linearises E T log evs j \<longleftrightarrow> (\<exists>cs. journal_run lease_journal empty_journal cs = (evs, j)) \<and> represents E T j
     \<and> list_all2 (explains j) (map snd log) evs"

lemma linearisesD:
  assumes "linearises E T log evs j" "(q, r) \<in> set (part w log)"
  obtains p where "p < length log" "p < length evs" "fst (log ! p) = w" "explains j (q, r) (evs ! p)"
proof -
  obtain p where "p < length log" "log ! p = (w, q, r)" using part_position [OF assms(2)] by blast
  then show thesis
    using that [of p] assms(1) unfolding linearises_def list_all2_conv_all_nth by auto
qed

lemma linearises_grant:
  assumes "linearises E T log evs j" "op_returned E ops log w (ClaimResult c)" "ops w = OpClaim now i"
    and "c = CLAIMED n \<or> c = RECONCILE n"
  shows "\<exists>p < length log. p < length evs \<and> fst (log ! p) = w
    \<and> evs ! p = Granted (ci_idempotencyKey i) (ci_approvalId i) n"
proof -
  have run: "returned (dyn_claim E now i) (part w log) (Inr c)" using assms(2,3) by (simp add: op_returned_claim)
  show ?thesis
  proof (cases "c = CLAIMED n")
    case True
    then obtain r where "(claim_put now i, r) \<in> set (part w log)" "\<forall>e. r \<noteq> Failed e" "n = 1"
      using claim_put_done run by blast
    then show ?thesis using linearisesD [OF assms(1)] explains_write(1) by metis
  next
    case False
    then have c: "c = RECONCILE n" using assms(4) by simp
    from claim_outcome [OF run, of n] c obtain it st l t x where
      it: "(GetItem (executionKey (ci_idempotencyKey i)), Found (Some it)) \<in> set (part w log)"
        "it ''approvalId'' = Some (S (ci_approvalId i))" "it ''decisionDigest'' = Some (S (ci_approvalDecisionDigest i))"
      and up: "(reclaim now (ci_idempotencyKey i) st l t, x) \<in> set (part w log)" "\<forall>e. x \<noteq> Failed e" "n = nat (t + 1)"
      by blast
    obtain p a where p: "p < length log" "p < length evs" "fst (log ! p) = w" "evs ! p = Granted (ci_idempotencyKey i) a n"
      using linearisesD [OF assms(1) up(1)] explains_write(2) [OF up(2)] up(3) by metis
    have "mem_owner j (ci_idempotencyKey i) = Some (ci_approvalId i, ci_approvalDecisionDigest i)"
      using linearisesD [OF assms(1) it(1)] explains_read_item(1) it(2,3) by metis
    moreover obtain cs where "journal_run lease_journal empty_journal cs = (evs, j)"
      using assms(1) by (auto simp: linearises_def)
    then have "\<exists>d. mem_owner j (ci_idempotencyKey i) = Some (a, d)"
      using memory.run_grants_above [OF mem_wf_empty, of "ci_idempotencyKey i" a n EXECUTION_LEASE_SECONDS cs] p(2,4)
      by (metis fst_conv nth_mem snd_conv)
    ultimately show ?thesis using p by auto
  qed
qed

lemma linearises_completed:
  assumes "linearises E T log evs j" "ops w = OpClaim now i" "op_returned E ops log w (ClaimResult (COMPLETED r))"
  shows "mem_stored j (ci_idempotencyKey i) = Some r
    \<and> mem_owner j (ci_idempotencyKey i) = Some (ci_approvalId i, ci_approvalDecisionDigest i)"
proof -
  have run: "returned (dyn_claim E now i) (part w log) (Inr (COMPLETED r))" using assms(2,3) by (simp add: op_returned_claim)
  from claim_outcome [OF run, of _ r] obtain it where
    it: "(GetItem (executionKey (ci_idempotencyKey i)), Found (Some it)) \<in> set (part w log)"
      "it ''approvalId'' = Some (S (ci_approvalId i))" "it ''decisionDigest'' = Some (S (ci_approvalDecisionDigest i))"
      "it ''status'' = Some (S ''COMPLETED'')" "it ''receipt'' = Some (ReceiptText r)" by blast
  obtain p where "explains j (GetItem (executionKey (ci_idempotencyKey i)), Found (Some it)) (evs ! p)"
    using linearisesD [OF assms(1) it(1)] by blast
  from explains_read_item(1) [OF this it(2,3)] explains_read_item(2) [OF this it(4,5)] show ?thesis by blast
qed

text \<open>The run is followed at every request, in the state just before it.\<close>

definition run_followed :: "js_env \<Rightarrow> ('w \<times> db_request \<times> db_response) list \<Rightarrow> journal_call list \<Rightarrow> bool" where
  "run_followed E log cs \<longleftrightarrow> (\<forall>p < length log.
     sees E (journal_before empty_journal cs p) (snd (log ! p)) \<and> performs (snd (log ! p)) (cs ! p))"

lemma journal_run_append:
  "snd (journal_run J j (cs @ cs')) = snd (journal_run J (snd (journal_run J j cs)) cs')"
  by (induction cs arbitrary: j) (simp_all add: split_beta Let_def)

lemma journal_later:
  assumes "p \<le> q"
  obtains cs' where "journal_before j cs q = snd (journal_run lease_journal (journal_before j cs p) cs')"
proof -
  have "take q cs = take p cs @ take (q - p) (drop p cs)" using assms by (metis le_add_diff_inverse take_add)
  then show thesis using that unfolding journal_before_def by (metis journal_run_append)
qed

lemma journal_end: "length cs \<le> q \<Longrightarrow> journal_before j cs q = snd (journal_run lease_journal j cs)"
  by (simp add: journal_before_def)

lemma wf_before: "mem_wf (journal_before empty_journal cs p)"
  unfolding journal_before_def by (rule memory.run_keeps(1) [OF mem_wf_empty])

lemma owner_later:
  assumes "mem_owner (journal_before empty_journal cs p) k = Some x" "p \<le> q"
  shows "mem_owner (journal_before empty_journal cs q) k = Some x"
  by (rule journal_later [OF assms(2), of empty_journal cs]) (use memory.run_keeps(2) [OF wf_before assms(1)] in metis)

text \<open>The requests of one operation stand in the log in their order.\<close>

lemma part_order:
  "\<exists>f. (\<forall>m < length (part w log). f m < length log \<and> log ! f m = (w, part w log ! m))
     \<and> (\<forall>m n. m < n \<longrightarrow> n < length (part w log) \<longrightarrow> f m < f n)"
proof (induction log)
  case (Cons e log)
  then obtain f where f: "\<forall>m < length (part w log). f m < length log \<and> log ! f m = (w, part w log ! m)"
    "\<forall>m n. m < n \<longrightarrow> n < length (part w log) \<longrightarrow> f m < f n" by blast
  show ?case
  proof (cases "fst e = w")
    case True
    then have e: "part w (e # log) = snd e # part w log" "e = (w, snd e)" by (auto simp: part_def)
    define g where "g m = (case m of 0 \<Rightarrow> 0 | Suc m \<Rightarrow> Suc (f m))" for m
    have "g m < length (e # log) \<and> (e # log) ! g m = (w, part w (e # log) ! m)" if "m < length (part w (e # log))" for m
      using that f(1) e by (cases m) (simp_all add: g_def)
    moreover have "g m < g n" if "m < n" "n < length (part w (e # log))" for m n
      using that f(2) e(1) by (cases m; cases n) (simp_all add: g_def)
    ultimately show ?thesis by blast
  next
    case False
    then have "part w (e # log) = part w log" by (simp add: part_def)
    with f show ?thesis by (intro exI [of _ "\<lambda>m. Suc (f m)"]) simp
  qed
qed (simp add: part_def)

lemma run_followed_at:
  assumes "run_followed E log cs" "(w, x) = log ! p" "p < length log"
  shows "sees E (journal_before empty_journal cs p) x" "performs x (cs ! p)"
  using assms unfolding run_followed_def by (metis snd_conv)+

lemma empty_represented: "represents E (\<lambda>_. None) empty_journal"
  by (simp add: represents_def empty_journal_def mem_wf_def)

lemma run_linearises:
  assumes "conditional_store serve items" "items d = (\<lambda>_. None)" "system_run serve (\<lambda>w. op_program E (ops w)) d log d'"
  shows "\<exists>cs evs j. journal_run lease_journal empty_journal cs = (evs, j) \<and> linearises E (items d') log evs j \<and> run_followed E log cs"
proof -
  have "\<forall>x \<in> set (map snd log). journal_request E (fst x)"
    using system_requests [OF assms(3) op_requests] by force
  moreover have "served serve d (map snd log) d'" using assms(3) by (simp add: system_run_def)
  moreover have "represents E (items d) empty_journal" using empty_represented assms(2) by simp
  ultimately obtain cs where cs: "represents E (items d') (snd (journal_run lease_journal empty_journal cs))"
    "list_all2 (explains (snd (journal_run lease_journal empty_journal cs))) (map snd log)
       (fst (journal_run lease_journal empty_journal cs))"
    "\<forall>p < length (map snd log). sees E (journal_before empty_journal cs p) (map snd log ! p) \<and> performs (map snd log ! p) (cs ! p)"
    using conditional_store.run_simulated [OF assms(1)] by blast
  then show ?thesis
    by (intro exI [of _ cs] exI [of _ "fst (journal_run lease_journal empty_journal cs)"]
        exI [of _ "snd (journal_run lease_journal empty_journal cs)"])
      (auto simp: linearises_def run_followed_def intro: exI [of _ cs])
qed

subsection \<open>Answers that give no lease\<close>

lemma claim_second_thoughts:
  assumes "returned (dyn_claim E now i) es (Inr c)" "\<forall>n. c \<noteq> CLAIMED n"
  obtains e y z es' u where "es = (claim_put now i, Failed e) # (GetItem (executionKey (ci_idempotencyKey i)), y)
      # (GetItem (approvalKey (ci_approvalId i)), z) # es'"
    "isConditionalFailure e \<or> isTransactionCancellationWithoutReasons e"
    "\<forall>e. y \<noteq> Failed e" "\<forall>e. z \<noteq> Failed e"
    "returned (claim_existing E now i u (case y of Found it \<Rightarrow> it | _ \<Rightarrow> None) (case z of Found it \<Rightarrow> it | _ \<Rightarrow> None)) es' (Inr c)"
proof -
  obtain x es1 where es: "es = (claim_put now i, x) # es1" and
    x: "returned (case x of Failed e \<Rightarrow> if isConditionalFailure e then claim_read E now i False
         else if \<not> isTransactionCancellationWithoutReasons e then Return (Inl (ServiceThrew e))
         else claim_read E now i True | _ \<Rightarrow> Return (Inr (CLAIMED 1))) es1 (Inr c)"
    using assms(1) unfolding dyn_claim_def returned_Ask by blast
  obtain e u where e: "x = Failed e" "isConditionalFailure e \<or> isTransactionCancellationWithoutReasons e"
    "returned (claim_read E now i u) es1 (Inr c)"
    using x assms(2) by (cases x) (auto split: if_splits)
  from e(3) obtain y z es' where "es1 = (GetItem (executionKey (ci_idempotencyKey i)), y)
      # (GetItem (approvalKey (ci_approvalId i)), z) # es'"
    "\<forall>e. y \<noteq> Failed e" "\<forall>e. z \<noteq> Failed e"
    "returned (claim_existing E now i u (case y of Found it \<Rightarrow> it | _ \<Rightarrow> None) (case z of Found it \<Rightarrow> it | _ \<Rightarrow> None)) es' (Inr c)"
    unfolding returned_claim_read by blast
  with es e(1,2) that show thesis by metis
qed

lemma claim_existing_in_progress:
  assumes "returned (claim_existing E now i u it ap) es (Inr IN_PROGRESS)"
  obtains it' st l t where "it = Some it'" "same_binding i it ap" "it' ''status'' = Some (S st)" "active st"
    "it' ''leaseExpiresAt'' = Some (N l)" "it' ''fencingToken'' = Some (N t)"
    "nowEpoch now < l \<or> l \<le> nowEpoch now \<and> (\<exists>e. es = [(reclaim now (ci_idempotencyKey i) st l t, Failed e)] \<and> isConditionalFailure e)"
proof -
  have same: "same_binding i it ap" using assms by (auto simp: claim_existing_def split: if_splits)
  then obtain it' where it': "it = Some it'" by (auto simp: same_binding_def stringAttribute_Some)
  obtain st where st: "stringAttribute it ''status'' = Some st"
    using assms same it' by (cases "stringAttribute it ''status''") (auto simp: claim_existing_def)
  have leased: "active st \<and> returned (claim_leased now i st it) es (Inr IN_PROGRESS)"
    using assms same it' st
    by (auto simp: claim_existing_def active_def claim_completed_def split: if_splits option.splits attribute.splits)
  then obtain l t where lt: "numberAttribute it ''leaseExpiresAt'' = Some l" "numberAttribute it ''fencingToken'' = Some t"
    by (auto simp: claim_leased_def split: option.splits)
  have "nowEpoch now < l \<or> l \<le> nowEpoch now \<and> (\<exists>e. es = [(reclaim now (ci_idempotencyKey i) st l t, Failed e)] \<and> isConditionalFailure e)"
  proof (cases "nowEpoch now < l")
    case False
    then obtain r es' where r: "es = (reclaim now (ci_idempotencyKey i) st l t, r) # es'"
      "returned (case r of Failed e \<Rightarrow> if isConditionalFailure e then Return (Inr IN_PROGRESS) else Return (Inl (ServiceThrew e))
         | _ \<Rightarrow> Return (Inr (RECONCILE (nat (t + 1))))) es' (Inr IN_PROGRESS)"
      using leased lt by (auto simp: claim_leased_def returned_Ask split: if_splits)
    then show ?thesis using False by (cases r) (auto split: if_splits)
  qed simp
  moreover have "it' ''leaseExpiresAt'' = Some (N l)" "it' ''fencingToken'' = Some (N t)"
    using lt it' by (auto simp: numberAttribute_def split: option.splits attribute.splits)
  ultimately show thesis using that it' same st leased by (auto simp: stringAttribute_Some)
qed

text \<open>The first two requests after a refused claim read the execution at \<open>p\<close> and the approval at \<open>q\<close>.\<close>

lemma claim_reads:
  assumes "run_followed E log cs" "returned (dyn_claim E now i) (part w log) (Inr c)" "\<forall>n. c \<noteq> CLAIMED n"
  obtains e p0 p q it ap es u where "p0 < p" "p < q" "q < length log" "fst (log ! p0) = w" "fst (log ! p) = w" "fst (log ! q) = w"
    "(claim_put now i, Failed e) \<in> set (part w log)"
    "isConditionalFailure e \<and> refusal (journal_before empty_journal cs p0) (claim_put now i) \<or> isTransactionCancellationWithoutReasons e"
    "rel_option (item_entry E) it (byIdempotencyKey (journal_before empty_journal cs p) (ci_idempotencyKey i))"
    "rel_option (approval_item (journal_before empty_journal cs q)) ap
       (approvalToIdempotencyKey (journal_before empty_journal cs q) (ci_approvalId i))"
    "returned (claim_existing E now i u it ap) es (Inr c)"
    "\<forall>x \<in> set es. \<exists>r. p < r \<and> r < length log \<and> log ! r = (w, x)"
proof -
  obtain e y z es u where log: "part w log = (claim_put now i, Failed e) # (GetItem (executionKey (ci_idempotencyKey i)), y)
      # (GetItem (approvalKey (ci_approvalId i)), z) # es"
    "isConditionalFailure e \<or> isTransactionCancellationWithoutReasons e" "\<forall>e. y \<noteq> Failed e" "\<forall>e. z \<noteq> Failed e"
    "returned (claim_existing E now i u (case y of Found it \<Rightarrow> it | _ \<Rightarrow> None) (case z of Found it \<Rightarrow> it | _ \<Rightarrow> None)) es (Inr c)"
    by (rule claim_second_thoughts [OF assms(2,3)])
  obtain f where f: "\<forall>m < length (part w log). f m < length log \<and> log ! f m = (w, part w log ! m)"
    "\<forall>m n. m < n \<longrightarrow> n < length (part w log) \<longrightarrow> f m < f n"
    using part_order [of w log] by blast
  have at: "f 0 < length log" "log ! f 0 = (w, claim_put now i, Failed e)"
    "f 1 < length log" "log ! f 1 = (w, GetItem (executionKey (ci_idempotencyKey i)), y)"
    "f 2 < length log" "log ! f 2 = (w, GetItem (approvalKey (ci_approvalId i)), z)"
    using f(1) [rule_format, of 0] f(1) [rule_format, of 1] f(1) [rule_format, of 2] by (simp_all add: log(1))
  have ordered: "f 0 < f 1" "f 1 < f 2"
    using f(2) [rule_format, of 0 1] f(2) [rule_format, of 1 2] by (simp_all add: log(1))
  have sees: "sees E (journal_before empty_journal cs (f 0)) (claim_put now i, Failed e)"
    "sees E (journal_before empty_journal cs (f 1)) (GetItem (executionKey (ci_idempotencyKey i)), y)"
    "sees E (journal_before empty_journal cs (f 2)) (GetItem (approvalKey (ci_approvalId i)), z)"
    using run_followed_at(1) [OF assms(1)] at by metis+
  obtain it where it: "y = Found it" using sees(2) log(3) by (cases y) (auto simp: sees_def)
  obtain ap where ap: "z = Found ap" using sees(3) log(4) by (cases z) (auto simp: sees_def)
  have later: "\<exists>r. f 1 < r \<and> r < length log \<and> log ! r = (w, x)" if x: "x \<in> set es" for x
  proof -
    obtain m where "m < length es" "es ! m = x" using x by (auto simp: in_set_conv_nth)
    then show ?thesis
      using f(1) [rule_format, of "m + 3"] f(2) [rule_format, of 1 "m + 3"]
      by (intro exI [of _ "f (m + 3)"]) (simp add: log(1) eval_nat_numeral)
  qed
  have first: "isConditionalFailure e \<and> refusal (journal_before empty_journal cs (f 0)) (claim_put now i)
      \<or> isTransactionCancellationWithoutReasons e"
    using log(2) sees(1) unfolding sees_def by blast
  have reads: "rel_option (item_entry E) it (byIdempotencyKey (journal_before empty_journal cs (f 1)) (ci_idempotencyKey i))"
    "rel_option (approval_item (journal_before empty_journal cs (f 2))) ap
       (approvalToIdempotencyKey (journal_before empty_journal cs (f 2)) (ci_approvalId i))"
    using sees(2,3) unfolding it ap sees_def by blast+
  show thesis
    by (rule that [OF ordered at(5) _ _ _ _ first reads, of u es]) (use at log(1,5) it ap later in auto)
qed


text \<open>An answer that a lease is in progress.\<close>

definition in_progress_explained ::
    "('w \<times> db_request \<times> db_response) list \<Rightarrow> journal_call list \<Rightarrow> 'w \<Rightarrow> int \<Rightarrow> ClaimInput \<Rightarrow> bool" where
  "in_progress_explained log cs w now i \<longleftrightarrow> (\<exists>p < length log. fst (log ! p) = w \<and>
     (fst (mem_claim EXECUTION_LEASE_SECONDS (nowEpoch now) (journal_before empty_journal cs p) i) = IN_PROGRESS
      \<or> (\<exists>n q. fst (mem_claim EXECUTION_LEASE_SECONDS (nowEpoch now) (journal_before empty_journal cs p) i) = RECONCILE n
           \<and> p < q \<and> q < length log \<and> fst (log ! q) = w
           \<and> byIdempotencyKey (journal_before empty_journal cs q) (ci_idempotencyKey i)
             \<noteq> byIdempotencyKey (journal_before empty_journal cs p) (ci_idempotencyKey i))))"

lemma claim_in_progress:
  assumes "run_followed E log cs" "returned (dyn_claim E now i) (part w log) (Inr IN_PROGRESS)"
  shows "in_progress_explained log cs w now i"
proof -
  let ?k = "ci_idempotencyKey i"
  obtain e p0 p q it ap es u where r: "p0 < p" "p < q" "q < length log" "fst (log ! p) = w"
    "rel_option (item_entry E) it (byIdempotencyKey (journal_before empty_journal cs p) ?k)"
    "returned (claim_existing E now i u it ap) es (Inr IN_PROGRESS)"
    "\<forall>x \<in> set es. \<exists>r. p < r \<and> r < length log \<and> log ! r = (w, x)"
    by (rule claim_reads [OF assms]) auto
  define j where "j = journal_before empty_journal cs p"
  obtain it' st l t where c: "it = Some it'" "same_binding i it ap" "it' ''status'' = Some (S st)" "active st"
    "it' ''leaseExpiresAt'' = Some (N l)" "it' ''fencingToken'' = Some (N t)"
    "nowEpoch now < l \<or> l \<le> nowEpoch now \<and> (\<exists>e. es = [(reclaim now ?k st l t, Failed e)] \<and> isConditionalFailure e)"
    by (rule claim_existing_in_progress [OF r(6)])
  obtain en where en: "byIdempotencyKey j ?k = Some en" "item_entry E it' en"
    using r(5) c(1) unfolding j_def [symmetric] by (cases "byIdempotencyKey j ?k") auto
  have st: "je_status en \<noteq> JS_COMPLETED" "journal_status_name (je_status en) = st"
    using en(2) c(3,4) by (auto simp: item_entry_def active_def)
  have "entry_ok ?k en" using wf_before [of cs p] en(1) unfolding j_def [symmetric] by (rule mem_wf_entry)
  then have free: "je_receipt en = None" using st(1) by (auto simp: entry_ok_def)
  have lease: "je_leaseExpiresAt en = l" "int (je_fencingToken en) = t" using en(2) st(1) c(5,6) by (auto simp: item_entry_def)
  have bound: "je_approvalId en = ci_approvalId i" "je_approvalDecisionDigest en = ci_approvalDecisionDigest i"
    using c(1,2) en(2) by (auto simp: same_binding_def stringAttribute_Some item_entry_def)
  have answer: "fst (mem_claim EXECUTION_LEASE_SECONDS (nowEpoch now) j i)
      = (if l > nowEpoch now then IN_PROGRESS else RECONCILE (je_fencingToken en + 1))"
    using en(1) bound free lease(1) by (simp add: mem_claim_def Let_def)
  show ?thesis
  proof (cases "nowEpoch now < l")
    case True
    then show ?thesis using answer r(2-4) unfolding in_progress_explained_def j_def by (intro exI [of _ p]) simp
  next
    case False
    with c(7) obtain e where "es = [(reclaim now ?k st l t, Failed e)]" "isConditionalFailure e" by auto
    with r(7) obtain s where s: "p < s" "s < length log" "log ! s = (w, reclaim now ?k st l t, Failed e)" by auto
    have "refusal (journal_before empty_journal cs s) (reclaim now ?k st l t)"
      using run_followed_at(1) [OF assms(1) s(3) [symmetric] s(2)] \<open>isConditionalFailure e\<close> unfolding sees_def by blast
    then have "\<not> lease_state (journal_before empty_journal cs s) ?k st l t" unfolding refusal_def by blast
    then have "byIdempotencyKey (journal_before empty_journal cs s) ?k \<noteq> byIdempotencyKey j ?k"
      using en(1) st lease by (auto simp: lease_state_def)
    with answer False s r(2-4) show ?thesis
      unfolding in_progress_explained_def j_def by (intro exI [of _ p]) auto
  qed
qed

text \<open>An answer that the approval is used up.\<close>

definition used_explained ::
    "('w \<times> db_request \<times> db_response) list \<Rightarrow> journal_call list \<Rightarrow> 'w \<Rightarrow> int \<Rightarrow> ClaimInput \<Rightarrow> bool" where
  "used_explained log cs w now i \<longleftrightarrow>
     (\<forall>t. fst (mem_claim EXECUTION_LEASE_SECONDS t (journal_before empty_journal cs (length log)) i) = APPROVAL_ALREADY_USED)
     \<or> (\<exists>e p q. (claim_put now i, Failed e) \<in> set (part w log) \<and> isTransactionCancellationWithoutReasons e
          \<and> p < q \<and> q < length log \<and> fst (log ! p) = w \<and> fst (log ! q) = w
          \<and> \<not> (mem_owner (journal_before empty_journal cs p) (ci_idempotencyKey i) = Some (ci_approvalId i, ci_approvalDecisionDigest i)
               \<and> approvalToIdempotencyKey (journal_before empty_journal cs q) (ci_approvalId i) = Some (ci_idempotencyKey i)))"

lemma claim_leased_not_used: "all_results (\<lambda>x. x \<noteq> Inr APPROVAL_ALREADY_USED) (claim_leased now i st it)"
  by (simp add: claim_leased_def split: db_response.split option.split)

lemma bound_reads:
  assumes "rel_option (item_entry E) it (byIdempotencyKey j (ci_idempotencyKey i))" "mem_wf j"
    and "rel_option (approval_item j') ap (approvalToIdempotencyKey j' (ci_approvalId i))"
    and "mem_owner j (ci_idempotencyKey i) = Some (ci_approvalId i, ci_approvalDecisionDigest i)"
    and "mem_owner j' (ci_idempotencyKey i) = Some (ci_approvalId i, ci_approvalDecisionDigest i)"
    and "approvalToIdempotencyKey j' (ci_approvalId i) = Some (ci_idempotencyKey i)"
  shows "\<not> returned (claim_existing E now i u it ap) es (Inr APPROVAL_ALREADY_USED)"
proof
  assume r: "returned (claim_existing E now i u it ap) es (Inr APPROVAL_ALREADY_USED)"
  obtain en where en: "byIdempotencyKey j (ci_idempotencyKey i) = Some en" "je_approvalId en = ci_approvalId i"
    "je_approvalDecisionDigest en = ci_approvalDecisionDigest i" using assms(4) by (auto simp: mem_owner_def)
  obtain en' where en': "byIdempotencyKey j' (ci_idempotencyKey i) = Some en'"
    "je_approvalDecisionDigest en' = ci_approvalDecisionDigest i" using assms(5) by (auto simp: mem_owner_def)
  obtain it' where it: "it = Some it'" "item_entry E it' en" using assms(1) en(1) by (cases it) auto
  obtain ap' where ap: "ap = Some ap'" "approval_item j' ap' (ci_idempotencyKey i)" using assms(3,6) by (cases ap) auto
  have same: "same_binding i it ap"
    using it ap en en' by (simp add: same_binding_def stringAttribute_Some item_entry_def)
  have status: "stringAttribute it ''status'' = Some (journal_status_name (je_status en))"
    using it by (simp add: stringAttribute_Some item_entry_def)
  have ok: "entry_ok (ci_idempotencyKey i) en" using assms(2) en(1) by (rule mem_wf_entry)
  show False
  proof (cases "je_status en = JS_COMPLETED")
    case True
    then obtain rc where "je_receipt en = Some rc" using ok by (auto simp: entry_ok_def)
    then have rc: "it' ''receipt'' = Some (ReceiptText rc)" "receipt_valid E rc" using it(2) by (simp_all add: item_entry_def)
    have "claim_existing E now i u it ap = claim_completed E i it"
      using same status True it(1) by (simp add: claim_existing_def)
    moreover have "claim_completed E i it = Return (Inr (COMPLETED rc)) \<or> (\<exists>x. claim_completed E i it = Return (Inl x))"
      by (simp add: claim_completed_def it(1) rc)
    ultimately show False using r by auto
  next
    case False
    then have "claim_existing E now i u it ap = claim_leased now i (journal_status_name (je_status en)) it"
      using same status it(1) by (cases "je_status en") (simp_all add: claim_existing_def)
    then have "returned (claim_leased now i (journal_status_name (je_status en)) it) es (Inr APPROVAL_ALREADY_USED)"
      using r by simp
    from returned_result [OF claim_leased_not_used this] show False by simp
  qed
qed

lemma taken_owner:
  assumes "mem_wf j" "byIdempotencyKey j k \<noteq> None \<or> approvalToIdempotencyKey j a \<noteq> None"
  shows "\<exists>k' a' d. mem_owner j k' = Some (a', d) \<and> (k' = k \<or> a' = a)"
proof (cases "byIdempotencyKey j k")
  case None
  then obtain k' where "approvalToIdempotencyKey j a = Some k'" using assms(2) by blast
  then obtain e where "byIdempotencyKey j k' = Some e" "je_approvalId e = a" using assms(1) unfolding mem_wf_def by blast
  then have "mem_owner j k' = Some (a, je_approvalDecisionDigest e)" by (simp add: mem_owner_def)
  then show ?thesis by blast
next
  case (Some e)
  then have "mem_owner j k = Some (je_approvalId e, je_approvalDecisionDigest e)" by (simp add: mem_owner_def)
  then show ?thesis by blast
qed

lemma owner_approval: "mem_wf j \<Longrightarrow> mem_owner j k = Some (a, d) \<Longrightarrow> approvalToIdempotencyKey j a = Some k"
  using mem_wf_key [of j k] by (auto simp: mem_owner_def)

lemma claim_used:
  assumes "run_followed E log cs" "returned (dyn_claim E now i) (part w log) (Inr APPROVAL_ALREADY_USED)"
  shows "used_explained log cs w now i"
proof -
  let ?k = "ci_idempotencyKey i" and ?a = "ci_approvalId i" and ?J = "journal_before empty_journal cs"
  obtain e p0 p q it ap es u where r: "p0 < p" "p < q" "q < length log" "fst (log ! p) = w" "fst (log ! q) = w"
    "(claim_put now i, Failed e) \<in> set (part w log)"
    "isConditionalFailure e \<and> refusal (?J p0) (claim_put now i) \<or> isTransactionCancellationWithoutReasons e"
    "rel_option (item_entry E) it (byIdempotencyKey (?J p) ?k)" "rel_option (approval_item (?J q)) ap (approvalToIdempotencyKey (?J q) ?a)"
    "returned (claim_existing E now i u it ap) es (Inr APPROVAL_ALREADY_USED)"
    by (rule claim_reads [OF assms]) auto
  have unbound: "\<not> (mem_owner (?J p) ?k = Some (?a, ci_approvalDecisionDigest i) \<and> approvalToIdempotencyKey (?J q) ?a = Some ?k)"
    using bound_reads [OF r(8) wf_before r(9)] owner_later [of cs p ?k _ q] r(2,10) by (metis less_imp_le)
  show ?thesis
  proof (cases "isTransactionCancellationWithoutReasons e")
    case True
    then show ?thesis using unbound r(2-6) unfolding used_explained_def by blast
  next
    case False
    then have "refusal (?J p0) (claim_put now i)" using r(7) by blast
    then have "byIdempotencyKey (?J p0) ?k \<noteq> None \<or> approvalToIdempotencyKey (?J p0) ?a \<noteq> None"
      unfolding refusal_def by blast
    then obtain k' a d where k': "mem_owner (?J p0) k' = Some (a, d)" "k' = ?k \<or> a = ?a"
      using taken_owner [OF wf_before] by blast
    note later = owner_later [OF k'(1)]
    have "fst (mem_claim EXECUTION_LEASE_SECONDS t (?J (length log)) i) = APPROVAL_ALREADY_USED" for t
    proof (cases "k' = ?k \<and> a = ?a \<and> d = ci_approvalDecisionDigest i")
      case True
      then have "mem_owner (?J p) ?k = Some (?a, ci_approvalDecisionDigest i)" "mem_owner (?J q) ?k = Some (?a, ci_approvalDecisionDigest i)"
        using later [of p] later [of q] r(1,2) by simp_all
      moreover from this have "approvalToIdempotencyKey (?J q) ?a = Some ?k"
        using owner_approval [OF wf_before] by blast
      ultimately show ?thesis using unbound by blast
    next
      case False
      have now: "mem_owner (?J (length log)) k' = Some (a, d)" using later r(1-3) by simp
      show ?thesis
      proof (cases "k' = ?k")
        case True
        then show ?thesis using False now by (auto simp: mem_claim_def mem_owner_def split: option.split)
      next
        case other: False
        then show ?thesis
          using memory.claim_other_key [OF wf_before now, of i EXECUTION_LEASE_SECONDS t] k'(2) by simp
      qed
    qed
    then show ?thesis unfolding used_explained_def by blast
  qed
qed

lemma resume_answered:
  assumes "run_followed E log cs" "returned (dyn_resume now l) (part w log) (Inr b)"
  shows "\<exists>p < length log. fst (log ! p) = w \<and> (b \<longleftrightarrow> can_resume (journal_before empty_journal cs p) now l)
    \<and> (b \<longrightarrow> cs ! p = Resume (nowEpoch now) l)"
proof -
  obtain x es where x: "part w log = (resume_update now l, x) # es"
    "returned (case x of Failed e \<Rightarrow> if isConditionalFailure e then Return (Inr False) else Return (Inl (ServiceThrew e))
       | _ \<Rightarrow> Return (Inr True)) es (Inr b)"
    using assms(2) unfolding dyn_resume_def returned_Ask by blast
  obtain p where p: "p < length log" "log ! p = (w, resume_update now l, x)"
    using part_position [of "(resume_update now l, x)" w log] x(1) by auto
  note seen = run_followed_at [OF assms(1) p(2) [symmetric] p(1)]
  have "b \<longleftrightarrow> can_resume (journal_before empty_journal cs p) now l"
    using x(2) seen(1) by (cases x) (auto simp: sees_def refusal_def split: if_splits)
  moreover have "b \<longrightarrow> cs ! p = Resume (nowEpoch now) l"
    using x(2) seen by (cases x) (auto simp: sees_def performs_def split: if_splits)
  ultimately show ?thesis using p by (intro exI [of _ p]) simp
qed

lemma complete_refused:
  assumes "run_followed E log cs"
    and "returned (dyn_complete E l r) (part w log) (Inl (LoopThrew (RemediationError EXECUTION_IN_PROGRESS m)))"
  shows "\<exists>p < length log. fst (log ! p) = w \<and> \<not> can_complete (journal_before empty_journal cs p) l r"
proof -
  obtain c ds where d: "rcp_approvalDecisionDigest r = Some (c # ds)"
    using assms(2) by (auto simp: dyn_complete_def split: if_splits option.splits list.splits)
  then obtain x es where x: "part w log = (complete_update l (c # ds) r, x) # es"
    "returned (case x of Failed e \<Rightarrow> if isConditionalFailure e
         then Return (Inl (LoopThrew (RemediationError EXECUTION_IN_PROGRESS ''A newer worker owns this execution lease.'')))
         else Return (Inl (ServiceThrew e)) | _ \<Rightarrow> Return (Inr ())) es (Inl (LoopThrew (RemediationError EXECUTION_IN_PROGRESS m)))"
    using assms(2) by (auto simp: dyn_complete_def returned_Ask split: if_splits)
  then obtain e where e: "x = Failed e" "isConditionalFailure e" by (cases x) (auto split: if_splits)
  obtain p where p: "p < length log" "log ! p = (w, complete_update l (c # ds) r, x)"
    using part_position [of "(complete_update l (c # ds) r, x)" w log] x(1) by auto
  have "refusal (journal_before empty_journal cs p) (complete_update l (c # ds) r)"
    using run_followed_at(1) [OF assms(1) p(2) [symmetric] p(1)] e unfolding sees_def by blast
  then show ?thesis using d p unfolding refusal_def by (intro exI [of _ p]) auto
qed

text \<open>What the run of the in-memory journal says about the answer of an operation.\<close>

definition granted_at ::
    "('w \<times> db_request \<times> db_response) list \<Rightarrow> journal_event list \<Rightarrow> 'w \<Rightarrow> ClaimInput \<Rightarrow> nat \<Rightarrow> bool" where
  "granted_at log evs w i n \<longleftrightarrow>
     (\<exists>p < length log. fst (log ! p) = w \<and> evs ! p = Granted (ci_idempotencyKey i) (ci_approvalId i) n)"

fun answer_explained ::
    "('w \<times> db_request \<times> db_response) list \<Rightarrow> journal_call list \<Rightarrow> journal_event list \<Rightarrow> MemoryJournal \<Rightarrow> 'w \<Rightarrow>
     journal_op \<Rightarrow> op_result \<Rightarrow> bool" where
  "answer_explained log cs evs j w (OpClaim now i) (ClaimResult (CLAIMED n)) = granted_at log evs w i n"
| "answer_explained log cs evs j w (OpClaim now i) (ClaimResult (RECONCILE n)) = granted_at log evs w i n"
| "answer_explained log cs evs j w (OpClaim now i) (ClaimResult (COMPLETED r)) =
     (mem_stored j (ci_idempotencyKey i) = Some r
      \<and> mem_owner j (ci_idempotencyKey i) = Some (ci_approvalId i, ci_approvalDecisionDigest i))"
| "answer_explained log cs evs j w (OpClaim now i) (ClaimResult IN_PROGRESS) = in_progress_explained log cs w now i"
| "answer_explained log cs evs j w (OpClaim now i) (ClaimResult APPROVAL_ALREADY_USED) = used_explained log cs w now i"
| "answer_explained log cs evs j w (OpResume now l) (ResumeResult b) =
     (\<exists>p < length log. fst (log ! p) = w \<and> (b \<longleftrightarrow> can_resume (journal_before empty_journal cs p) now l)
        \<and> (b \<longrightarrow> cs ! p = Resume (nowEpoch now) l))"
| "answer_explained log cs evs j w (OpComplete l r) CompleteResult =
     (\<exists>p < length log. fst (log ! p) = w \<and> evs ! p = Stored l r)"
| "answer_explained log cs evs j w op x = False"

lemma answers_explained:
  assumes "linearises E T log evs j" "run_followed E log cs" "op_returned E ops log w x"
  shows "answer_explained log cs evs j w (ops w) x"
proof (cases "ops w")
  case (OpClaim now i)
  then obtain c where c: "x = ClaimResult c" "returned (dyn_claim E now i) (part w log) (Inr c)"
    using assms(3) by (auto simp: op_returned_def returned_db_bind)
  have grant: "granted_at log evs w i n" if "c = CLAIMED n \<or> c = RECONCILE n" for n
    using linearises_grant [OF assms(1) assms(3) [unfolded c(1)] OpClaim that] unfolding granted_at_def by blast
  show ?thesis
  proof (cases c)
    case (COMPLETED r)
    then show ?thesis using linearises_completed [OF assms(1), of ops w now i r] assms(3) c(1) OpClaim by simp
  qed (use grant claim_in_progress [OF assms(2)] claim_used [OF assms(2)] c OpClaim in simp_all)
next
  case (OpResume now l)
  then obtain b where "x = ResumeResult b" "returned (dyn_resume now l) (part w log) (Inr b)"
    using assms(3) by (auto simp: op_returned_def returned_db_bind)
  then show ?thesis using resume_answered [OF assms(2)] OpResume by simp
next
  case (OpComplete l r)
  then have x: "x = CompleteResult" "returned (dyn_complete E l r) (part w log) (Inr ())"
    using assms(3) by (auto simp: op_returned_def returned_db_bind)
  then obtain d y where "(complete_update l d r, y) \<in> set (part w log)" "\<forall>e. y \<noteq> Failed e"
    using complete_put by blast
  then have "\<exists>p < length log. fst (log ! p) = w \<and> evs ! p = Stored l r"
    using linearisesD [OF assms(1)] explains_write(3) by metis
  then show ?thesis using x OpComplete by simp
qed

subsection \<open>A table\<close>

text \<open>The documented behaviour itself, with every answer a table may give.\<close>

definition table_answers :: "(table, db_request, db_response) service" where
  "table_answers T q r T' \<longleftrightarrow> (case r of
     Done \<Rightarrow> (\<forall>k. q \<noteq> GetItem k) \<and> admitted q T \<and> T' = written q T
   | Found x \<Rightarrow> (\<exists>k. q = GetItem k \<and> x = T k \<and> T' = T)
   | Failed e \<Rightarrow>
       if isConditionalFailure e then \<not> admitted q T \<and> T' = T
       else if isTransactionCancellationWithoutReasons e then T' = T
       else T' = T \<or> admitted q T \<and> T' = written q T)"

interpretation table: conditional_store table_answers "\<lambda>T. T"
  by unfold_locales (auto simp: table_answers_def split: if_splits)

text \<open>Two workers: the first takes the lease and is not heard of again, the second recovers it eleven minutes later.\<close>

definition demo_condition_failed :: AwsError where
  "demo_condition_failed = \<lparr>aws_name = ''TransactionCanceledException'', aws_status = None, aws_httpStatusCode = Some 400,
     aws_retryable = False, aws_reasons = Some [Some ''ConditionalCheckFailed'', Some ''ConditionalCheckFailed'']\<rparr>"

definition demo_ops :: "nat \<Rightarrow> journal_op" where
  "demo_ops w = (if w = 0 then OpClaim 0 demo_claim else OpClaim 660000 demo_claim)"

definition demo_table :: table where
  "demo_table = written (claim_put 0 demo_claim) (\<lambda>_. None)"

definition demo_log :: "(nat \<times> db_request \<times> db_response) list" where
  "demo_log = [(0, claim_put 0 demo_claim, Done), (1, claim_put 660000 demo_claim, Failed demo_condition_failed),
     (1, GetItem (executionKey ''key-1''), Found (demo_table (executionKey ''key-1''))),
     (1, GetItem (approvalKey ''approval-1''), Found (demo_table (approvalKey ''approval-1''))),
     (1, reclaim 660000 ''key-1'' ''IN_PROGRESS'' 600 1, Done)]"

definition demo_table_end :: table where
  "demo_table_end = written (reclaim 660000 ''key-1'' ''IN_PROGRESS'' 600 1) demo_table"

lemma demo_conditional: "isConditionalFailure demo_condition_failed"
  by (simp add: isConditionalFailure_def demo_condition_failed_def)

lemma demo_table_items:
  "demo_table (executionKey ''key-1'') = Some (new_item (executionKey ''key-1'')
     [(''status'', S ''IN_PROGRESS''), (''approvalId'', S ''approval-1''), (''decisionDigest'', S demo_digest),
      (''createdAt'', S (toISO 0)), (''fencingToken'', N 1), (''leaseExpiresAt'', N 600), (''attemptCount'', N 1),
      (''expiresAt'', N 7776000)])"
  "demo_table (approvalKey ''approval-1'') = Some (new_item (approvalKey ''approval-1'')
     [(''idempotencyKey'', S ''key-1''), (''decisionDigest'', S demo_digest), (''expiresAt'', N 7776000)])"
  by (simp_all add: demo_table_def claim_put_def Let_def demo_claim_def nowEpoch_def EXECUTION_LEASE_SECONDS_def
      JOURNAL_TTL_SECONDS_def)

lemma demo_served: "served table_answers (\<lambda>_. None) (map snd demo_log) demo_table_end"
proof -
  have claim: "admitted (claim_put 0 demo_claim) (\<lambda>_. None)"
    by (simp add: claim_put_admitted absent_def)
  have taken: "\<not> admitted (claim_put 660000 demo_claim) demo_table"
    by (simp add: claim_put_admitted absent_def demo_claim_def demo_table_items new_item_def)
  have free: "admitted (reclaim 660000 ''key-1'' ''IN_PROGRESS'' 600 1) demo_table"
    by (simp add: reclaim_def demo_table_items new_item_def)
  have answers: "table_answers (\<lambda>_. None) (claim_put 0 demo_claim) Done demo_table"
    "table_answers demo_table (claim_put 660000 demo_claim) (Failed demo_condition_failed) demo_table"
    "table_answers demo_table (GetItem k) (Found (demo_table k)) demo_table"
    "table_answers demo_table (reclaim 660000 ''key-1'' ''IN_PROGRESS'' 600 1) Done demo_table_end" for k
    using claim taken free by (simp_all add: table_answers_def demo_conditional demo_table_end_def demo_table_def)
  show ?thesis
    unfolding demo_log_def
    by (simp, rule served_cons, rule answers(1), rule served_cons, rule answers(2), rule served_cons, rule answers(3),
        rule served_cons, rule answers(3), rule served_cons, rule answers(4), rule served_nil)
qed

lemma demo_results:
  "returned (dyn_claim E 0 demo_claim) (part 0 demo_log) (Inr (CLAIMED 1))"
  "returned (dyn_claim E 660000 demo_claim) (part 1 demo_log) (Inr (RECONCILE 2))"
proof -
  show "returned (dyn_claim E 0 demo_claim) (part 0 demo_log) (Inr (CLAIMED 1))"
    by (simp add: part_def demo_log_def dyn_claim_def returned_Ask)
  have existing: "returned (claim_existing E 660000 demo_claim False (demo_table (executionKey ''key-1''))
      (demo_table (approvalKey ''approval-1''))) [(reclaim 660000 ''key-1'' ''IN_PROGRESS'' 600 1, Done)] (Inr (RECONCILE 2))"
    by (simp add: demo_table_items claim_existing_def same_binding_def stringAttribute_def numberAttribute_def new_item_def
        demo_claim_def claim_leased_def MAX_SAFE_INTEGER_def nowEpoch_def returned_Ask)
  have "returned (claim_read E 660000 demo_claim False)
      [(GetItem (executionKey ''key-1''), Found (demo_table (executionKey ''key-1''))),
       (GetItem (approvalKey ''approval-1''), Found (demo_table (approvalKey ''approval-1''))),
       (reclaim 660000 ''key-1'' ''IN_PROGRESS'' 600 1, Done)] (Inr (RECONCILE 2))"
    unfolding returned_claim_read using existing by (simp add: demo_claim_def)
  then show "returned (dyn_claim E 660000 demo_claim) (part 1 demo_log) (Inr (RECONCILE 2))"
    by (simp add: part_def demo_log_def dyn_claim_def returned_Ask demo_conditional)
qed

lemma demo_returned:
  "op_returned E demo_ops demo_log 0 (ClaimResult (CLAIMED 1))"
  "op_returned E demo_ops demo_log 1 (ClaimResult (RECONCILE 2))"
  using demo_results by (simp_all add: op_returned_claim demo_ops_def)

lemma demo_table_run: "system_run table_answers (\<lambda>w. op_program E (demo_ops w)) (\<lambda>_. None) demo_log demo_table_end"
proof -
  have "io_after (op_program E (demo_ops w)) (part w demo_log) \<noteq> None" for w
  proof (cases "w = 0 \<or> w = 1")
    case True
    then show ?thesis using demo_returned [of E] by (auto simp: op_returned_def returned_def)
  next
    case False
    then have "part w demo_log = []" by (simp add: part_def demo_log_def)
    then show ?thesis by simp
  qed
  then show ?thesis using demo_served by (simp add: system_run_def)
qed

text \<open>
  C14: the durable journal implements the in-memory one. Start any number of \<open>claim\<close>, \<open>resume\<close> and \<open>complete\<close>
  calls on an empty table, interleave their requests in any order, let responses be lost, and stop at any point.
  There is a run of the in-memory journal, one call for each request served and in the same order, that ends
  in a journal the table represents and explains every answer. A lease was granted by the run at one of the
  call's own requests, with the answered token; a replayed receipt is the one the run holds for that key,
  approval and decision; \<open>IN_PROGRESS\<close> is what the in-memory journal would say at one of the call's requests,
  unless another call took the recovery it was about to take; \<open>APPROVAL_ALREADY_USED\<close> is what the in-memory journal
  says from then on, unless the first write was cancelled without reasons and the two reads did not see one complete
  binding; \<open>resume\<close> answers what the in-memory journal does at its request, and is performed there when true; a
  completion is stored at its request. A completion refused with \<open>EXECUTION_IN_PROGRESS\<close> met a journal that
  would not have stored it then.
\<close>

theorem dynamo_journal_linearises:
  assumes "conditional_store serve items" and "items d = (\<lambda>_. None)" and "system_run serve (\<lambda>w. op_program E (ops w)) d log d'"
  shows "\<exists>cs evs j. journal_run lease_journal empty_journal cs = (evs, j) \<and> length evs = length log \<and> represents E (items d') j
    \<and> (\<forall>w x. op_returned E ops log w x \<longrightarrow> answer_explained log cs evs j w (ops w) x)
    \<and> (\<forall>w l r m. ops w = OpComplete l r \<longrightarrow>
         returned (dyn_complete E l r) (part w log) (Inl (LoopThrew (RemediationError EXECUTION_IN_PROGRESS m))) \<longrightarrow>
         (\<exists>p < length log. fst (log ! p) = w \<and> \<not> can_complete (journal_before empty_journal cs p) l r))"
proof -
  obtain cs evs j where run: "journal_run lease_journal empty_journal cs = (evs, j)" "linearises E (items d') log evs j"
    "run_followed E log cs"
    using run_linearises [OF assms] by blast
  from run(2) have "represents E (items d') j" "length evs = length log"
    by (auto simp: linearises_def dest: list_all2_lengthD)
  with run(1) answers_explained [OF run(2,3)] complete_refused [OF run(3)] show ?thesis
    by (intro exI [of _ cs] exI [of _ evs] exI [of _ j]) blast
qed

theorem dynamo_journal_linearises_witness:
  "\<exists>cs evs j. journal_run lease_journal empty_journal cs = (evs, j) \<and> length evs = 5
    \<and> represents demo_env demo_table_end j \<and> evs ! 0 = Granted ''key-1'' ''approval-1'' 1"
proof -
  from dynamo_journal_linearises [OF table.conditional_store_axioms refl demo_table_run [of demo_env]] obtain cs evs j where
    run: "journal_run lease_journal empty_journal cs = (evs, j)" "length evs = length demo_log" "represents demo_env demo_table_end j"
    and answers: "\<forall>w x. op_returned demo_env demo_ops demo_log w x \<longrightarrow> answer_explained demo_log cs evs j w (demo_ops w) x"
    by blast
  have "granted_at demo_log evs 0 demo_claim 1"
    using answers demo_returned(1) [of demo_env] by (fastforce simp: demo_ops_def)
  then obtain p where p: "p < length demo_log" "fst (demo_log ! p) = 0" "evs ! p = Granted ''key-1'' ''approval-1'' 1"
    by (auto simp: granted_at_def demo_claim_def)
  then have "p = 0" by (auto simp: demo_log_def less_Suc_eq nth_Cons')
  moreover have "length demo_log = 5" by (simp add: demo_log_def)
  ultimately show ?thesis using p(3) run by metis
qed

text \<open>
  C5: the durable journal fences. In every such execution two calls that were both given a lease of one key got
  different tokens, and two calls that got leases of one approval got them for one key: across any number of
  workers an approval runs under one key only, and no two attempts share a fencing token.
\<close>

theorem dynamo_journal_fences:
  assumes "conditional_store serve items" and "items d = (\<lambda>_. None)" and "system_run serve (\<lambda>w. op_program E (ops w)) d log d'"
    and "w \<noteq> w'" and "ops w = OpClaim now i" and "ops w' = OpClaim now' i'"
    and "op_returned E ops log w (ClaimResult c)" and "c = CLAIMED n \<or> c = RECONCILE n"
    and "op_returned E ops log w' (ClaimResult c')" and "c' = CLAIMED m \<or> c' = RECONCILE m"
  shows "(ci_idempotencyKey i = ci_idempotencyKey i' \<longrightarrow> n \<noteq> m)
    \<and> (ci_approvalId i = ci_approvalId i' \<longrightarrow> ci_idempotencyKey i = ci_idempotencyKey i')"
proof -
  obtain evs j where lin: "linearises E (items d') log evs j" using run_linearises [OF assms(1-3)] by blast
  then obtain cs where cs: "fst (journal_run lease_journal empty_journal cs) = evs"
    unfolding linearises_def by (metis fst_conv)
  obtain p q where p: "p < length evs" "fst (log ! p) = w" "evs ! p = Granted (ci_idempotencyKey i) (ci_approvalId i) n"
    and q: "q < length evs" "fst (log ! q) = w'" "evs ! q = Granted (ci_idempotencyKey i') (ci_approvalId i') m"
    using linearises_grant [OF lin assms(7,5,8)] linearises_grant [OF lin assms(9,6,10)] by blast
  have "p \<noteq> q" using p(2) q(2) assms(4) by blast
  note grants = memory.grants_increase [OF mem_wf_empty cs]
    and one = memory.grants_one_key [OF mem_wf_empty, of _ _ _ EXECUTION_LEASE_SECONDS cs, unfolded cs]
  have "n \<noteq> m" if "ci_idempotencyKey i = ci_idempotencyKey i'"
    using grants [of p q] grants [of q p] p q that \<open>p \<noteq> q\<close> by (cases p q rule: linorder_cases) auto
  then show ?thesis using one p q by (metis nth_mem)
qed

theorem dynamo_journal_fences_witness:
  "ci_idempotencyKey demo_claim = ci_idempotencyKey demo_claim \<and> (1 :: nat) \<noteq> 2
   \<and> op_returned demo_env demo_ops demo_log 1 (ClaimResult (RECONCILE 2))"
  using dynamo_journal_fences [OF table.conditional_store_axioms refl demo_table_run [of demo_env], of 0 1 0 demo_claim 660000 demo_claim
      "CLAIMED 1" 1 "RECONCILE 2" 2] demo_returned [of demo_env]
  by (simp add: demo_ops_def)

end
