(* ===== verification/JsonFields.thy ===== *)
theory JsonFields
  imports RuntimeProfile
begin

section \<open>Objects read field by field\<close>

text \<open>
  Several validators accept an object when its fields, looked up one by one, are what a record requires and no
  other key is present. These facts say that such an object is the record's own fields in some order.
\<close>

text \<open>\<open>JSON.parse\<close> keeps one value for each key of an object.\<close>

fun distinct_keys :: "json \<Rightarrow> bool" where
  "distinct_keys (JObj kvs) \<longleftrightarrow> distinct (map fst kvs) \<and> (\<forall>(k, v) \<in> set kvs. distinct_keys v)"
| "distinct_keys (JArr vs) \<longleftrightarrow> (\<forall>v \<in> set vs. distinct_keys v)"
| "distinct_keys _ \<longleftrightarrow> True"

lemma distinct_keys_field: "distinct_keys (JObj kvs) \<Longrightarrow> map_of kvs k = Some v \<Longrightarrow> distinct_keys v"
  by (auto dest: map_of_SomeD)

lemma distinct_keys_keys: "distinct_keys (JObj kvs) \<Longrightarrow> distinct (map fst kvs)"
  by simp

text \<open>\<open>String(v)\<close>, as a template literal inserts it; an object has no \<open>toString\<close> of its own.\<close>

fun js_text :: "json \<Rightarrow> string" where
  "js_text JNull = ''null''"
| "js_text (JBool b) = bool_text b"
| "js_text (JNum n) = show_int n"
| "js_text (JStr s) = s"
| "js_text (JArr vs) = join '','' (map (\<lambda>v. if v = JNull then [] else js_text v) vs)"
| "js_text (JObj kvs) = ''[object Object]''"

text \<open>An object whose fields are looked up one by one.\<close>

lemma same_lookups:
  fixes kvs fs :: "(string \<times> json) list"
  assumes "distinct (map fst kvs)" "distinct (map fst fs)" "fst ` set kvs \<subseteq> K" "fst ` set fs \<subseteq> K"
    and "\<forall>k \<in> K. map_of kvs k = map_of fs k"
  shows "mset kvs = mset fs"
proof (rule fields_mset_eq [OF assms(1,2)])
  have "map_of kvs k = None" "map_of fs k = None" if "k \<notin> K" for k
    unfolding map_of_eq_None_iff using that assms(3,4) by auto
  then have "map_of kvs k = map_of fs k" for k using assms(5) by (cases "k \<in> K") simp_all
  then have "map_of kvs = map_of fs" by blast
  then show "set kvs = set fs" using map_of_inject_set [OF assms(1,2)] by blast
qed

lemma mset_fields:
  fixes kvs fs :: "(string \<times> json) list"
  assumes "mset kvs = mset fs" "distinct (map fst fs)"
  shows "map_of kvs = map_of fs" "fst ` set kvs = fst ` set fs"
  using permuted_fields(1) [OF assms] mset_eq_setD [OF assms(1)] by simp_all

end
