(* ===== verification/WorkerMessages.thy ===== *)
theory WorkerMessages
  imports DynamoJournal JsonFields
begin

section \<open>The messages of the worker queues: \<open>src/worker/contracts.ts\<close>\<close>

text \<open>
  What the hosted workers accept from their queues. \<open>JSON.parse\<close> and the URL parser belong to the host and
  are arguments: \<open>worker_host\<close> gives the value a body parses to, and of a URL the four parts the code reads
  and its text. Everything after that is the code's own validation, with its error messages.
\<close>

record Url =
  url_protocol :: string
  url_username :: string
  url_password :: string
  url_hash :: string
  url_text :: string

record worker_host =
  jsonParse :: "string \<Rightarrow> json option"
  urlParse :: "string \<Rightarrow> Url option"

definition MAX_SQS_BODY_BYTES :: nat where "MAX_SQS_BODY_BYTES = 128 * 1024"

datatype AsyncMessageKind = Q_audit | Q_approval | Q_remediation

datatype AuditMode = READ_ONLY | GOVERNED

record AuditRequestV1 =
  arq_requestId :: string
  arq_requestedAt :: string
  arq_query :: "string option"
  arq_mode :: "AuditMode option"

record AuditQueueMessageV1 =
  aqm_taskToken :: string
  aqm_executionId :: string
  aqm_request :: AuditRequestV1

record ApprovalQueueMessageV1 =
  pqm_taskToken :: string
  pqm_executionId :: string
  pqm_approvalId :: string
  pqm_planDigest :: string
  pqm_evidenceDigest :: string
  pqm_approvalRequestDigest :: string
  pqm_requestedAt :: string
  pqm_expiresAt :: string

record ApprovalCallbackV1 =
  acb_approvalId :: string
  acb_decision :: Decision
  acb_approver :: AuthenticatedApprover
  acb_decidedAt :: string

record RemediationQueueMessageV1 =
  rqm_taskToken :: string
  rqm_executionId :: string
  rqm_approvalId :: string
  rqm_planDigest :: string
  rqm_evidenceDigest :: string
  rqm_approvalResult :: ApprovalCallbackV1

datatype WorkerQueueMessage = AUDIT_REQUESTED AuditQueueMessageV1
  | APPROVAL_REQUESTED ApprovalQueueMessageV1 | REMEDIATION_REQUESTED RemediationQueueMessageV1

subsection \<open>Fields\<close>

definition fail :: "string \<Rightarrow> thrown" where
  "fail message = WorkerContractError INVALID_MESSAGE message"

definition message_record :: "json option \<Rightarrow> string \<Rightarrow> thrown + (string \<times> json) list" where
  "message_record value label = require (fail (label @ '' must be an object.'')) (Option.bind value own_fields)"

definition exactKeys :: "(string \<times> json) list \<Rightarrow> string list \<Rightarrow> string list \<Rightarrow> string \<Rightarrow> thrown + unit" where
  "exactKeys kvs allowed required label =
     (if list_ex (\<lambda>k. k \<notin> set allowed) (map fst kvs)
      then Inl (fail (label @ '' contains an unexpected field.''))
      else if list_ex (\<lambda>k. k \<notin> set (map fst kvs)) required
      then Inl (fail (label @ '' is missing a required field.''))
      else Inr ())"

definition text_ok :: "nat \<Rightarrow> nat \<Rightarrow> string \<Rightarrow> bool" where
  "text_ok minLength maxLength s \<longleftrightarrow> minLength \<le> length s \<and> length s \<le> maxLength \<and> \<not> list_ex is_control s"

definition stringValue :: "json option \<Rightarrow> string \<Rightarrow> nat \<Rightarrow> nat \<Rightarrow> thrown + string" where
  "stringValue value label minLength maxLength =
     (case str_of value of
        None \<Rightarrow> Inl (fail (label @ '' is invalid.''))
      | Some s \<Rightarrow> if \<not> text_ok minLength maxLength s then Inl (fail (label @ '' is invalid.'')) else Inr s)"

text \<open>A text that must also match a pattern.\<close>

definition matching :: "(string \<Rightarrow> bool) \<Rightarrow> string \<Rightarrow> thrown + string \<Rightarrow> thrown + string" where
  "matching pat message r = bind_result r (\<lambda>s. if pat s then Inr s else Inl (fail message))"

definition instantValue :: "js_env \<Rightarrow> json option \<Rightarrow> string \<Rightarrow> thrown + string" where
  "instantValue E value label = matching (\<lambda>s. date_parse E s \<noteq> None) (label @ '' must be an ISO-8601 timestamp.'')
     (stringValue value label 20 40)"

definition taskToken :: "json option \<Rightarrow> thrown + string" where
  "taskToken value = stringValue value ''taskToken'' 16 1024"

definition is_upper :: "char \<Rightarrow> bool" where "is_upper c \<longleftrightarrow> CHR ''A'' \<le> c \<and> c \<le> CHR ''Z''"
definition is_lower :: "char \<Rightarrow> bool" where "is_lower c \<longleftrightarrow> CHR ''a'' \<le> c \<and> c \<le> CHR ''z''"

text \<open>\<open>EXECUTION_ARN_PATTERN\<close>: no class of the pattern contains a colon, so it reads the eight parts between colons.\<close>

definition arn_name :: "string \<Rightarrow> bool" where
  "arn_name s \<longleftrightarrow> s \<noteq> [] \<and> list_all (\<lambda>c. is_upper c \<or> is_lower c \<or> is_digit c \<or> c \<in> set ''-_'') s"

definition is_execution_arn :: "string \<Rightarrow> bool" where
  "is_execution_arn s = (case split_on CHR '':'' s of
     [arn, cloud, service, region, account, word, machine, name] \<Rightarrow>
       arn = ''arn'' \<and> cloud \<in> {''aws'', ''aws-us-gov'', ''aws-cn''} \<and> service = ''states''
       \<and> region \<noteq> [] \<and> list_all (\<lambda>c. is_lower c \<or> is_digit c \<or> c = CHR ''-'') region
       \<and> length account = 12 \<and> list_all is_digit account \<and> word = ''execution'' \<and> arn_name machine \<and> arn_name name
   | _ \<Rightarrow> False)"

definition executionIdValue :: "json option \<Rightarrow> thrown + string" where
  "executionIdValue value = matching is_execution_arn ''executionId must be a Step Functions execution ARN.''
     (stringValue value ''executionId'' 32 2048)"

text \<open>\<open>ID_PATTERN\<close> and \<open>DIGEST_PATTERN\<close>.\<close>

definition is_identifier :: "string \<Rightarrow> bool" where
  "is_identifier s \<longleftrightarrow> 8 \<le> length s \<and> length s \<le> 160
     \<and> list_all (\<lambda>c. is_upper c \<or> is_lower c \<or> is_digit c \<or> c \<in> set ''._:-'') s"

definition identifierValue :: "json option \<Rightarrow> string \<Rightarrow> thrown + string" where
  "identifierValue value label = matching is_identifier (label @ '' has an invalid format.'') (stringValue value label 8 160)"

definition sha256 :: "json option \<Rightarrow> string \<Rightarrow> thrown + string" where
  "sha256 value label = matching is_sha256 (label @ '' must be a SHA-256 digest.'') (stringValue value label 71 71)"

subsection \<open>Messages\<close>

definition mode_of :: "json option \<Rightarrow> thrown + AuditMode option" where
  "mode_of v = (case v of None \<Rightarrow> Inr None
     | Some m \<Rightarrow> if m = JStr ''READ_ONLY'' then Inr (Some READ_ONLY) else if m = JStr ''GOVERNED'' then Inr (Some GOVERNED)
         else Inl (fail ''request.mode must be READ_ONLY or GOVERNED.''))"

definition parseAuditRequest :: "js_env \<Rightarrow> json option \<Rightarrow> thrown + AuditRequestV1" where
  "parseAuditRequest E value =
     bind_result (message_record value ''request'') (\<lambda>input.
     bind_result (exactKeys input [''schemaVersion'', ''requestId'', ''requestedAt'', ''query'', ''mode'']
       [''schemaVersion'', ''requestId'', ''requestedAt''] ''request'') (\<lambda>_.
     bind_result (throw_if (map_of input ''schemaVersion'' \<noteq> Some (JStr ''archon.audit-request/v1''))
       (fail ''request.schemaVersion is unsupported.'')) (\<lambda>_.
     bind_result (case map_of input ''query'' of None \<Rightarrow> Inr None
       | Some q \<Rightarrow> map_result Some (stringValue (Some q) ''request.query'' 1 512)) (\<lambda>query.
     bind_result (mode_of (map_of input ''mode'')) (\<lambda>mode.
     bind_result (identifierValue (map_of input ''requestId'') ''request.requestId'') (\<lambda>requestId.
     bind_result (instantValue E (map_of input ''requestedAt'') ''request.requestedAt'') (\<lambda>requestedAt.
     Inr \<lparr>arq_requestId = requestId, arq_requestedAt = requestedAt, arq_query = query, arq_mode = mode\<rparr>)))))))"

text \<open>\<open>issuerUrl.toString().replace(/\/$/u, "")\<close>\<close>

definition without_slash :: "string \<Rightarrow> string" where
  "without_slash s = (if s \<noteq> [] \<and> last s = CHR ''/'' then butlast s else s)"

definition decision_of :: "json option \<Rightarrow> Decision option" where
  "decision_of v = (if v = Some (JStr ''APPROVE'') then Some APPROVE else if v = Some (JStr ''REJECT'') then Some REJECT else None)"

definition issuer_of :: "worker_host \<Rightarrow> json option \<Rightarrow> thrown + string" where
  "issuer_of H value =
     bind_result (stringValue value ''approvalResult.decision.approver.issuer'' 8 2048) (\<lambda>issuer.
     bind_result (require (fail ''approvalResult.decision.approver.issuer is not a URL.'') (urlParse H issuer)) (\<lambda>u.
     if url_protocol u \<noteq> ''https:'' \<or> url_username u \<noteq> [] \<or> url_password u \<noteq> [] \<or> url_hash u \<noteq> []
     then Inl (fail ''approvalResult.decision.approver.issuer is not an HTTPS identity issuer.'')
     else Inr (without_slash (url_text u))))"

definition parseApprovalCallback :: "js_env \<Rightarrow> worker_host \<Rightarrow> json option \<Rightarrow> thrown + ApprovalCallbackV1" where
  "parseApprovalCallback E H value =
     bind_result (message_record value ''approvalResult'') (\<lambda>callback.
     bind_result (exactKeys callback [''approvalId'', ''decision''] [''approvalId'', ''decision''] ''approvalResult'') (\<lambda>_.
     bind_result (message_record (map_of callback ''decision'') ''approvalResult.decision'') (\<lambda>decision.
     bind_result (exactKeys decision [''decision'', ''approver'', ''decidedAt''] [''decision'', ''approver'', ''decidedAt'']
       ''approvalResult.decision'') (\<lambda>_.
     bind_result (require (fail ''approvalResult.decision.decision is invalid.'') (decision_of (map_of decision ''decision''))) (\<lambda>d.
     bind_result (message_record (map_of decision ''approver'') ''approvalResult.decision.approver'') (\<lambda>approver.
     bind_result (exactKeys approver [''subject'', ''issuer'', ''roles'', ''authenticated'']
       [''subject'', ''issuer'', ''roles'', ''authenticated''] ''approvalResult.decision.approver'') (\<lambda>_.
     bind_result (throw_if (map_of approver ''authenticated'' \<noteq> Some (JBool True)
         \<or> map_of approver ''roles'' \<noteq> Some (JArr [JStr ''DataSteward'']))
       (fail ''approvalResult does not contain an authenticated DataSteward.'')) (\<lambda>_.
     bind_result (issuer_of H (map_of approver ''issuer'')) (\<lambda>issuer.
     bind_result (identifierValue (map_of callback ''approvalId'') ''approvalResult.approvalId'') (\<lambda>approvalId.
     bind_result (stringValue (map_of approver ''subject'') ''approvalResult.decision.approver.subject'' 1 256) (\<lambda>subject.
     bind_result (instantValue E (map_of decision ''decidedAt'') ''approvalResult.decision.decidedAt'') (\<lambda>decidedAt.
     Inr \<lparr>acb_approvalId = approvalId, acb_decision = d,
       acb_approver = \<lparr>au_subject = subject, au_issuer = issuer, au_roles = [''DataSteward''], au_authenticated = True\<rparr>,
       acb_decidedAt = decidedAt\<rparr>))))))))))))"

definition parseAuditMessage :: "js_env \<Rightarrow> (string \<times> json) list \<Rightarrow> thrown + WorkerQueueMessage" where
  "parseAuditMessage E input =
     (let keys = [''type'', ''taskToken'', ''executionId'', ''request''] in
      bind_result (exactKeys input keys keys ''AUDIT_REQUESTED'') (\<lambda>_.
      bind_result (taskToken (map_of input ''taskToken'')) (\<lambda>token.
      bind_result (executionIdValue (map_of input ''executionId'')) (\<lambda>execution.
      bind_result (parseAuditRequest E (map_of input ''request'')) (\<lambda>request.
      Inr (AUDIT_REQUESTED \<lparr>aqm_taskToken = token, aqm_executionId = execution, aqm_request = request\<rparr>))))))"

definition later :: "js_env \<Rightarrow> string \<Rightarrow> string \<Rightarrow> bool" where
  "later E a b \<longleftrightarrow> (case (date_parse E a, date_parse E b) of (Some t, Some u) \<Rightarrow> u < t | _ \<Rightarrow> False)"

definition parseApprovalMessage :: "js_env \<Rightarrow> (string \<times> json) list \<Rightarrow> thrown + WorkerQueueMessage" where
  "parseApprovalMessage E input =
     (let keys = [''type'', ''taskToken'', ''executionId'', ''approvalId'', ''planDigest'', ''evidenceDigest'',
        ''approvalRequestDigest'', ''requestedAt'', ''expiresAt''] in
      bind_result (exactKeys input keys keys ''APPROVAL_REQUESTED'') (\<lambda>_.
      bind_result (instantValue E (map_of input ''requestedAt'') ''requestedAt'') (\<lambda>requestedAt.
      bind_result (instantValue E (map_of input ''expiresAt'') ''expiresAt'') (\<lambda>expiresAt.
      bind_result (throw_if (\<not> later E expiresAt requestedAt) (fail ''expiresAt must be later than requestedAt.'')) (\<lambda>_.
      bind_result (taskToken (map_of input ''taskToken'')) (\<lambda>token.
      bind_result (executionIdValue (map_of input ''executionId'')) (\<lambda>execution.
      bind_result (identifierValue (map_of input ''approvalId'') ''approvalId'') (\<lambda>approvalId.
      bind_result (sha256 (map_of input ''planDigest'') ''planDigest'') (\<lambda>planDigest.
      bind_result (sha256 (map_of input ''evidenceDigest'') ''evidenceDigest'') (\<lambda>evidenceDigest.
      bind_result (sha256 (map_of input ''approvalRequestDigest'') ''approvalRequestDigest'') (\<lambda>approvalRequestDigest.
      Inr (APPROVAL_REQUESTED \<lparr>pqm_taskToken = token, pqm_executionId = execution, pqm_approvalId = approvalId,
        pqm_planDigest = planDigest, pqm_evidenceDigest = evidenceDigest,
        pqm_approvalRequestDigest = approvalRequestDigest, pqm_requestedAt = requestedAt,
        pqm_expiresAt = expiresAt\<rparr>))))))))))))"

definition parseRemediationMessage ::
    "js_env \<Rightarrow> worker_host \<Rightarrow> (string \<times> json) list \<Rightarrow> thrown + WorkerQueueMessage" where
  "parseRemediationMessage E H input =
     (let keys = [''type'', ''taskToken'', ''executionId'', ''approvalId'', ''planDigest'', ''evidenceDigest'',
        ''approvalResult''] in
      bind_result (exactKeys input keys keys ''REMEDIATION_REQUESTED'') (\<lambda>_.
      bind_result (parseApprovalCallback E H (map_of input ''approvalResult'')) (\<lambda>approvalResult.
      bind_result (identifierValue (map_of input ''approvalId'') ''approvalId'') (\<lambda>approvalId.
      bind_result (throw_if (acb_approvalId approvalResult \<noteq> approvalId)
        (fail ''approvalResult is not bound to approvalId.'')) (\<lambda>_.
      bind_result (taskToken (map_of input ''taskToken'')) (\<lambda>token.
      bind_result (executionIdValue (map_of input ''executionId'')) (\<lambda>execution.
      bind_result (sha256 (map_of input ''planDigest'') ''planDigest'') (\<lambda>planDigest.
      bind_result (sha256 (map_of input ''evidenceDigest'') ''evidenceDigest'') (\<lambda>evidenceDigest.
      Inr (REMEDIATION_REQUESTED \<lparr>rqm_taskToken = token, rqm_executionId = execution, rqm_approvalId = approvalId,
        rqm_planDigest = planDigest, rqm_evidenceDigest = evidenceDigest,
        rqm_approvalResult = approvalResult\<rparr>))))))))))"

text \<open>The message type each queue accepts.\<close>

fun queue_type :: "AsyncMessageKind \<Rightarrow> string" where
  "queue_type Q_audit = ''AUDIT_REQUESTED''"
| "queue_type Q_approval = ''APPROVAL_REQUESTED''"
| "queue_type Q_remediation = ''REMEDIATION_REQUESTED''"

fun queue_name :: "AsyncMessageKind \<Rightarrow> string" where
  "queue_name Q_audit = ''audit''" | "queue_name Q_approval = ''approval''" | "queue_name Q_remediation = ''remediation''"

fun parse_fields ::
    "js_env \<Rightarrow> worker_host \<Rightarrow> AsyncMessageKind \<Rightarrow> (string \<times> json) list \<Rightarrow> thrown + WorkerQueueMessage" where
  "parse_fields E H Q_audit input = parseAuditMessage E input"
| "parse_fields E H Q_approval input = parseApprovalMessage E input"
| "parse_fields E H Q_remediation input = parseRemediationMessage E H input"

definition parseQueueMessage ::
    "js_env \<Rightarrow> worker_host \<Rightarrow> AsyncMessageKind \<Rightarrow> string \<Rightarrow> thrown + WorkerQueueMessage" where
  "parseQueueMessage E H queue body =
     (if utf8_length body > MAX_SQS_BODY_BYTES
      then Inl (WorkerContractError BODY_TOO_LARGE ''SQS message body exceeds the worker limit.'')
      else bind_result (require (WorkerContractError INVALID_JSON ''SQS message body is not valid JSON.'') (jsonParse H body))
        (\<lambda>parsed.
      bind_result (message_record (Some parsed) ''message'') (\<lambda>input.
      if map_of input ''type'' \<noteq> Some (JStr (queue_type queue))
      then Inl (fail (''The '' @ queue_name queue @ '' queue accepts only '' @ queue_type queue @ ''.''))
      else parse_fields E H queue input)))"

subsection \<open>What a field must be\<close>

lemma message_record_Inr [simp]: "message_record v l = Inr kvs \<longleftrightarrow> v = Some (JObj kvs)"
  by (cases v; cases "the v") (auto simp: message_record_def)

lemma stringValue_Inr [simp]: "stringValue v l a b = Inr s \<longleftrightarrow> v = Some (JStr s) \<and> text_ok a b s"
  by (cases v; cases "the v") (auto simp: stringValue_def)

lemma matching_Inr [simp]: "matching pat m r = Inr s \<longleftrightarrow> r = Inr s \<and> pat s"
  by (cases r) (auto simp: matching_def)

lemma plain_text:
  assumes "\<forall>c \<in> set s. is_upper c \<or> is_lower c \<or> is_digit c \<or> c \<in> set ''._:-''" 
  shows "\<not> list_ex is_control s"
proof -
  have "\<not> is_control c" if "is_upper c \<or> is_lower c \<or> is_digit c \<or> c \<in> set ''._:-''" for c
    using that by (auto simp: is_control_def is_upper_def is_lower_def is_digit_def less_eq_char_def)
  then show ?thesis using assms by (auto simp: list_ex_iff)
qed

lemma identifier_text: "is_identifier s \<Longrightarrow> text_ok 8 160 s"
  using plain_text [of s] by (auto simp: is_identifier_def text_ok_def list_all_iff)

lemma plain_prefix: "\<not> list_ex is_control ''sha256:''"
  by (simp add: is_control_def)

lemma hex_not_control: "is_hex c \<Longrightarrow> \<not> is_control c"
  by (auto simp: is_hex_def is_digit_def is_control_def less_eq_char_def)

lemma digest_text: "is_sha256 s \<Longrightarrow> text_ok 71 71 s"
proof -
  assume a: "is_sha256 s"
  have "take 7 s = ''sha256:''" using a by (simp add: is_sha256_def startsWith_def eval_nat_numeral)
  then have "s = ''sha256:'' @ drop 7 s" using append_take_drop_id [of 7 s] by metis
  moreover have "\<not> list_ex is_control (drop 7 s)"
    using a hex_not_control by (auto simp: is_sha256_def list_all_iff list_ex_iff)
  ultimately have "\<not> list_ex is_control s"
    by (metis (no_types, lifting) list_ex_append plain_prefix)
  then show ?thesis using a by (simp add: text_ok_def is_sha256_def)
qed

definition instant_ok :: "js_env \<Rightarrow> string \<Rightarrow> bool" where
  "instant_ok E s \<longleftrightarrow> text_ok 20 40 s \<and> date_parse E s \<noteq> None"

definition arn_ok :: "string \<Rightarrow> bool" where
  "arn_ok s \<longleftrightarrow> text_ok 32 2048 s \<and> is_execution_arn s"

lemma field_Inr [simp]:
  "instantValue E v l = Inr s \<longleftrightarrow> v = Some (JStr s) \<and> instant_ok E s"
  "identifierValue v l = Inr s \<longleftrightarrow> v = Some (JStr s) \<and> is_identifier s"
  "sha256 v l = Inr s \<longleftrightarrow> v = Some (JStr s) \<and> is_sha256 s"
  "taskToken v = Inr s \<longleftrightarrow> v = Some (JStr s) \<and> text_ok 16 1024 s"
  "executionIdValue v = Inr s \<longleftrightarrow> v = Some (JStr s) \<and> arn_ok s"
  using identifier_text [of s] digest_text [of s]
  by (auto simp: instantValue_def identifierValue_def sha256_def taskToken_def executionIdValue_def instant_ok_def arn_ok_def)

lemma exactKeys_Inr [simp]:
  "exactKeys kvs allowed required l = Inr u \<longleftrightarrow> fst ` set kvs \<subseteq> set allowed \<and> set required \<subseteq> fst ` set kvs"
  by (auto simp: exactKeys_def list_ex_iff)

subsection \<open>Accepted messages\<close>

fun mode_name :: "AuditMode \<Rightarrow> string" where
  "mode_name READ_ONLY = ''READ_ONLY''"
| "mode_name GOVERNED = ''GOVERNED''"

lemma mode_of_name [simp]: "mode_of (Some (JStr (mode_name m))) = Inr (Some m)" "mode_of None = Inr None"
  by (cases m; simp add: mode_of_def)+

lemma mode_of_Inr: "mode_of v = Inr m \<longleftrightarrow> v = map_option (\<lambda>m. JStr (mode_name m)) m"
  by (cases m; cases "the m"; cases v) (auto simp: mode_of_def)

definition request_fields :: "AuditRequestV1 \<Rightarrow> (string \<times> json) list" where
  "request_fields r = [(''schemaVersion'', JStr ''archon.audit-request/v1''), (''requestId'', JStr (arq_requestId r)),
     (''requestedAt'', JStr (arq_requestedAt r))]
     @ opt_field ''query'' JStr (arq_query r) @ opt_field ''mode'' (\<lambda>m. JStr (mode_name m)) (arq_mode r)"

definition valid_request :: "js_env \<Rightarrow> AuditRequestV1 \<Rightarrow> bool" where
  "valid_request E r \<longleftrightarrow> is_identifier (arq_requestId r) \<and> instant_ok E (arq_requestedAt r)
     \<and> (\<forall>q. arq_query r = Some q \<longrightarrow> text_ok 1 512 q)"

lemma distinct_request_fields: "distinct (map fst (request_fields r))"
  by (cases "arq_query r"; cases "arq_mode r") (simp_all add: request_fields_def opt_field_def)

lemma parseAuditRequest_Inr:
  assumes "distinct (map fst kvs)"
  shows "parseAuditRequest E (Some (JObj kvs)) = Inr r \<longleftrightarrow> valid_request E r \<and> mset kvs = mset (request_fields r)"
proof
  assume "parseAuditRequest E (Some (JObj kvs)) = Inr r"
  then obtain q where q: "(case map_of kvs ''query'' of None \<Rightarrow> Inr None
       | Some q \<Rightarrow> map_result Some (stringValue (Some q) ''request.query'' 1 512)) = Inr q"
    and keys: "fst ` set kvs \<subseteq> {''schemaVersion'', ''requestId'', ''requestedAt'', ''query'', ''mode''}"
    and get: "map_of kvs ''schemaVersion'' = Some (JStr ''archon.audit-request/v1'')"
      "map_of kvs ''requestId'' = Some (JStr (arq_requestId r))" "is_identifier (arq_requestId r)"
      "map_of kvs ''requestedAt'' = Some (JStr (arq_requestedAt r))" "instant_ok E (arq_requestedAt r)"
      "arq_query r = q" "map_of kvs ''mode'' = map_option (\<lambda>m. JStr (mode_name m)) (arq_mode r)"
    by (auto simp: parseAuditRequest_def mode_of_Inr)
  have q': "map_of kvs ''query'' = map_option JStr q" "\<forall>t. q = Some t \<longrightarrow> text_ok 1 512 t"
    using q by (cases "map_of kvs ''query''"; auto)+
  have "mset kvs = mset (request_fields r)"
    by (rule same_lookups [OF assms distinct_request_fields keys])
      (cases "arq_query r"; cases "arq_mode r"; simp add: get q' request_fields_def opt_field_def)+
  then show "valid_request E r \<and> mset kvs = mset (request_fields r)"
    using get q' by (simp add: valid_request_def)
next
  assume r: "valid_request E r \<and> mset kvs = mset (request_fields r)"
  note m = mset_fields [OF conjunct2 [OF r] distinct_request_fields]
  show "parseAuditRequest E (Some (JObj kvs)) = Inr r"
    using r unfolding parseAuditRequest_def
    by (cases "arq_query r"; cases "arq_mode r")
      (simp_all add: m request_fields_def opt_field_def valid_request_def)
qed

definition issuer_ok :: "worker_host \<Rightarrow> string \<Rightarrow> string \<Rightarrow> bool" where
  "issuer_ok H raw issuer \<longleftrightarrow> text_ok 8 2048 raw \<and> (\<exists>u. urlParse H raw = Some u \<and> url_protocol u = ''https:''
     \<and> url_username u = [] \<and> url_password u = [] \<and> url_hash u = [] \<and> issuer = without_slash (url_text u))"

lemma issuer_of_Inr: "issuer_of H v = Inr s \<longleftrightarrow> (\<exists>raw. v = Some (JStr raw) \<and> issuer_ok H raw s)"
  by (auto simp: issuer_of_def issuer_ok_def)

lemma decision_of_Some: "decision_of v = Some d \<longleftrightarrow> v = Some (JStr (decision_name d))"
  by (cases d) (auto simp: decision_of_def)

definition approver_fields :: "string \<Rightarrow> AuthenticatedApprover \<Rightarrow> (string \<times> json) list" where
  "approver_fields issuer a = [(''subject'', JStr (au_subject a)), (''issuer'', JStr issuer),
     (''roles'', JArr [JStr ''DataSteward'']), (''authenticated'', JBool True)]"

text \<open>The fields of a callback with the issuer as it was sent; each object's fields may come in any order.\<close>

definition callback_wire :: "worker_host \<Rightarrow> ApprovalCallbackV1 \<Rightarrow> (string \<times> json) list \<Rightarrow> bool" where
  "callback_wire H c kvs \<longleftrightarrow> (\<exists>dec app issuer.
     mset kvs = mset [(''approvalId'', JStr (acb_approvalId c)), (''decision'', JObj dec)]
     \<and> mset dec = mset [(''decision'', JStr (decision_name (acb_decision c))), (''approver'', JObj app),
          (''decidedAt'', JStr (acb_decidedAt c))]
     \<and> mset app = mset (approver_fields issuer (acb_approver c)) \<and> issuer_ok H issuer (au_issuer (acb_approver c)))"

definition valid_callback :: "js_env \<Rightarrow> ApprovalCallbackV1 \<Rightarrow> bool" where
  "valid_callback E c \<longleftrightarrow> is_identifier (acb_approvalId c) \<and> text_ok 1 256 (au_subject (acb_approver c))
     \<and> au_roles (acb_approver c) = [''DataSteward''] \<and> au_authenticated (acb_approver c) \<and> instant_ok E (acb_decidedAt c)"

lemma parseApprovalCallback_Inr:
  assumes "distinct_keys (JObj kvs)"
  shows "parseApprovalCallback E H (Some (JObj kvs)) = Inr c \<longleftrightarrow> valid_callback E c \<and> callback_wire H c kvs"
proof
  assume "parseApprovalCallback E H (Some (JObj kvs)) = Inr c"
  then obtain dec app issuer where
    keys: "fst ` set kvs \<subseteq> {''approvalId'', ''decision''}" "fst ` set dec \<subseteq> {''decision'', ''approver'', ''decidedAt''}"
      "fst ` set app \<subseteq> {''subject'', ''issuer'', ''roles'', ''authenticated''}"
    and kvs: "map_of kvs ''approvalId'' = Some (JStr (acb_approvalId c))" "map_of kvs ''decision'' = Some (JObj dec)"
    and dec: "map_of dec ''decision'' = Some (JStr (decision_name (acb_decision c)))" "map_of dec ''approver'' = Some (JObj app)"
      "map_of dec ''decidedAt'' = Some (JStr (acb_decidedAt c))"
    and app: "map_of app ''subject'' = Some (JStr (au_subject (acb_approver c)))" "map_of app ''issuer'' = Some (JStr issuer)"
      "map_of app ''roles'' = Some (JArr [JStr ''DataSteward''])" "map_of app ''authenticated'' = Some (JBool True)"
    and ok: "issuer_ok H issuer (au_issuer (acb_approver c))" "valid_callback E c"
    by (auto simp: parseApprovalCallback_def decision_of_Some issuer_of_Inr valid_callback_def)
  have d: "distinct_keys (JObj dec)" "distinct_keys (JObj app)"
    using distinct_keys_field [OF assms kvs(2)] distinct_keys_field dec(2) by blast+
  have "mset kvs = mset [(''approvalId'', JStr (acb_approvalId c)), (''decision'', JObj dec)]"
    by (rule same_lookups [OF distinct_keys_keys [OF assms] _ keys(1)]) (simp_all add: kvs)
  moreover have "mset dec = mset [(''decision'', JStr (decision_name (acb_decision c))), (''approver'', JObj app),
      (''decidedAt'', JStr (acb_decidedAt c))]"
    by (rule same_lookups [OF distinct_keys_keys [OF d(1)] _ keys(2)]) (simp_all add: dec)
  moreover have "mset app = mset (approver_fields issuer (acb_approver c))"
    by (rule same_lookups [OF distinct_keys_keys [OF d(2)] _ keys(3)]) (simp_all add: app approver_fields_def)
  ultimately show "valid_callback E c \<and> callback_wire H c kvs" using ok unfolding callback_wire_def by blast
next
  assume a: "valid_callback E c \<and> callback_wire H c kvs"
  then obtain dec app issuer where
    kvs: "mset kvs = mset [(''approvalId'', JStr (acb_approvalId c)), (''decision'', JObj dec)]"
    and dec: "mset dec = mset [(''decision'', JStr (decision_name (acb_decision c))), (''approver'', JObj app),
      (''decidedAt'', JStr (acb_decidedAt c))]"
    and app: "mset app = mset (approver_fields issuer (acb_approver c))"
    and ok: "issuer_ok H issuer (au_issuer (acb_approver c))" "valid_callback E c"
    unfolding callback_wire_def by blast
  have iss: "issuer_of H (Some (JStr issuer)) = Inr (au_issuer (acb_approver c))" using ok(1) issuer_of_Inr by blast
  have de: "decision_of (Some (JStr (decision_name (acb_decision c)))) = Some (acb_decision c)"
    using decision_of_Some by blast
  have "\<lparr>au_subject = au_subject (acb_approver c), au_issuer = au_issuer (acb_approver c), au_roles = [''DataSteward''],
      au_authenticated = True\<rparr> = acb_approver c"
    using ok(2) by (simp add: valid_callback_def)
  with ok(2) show "parseApprovalCallback E H (Some (JObj kvs)) = Inr c"
    unfolding parseApprovalCallback_def
    by (simp add: mset_fields [OF kvs] mset_fields [OF dec] mset_fields [OF app] approver_fields_def iss de valid_callback_def)
qed

fun message_queue :: "WorkerQueueMessage \<Rightarrow> AsyncMessageKind" where
  "message_queue (AUDIT_REQUESTED m) = Q_audit"
| "message_queue (APPROVAL_REQUESTED m) = Q_approval"
| "message_queue (REMEDIATION_REQUESTED m) = Q_remediation"

fun valid_message :: "js_env \<Rightarrow> WorkerQueueMessage \<Rightarrow> bool" where
  "valid_message E (AUDIT_REQUESTED m) \<longleftrightarrow> text_ok 16 1024 (aqm_taskToken m) \<and> arn_ok (aqm_executionId m)
     \<and> valid_request E (aqm_request m)"
| "valid_message E (APPROVAL_REQUESTED m) \<longleftrightarrow> text_ok 16 1024 (pqm_taskToken m) \<and> arn_ok (pqm_executionId m)
     \<and> is_identifier (pqm_approvalId m) \<and> is_sha256 (pqm_planDigest m) \<and> is_sha256 (pqm_evidenceDigest m)
     \<and> is_sha256 (pqm_approvalRequestDigest m) \<and> instant_ok E (pqm_requestedAt m) \<and> instant_ok E (pqm_expiresAt m)
     \<and> later E (pqm_expiresAt m) (pqm_requestedAt m)"
| "valid_message E (REMEDIATION_REQUESTED m) \<longleftrightarrow> text_ok 16 1024 (rqm_taskToken m) \<and> arn_ok (rqm_executionId m)
     \<and> is_identifier (rqm_approvalId m) \<and> is_sha256 (rqm_planDigest m) \<and> is_sha256 (rqm_evidenceDigest m)
     \<and> valid_callback E (rqm_approvalResult m) \<and> acb_approvalId (rqm_approvalResult m) = rqm_approvalId m"

text \<open>The fields of a message, with the value of its one nested object, if it has one.\<close>

fun message_fields :: "WorkerQueueMessage \<Rightarrow> json \<Rightarrow> (string \<times> json) list" where
  "message_fields (AUDIT_REQUESTED m) v = [(''type'', JStr ''AUDIT_REQUESTED''), (''taskToken'', JStr (aqm_taskToken m)),
     (''executionId'', JStr (aqm_executionId m)), (''request'', v)]"
| "message_fields (APPROVAL_REQUESTED m) v = [(''type'', JStr ''APPROVAL_REQUESTED''), (''taskToken'', JStr (pqm_taskToken m)),
     (''executionId'', JStr (pqm_executionId m)), (''approvalId'', JStr (pqm_approvalId m)),
     (''planDigest'', JStr (pqm_planDigest m)), (''evidenceDigest'', JStr (pqm_evidenceDigest m)),
     (''approvalRequestDigest'', JStr (pqm_approvalRequestDigest m)), (''requestedAt'', JStr (pqm_requestedAt m)),
     (''expiresAt'', JStr (pqm_expiresAt m))]"
| "message_fields (REMEDIATION_REQUESTED m) v = [(''type'', JStr ''REMEDIATION_REQUESTED''), (''taskToken'', JStr (rqm_taskToken m)),
     (''executionId'', JStr (rqm_executionId m)), (''approvalId'', JStr (rqm_approvalId m)),
     (''planDigest'', JStr (rqm_planDigest m)), (''evidenceDigest'', JStr (rqm_evidenceDigest m)),
     (''approvalResult'', v)]"

fun nested_wire :: "worker_host \<Rightarrow> WorkerQueueMessage \<Rightarrow> (string \<times> json) list \<Rightarrow> bool" where
  "nested_wire H (AUDIT_REQUESTED m) kvs \<longleftrightarrow> mset kvs = mset (request_fields (aqm_request m))"
| "nested_wire H (APPROVAL_REQUESTED m) kvs \<longleftrightarrow> True"
| "nested_wire H (REMEDIATION_REQUESTED m) kvs \<longleftrightarrow> callback_wire H (rqm_approvalResult m) kvs"

definition message_wire :: "worker_host \<Rightarrow> WorkerQueueMessage \<Rightarrow> (string \<times> json) list \<Rightarrow> bool" where
  "message_wire H m kvs \<longleftrightarrow> (\<exists>sub. mset kvs = mset (message_fields m (JObj sub)) \<and> nested_wire H m sub)"

lemma distinct_message_fields: "distinct (map fst (message_fields m v))"
  by (cases m) simp_all

lemma parseAuditRequest_object: "parseAuditRequest E v = Inr r \<Longrightarrow> \<exists>sub. v = Some (JObj sub)"
  by (auto simp: parseAuditRequest_def)

lemma parseApprovalCallback_object: "parseApprovalCallback E H v = Inr c \<Longrightarrow> \<exists>sub. v = Some (JObj sub)"
  by (auto simp: parseApprovalCallback_def)

lemma parse_fields_Inr:
  assumes "distinct_keys (JObj kvs)" "map_of kvs ''type'' = Some (JStr (queue_type q))"
  shows "parse_fields E H q kvs = Inr m \<longleftrightarrow> message_queue m = q \<and> valid_message E m \<and> message_wire H m kvs"
proof
  note fields = same_lookups [OF distinct_keys_keys [OF assms(1)] distinct_message_fields]
  assume p: "parse_fields E H q kvs = Inr m"
  show "message_queue m = q \<and> valid_message E m \<and> message_wire H m kvs"
  proof (cases q)
    case Q_audit
    then obtain a where a: "m = AUDIT_REQUESTED a" "fst ` set kvs \<subseteq> {''type'', ''taskToken'', ''executionId'', ''request''}"
      "map_of kvs ''taskToken'' = Some (JStr (aqm_taskToken a))" "text_ok 16 1024 (aqm_taskToken a)"
      "map_of kvs ''executionId'' = Some (JStr (aqm_executionId a))" "arn_ok (aqm_executionId a)"
      "parseAuditRequest E (map_of kvs ''request'') = Inr (aqm_request a)"
      using p by (auto simp: parseAuditMessage_def Let_def)
    then obtain sub where sub: "map_of kvs ''request'' = Some (JObj sub)" using parseAuditRequest_object by blast
    have r: "valid_request E (aqm_request a)" "mset sub = mset (request_fields (aqm_request a))"
      using parseAuditRequest_Inr [OF distinct_keys_keys [OF distinct_keys_field [OF assms(1) sub]]] a(7) sub by auto
    have "mset kvs = mset (message_fields m (JObj sub))"
      by (rule fields [OF a(2)]) (use assms(2) a(1,3,5) sub Q_audit in simp_all)
    with r a(1,4,6) Q_audit show ?thesis by (auto simp: message_wire_def)
  next
    case Q_approval
    then obtain a where a: "m = APPROVAL_REQUESTED a" "fst ` set kvs \<subseteq> {''type'', ''taskToken'', ''executionId'', ''approvalId'',
        ''planDigest'', ''evidenceDigest'', ''approvalRequestDigest'', ''requestedAt'', ''expiresAt''}"
      "map_of kvs ''taskToken'' = Some (JStr (pqm_taskToken a))" "map_of kvs ''executionId'' = Some (JStr (pqm_executionId a))"
      "map_of kvs ''approvalId'' = Some (JStr (pqm_approvalId a))" "map_of kvs ''planDigest'' = Some (JStr (pqm_planDigest a))"
      "map_of kvs ''evidenceDigest'' = Some (JStr (pqm_evidenceDigest a))"
      "map_of kvs ''approvalRequestDigest'' = Some (JStr (pqm_approvalRequestDigest a))"
      "map_of kvs ''requestedAt'' = Some (JStr (pqm_requestedAt a))" "map_of kvs ''expiresAt'' = Some (JStr (pqm_expiresAt a))"
      "valid_message E m"
      using p by (auto simp: parseApprovalMessage_def Let_def)
    have "mset kvs = mset (message_fields m (JObj []))"
      by (rule fields [OF a(2)]) (use assms(2) a(1,3-10) Q_approval in simp_all)
    with a(1,11) Q_approval show ?thesis by (auto simp: message_wire_def)
  next
    case Q_remediation
    then obtain a where a: "m = REMEDIATION_REQUESTED a" "fst ` set kvs \<subseteq> {''type'', ''taskToken'', ''executionId'', ''approvalId'',
        ''planDigest'', ''evidenceDigest'', ''approvalResult''}"
      "map_of kvs ''taskToken'' = Some (JStr (rqm_taskToken a))" "map_of kvs ''executionId'' = Some (JStr (rqm_executionId a))"
      "map_of kvs ''approvalId'' = Some (JStr (rqm_approvalId a))" "map_of kvs ''planDigest'' = Some (JStr (rqm_planDigest a))"
      "map_of kvs ''evidenceDigest'' = Some (JStr (rqm_evidenceDigest a))"
      "parseApprovalCallback E H (map_of kvs ''approvalResult'') = Inr (rqm_approvalResult a)"
      "text_ok 16 1024 (rqm_taskToken a)" "arn_ok (rqm_executionId a)"
      "is_identifier (rqm_approvalId a)" "is_sha256 (rqm_planDigest a)" "is_sha256 (rqm_evidenceDigest a)"
      "acb_approvalId (rqm_approvalResult a) = rqm_approvalId a"
      using p by (auto simp: parseRemediationMessage_def Let_def)
    then obtain sub where sub: "map_of kvs ''approvalResult'' = Some (JObj sub)" using parseApprovalCallback_object by blast
    have r: "valid_callback E (rqm_approvalResult a)" "callback_wire H (rqm_approvalResult a) sub"
      using parseApprovalCallback_Inr [OF distinct_keys_field [OF assms(1) sub]] a(8) sub by auto
    have "mset kvs = mset (message_fields m (JObj sub))"
      by (rule fields [OF a(2)]) (use assms(2) a(1,3-7) sub Q_remediation in simp_all)
    with r a(1,9-14) Q_remediation show ?thesis by (auto simp: message_wire_def)
  qed
next
  assume a: "message_queue m = q \<and> valid_message E m \<and> message_wire H m kvs"
  then obtain sub where sub: "mset kvs = mset (message_fields m (JObj sub))" "nested_wire H m sub" by (auto simp: message_wire_def)
  note m = mset_fields [OF sub(1) distinct_message_fields]
  show "parse_fields E H q kvs = Inr m"
  proof (cases m)
    case (AUDIT_REQUESTED x)
    then have "map_of kvs ''request'' = Some (JObj sub)" by (simp add: m)
    from parseAuditRequest_Inr [OF distinct_keys_keys [OF distinct_keys_field [OF assms(1) this]]]
    have "parseAuditRequest E (Some (JObj sub)) = Inr (aqm_request x)" using a sub(2) AUDIT_REQUESTED by simp
    then show ?thesis using a AUDIT_REQUESTED by (auto simp: parseAuditMessage_def Let_def m)
  next
    case (APPROVAL_REQUESTED x)
    then show ?thesis using a by (auto simp: parseApprovalMessage_def Let_def m)
  next
    case (REMEDIATION_REQUESTED x)
    then have "map_of kvs ''approvalResult'' = Some (JObj sub)" by (simp add: m)
    from parseApprovalCallback_Inr [OF distinct_keys_field [OF assms(1) this]]
    have "parseApprovalCallback E H (Some (JObj sub)) = Inr (rqm_approvalResult x)" using a sub(2) REMEDIATION_REQUESTED by simp
    then show ?thesis using a REMEDIATION_REQUESTED by (auto simp: parseRemediationMessage_def Let_def m)
  qed
qed

lemma message_wire_type:
  assumes "message_wire H m kvs"
  shows "map_of kvs ''type'' = Some (JStr (queue_type (message_queue m)))"
proof -
  obtain sub where "mset kvs = mset (message_fields m (JObj sub))" using assms by (auto simp: message_wire_def)
  note this [THEN mset_fields(1), OF distinct_message_fields]
  then show ?thesis by (cases m) simp_all
qed

lemma parse_object:
  assumes "jsonParse H body = Some (JObj kvs)" "distinct_keys (JObj kvs)"
  shows "parseQueueMessage E H q body = Inr m \<longleftrightarrow>
    utf8_length body \<le> MAX_SQS_BODY_BYTES \<and> message_queue m = q \<and> valid_message E m \<and> message_wire H m kvs"
  using assms(1) message_wire_type [of H m kvs] parse_fields_Inr [OF assms(2), of q E H m]
  by (auto simp: parseQueueMessage_def)

text \<open>
  C31: the queues accept exactly their messages. A body is accepted if and only if it is within the size limit and
  parses to an object with the fields of one well-formed message of the queue's type and no others, in
  any order at every level; the message returned carries these very values, except that the issuer is the
  normal form of an HTTPS URL without credentials and fragment.
\<close>

theorem queue_message_accepted_iff:
  assumes "\<And>s v. jsonParse H s = Some v \<Longrightarrow> distinct_keys v"
  shows "parseQueueMessage E H q body = Inr m \<longleftrightarrow>
    utf8_length body \<le> MAX_SQS_BODY_BYTES \<and> message_queue m = q \<and> valid_message E m
    \<and> (\<exists>kvs. jsonParse H body = Some (JObj kvs) \<and> message_wire H m kvs)"
proof (cases "\<exists>kvs. jsonParse H body = Some (JObj kvs)")
  case True
  then show ?thesis using parse_object [OF _ assms] by auto
next
  case False
  then show ?thesis by (auto simp: parseQueueMessage_def)
qed

definition demo_audit_request :: AuditRequestV1 where
  "demo_audit_request = \<lparr>arq_requestId = ''request-1'', arq_requestedAt = ''2026-01-01T00:00:00.000Z'', arq_query = None,
     arq_mode = Some GOVERNED\<rparr>"

definition demo_audit_message :: AuditQueueMessageV1 where
  "demo_audit_message = \<lparr>aqm_taskToken = ''0123456789abcdef'',
     aqm_executionId = ''arn:aws:states:eu-west-1:123456789012:execution:archon:run-1'', aqm_request = demo_audit_request\<rparr>"

definition demo_host :: worker_host where
  "demo_host = \<lparr>jsonParse = (\<lambda>s. if s = ''body'' then
       Some (JObj (message_fields (AUDIT_REQUESTED demo_audit_message) (JObj (rev (request_fields demo_audit_request))))) else None),
     urlParse = (\<lambda>_. None)\<rparr>"

lemma demo_audit_message_valid: "valid_message demo_env (AUDIT_REQUESTED demo_audit_message)"
proof -
  have "instant_ok demo_env ''2026-01-01T00:00:00.000Z''"
  proof -
    have "date_parse demo_env ''2026-01-01T00:00:00.000Z'' = Some 1767225600000" unfolding date_parse_def by code_simp
    moreover have "text_ok 20 40 ''2026-01-01T00:00:00.000Z''" by code_simp
    ultimately show ?thesis by (simp add: instant_ok_def)
  qed
  moreover have "arn_ok (aqm_executionId demo_audit_message)"
    by (simp add: demo_audit_message_def) code_simp
  moreover have "text_ok 16 1024 (aqm_taskToken demo_audit_message)" "is_identifier ''request-1''"
    by (simp_all add: demo_audit_message_def) code_simp+
  ultimately show ?thesis by (simp add: demo_audit_message_def demo_audit_request_def valid_request_def)
qed

abbreviation demo_body :: "(string \<times> json) list" where
  "demo_body \<equiv> message_fields (AUDIT_REQUESTED demo_audit_message) (JObj (rev (request_fields demo_audit_request)))"

lemma demo_body_parsed:
  "jsonParse demo_host s = Some v \<longleftrightarrow> s = ''body'' \<and> v = JObj demo_body"
  "distinct_keys (JObj demo_body)" "message_wire demo_host (AUDIT_REQUESTED demo_audit_message) demo_body"
proof -
  show "jsonParse demo_host s = Some v \<longleftrightarrow> s = ''body'' \<and> v = JObj demo_body" by (auto simp: demo_host_def)
  show "distinct_keys (JObj demo_body)" by (simp add: request_fields_def demo_audit_request_def opt_field_def)
  show "message_wire demo_host (AUDIT_REQUESTED demo_audit_message) demo_body"
    unfolding message_wire_def by (intro exI [of _ "rev (request_fields demo_audit_request)"]) (simp add: demo_audit_message_def)
qed

lemma demo_audit_message_parsed: "parseQueueMessage demo_env demo_host Q_audit ''body'' = Inr (AUDIT_REQUESTED demo_audit_message)"
  using parse_object [of demo_host "''body''" demo_body] demo_body_parsed demo_audit_message_valid
  by (auto simp: utf8_length_def MAX_SQS_BODY_BYTES_def)

theorem queue_message_accepted_iff_witness:
  "parseQueueMessage demo_env demo_host Q_audit ''body'' = Inr (AUDIT_REQUESTED demo_audit_message)
   \<and> (\<exists>kvs. jsonParse demo_host ''body'' = Some (JObj kvs) \<and> message_wire demo_host (AUDIT_REQUESTED demo_audit_message) kvs)"
  using queue_message_accepted_iff [of demo_host demo_env Q_audit "''body''" "AUDIT_REQUESTED demo_audit_message"]
    demo_body_parsed demo_audit_message_parsed by auto

end
