(* ===== verification/QueueWorker.thy ===== *)
theory QueueWorker
  imports WorkerMessages
begin

section \<open>The queue worker: \<open>AwsQueueWorker\<close> of \<open>src/worker/aws-adapters.ts\<close>\<close>

text \<open>
  Processing one delivery is a program whose requests are the calls to Step Functions, to the two queues and to
  the service that does the work. What these answer is arbitrary: the properties hold for every
  behaviour of the network and of the service. Log lines are left out.

  The lease of a callback task is renewed when the code asserts it and once a minute in the background. A
  failed renewal makes the lease lost for good. An assertion joins a renewal that is in flight (\<open>#renewal ??=\<close>), so
  the answer of the service call carries what the background left in the lease: nothing, an error, or a renewal
  that waits for the answer to its heartbeat or to its visibility change.
\<close>

text \<open>\<open>InFlight c\<close> waits for the answer to a call \<open>c\<close> that was sent before.\<close>

datatype worker_call = Heartbeat string | ChangeVisibility string int | Operate WorkerQueueMessage
  | TaskSuccess string string | TaskFailure string string | Quarantine string | DeleteMessage string
  | SignalAborted | ReceiveMessages | InFlight worker_call

text \<open>\<open>#lost\<close> and \<open>#renewal\<close> of a \<open>CallbackLease\<close>.\<close>

datatype lease_phase = LeaseIdle | LeaseBeating | LeaseExtending | LeaseLost bool

record Delivery =
  dlv_messageId :: "string option"
  dlv_body :: "string option"
  dlv_receiptHandle :: "string option"
  dlv_approximateReceiveCount :: "string option"

datatype worker_answer = Succeeded | Threw thrown | Operated "thrown + json" lease_phase | Aborted bool
  | Received "Delivery list"

type_synonym 'a worker = "(worker_call, worker_answer, thrown + 'a) io"

record worker_options =
  wo_env :: js_env
  wo_host :: worker_host
  wo_kind :: AsyncMessageKind
  wo_maxReceiveCount :: int
  wo_now :: string

definition io_then :: "'a worker \<Rightarrow> ('a \<Rightarrow> 'b worker) \<Rightarrow> 'b worker" where
  "io_then p f = io_bind p (\<lambda>x. case x of Inl e \<Rightarrow> Return (Inl e) | Inr a \<Rightarrow> f a)"

definition catching :: "'a worker \<Rightarrow> (thrown \<Rightarrow> 'a worker) \<Rightarrow> 'a worker" where
  "catching p h = io_bind p (\<lambda>x. case x of Inl e \<Rightarrow> h e | Inr a \<Rightarrow> Return (Inr a))"

text \<open>A call that returns nothing.\<close>

definition perform :: "worker_call \<Rightarrow> unit worker" where
  "perform c = Ask c (\<lambda>r. case r of Threw e \<Rightarrow> Return (Inl e) | _ \<Rightarrow> Return (Inr ()))"

subsection \<open>\<open>StepFunctionsCallbacks\<close> and \<open>CallbackLease\<close>\<close>

definition success :: "string \<Rightarrow> json \<Rightarrow> unit worker" where
  "success token out = perform (TaskSuccess token (canonical_text out))"

definition failure :: "string \<Rightarrow> string \<Rightarrow> unit worker" where
  "failure token code = perform (TaskFailure token (canonical_text (JObj [(''code'', JStr (take 128 code))])))"

definition heartbeat :: "worker_call \<Rightarrow> unit worker" where
  "heartbeat c = catching (perform c) (\<lambda>e. Return (Inl (WorkerLeaseError (isTerminalTaskError e))))"

definition extend_visibility :: "worker_call \<Rightarrow> unit worker" where
  "extend_visibility c = catching (perform c) (\<lambda>e. Return (Inl (WorkerLeaseError False)))"

definition renew :: "string \<Rightarrow> string \<Rightarrow> unit worker" where
  "renew token handle =
     io_then (heartbeat (Heartbeat token)) (\<lambda>_. extend_visibility (ChangeVisibility handle CALLBACK_VISIBILITY_SECONDS))"

text \<open>
  \<open>assertActive\<close>, given what the lease holds when it is called: a lost lease throws its error, a renewal
  in flight is joined, and otherwise a new one is begun.
\<close>

definition assertActive :: "string \<Rightarrow> string \<Rightarrow> lease_phase \<Rightarrow> unit worker" where
  "assertActive token handle phase =
     (case phase of
        LeaseLost terminal \<Rightarrow> Return (Inl (WorkerLeaseError terminal))
      | LeaseIdle \<Rightarrow> renew token handle
      | LeaseBeating \<Rightarrow> io_then (heartbeat (InFlight (Heartbeat token)))
          (\<lambda>_. extend_visibility (ChangeVisibility handle CALLBACK_VISIBILITY_SECONDS))
      | LeaseExtending \<Rightarrow> extend_visibility (InFlight (ChangeVisibility handle CALLBACK_VISIBILITY_SECONDS)))"

definition operate :: "WorkerQueueMessage \<Rightarrow> ((thrown + json) \<times> lease_phase) worker" where
  "operate m = Ask (Operate m) (\<lambda>r. case r of
     Operated x phase \<Rightarrow> Return (Inr (x, phase)) | Threw e \<Rightarrow> Return (Inr (Inl e, LeaseIdle))
   | _ \<Rightarrow> Return (Inr (Inl RetryableExecutionJournalError, LeaseIdle)))"

definition withLease :: "string \<Rightarrow> string \<Rightarrow> WorkerQueueMessage \<Rightarrow> json worker" where
  "withLease token handle m =
     io_then (assertActive token handle LeaseIdle) (\<lambda>_.
     io_then (operate m) (\<lambda>(x, phase).
     case x of Inl e \<Rightarrow> Return (Inl e)
     | Inr out \<Rightarrow> io_then (assertActive token handle phase) (\<lambda>_. Return (Inr out))))"

subsection \<open>\<open>AwsQueueWorker\<close>\<close>

text \<open>A call whose failure is only logged.\<close>

definition attempt :: "worker_call \<Rightarrow> unit worker" where
  "attempt c = catching (perform c) (\<lambda>e. Return (Inr ()))"

definition retrySoon :: "string \<Rightarrow> int \<Rightarrow> unit worker" where
  "retrySoon handle visibilitySeconds = attempt (ChangeVisibility handle visibilitySeconds)"

definition recoverTaskToken :: "worker_host \<Rightarrow> string \<Rightarrow> string option" where
  "recoverTaskToken H body =
     (case str_of (Option.bind (jsonParse H body) (\<lambda>v. obj_get v ''taskToken'')) of
        None \<Rightarrow> None
      | Some t \<Rightarrow> if 16 \<le> length t \<and> length t \<le> 1024 then Some t else None)"

definition quarantine_text :: "worker_options \<Rightarrow> Delivery \<Rightarrow> string \<Rightarrow> int \<Rightarrow> thrown \<Rightarrow> string" where
  "quarantine_text W received body receiveCount e = canonical_text (JObj
     [(''schemaVersion'', JStr ''archon.worker-quarantine/v1''), (''queueKind'', JStr (queue_name (wo_kind W))),
      (''messageId'', JStr (or_else (dlv_messageId received) ''unknown'')),
      (''bodyDigest'', JStr (''sha256:'' @ sha256_hex (wo_env W) body)), (''error'', JStr (awsErrorName e)),
      (''receiveCount'', JNum receiveCount), (''failedAt'', JStr (wo_now W))])"

definition finalizePoison ::
    "worker_options \<Rightarrow> Delivery \<Rightarrow> string \<Rightarrow> string \<Rightarrow> int \<Rightarrow> thrown \<Rightarrow> string option \<Rightarrow> unit worker" where
  "finalizePoison W received body handle receiveCount e token =
     io_bind (perform (Quarantine (quarantine_text W received body receiveCount e))) (\<lambda>x.
     case x of
       Inl _ \<Rightarrow> retrySoon handle CALLBACK_RETRY_VISIBILITY_SECONDS
     | Inr _ \<Rightarrow>
         io_bind (if truthy token then failure (or_else token []) (awsErrorName e) else Return (Inr ())) (\<lambda>y.
         case y of
           Inl e' \<Rightarrow> if \<not> isTerminalTaskError e' then retrySoon handle CALLBACK_RETRY_VISIBILITY_SECONDS
             else attempt (DeleteMessage handle)
         | Inr _ \<Rightarrow> attempt (DeleteMessage handle)))"

text \<open>\<open>Number.parseInt(s, 10)\<close>; \<open>None\<close> is \<open>NaN\<close>.\<close>

definition parse_int :: "string \<Rightarrow> int option" where
  "parse_int s =
     (let t = dropWhile is_ws s;
          signed = (t \<noteq> [] \<and> hd t \<in> set ''+-'');
          ds = takeWhile is_digit (if signed then tl t else t) in
      if ds = [] then None
      else Some (if signed \<and> hd t = CHR ''-'' then - int (read_nat 0 ds) else int (read_nat 0 ds)))"

definition receive_count :: "string option \<Rightarrow> int" where
  "receive_count a = max 1 (case parse_int (or_else a ''1'') of None \<Rightarrow> 1 | Some n \<Rightarrow> if n = 0 then 1 else n)"

fun message_token :: "WorkerQueueMessage \<Rightarrow> string" where
  "message_token (AUDIT_REQUESTED m) = aqm_taskToken m"
| "message_token (APPROVAL_REQUESTED m) = pqm_taskToken m"
| "message_token (REMEDIATION_REQUESTED m) = rqm_taskToken m"

definition parse_callback_message :: "worker_options \<Rightarrow> string \<Rightarrow> thrown + WorkerQueueMessage" where
  "parse_callback_message W body =
     bind_result (parseQueueMessage (wo_env W) (wo_host W) (wo_kind W) body) (\<lambda>m.
     bind_result (throw_if (wo_kind W = Q_audit \<and> message_queue m \<noteq> Q_audit
         \<or> wo_kind W = Q_remediation \<and> message_queue m \<noteq> Q_remediation)
       (WorkerContractError INVALID_MESSAGE ''Queue and callback-worker capability do not match.'')) (\<lambda>_.
     bind_result (throw_if (message_queue m = Q_approval)
       (WorkerContractError INVALID_MESSAGE ''Callback workers cannot consume approval messages.'')) (\<lambda>_.
     Inr m)))"

definition on_failure ::
    "worker_options \<Rightarrow> Delivery \<Rightarrow> string \<Rightarrow> string \<Rightarrow> int \<Rightarrow> WorkerQueueMessage \<Rightarrow> thrown \<Rightarrow> unit worker" where
  "on_failure W received body handle receiveCount m e =
     (case e of
        WorkerLeaseError terminal \<Rightarrow>
          if terminal then attempt (DeleteMessage handle) else retrySoon handle CALLBACK_RETRY_VISIBILITY_SECONDS
      | _ \<Rightarrow>
          if \<not> shouldFinalizePoisonDelivery e receiveCount (wo_maxReceiveCount W)
          then retrySoon handle (retryVisibilitySeconds e)
          else finalizePoison W received body handle receiveCount e (Some (message_token m)))"

definition on_output :: "string \<Rightarrow> string \<Rightarrow> json \<Rightarrow> unit worker" where
  "on_output token handle out =
     catching (io_then (success token out) (\<lambda>_. perform (DeleteMessage handle))) (\<lambda>e.
       if isTerminalTaskError e then attempt (DeleteMessage handle)
       else retrySoon handle CALLBACK_RETRY_VISIBILITY_SECONDS)"

definition process_delivery :: "worker_options \<Rightarrow> Delivery \<Rightarrow> unit worker" where
  "process_delivery W received =
     (case (dlv_body received, dlv_receiptHandle received) of
        (Some (b # bs), Some (h # hs)) \<Rightarrow>
          let body = b # bs; handle = h # hs; receiveCount = receive_count (dlv_approximateReceiveCount received) in
          (case parse_callback_message W body of
             Inl e \<Rightarrow> finalizePoison W received body handle receiveCount e (recoverTaskToken (wo_host W) body)
           | Inr m \<Rightarrow>
               io_bind (withLease (message_token m) handle m) (\<lambda>x. case x of
                 Inl e \<Rightarrow> on_failure W received body handle receiveCount m e
               | Inr out \<Rightarrow> on_output (message_token m) handle out))
      | _ \<Rightarrow> Return (Inr ()))"

text \<open>\<open>run\<close>, for a number of polls: it ends when the signal is aborted or a poll fails.\<close>

fun process_all :: "worker_options \<Rightarrow> Delivery list \<Rightarrow> unit worker" where
  "process_all W [] = Return (Inr ())"
| "process_all W (d # ds) = io_then (process_delivery W d) (\<lambda>_. process_all W ds)"

fun run_polls :: "worker_options \<Rightarrow> nat \<Rightarrow> unit worker" where
  "run_polls W 0 = Return (Inr ())"
| "run_polls W (Suc n) = Ask SignalAborted (\<lambda>a.
     if a = Aborted True then Return (Inr ())
     else Ask ReceiveMessages (\<lambda>r. case r of
         Received ds \<Rightarrow> io_then (process_all W ds) (\<lambda>_. run_polls W n)
       | Threw e \<Rightarrow> Ask SignalAborted (\<lambda>a. if a = Aborted True then Return (Inr ()) else Return (Inl e))
       | _ \<Rightarrow> run_polls W n))"

subsection \<open>The calls of the worker\<close>

lemma wp_perform: "wp P R (perform c) h \<longleftrightarrow> P h c \<and> (\<forall>r. R (case r of Threw e \<Rightarrow> Inl e | _ \<Rightarrow> Inr ()) (h @ [(c, r)]))"
  by (auto simp: perform_def split: worker_answer.split)

lemma wp_then: "wp P R (io_then p f) h = wp P (\<lambda>x. case x of Inl e \<Rightarrow> R (Inl e) | Inr a \<Rightarrow> wp P R (f a)) p h"
  unfolding io_then_def wp_bind wp_sum wp.simps ..

lemma wp_catching: "wp P R (catching p f) h = wp P (\<lambda>x. case x of Inl e \<Rightarrow> wp P R (f e) | Inr a \<Rightarrow> R (Inr a)) p h"
  unfolding catching_def wp_bind wp_sum wp.simps ..

lemmas wp_worker = wp_bind wp_then wp_catching wp_perform

subsection \<open>When a delivery may be deleted\<close>

definition acknowledged :: "(worker_call \<times> worker_answer) list \<Rightarrow> worker_call \<Rightarrow> bool" where
  "acknowledged h c \<longleftrightarrow> (\<exists>r. (c, r) \<in> set h \<and> (\<forall>e. r \<noteq> Threw e))"

definition task_over :: "(worker_call \<times> worker_answer) list \<Rightarrow> worker_call \<Rightarrow> bool" where
  "task_over h c \<longleftrightarrow> acknowledged h c \<or> (\<exists>e. (c, Threw e) \<in> set h \<and> isTerminalTaskError e)"

text \<open>The task can no longer be completed: a heartbeat was refused for good, or the lease is terminally lost.\<close>

definition lease_over :: "(worker_call \<times> worker_answer) list \<Rightarrow> WorkerQueueMessage \<Rightarrow> bool" where
  "lease_over h m \<longleftrightarrow> (\<exists>c e. c \<in> {Heartbeat (message_token m), InFlight (Heartbeat (message_token m))}
       \<and> (c, Threw e) \<in> set h \<and> isTerminalTaskError e)
     \<or> (\<exists>x. (Operate m, Operated x (LeaseLost True)) \<in> set h) \<or> (\<exists>l. (Operate m, Operated (Inl (WorkerLeaseError True)) l) \<in> set h)
     \<or> (Operate m, Threw (WorkerLeaseError True)) \<in> set h"

definition reported :: "(worker_call \<times> worker_answer) list \<Rightarrow> string \<Rightarrow> bool" where
  "reported h token \<longleftrightarrow> (\<exists>s. task_over h (TaskSuccess token s))"

definition quarantined :: "worker_options \<Rightarrow> Delivery \<Rightarrow> (worker_call \<times> worker_answer) list \<Rightarrow> string option \<Rightarrow> bool" where
  "quarantined W d h token \<longleftrightarrow> (\<exists>body e. dlv_body d = Some body
     \<and> acknowledged h (Quarantine (quarantine_text W d body (receive_count (dlv_approximateReceiveCount d)) e)))
     \<and> (truthy token \<longrightarrow> (\<exists>s. task_over h (TaskFailure (or_else token []) s)))"

lemma worker_grows:
  assumes "set h \<subseteq> set h'"
  shows "acknowledged h c \<Longrightarrow> acknowledged h' c" "task_over h c \<Longrightarrow> task_over h' c" "lease_over h m \<Longrightarrow> lease_over h' m"
    "reported h t \<Longrightarrow> reported h' t"
  using assms unfolding acknowledged_def task_over_def lease_over_def reported_def by blast+

text \<open>The condition of the deletion, for a delivery with the given body and handle.\<close>

definition delivery_settled :: "worker_options \<Rightarrow> Delivery \<Rightarrow> (worker_call \<times> worker_answer) list \<Rightarrow> bool" where
  "delivery_settled W d h \<longleftrightarrow> (case parse_callback_message W (or_else (dlv_body d) []) of
     Inl e \<Rightarrow> quarantined W d h (recoverTaskToken (wo_host W) (or_else (dlv_body d) []))
   | Inr m \<Rightarrow> reported h (message_token m) \<or> lease_over h m \<or> quarantined W d h (Some (message_token m)))"

definition deletes_settled :: "worker_options \<Rightarrow> Delivery \<Rightarrow> (worker_call \<times> worker_answer) list \<Rightarrow> worker_call \<Rightarrow> bool" where
  "deletes_settled W d h q \<longleftrightarrow> (\<forall>x. q = DeleteMessage x \<longrightarrow> dlv_receiptHandle d = Some x \<and> delivery_settled W d h)"

lemma deletes_other [simp]:
  "deletes_settled W d h (Heartbeat t)" "deletes_settled W d h (ChangeVisibility x n)" "deletes_settled W d h (Operate m)"
  "deletes_settled W d h (TaskSuccess t s)" "deletes_settled W d h (TaskFailure t s)" "deletes_settled W d h (Quarantine s)"
  "deletes_settled W d h (InFlight c)"
  by (simp_all add: deletes_settled_def)

lemma wp_attempt: "wp P (\<lambda>_ _. True) (attempt c) h \<longleftrightarrow> P h c"
  by (auto simp: attempt_def wp_worker split: sum.split worker_answer.split)

lemma wp_retrySoon: "wp (deletes_settled W d) (\<lambda>_ _. True) (retrySoon handle n) h"
  by (simp add: retrySoon_def wp_attempt)

lemma answer_ok: "(case r of Threw e \<Rightarrow> Inl e | _ \<Rightarrow> Inr ()) = Inr () \<longleftrightarrow> (\<forall>e. r \<noteq> Threw e)"
  "(case r of Threw e \<Rightarrow> Inl e | _ \<Rightarrow> Inr ()) = Inl e \<longleftrightarrow> r = Threw e"
  by (cases r; simp)+

lemma sum_unit_cases: "(case x of Inl e \<Rightarrow> F e | Inr (u :: unit) \<Rightarrow> G u) \<longleftrightarrow> (\<forall>e. x = Inl e \<longrightarrow> F e) \<and> (x = Inr () \<longrightarrow> G ())"
  by (cases x) simp_all

lemma wp_finalizePoison:
  assumes "dlv_body d = Some body" "dlv_receiptHandle d = Some handle"
    and "\<And>h'. quarantined W d h' token \<Longrightarrow> delivery_settled W d h'"
  shows "wp (deletes_settled W d) (\<lambda>_ _. True)
     (finalizePoison W d body handle (receive_count (dlv_approximateReceiveCount d)) e token) h"
proof -
  let ?q = "Quarantine (quarantine_text W d body (receive_count (dlv_approximateReceiveCount d)) e)"
  have delete: "deletes_settled W d (h @ (?q, r) # h') (DeleteMessage handle)"
    if "\<forall>e. r \<noteq> Threw e" "truthy token \<longrightarrow> (\<exists>s. task_over (h @ (?q, r) # h') (TaskFailure (or_else token []) s))" for r h'
  proof -
    have "acknowledged (h @ (?q, r) # h') ?q" using that(1) by (auto simp: acknowledged_def)
    then show ?thesis using that(2) assms by (auto simp: deletes_settled_def quarantined_def)
  qed
  define finish :: "thrown + unit \<Rightarrow> unit worker" where "finish = (\<lambda>y. case y of
      Inl e' \<Rightarrow> if \<not> isTerminalTaskError e' then retrySoon handle CALLBACK_RETRY_VISIBILITY_SECONDS
        else attempt (DeleteMessage handle)
    | Inr _ \<Rightarrow> attempt (DeleteMessage handle))"
  have told: "wp (deletes_settled W d) (\<lambda>_ _. True) (io_bind (failure (or_else token []) code) finish) (h @ [(?q, r)])"
    if r: "\<forall>e. r \<noteq> Threw e" for r code
  proof -
    have "wp (deletes_settled W d) (\<lambda>_ _. True) (finish (case r' of Threw e \<Rightarrow> Inl e | _ \<Rightarrow> Inr ()))
        ((h @ [(?q, r)]) @ [(TaskFailure (or_else token []) s, r')])" for r' s
    proof (cases "\<exists>e. r' = Threw e \<and> \<not> isTerminalTaskError e")
      case True
      then show ?thesis by (auto simp: finish_def wp_retrySoon)
    next
      case False
      then have "task_over (h @ (?q, r) # [(TaskFailure (or_else token []) s, r')]) (TaskFailure (or_else token []) s)"
        by (auto simp: task_over_def acknowledged_def)
      from delete [OF r] this have "deletes_settled W d ((h @ [(?q, r)]) @ [(TaskFailure (or_else token []) s, r')]) (DeleteMessage handle)"
        by auto
      with False show ?thesis by (cases r') (auto simp: finish_def wp_attempt)
    qed
    then show ?thesis by (simp add: failure_def wp_bind wp_perform)
  qed
  have untold: "wp (deletes_settled W d) (\<lambda>_ _. True) (finish (Inr ())) (h @ [(?q, r)])"
    if "\<forall>e. r \<noteq> Threw e" "\<not> truthy token" for r
    using delete [of r "[]"] that by (simp add: finish_def wp_attempt)
  show ?thesis
    unfolding finalizePoison_def finish_def [symmetric]
    using told untold by (auto simp: wp_bind wp_perform sum_unit_cases answer_ok wp_retrySoon split: sum.split worker_answer.split)
qed

lemma wp_lease:
  assumes "\<And>h q. (\<forall>x. q \<noteq> DeleteMessage x) \<Longrightarrow> P h q"
    and "\<And>h e. lease_over h m \<or> e \<noteq> WorkerLeaseError True \<Longrightarrow> R (Inl e) h"
    and "\<And>h out. R (Inr out) h"
  shows "wp P R (withLease (message_token m) handle m) h"
proof -
  let ?kept = "\<lambda>x h. x = Inr () \<or> (\<exists>e. x = Inl e \<and> (lease_over h m \<or> e \<noteq> WorkerLeaseError True))"
  have beats: "wp P ?kept (io_then (heartbeat c) (\<lambda>_. extend_visibility v)) h"
    if "c = Heartbeat (message_token m) \<or> c = InFlight (Heartbeat (message_token m))" "\<forall>x. v \<noteq> DeleteMessage x" for c v h
    using assms(1) that
    by (auto simp: heartbeat_def extend_visibility_def wp_worker sum_unit_cases answer_ok lease_over_def
        split: sum.split worker_answer.split)
  have extends: "wp P ?kept (extend_visibility v) h" if "\<forall>x. v \<noteq> DeleteMessage x" for v h
    using assms(1) that
    by (auto simp: extend_visibility_def wp_worker sum_unit_cases answer_ok split: sum.split worker_answer.split)
  have assertion: "wp P ?kept (assertActive (message_token m) handle phase) h"
    if "phase = LeaseLost True \<longrightarrow> lease_over h m" for phase h
    using that beats extends by (cases phase) (auto simp: assertActive_def renew_def)
  have after: "wp P R (case x of Inl e \<Rightarrow> Return (Inl e) | Inr out \<Rightarrow>
      io_then (assertActive (message_token m) handle phase) (\<lambda>_. Return (Inr out))) h"
    if "phase = LeaseLost True \<longrightarrow> lease_over h m" "x = Inl (WorkerLeaseError True) \<longrightarrow> lease_over h m" for x phase h
  proof (cases x)
    case (Inl e)
    then show ?thesis using assms(2) that(2) by auto
  next
    case (Inr out)
    show ?thesis unfolding Inr sum.case wp_then
      by (rule wp_mono [OF assertion [OF that(1)]]) (use assms in auto)
  qed
  have operated: "wp P R (io_then (operate m) (\<lambda>(x, phase). case x of Inl e \<Rightarrow> Return (Inl e) | Inr out \<Rightarrow>
      io_then (assertActive (message_token m) handle phase) (\<lambda>_. Return (Inr out)))) h" for h
  proof -
    have "wp P R (case x of Inl e \<Rightarrow> Return (Inl e) | Inr out \<Rightarrow> io_then (assertActive (message_token m) handle phase) (\<lambda>_. Return (Inr out)))
        (h @ [(Operate m, Operated x phase)])" for x phase
      by (rule after) (auto simp: lease_over_def)
    moreover have "R (Inl e) (h @ [(Operate m, Threw e)])" for e
      by (rule assms(2)) (auto simp: lease_over_def)
    moreover have "R (Inl RetryableExecutionJournalError) h'" for h'
      by (rule assms(2)) simp
    ultimately show ?thesis
      using assms(1) by (simp add: wp_then operate_def split: worker_answer.split)
  qed
  show ?thesis
    unfolding withLease_def
    by (subst wp_then, rule wp_mono [OF assertion [of LeaseIdle]]) (use assms(2) operated in auto)
qed

lemma wp_on_output:
  assumes "\<And>h'. reported h' token \<Longrightarrow> deletes_settled W d h' (DeleteMessage handle)"
  shows "wp (deletes_settled W d) (\<lambda>_ _. True) (on_output token handle out) h"
proof -
  have "deletes_settled W d (h @ (TaskSuccess token (canonical_text out), r) # h') (DeleteMessage handle)"
    if "\<forall>e. r = Threw e \<longrightarrow> isTerminalTaskError e" for r h'
    by (rule assms) (use that in \<open>cases r; auto simp: reported_def task_over_def acknowledged_def\<close>)
  then show ?thesis
    by (auto simp: on_output_def success_def wp_worker sum_unit_cases answer_ok wp_attempt wp_retrySoon
        split: sum.split worker_answer.split)
qed

lemma wp_delivery: "wp (deletes_settled W d) (\<lambda>_ _. True) (process_delivery W d) []"
proof (cases "\<exists>b bs x xs. dlv_body d = Some (b # bs) \<and> dlv_receiptHandle d = Some (x # xs)")
  case False
  then have "process_delivery W d = Return (Inr ())" by (auto simp: process_delivery_def split: option.split list.split)
  then show ?thesis by simp
next
  case True
  then obtain b bs x xs where d: "dlv_body d = Some (b # bs)" "dlv_receiptHandle d = Some (x # xs)" by blast
  show ?thesis
  proof (cases "parse_callback_message W (b # bs)")
    case (Inl e)
    with wp_finalizePoison [OF d] show ?thesis by (simp add: process_delivery_def d Let_def delivery_settled_def)
  next
    case (Inr m)
    have over: "deletes_settled W d h (DeleteMessage (x # xs))" if "lease_over h m \<or> reported h (message_token m)" for h
      using that d Inr by (auto simp: deletes_settled_def delivery_settled_def)
    have failed: "wp (deletes_settled W d) (\<lambda>_ _. True)
        (on_failure W d (b # bs) (x # xs) (receive_count (dlv_approximateReceiveCount d)) m e) h"
      if "lease_over h m \<or> e \<noteq> WorkerLeaseError True" for e h
    proof -
      have "wp (deletes_settled W d) (\<lambda>_ _. True) (finalizePoison W d (b # bs) (x # xs)
          (receive_count (dlv_approximateReceiveCount d)) e (Some (message_token m))) h"
        by (rule wp_finalizePoison [OF d]) (simp add: delivery_settled_def d Inr)
      then show ?thesis
        using over that by (auto simp: on_failure_def wp_attempt wp_retrySoon split: thrown.split)
    qed
    have "wp (deletes_settled W d) (\<lambda>r. wp (deletes_settled W d) (\<lambda>_ _. True) (case r of
          Inl e \<Rightarrow> on_failure W d (b # bs) (x # xs) (receive_count (dlv_approximateReceiveCount d)) m e
        | Inr out \<Rightarrow> on_output (message_token m) (x # xs) out)) (withLease (message_token m) (x # xs) m) []"
    proof (rule wp_lease)
      show "deletes_settled W d h q" if "\<forall>x. q \<noteq> DeleteMessage x" for h q
        using that by (simp add: deletes_settled_def)
    qed (use failed wp_on_output over in auto)
    then show ?thesis by (simp add: process_delivery_def d Inr Let_def wp_bind)
  qed
qed

subsection \<open>What success and a held execution lead to\<close>

text \<open>An acknowledged renewal, and the whole history of an operation that produced an output.\<close>

definition lease_renewed :: "string \<Rightarrow> string \<Rightarrow> (worker_call \<times> worker_answer) list \<Rightarrow> bool" where
  "lease_renewed token handle h \<longleftrightarrow> (\<exists>r r'. h = [(Heartbeat token, r), (ChangeVisibility handle CALLBACK_VISIBILITY_SECONDS, r')]
     \<and> (\<forall>e. r \<noteq> Threw e) \<and> (\<forall>e. r' \<noteq> Threw e))"

text \<open>
  The lease is confirmed after the service returned: by a renewal begun then, or by the outcome of the renewal
  that was in flight at that moment.
\<close>

fun lease_confirmed :: "lease_phase \<Rightarrow> string \<Rightarrow> string \<Rightarrow> (worker_call \<times> worker_answer) list \<Rightarrow> bool" where
  "lease_confirmed LeaseIdle token handle h = lease_renewed token handle h"
| "lease_confirmed LeaseBeating token handle h \<longleftrightarrow>
     (\<exists>r r'. h = [(InFlight (Heartbeat token), r), (ChangeVisibility handle CALLBACK_VISIBILITY_SECONDS, r')]
       \<and> (\<forall>e. r \<noteq> Threw e) \<and> (\<forall>e. r' \<noteq> Threw e))"
| "lease_confirmed LeaseExtending token handle h \<longleftrightarrow>
     (\<exists>r. h = [(InFlight (ChangeVisibility handle CALLBACK_VISIBILITY_SECONDS), r)] \<and> (\<forall>e. r \<noteq> Threw e))"
| "lease_confirmed (LeaseLost terminal) token handle h = False"

definition produced :: "WorkerQueueMessage \<Rightarrow> string \<Rightarrow> json \<Rightarrow> (worker_call \<times> worker_answer) list \<Rightarrow> bool" where
  "produced m handle out h \<longleftrightarrow> (\<exists>h1 phase h2. lease_renewed (message_token m) handle h1
     \<and> lease_confirmed phase (message_token m) handle h2
     \<and> h = h1 @ (Operate m, Operated (Inr out) phase) # h2)"

definition held :: "WorkerQueueMessage \<Rightarrow> (worker_call \<times> worker_answer) list \<Rightarrow> bool" where
  "held m h \<longleftrightarrow> (\<exists>msg l. (Operate m, Operated (Inl (LoopThrew (RemediationError EXECUTION_IN_PROGRESS msg))) l) \<in> set h)"

definition orderly :: "worker_options \<Rightarrow> Delivery \<Rightarrow> (worker_call \<times> worker_answer) list \<Rightarrow> worker_call \<Rightarrow> bool" where
  "orderly W d h q \<longleftrightarrow>
     (\<forall>t s. q = TaskSuccess t s \<longrightarrow> (\<exists>m out handle. dlv_receiptHandle d = Some handle
        \<and> parse_callback_message W (or_else (dlv_body d) []) = Inr m
        \<and> t = message_token m \<and> s = canonical_text out \<and> produced m handle out h))
     \<and> (\<forall>m. held m h \<longrightarrow> (\<exists>handle. q = ChangeVisibility handle EXECUTION_IN_PROGRESS_RETRY_VISIBILITY_SECONDS))"

lemma orderly_call: "(\<forall>t s. q \<noteq> TaskSuccess t s) \<Longrightarrow> \<forall>m. \<not> held m h \<Longrightarrow> orderly W d h q"
  by (simp add: orderly_def)

lemma held_simps [simp]:
  "held m [] \<longleftrightarrow> False" "held m (h @ h') \<longleftrightarrow> held m h \<or> held m h'"
  "held m ((q, r) # h) \<longleftrightarrow> (q = Operate m \<and> (\<exists>msg l. r = Operated (Inl (LoopThrew (RemediationError EXECUTION_IN_PROGRESS msg))) l)) \<or> held m h"
  by (auto simp: held_def)

lemma orderly_free:
  assumes "\<forall>m. \<not> held m h"
  shows "wp (orderly W d) (\<lambda>x h'. (\<forall>m. \<not> held m h') \<and> (x = Inr () \<longrightarrow> (\<exists>h2. h' = h @ h2 \<and> lease_confirmed phase token handle h2))
       \<and> (\<forall>e. x = Inl e \<longrightarrow> (\<exists>b. e = WorkerLeaseError b)))
     (assertActive token handle phase) h"
  using assms
  by (cases phase) (auto simp: assertActive_def renew_def heartbeat_def extend_visibility_def wp_worker sum_unit_cases
      answer_ok lease_renewed_def orderly_def split: sum.split worker_answer.split)

lemma orderly_attempt: "\<forall>m. \<not> held m h \<Longrightarrow> (\<forall>t s. c \<noteq> TaskSuccess t s) \<Longrightarrow> wp (orderly W d) (\<lambda>_ _. True) (attempt c) h"
  by (simp add: wp_attempt orderly_call)

lemma orderly_poison:
  assumes "\<forall>m. \<not> held m h"
  shows "wp (orderly W d) (\<lambda>_ _. True) (finalizePoison W d body handle n e token) h"
  using assms
  by (auto simp: finalizePoison_def wp_bind wp_perform failure_def retrySoon_def wp_attempt orderly_call
      split: sum.split worker_answer.split)

definition lease_result ::
    "WorkerQueueMessage \<Rightarrow> string \<Rightarrow> thrown + json \<Rightarrow> (worker_call \<times> worker_answer) list \<Rightarrow> bool" where
  "lease_result m handle x h \<longleftrightarrow> (\<forall>out. x = Inr out \<longrightarrow> produced m handle out h \<and> (\<forall>m. \<not> held m h))
     \<and> (\<forall>e. x = Inl e \<longrightarrow> (\<exists>m. held m h) \<longrightarrow> execution_in_progress e)"

lemma orderly_lease: "wp (orderly W d) (lease_result m handle) (withLease (message_token m) handle m) []"
proof -
  let ?P = "orderly W d" and ?R = "lease_result m handle"
  have after: "wp ?P ?R (case x of Inl e \<Rightarrow> Return (Inl e) | Inr out \<Rightarrow>
      io_then (assertActive (message_token m) handle phase) (\<lambda>_. Return (Inr out))) (h1 @ [(Operate m, Operated x phase)])"
    if h1: "lease_renewed (message_token m) handle h1" "\<forall>m. \<not> held m h1" for x phase h1
  proof (cases x)
    case (Inl e)
    then show ?thesis using h1(2) by (auto simp: lease_result_def)
  next
    case (Inr out)
    have free: "\<forall>m'. \<not> held m' (h1 @ [(Operate m, Operated (Inr out) phase)])" using h1(2) by simp
    show ?thesis unfolding Inr sum.case wp_then
      by (rule wp_mono [OF orderly_free [OF free]])
        (use h1 in \<open>auto simp: lease_result_def produced_def split: sum.split\<close>)
  qed
  have other: "?R (Inl e) (h1 @ [(Operate m, r)])" if "\<forall>m. \<not> held m h1" "\<forall>x l. r \<noteq> Operated x l" for e r h1
    using that by (auto simp: lease_result_def)
  have operated: "wp ?P ?R (io_then (operate m) (\<lambda>(x, phase). case x of Inl e \<Rightarrow> Return (Inl e) | Inr out \<Rightarrow>
      io_then (assertActive (message_token m) handle phase) (\<lambda>_. Return (Inr out)))) h1"
    if h1: "lease_renewed (message_token m) handle h1" "\<forall>m. \<not> held m h1" for h1
    using after [OF h1] other [OF h1(2)] h1(2)
    by (simp add: wp_then operate_def orderly_call split: worker_answer.split)
  have start: "wp ?P (\<lambda>x h'. (\<forall>m. \<not> held m h') \<and> (x = Inr () \<longrightarrow> lease_renewed (message_token m) handle h'))
      (assertActive (message_token m) handle LeaseIdle) []"
    by (rule wp_mono [OF orderly_free]) auto
  show ?thesis
    unfolding withLease_def
    by (subst wp_then, rule wp_mono [OF start]) (auto simp: lease_result_def split: sum.split intro!: operated)
qed

lemma orderly_delivery: "wp (orderly W d) (\<lambda>_ _. True) (process_delivery W d) []"
proof (cases "\<exists>b bs x xs. dlv_body d = Some (b # bs) \<and> dlv_receiptHandle d = Some (x # xs)")
  case False
  then have "process_delivery W d = Return (Inr ())" by (auto simp: process_delivery_def split: option.split list.split)
  then show ?thesis by simp
next
  case True
  then obtain b bs x xs where d: "dlv_body d = Some (b # bs)" "dlv_receiptHandle d = Some (x # xs)" by blast
  show ?thesis
  proof (cases "parse_callback_message W (b # bs)")
    case (Inl e)
    then show ?thesis using orderly_poison by (simp add: process_delivery_def d Let_def)
  next
    case (Inr m)
    have failed: "wp (orderly W d) (\<lambda>_ _. True) (on_failure W d (b # bs) (x # xs) n m e) h"
      if "(\<exists>m. held m h) \<longrightarrow> execution_in_progress e" for e h n
    proof (cases "execution_in_progress e")
      case True
      then have "on_failure W d (b # bs) (x # xs) n m e = attempt (ChangeVisibility (x # xs) EXECUTION_IN_PROGRESS_RETRY_VISIBILITY_SECONDS)"
        by (cases e rule: execution_in_progress.cases)
          (auto simp: on_failure_def shouldFinalizePoisonDelivery_def retrySoon_def retryVisibilitySeconds_def)
      then show ?thesis by (simp add: wp_attempt orderly_def)
    next
      case False
      then have free: "\<forall>m. \<not> held m h" using that by blast
      then show ?thesis
        using orderly_poison [OF free] orderly_attempt [OF free]
        by (auto simp: on_failure_def retrySoon_def split: thrown.split)
    qed
    have finished: "wp (orderly W d) (\<lambda>_ _. True) (on_output (message_token m) (x # xs) out) h"
      if "produced m (x # xs) out h" "\<forall>m. \<not> held m h" for out h
      using that d Inr
      by (auto simp: on_output_def success_def wp_worker sum_unit_cases answer_ok orderly_call orderly_attempt retrySoon_def
          orderly_def [of W d h "TaskSuccess (message_token m) (canonical_text out)"] split: sum.split worker_answer.split)
    have "wp (orderly W d) (\<lambda>r. wp (orderly W d) (\<lambda>_ _. True) (case r of
          Inl e \<Rightarrow> on_failure W d (b # bs) (x # xs) (receive_count (dlv_approximateReceiveCount d)) m e
        | Inr out \<Rightarrow> on_output (message_token m) (x # xs) out)) (withLease (message_token m) (x # xs) m) []"
      by (rule wp_mono [OF orderly_lease]) (auto simp: lease_result_def split: sum.split intro!: failed finished)
    then show ?thesis by (simp add: process_delivery_def d Inr Let_def wp_bind)
  qed
qed

subsection \<open>A delivery that succeeds\<close>

definition demo_worker :: worker_options where
  "demo_worker = \<lparr>wo_env = demo_env, wo_host = demo_host, wo_kind = Q_audit, wo_maxReceiveCount = 5,
     wo_now = ''2026-01-01T00:00:00.000Z''\<rparr>"

definition demo_delivery :: Delivery where
  "demo_delivery = \<lparr>dlv_messageId = Some ''m-1'', dlv_body = Some ''body'', dlv_receiptHandle = Some ''handle-1'',
     dlv_approximateReceiveCount = Some ''1''\<rparr>"

abbreviation demo_token :: string where "demo_token \<equiv> ''0123456789abcdef''"

definition demo_calls :: "(worker_call \<times> worker_answer) list" where
  "demo_calls = [(Heartbeat demo_token, Succeeded), (ChangeVisibility ''handle-1'' 300, Succeeded),
     (Operate (AUDIT_REQUESTED demo_audit_message), Operated (Inr JNull) LeaseIdle),
     (Heartbeat demo_token, Succeeded), (ChangeVisibility ''handle-1'' 300, Succeeded),
     (TaskSuccess demo_token (canonical_text JNull), Succeeded), (DeleteMessage ''handle-1'', Succeeded)]"

lemma demo_parsed: "parse_callback_message demo_worker ''body'' = Inr (AUDIT_REQUESTED demo_audit_message)"
  using demo_audit_message_parsed by (simp add: parse_callback_message_def demo_worker_def)

lemma demo_processed: "io_after (process_delivery demo_worker demo_delivery) demo_calls = Some (Return (Inr ()))"
proof -
  have "message_token (AUDIT_REQUESTED demo_audit_message) = demo_token" by (simp add: demo_audit_message_def)
  then show ?thesis
    by (simp add: process_delivery_def demo_delivery_def demo_parsed Let_def withLease_def assertActive_def renew_def
        heartbeat_def extend_visibility_def catching_def io_then_def perform_def operate_def on_output_def success_def demo_calls_def CALLBACK_VISIBILITY_SECONDS_def
        del: message_token.simps)
qed

subsection \<open>Properties\<close>

text \<open>
  C6: no delivery is lost. Whatever the network and the service answer, the worker deletes a delivery only after
  its task was reported finished (or Step Functions said the task is over), or its lease was terminally lost,
  or it was stored in the quarantine queue and its task, when its token can be known, was reported
  failed. In every other case the message stays in the queue and is delivered again.
\<close>

theorem delivery_never_lost:
  assumes "io_after (process_delivery W d) es \<noteq> None" and "n < length es" and "fst (es ! n) = DeleteMessage handle"
  shows "dlv_receiptHandle d = Some handle \<and> delivery_settled W d (take n es)"
  using wp_calls [OF wp_delivery assms(1,2)] assms(3) by (simp add: deletes_settled_def)

theorem delivery_never_lost_witness:
  "delivery_settled demo_worker demo_delivery (take 6 demo_calls) \<and> fst (demo_calls ! 6) = DeleteMessage ''handle-1''"
proof -
  have "6 < length demo_calls" "fst (demo_calls ! 6) = DeleteMessage ''handle-1''" by (simp_all add: demo_calls_def)
  with delivery_never_lost [of demo_worker demo_delivery demo_calls 6 "''handle-1''"] demo_processed show ?thesis by simp
qed

text \<open>
  C7: success is backed. The worker reports a task successful only with the output the service returned for the
  delivery's own message, after exactly: a renewed lease, that one call of the service, and the lease renewed
  again (by a renewal begun then, or by the one in flight when the service returned). And when the service finds the execution held by another worker, the worker does nothing further
  than to make the delivery visible again after three minutes.
\<close>

theorem success_is_backed:
  assumes "io_after (process_delivery W d) es \<noteq> None" and "n < length es"
  shows "(\<forall>token s. fst (es ! n) = TaskSuccess token s \<longrightarrow> (\<exists>m out handle. dlv_receiptHandle d = Some handle
      \<and> parse_callback_message W (or_else (dlv_body d) []) = Inr m
      \<and> token = message_token m \<and> s = canonical_text out \<and> produced m handle out (take n es)))
    \<and> (\<forall>m. held m (take n es) \<longrightarrow>
      (\<exists>handle. fst (es ! n) = ChangeVisibility handle EXECUTION_IN_PROGRESS_RETRY_VISIBILITY_SECONDS))"
  using wp_calls [OF orderly_delivery assms] unfolding orderly_def by blast

theorem success_is_backed_witness:
  "\<exists>m out handle. parse_callback_message demo_worker ''body'' = Inr m \<and> demo_token = message_token m
     \<and> produced m handle out (take 5 demo_calls)"
proof -
  have n: "5 < length demo_calls" "fst (demo_calls ! 5) = TaskSuccess demo_token (canonical_text JNull)"
    by (simp_all add: demo_calls_def)
  have "or_else (dlv_body demo_delivery) [] = ''body''" by (simp add: demo_delivery_def)
  with success_is_backed [of demo_worker demo_delivery demo_calls 5] demo_processed n show ?thesis by auto
qed

end
