(* ===== verification/Provenance.thy ===== *)
theory Provenance
  imports JsonFields
begin

section \<open>Provenance of model calls: \<open>src/llm/provenance.ts\<close>\<close>

text \<open>
  What is recorded of a call of the language model: either that no call was made, or the identifiers, token
  counts and latency of one, each within bounds. The constructor reads the provider's response, which may be
  anything; the parser reads a stored record. Both reject with the same error.
\<close>

datatype ModelProvenanceError = ModelProvenanceError

datatype LlmRuntimeIdentity = DeterministicFixture | LiveProvider string

record ModelTokenUsage =
  tu_inputTokens :: int
  tu_outputTokens :: int
  tu_totalTokens :: int

record LiveProviderModelProvenance =
  mp_provider :: string
  mp_requestedModel :: string
  mp_returnedModel :: string
  mp_providerResponseId :: string
  mp_tokenUsage :: "ModelTokenUsage option"
  mp_latencyMs :: int

datatype ModelRuntimeProvenance = FixtureProvenance string | LiveProvenance LiveProviderModelProvenance

record ProviderResponseMetadata =
  prm_id :: "json option"
  prm_model :: "json option"
  prm_usage :: "json option"

definition MODEL_PROVENANCE_SCHEMA_VERSION :: string where
  "MODEL_PROVENANCE_SCHEMA_VERSION = ''archon.model-runtime-provenance/v1''"

definition LIVE_PROVIDERS :: "string list" where
  "LIVE_PROVIDERS = [''bedrock-mantle'', ''custom'', ''qwen'', ''gemini'', ''openai'', ''anthropic'']"

definition PROVENANCE_KEYS :: "string list" where
  "PROVENANCE_KEYS = [''schemaVersion'', ''source'', ''modelCall'', ''provider'', ''requestedModel'', ''returnedModel'',
     ''providerResponseId'', ''tokenUsage'', ''latencyMs'']"

definition USAGE_KEYS :: "string list" where
  "USAGE_KEYS = [''inputTokens'', ''outputTokens'', ''totalTokens'']"

definition MAX_LATENCY_MS :: int where "MAX_LATENCY_MS = 3600000"

subsection \<open>Identifiers\<close>

text \<open>\<open>MODEL_ID_PATTERN\<close> and \<open>RESPONSE_ID_PATTERN\<close>\<close>

definition bounded_id :: "string \<Rightarrow> nat \<Rightarrow> nat \<Rightarrow> string \<Rightarrow> bool" where
  "bounded_id punctuation least most s = (case s of [] \<Rightarrow> False
     | c # cs \<Rightarrow> is_alnum c \<and> least \<le> length cs \<and> length cs \<le> most
         \<and> list_all (\<lambda>d. is_alnum d \<or> d \<in> set punctuation) cs)"

definition is_model_id :: "string \<Rightarrow> bool" where "is_model_id = bounded_id ''._:/-'' 0 159"
definition is_response_id :: "string \<Rightarrow> bool" where "is_response_id = bounded_id ''._:-'' 5 199"

text \<open>
  \<open>CREDENTIAL_SHAPED_IDENTIFIER\<close>, tried at every position: a literal prefix followed by a run of characters of
  a class. The classes of a web token do not contain the dot that separates its parts.
\<close>

definition run_of :: "(char \<Rightarrow> bool) \<Rightarrow> nat \<Rightarrow> string \<Rightarrow> bool" where
  "run_of cls n s \<longleftrightarrow> n \<le> length (takeWhile cls s)"

definition followed :: "string \<Rightarrow> (string \<Rightarrow> bool) \<Rightarrow> string \<Rightarrow> bool" where
  "followed p rest s \<longleftrightarrow> startsWith s p \<and> rest (drop (length p) s)"

definition word_or :: "string \<Rightarrow> char \<Rightarrow> bool" where
  "word_or extra c \<longleftrightarrow> is_alnum c \<or> c \<in> set extra"

definition dotted :: "(char \<Rightarrow> bool) \<Rightarrow> nat \<Rightarrow> (string \<Rightarrow> bool) \<Rightarrow> string \<Rightarrow> bool" where
  "dotted cls n rest s \<longleftrightarrow> run_of cls n s \<and> (case dropWhile cls s of c # cs \<Rightarrow> c = CHR ''.'' \<and> rest cs | [] \<Rightarrow> False)"

definition is_upper_alnum :: "char \<Rightarrow> bool" where
  "is_upper_alnum c \<longleftrightarrow> is_digit c \<or> (65 \<le> (of_char c :: nat) \<and> of_char c \<le> (90 :: nat))"

definition credential_at :: "string \<Rightarrow> bool" where
  "credential_at s \<longleftrightarrow>
     followed ''bedrock-api-key-'' (run_of (word_or ''_+/=-'') 16) s
     \<or> followed ''sk-'' (run_of (word_or ''_-'') 16) s \<or> followed ''sk-ant-'' (run_of (word_or ''_-'') 16) s
     \<or> list_ex (\<lambda>c. followed (''gh'' @ [c] @ ''_'') (run_of (word_or ''_'') 20) s) ''pousr''
     \<or> followed ''github_pat_'' (run_of (word_or ''_'') 20) s
     \<or> followed ''AKIA'' (run_of is_upper_alnum 16) s \<or> followed ''ASIA'' (run_of is_upper_alnum 16) s
     \<or> list_ex (\<lambda>c. followed (''xox'' @ [c] @ ''-'') (run_of (word_or ''-'') 10) s) ''baprs''
     \<or> followed ''AIza'' (run_of (word_or ''_-'') 35) s
     \<or> followed ''eyJ'' (dotted (word_or ''_-'') 8 (dotted (word_or ''_-'') 8 (run_of (word_or ''_-'') 8))) s"

definition is_credential_shaped :: "string \<Rightarrow> bool" where
  "is_credential_shaped s \<longleftrightarrow> list_ex credential_at (suffixes s)"

subsection \<open>The bounded fields\<close>

definition checked_text :: "(string \<Rightarrow> bool) \<Rightarrow> json option \<Rightarrow> ModelProvenanceError + string" where
  "checked_text ok v = (case str_of v of None \<Rightarrow> Inl ModelProvenanceError
     | Some s \<Rightarrow> if ok s then Inr s else Inl ModelProvenanceError)"

definition model_id_ok :: "string \<Rightarrow> bool" where
  "model_id_ok s \<longleftrightarrow> is_model_id s \<and> \<not> str_includes s ''://'' \<and> \<not> is_credential_shaped s"

definition response_id_ok :: "string \<Rightarrow> bool" where
  "response_id_ok s \<longleftrightarrow> is_response_id s \<and> \<not> is_credential_shaped s"

definition safeModelId :: "json option \<Rightarrow> ModelProvenanceError + string" where
  "safeModelId = checked_text model_id_ok"

definition safeResponseId :: "json option \<Rightarrow> ModelProvenanceError + string" where
  "safeResponseId = checked_text response_id_ok"

definition safeCount :: "json option \<Rightarrow> ModelProvenanceError + int" where
  "safeCount v = (case v of Some (JNum n) \<Rightarrow> if is_safe_integer n \<and> 0 \<le> n then Inr n else Inl ModelProvenanceError
     | _ \<Rightarrow> Inl ModelProvenanceError)"

definition safeLatency :: "json option \<Rightarrow> ModelProvenanceError + int" where
  "safeLatency v = (case v of
       Some (JNum n) \<Rightarrow> if is_safe_integer n \<and> 0 \<le> n \<and> n \<le> MAX_LATENCY_MS then Inr n else Inl ModelProvenanceError
     | _ \<Rightarrow> Inl ModelProvenanceError)"

definition hasExactKeys :: "(string \<times> json) list \<Rightarrow> string list \<Rightarrow> bool" where
  "hasExactKeys kvs expected \<longleftrightarrow> length kvs = length expected \<and> list_all (\<lambda>k. k \<in> set expected) (map fst kvs)"

definition counts_of :: "(string \<times> json) list \<Rightarrow> string \<Rightarrow> string \<Rightarrow> string \<Rightarrow> ModelProvenanceError + ModelTokenUsage" where
  "counts_of kvs i o' t =
     bind_result (safeCount (map_of kvs i)) (\<lambda>inputTokens.
     bind_result (safeCount (map_of kvs o')) (\<lambda>outputTokens.
     bind_result (safeCount (map_of kvs t)) (\<lambda>totalTokens.
     if totalTokens \<noteq> inputTokens + outputTokens then Inl ModelProvenanceError
     else Inr \<lparr>tu_inputTokens = inputTokens, tu_outputTokens = outputTokens, tu_totalTokens = totalTokens\<rparr>)))"

definition parseTokenUsage :: "json option \<Rightarrow> ModelProvenanceError + ModelTokenUsage option" where
  "parseTokenUsage v = (case v of
       Some JNull \<Rightarrow> Inr None
     | Some (JObj kvs) \<Rightarrow>
         if \<not> hasExactKeys kvs USAGE_KEYS then Inl ModelProvenanceError
         else map_result Some (counts_of kvs ''inputTokens'' ''outputTokens'' ''totalTokens'')
     | _ \<Rightarrow> Inl ModelProvenanceError)"

definition normalizeProviderUsage :: "json option \<Rightarrow> ModelProvenanceError + ModelTokenUsage option" where
  "normalizeProviderUsage v = (case v of
       None \<Rightarrow> Inr None | Some JNull \<Rightarrow> Inr None
     | Some (JObj kvs) \<Rightarrow> map_result Some (counts_of kvs ''prompt_tokens'' ''completion_tokens'' ''total_tokens'')
     | _ \<Rightarrow> Inl ModelProvenanceError)"

subsection \<open>The constructor and the parser\<close>

definition createModelRuntimeProvenance ::
    "LlmRuntimeIdentity \<Rightarrow> string \<Rightarrow> ProviderResponseMetadata \<Rightarrow> int option \<Rightarrow> ModelProvenanceError + ModelRuntimeProvenance" where
  "createModelRuntimeProvenance runtime requestedModel response latencyMs =
     bind_result (safeModelId (Some (JStr requestedModel))) (\<lambda>requested.
     case runtime of
       DeterministicFixture \<Rightarrow> Inr (FixtureProvenance requested)
     | LiveProvider provider \<Rightarrow>
         if provider \<notin> set LIVE_PROVIDERS \<or> latencyMs = None then Inl ModelProvenanceError
         else
           bind_result (safeModelId (prm_model response)) (\<lambda>returned.
           bind_result (safeResponseId (prm_id response)) (\<lambda>responseId.
           bind_result (normalizeProviderUsage (prm_usage response)) (\<lambda>usage.
           bind_result (safeLatency (map_option JNum latencyMs)) (\<lambda>latency.
           Inr (LiveProvenance \<lparr>mp_provider = provider, mp_requestedModel = requested, mp_returnedModel = returned,
             mp_providerResponseId = responseId, mp_tokenUsage = usage, mp_latencyMs = latency\<rparr>))))))"

definition parse_live :: "(string \<times> json) list \<Rightarrow> string \<Rightarrow> ModelProvenanceError + ModelRuntimeProvenance" where
  "parse_live kvs requested =
     (case str_of (map_of kvs ''provider'') of
        None \<Rightarrow> Inl ModelProvenanceError
      | Some provider \<Rightarrow>
          if map_of kvs ''source'' \<noteq> Some (JStr ''live-provider'') \<or> map_of kvs ''modelCall'' \<noteq> Some (JBool True)
             \<or> provider \<notin> set LIVE_PROVIDERS
          then Inl ModelProvenanceError
          else
            bind_result (safeModelId (map_of kvs ''returnedModel'')) (\<lambda>returned.
            bind_result (safeResponseId (map_of kvs ''providerResponseId'')) (\<lambda>responseId.
            bind_result (parseTokenUsage (map_of kvs ''tokenUsage'')) (\<lambda>usage.
            bind_result (safeLatency (map_of kvs ''latencyMs'')) (\<lambda>latency.
            Inr (LiveProvenance \<lparr>mp_provider = provider, mp_requestedModel = requested, mp_returnedModel = returned,
              mp_providerResponseId = responseId, mp_tokenUsage = usage, mp_latencyMs = latency\<rparr>))))))"

definition parseModelRuntimeProvenance :: "json \<Rightarrow> ModelProvenanceError + ModelRuntimeProvenance" where
  "parseModelRuntimeProvenance v =
     (case own_fields v of
        None \<Rightarrow> Inl ModelProvenanceError
      | Some kvs \<Rightarrow>
          if \<not> hasExactKeys kvs PROVENANCE_KEYS then Inl ModelProvenanceError
          else if map_of kvs ''schemaVersion'' \<noteq> Some (JStr MODEL_PROVENANCE_SCHEMA_VERSION) then Inl ModelProvenanceError
          else bind_result (safeModelId (map_of kvs ''requestedModel'')) (\<lambda>requested.
            if map_of kvs ''source'' = Some (JStr ''deterministic-fixture'') then
              if map_of kvs ''modelCall'' \<noteq> Some (JBool False) \<or> map_of kvs ''provider'' \<noteq> Some (JStr ''fixture'')
                 \<or> map_of kvs ''returnedModel'' \<noteq> Some JNull \<or> map_of kvs ''providerResponseId'' \<noteq> Some JNull
                 \<or> map_of kvs ''tokenUsage'' \<noteq> Some JNull \<or> map_of kvs ''latencyMs'' \<noteq> Some JNull
              then Inl ModelProvenanceError
              else Inr (FixtureProvenance requested)
            else parse_live kvs requested))"

definition isModelRuntimeProvenance :: "json \<Rightarrow> bool" where
  "isModelRuntimeProvenance v = (case parseModelRuntimeProvenance v of Inl e \<Rightarrow> False | Inr p \<Rightarrow> True)"

subsection \<open>What is recorded\<close>

definition usage_json :: "ModelTokenUsage option \<Rightarrow> json" where
  "usage_json u = (case u of None \<Rightarrow> JNull | Some u \<Rightarrow> JObj [(''inputTokens'', JNum (tu_inputTokens u)),
     (''outputTokens'', JNum (tu_outputTokens u)), (''totalTokens'', JNum (tu_totalTokens u))])"

fun model_provenance_json :: "ModelRuntimeProvenance \<Rightarrow> json" where
  "model_provenance_json (FixtureProvenance m) = JObj [(''schemaVersion'', JStr MODEL_PROVENANCE_SCHEMA_VERSION),
     (''source'', JStr ''deterministic-fixture''), (''modelCall'', JBool False), (''provider'', JStr ''fixture''),
     (''requestedModel'', JStr m), (''returnedModel'', JNull), (''providerResponseId'', JNull), (''tokenUsage'', JNull),
     (''latencyMs'', JNull)]"
| "model_provenance_json (LiveProvenance p) = JObj [(''schemaVersion'', JStr MODEL_PROVENANCE_SCHEMA_VERSION),
     (''source'', JStr ''live-provider''), (''modelCall'', JBool True), (''provider'', JStr (mp_provider p)),
     (''requestedModel'', JStr (mp_requestedModel p)), (''returnedModel'', JStr (mp_returnedModel p)),
     (''providerResponseId'', JStr (mp_providerResponseId p)), (''tokenUsage'', usage_json (mp_tokenUsage p)),
     (''latencyMs'', JNum (mp_latencyMs p))]"

fun provenance_ids :: "ModelRuntimeProvenance \<Rightarrow> string list" where
  "provenance_ids (FixtureProvenance m) = [m]"
| "provenance_ids (LiveProvenance p) = [mp_requestedModel p, mp_returnedModel p, mp_providerResponseId p]"

definition count_ok :: "int \<Rightarrow> bool" where
  "count_ok n \<longleftrightarrow> is_safe_integer n \<and> 0 \<le> n"

definition valid_usage :: "ModelTokenUsage \<Rightarrow> bool" where
  "valid_usage u \<longleftrightarrow> count_ok (tu_inputTokens u) \<and> count_ok (tu_outputTokens u) \<and> count_ok (tu_totalTokens u)
     \<and> tu_totalTokens u = tu_inputTokens u + tu_outputTokens u"

fun valid_provenance :: "ModelRuntimeProvenance \<Rightarrow> bool" where
  "valid_provenance (FixtureProvenance m) \<longleftrightarrow> model_id_ok m"
| "valid_provenance (LiveProvenance p) \<longleftrightarrow> mp_provider p \<in> set LIVE_PROVIDERS \<and> model_id_ok (mp_requestedModel p)
     \<and> model_id_ok (mp_returnedModel p) \<and> response_id_ok (mp_providerResponseId p)
     \<and> (\<forall>u. mp_tokenUsage p = Some u \<longrightarrow> valid_usage u) \<and> count_ok (mp_latencyMs p) \<and> mp_latencyMs p \<le> MAX_LATENCY_MS"

lemma safe_Inr [simp]:
  "safeModelId v = Inr s \<longleftrightarrow> v = Some (JStr s) \<and> model_id_ok s"
  "safeResponseId v = Inr s \<longleftrightarrow> v = Some (JStr s) \<and> response_id_ok s"
  "safeCount v = Inr n \<longleftrightarrow> v = Some (JNum n) \<and> count_ok n"
  "safeLatency v = Inr n \<longleftrightarrow> v = Some (JNum n) \<and> count_ok n \<and> n \<le> MAX_LATENCY_MS"
  by (auto simp: safeModelId_def safeResponseId_def checked_text_def safeCount_def safeLatency_def count_ok_def
      split: option.splits json.splits if_splits)

lemma counts_of_Inr: "counts_of kvs i o' t = Inr u \<longleftrightarrow> valid_usage u \<and> map_of kvs i = Some (JNum (tu_inputTokens u))
    \<and> map_of kvs o' = Some (JNum (tu_outputTokens u)) \<and> map_of kvs t = Some (JNum (tu_totalTokens u))"
  by (auto simp: counts_of_def valid_usage_def)

lemma parse_usage_json: "\<forall>x. u = Some x \<longrightarrow> valid_usage x \<Longrightarrow> parseTokenUsage (Some (usage_json u)) = Inr u"
  by (cases u) (auto simp: parseTokenUsage_def usage_json_def hasExactKeys_def USAGE_KEYS_def counts_of_Inr)

lemma usage_Inr: "normalizeProviderUsage v = Inr u \<Longrightarrow> \<forall>x. u = Some x \<longrightarrow> valid_usage x"
  by (auto simp: normalizeProviderUsage_def counts_of_Inr split: option.splits json.splits)

lemma created_valid:
  assumes "createModelRuntimeProvenance runtime m response latency = Inr p"
  shows "valid_provenance p"
proof (cases runtime)
  case DeterministicFixture
  then show ?thesis using assms by (auto simp: createModelRuntimeProvenance_def)
next
  case (LiveProvider provider)
  then show ?thesis using assms usage_Inr by (auto simp: createModelRuntimeProvenance_def split: if_splits)
qed

lemma parse_provenance_json: "valid_provenance p \<Longrightarrow> parseModelRuntimeProvenance (model_provenance_json p) = Inr p"
proof (cases p)
  case (FixtureProvenance m)
  then show "valid_provenance p \<Longrightarrow> ?thesis"
    by (simp add: parseModelRuntimeProvenance_def hasExactKeys_def PROVENANCE_KEYS_def)
next
  case (LiveProvenance q)
  assume v: "valid_provenance p"
  then have "parse_live (the (own_fields (model_provenance_json p))) (mp_requestedModel q) = Inr p"
    using LiveProvenance parse_usage_json [of "mp_tokenUsage q"] by (simp add: parse_live_def)
  then show ?thesis
    using v LiveProvenance by (simp add: parseModelRuntimeProvenance_def hasExactKeys_def PROVENANCE_KEYS_def)
qed

lemma valid_ids: "valid_provenance p \<Longrightarrow> s \<in> set (provenance_ids p) \<Longrightarrow>
    \<not> is_credential_shaped s \<and> length s \<le> 200 \<and> list_all (word_or ''._:/-'') s"
  by (cases p) (auto simp: model_id_ok_def response_id_ok_def is_model_id_def is_response_id_def bounded_id_def word_or_def
      list_all_iff split: list.splits)

text \<open>
  C25: recorded provenance is bounded and reads back. Whatever a provider's response holds, a record the constructor
  returns is accepted unchanged by the parser, and none of its identifiers is longer than 200 characters, holds
  a character outside the allowed ones, or contains anything shaped like a credential at any position.
\<close>

theorem provenance_roundtrip:
  assumes "createModelRuntimeProvenance runtime requestedModel response latencyMs = Inr p"
  shows "parseModelRuntimeProvenance (model_provenance_json p) = Inr p
    \<and> (\<forall>s \<in> set (provenance_ids p). \<not> (\<exists>a b. s = a @ b \<and> credential_at b) \<and> length s \<le> 200
        \<and> list_all (word_or ''._:/-'') s)"
proof -
  have "is_credential_shaped s" if "s = a @ b" "credential_at b" for s a b
    using that by (auto simp: is_credential_shaped_def list_ex_iff suffix_def)
  then show ?thesis
    using parse_provenance_json valid_ids created_valid [OF assms] by blast
qed

definition demo_response :: ProviderResponseMetadata where
  "demo_response = \<lparr>prm_id = Some (JStr ''chatcmpl-1''), prm_model = Some (JStr ''qwen-max''),
     prm_usage = Some (JObj [(''prompt_tokens'', JNum 3), (''completion_tokens'', JNum 4), (''total_tokens'', JNum 7)])\<rparr>"

definition demo_provenance :: ModelRuntimeProvenance where
  "demo_provenance = LiveProvenance \<lparr>mp_provider = ''qwen'', mp_requestedModel = ''qwen-max'', mp_returnedModel = ''qwen-max'',
     mp_providerResponseId = ''chatcmpl-1'',
     mp_tokenUsage = Some \<lparr>tu_inputTokens = 3, tu_outputTokens = 4, tu_totalTokens = 7\<rparr>, mp_latencyMs = 12\<rparr>"

lemma demo_provenance_created:
  "createModelRuntimeProvenance (LiveProvider ''qwen'') ''qwen-max'' demo_response (Some 12) = Inr demo_provenance"
proof -
  have "model_id_ok ''qwen-max''" "response_id_ok ''chatcmpl-1''" by code_simp+
  then show ?thesis
    by (simp add: createModelRuntimeProvenance_def LIVE_PROVIDERS_def demo_response_def demo_provenance_def
        normalizeProviderUsage_def counts_of_Inr valid_usage_def count_ok_def is_safe_integer_def MAX_SAFE_INTEGER_def
        MAX_LATENCY_MS_def)
qed

theorem provenance_roundtrip_witness:
  "parseModelRuntimeProvenance (model_provenance_json demo_provenance) = Inr demo_provenance"
  using provenance_roundtrip [OF demo_provenance_created] by blast

end
