(* ===== verification/LineageAnalyzer.thy ===== *)
theory LineageAnalyzer
  imports VersionHistory
begin

section \<open>The lineage analyzer: \<open>src/agents/lineage-analyzer.ts\<close>\<close>

text \<open>
  How the self-audit's report becomes findings. What the sources print of a number or of a JSON value, and the
  one-line rationale of a recommendation, are fields of a record \<open>finding_prose\<close>; everything the program
  reads again from a finding (its type, severity, subject and attribute) is computed here.
\<close>

record finding_prose =
  fp_stringify :: "json \<Rightarrow> string"
  fp_number :: "rat option \<Rightarrow> string"
  fp_confidence :: "rat option \<Rightarrow> json"
  fp_rationale :: "AuditFact list \<Rightarrow> Contradiction \<Rightarrow> string"

fun resolution_rule_name :: "ResolutionRule \<Rightarrow> string" where
  "resolution_rule_name RULE_recency = ''recency''"
| "resolution_rule_name RULE_importance = ''importance''"
| "resolution_rule_name RULE_source_authority = ''source-authority''"

definition value_row_json :: "ContradictionValue \<Rightarrow> json" where
  "value_row_json v = JObj [(''factId'', JStr (cv_factId v)), (''source'', JStr (cv_source v)),
     (''value'', cv_value v), (''createdAt'', JStr (cv_createdAt v))]"

definition resolution_json :: "finding_prose \<Rightarrow> AuditFact list \<Rightarrow> Contradiction \<Rightarrow> json" where
  "resolution_json P facts c = (let r = ctr_resolution c in
     JObj [(''recommendedFactId'', JStr (rsl_recommendedFactId r)), (''recommendedValue'', rsl_recommendedValue r),
       (''rule'', JStr (resolution_rule_name (rsl_rule r))), (''confidence'', fp_confidence P (rsl_confidence r)),
       (''rationale'', JStr (fp_rationale P facts c))])"

definition contradictionFinding :: "finding_prose \<Rightarrow> AuditFact list \<Rightarrow> Contradiction \<Rightarrow> Finding" where
  "contradictionFinding P facts c =
     \<lparr>fnd_type = F_contradiction,
      fnd_severity = (if ctr_attribute c = ''fieldType'' then SEV_high else SEV_medium),
      fnd_subject = ctr_subject c,
      fnd_summary = ''Sources disagree on '' @ [CHR 0x27] @ ctr_attribute c @ [CHR 0x27] @ '' for '' @ ctr_subject c @ '': ''
        @ join '' vs '' (map (\<lambda>v. fp_stringify P (cv_value v) @ '' ('' @ cv_source v @ '')'') (ctr_values c)) @ ''.'',
      fnd_detail = JObj [(''attribute'', JStr (ctr_attribute c)), (''values'', JArr (map value_row_json (ctr_values c))),
        (''resolution'', resolution_json P facts c)],
      fnd_recommendation = Some (fp_rationale P facts c @ '' (recommended: ''
        @ fp_stringify P (rsl_recommendedValue (ctr_resolution c)) @ '', confidence ''
        @ fp_number P (rsl_confidence (ctr_resolution c)) @ ''). Read-only '' @ em_dash
        @ '' a steward decides.'')\<rparr>"

definition absence_finding :: "Absence \<Rightarrow> Finding" where
  "absence_finding a =
     \<lparr>fnd_type = F_lineage_gap, fnd_severity = SEV_medium, fnd_subject = abs_subject a,
      fnd_summary = ''Declared upstream '' @ abs_subject a @ '' is not catalogued '' @ em_dash
        @ '' a dangling lineage edge (schema-break risk to ''
        @ formatCount (length (abs_referencedBy a)) ''downstream consumer'' @ '').'',
      fnd_detail = JObj [(''referencedBy'', JArr (map (\<lambda>(factId, source).
        JObj [(''factId'', JStr factId), (''source'', JStr source)]) (abs_referencedBy a)))],
      fnd_recommendation = Some (''Ingest '' @ abs_subject a @ '' or correct the lineage declaration. Read-only ''
        @ em_dash @ '' a steward decides.'')\<rparr>"

definition toFindings :: "finding_prose \<Rightarrow> AuditFact list \<Rightarrow> ConsistencyReport \<Rightarrow> Finding list" where
  "toFindings P facts report = map (contradictionFinding P facts) (crp_contradictions report)
     @ map absence_finding (crp_absences report)"

definition default_audit :: AuditOptions where
  "default_audit = \<lparr>ao_numericTolerance = None, ao_kindAuthority = None, ao_requireDistinctSources = None\<rparr>"

definition analyze_facts :: "finding_prose \<Rightarrow> js_env \<Rightarrow> AuditFact list \<Rightarrow> Finding list" where
  "analyze_facts P E facts = toFindings P facts (auditConsistency E facts default_audit)"

definition analyzeVersionHistory ::
    "finding_prose \<Rightarrow> js_env \<Rightarrow> AspectVersionHistory list \<Rightarrow> JsTypeError + Finding list" where
  "analyzeVersionHistory P E hs = map_result (\<lambda>facts. toFindings P facts (auditConsistency E facts history_options))
     (history_facts hs)"

text \<open>The conflict a contradiction finding is about.\<close>

definition finding_attribute :: "Finding \<Rightarrow> string" where
  "finding_attribute f = or_else (str_of (obj_get (fnd_detail f) ''attribute'')) []"

definition about_conflict :: "string \<Rightarrow> string \<Rightarrow> Finding \<Rightarrow> bool" where
  "about_conflict subject attr f \<longleftrightarrow> fnd_type f = F_contradiction \<and> fnd_subject f = subject \<and> finding_attribute f = attr"

definition about_gap :: "string \<Rightarrow> Finding \<Rightarrow> bool" where
  "about_gap subject f \<longleftrightarrow> fnd_type f = F_lineage_gap \<and> fnd_subject f = subject"

lemma finding_fields [simp]:
  "fnd_type (contradictionFinding P facts c) = F_contradiction"
  "fnd_subject (contradictionFinding P facts c) = ctr_subject c"
  "finding_attribute (contradictionFinding P facts c) = ctr_attribute c"
  "fnd_type (absence_finding a) = F_lineage_gap"
  "fnd_subject (absence_finding a) = abs_subject a"
  "finding_attribute (absence_finding a) = []"
  by (simp_all add: contradictionFinding_def absence_finding_def finding_attribute_def)

lemma finding_details [simp]:
  "\<exists>kvs. fnd_detail (contradictionFinding P facts c) = JObj kvs"
  "\<exists>kvs. fnd_detail (absence_finding a) = JObj kvs"
  by (simp_all add: contradictionFinding_def absence_finding_def)

lemma toFindings_conflict: "(\<exists>f \<in> set (toFindings P facts r). about_conflict s a f) \<longleftrightarrow>
    (\<exists>c \<in> set (crp_contradictions r). ctr_subject c = s \<and> ctr_attribute c = a)"
  by (auto simp: toFindings_def about_conflict_def bex_Un)

lemma toFindings_gap: "(\<exists>f \<in> set (toFindings P facts r). about_gap s f) \<longleftrightarrow> (\<exists>x \<in> set (crp_absences r). abs_subject x = s)"
  by (auto simp: toFindings_def about_gap_def bex_Un)

lemma toFindings_types: "f \<in> set (toFindings P facts r) \<Longrightarrow> fnd_type f \<in> {F_contradiction, F_lineage_gap}"
  by (auto simp: toFindings_def)

lemma toFindings_objects: "f \<in> set (toFindings P facts r) \<Longrightarrow> \<exists>kvs. fnd_detail f = JObj kvs"
  by (auto simp: toFindings_def)

lemma analyze_facts_conflict:
  "(\<exists>f \<in> set (analyze_facts P E facts). about_conflict s a f) \<longleftrightarrow> flagged E facts default_audit s a"
  by (simp add: analyze_facts_def toFindings_conflict flagged_def)

end
