(* ===== verification/Report.thy ===== *)
theory Report
  imports Contracts Provenance Governance BlastRadius LineageAnalyzer
begin

section \<open>The audit report: \<open>src/pipeline/pipeline.ts\<close> and \<open>src/agents/narrator.ts\<close>\<close>

text \<open>
  The contract of a stored report, as a check on JSON values, and the pipeline that produces one: harvest,
  classification, the two audits of facts, the governance audit, the blast radius of every finding, and the
  narration. The harvest and the language model are arguments; whether the deadline passed first is one too.
\<close>

subsection \<open>The contract of a report\<close>

definition AUDIT_REPORT_KEYS :: "string list" where
  "AUDIT_REPORT_KEYS = [''schemaVersion'', ''scanId'', ''classification'', ''findings'', ''narrative'', ''modelProvenance'', ''trace'']"

definition CLASSIFICATION_KEYS :: "string list" where
  "CLASSIFICATION_KEYS = [''totalEntities'', ''withLineage'', ''sensitiveEntities'', ''domains'', ''platforms'']"

definition exactReportKeys :: "(string \<times> json) list \<Rightarrow> string list \<Rightarrow> string list \<Rightarrow> bool" where
  "exactReportKeys kvs allowed required \<longleftrightarrow> list_all (\<lambda>k. k \<in> set allowed) (map fst kvs)
     \<and> list_all (\<lambda>k. k \<in> set (map fst kvs)) required"

text \<open>Control characters other than tab, line feed and carriage return.\<close>

definition forbidden_char :: "char \<Rightarrow> bool" where
  "forbidden_char c \<longleftrightarrow> is_control c \<and> (of_char c :: nat) \<noteq> 9 \<and> (of_char c :: nat) \<noteq> 10 \<and> (of_char c :: nat) \<noteq> 13"

definition bounded_text :: "nat \<Rightarrow> string \<Rightarrow> bool" where
  "bounded_text maximum s \<longleftrightarrow> s \<noteq> [] \<and> length s \<le> maximum \<and> \<not> list_ex forbidden_char s"

fun boundedText :: "json option \<Rightarrow> nat \<Rightarrow> bool" where
  "boundedText (Some (JStr s)) maximum = bounded_text maximum s"
| "boundedText _ maximum = False"

fun report_count :: "json option \<Rightarrow> int option" where
  "report_count (Some (JNum n)) = (if is_safe_integer n \<and> 0 \<le> n then Some n else None)"
| "report_count _ = None"

definition safeReportCount :: "json option \<Rightarrow> bool" where
  "safeReportCount v \<longleftrightarrow> report_count v \<noteq> None"

definition isCountMap :: "json option \<Rightarrow> bool" where
  "isCountMap v = (case Option.bind v own_fields of None \<Rightarrow> False
     | Some kvs \<Rightarrow> length kvs \<le> 1000
         \<and> list_all (\<lambda>(key, count). boundedText (Some (JStr key)) 256 \<and> safeReportCount (Some count)) kvs)"

definition isClassification :: "json option \<Rightarrow> bool" where
  "isClassification v = (case Option.bind v own_fields of None \<Rightarrow> False
     | Some kvs \<Rightarrow> exactReportKeys kvs CLASSIFICATION_KEYS CLASSIFICATION_KEYS
         \<and> (case (report_count (map_of kvs ''totalEntities''), report_count (map_of kvs ''withLineage''),
                report_count (map_of kvs ''sensitiveEntities'')) of
              (Some n, Some lineage, Some sensitive) \<Rightarrow> lineage \<le> n \<and> sensitive \<le> n
            | _ \<Rightarrow> False)
         \<and> isCountMap (map_of kvs ''domains'') \<and> isCountMap (map_of kvs ''platforms''))"

definition isFinding :: "json \<Rightarrow> bool" where
  "isFinding v = (case own_fields v of None \<Rightarrow> False
     | Some kvs \<Rightarrow>
         exactReportKeys kvs [''type'', ''severity'', ''subject'', ''summary'', ''detail'', ''recommendation'']
           [''type'', ''severity'', ''subject'', ''summary'', ''detail'']
         \<and> str_of (map_of kvs ''type'') \<in> Some ` {''contradiction'', ''lineage_gap'', ''governance_violation''}
         \<and> str_of (map_of kvs ''severity'') \<in> Some ` {''low'', ''medium'', ''high''}
         \<and> boundedText (map_of kvs ''subject'') 2048 \<and> boundedText (map_of kvs ''summary'') 4000
         \<and> Option.bind (map_of kvs ''detail'') own_fields \<noteq> None
         \<and> (map_of kvs ''recommendation'' = None \<or> boundedText (map_of kvs ''recommendation'') 4000))"

definition isTraceStep :: "json \<Rightarrow> bool" where
  "isTraceStep v = (case own_fields v of None \<Rightarrow> False
     | Some kvs \<Rightarrow> exactReportKeys kvs [''agent'', ''produced''] [''agent'', ''produced'']
         \<and> boundedText (map_of kvs ''agent'') 128 \<and> boundedText (map_of kvs ''produced'') 2000)"

fun isTrace :: "json option \<Rightarrow> bool" where
  "isTrace (Some (JArr vs)) = (length vs \<le> 32 \<and> list_all isTraceStep vs)"
| "isTrace _ = False"

fun isFindings :: "json option \<Rightarrow> bool" where
  "isFindings (Some (JArr vs)) = (length vs \<le> 10000 \<and> list_all isFinding vs)"
| "isFindings _ = False"

definition isAuditReport :: "json \<Rightarrow> bool" where
  "isAuditReport v = (case own_fields v of None \<Rightarrow> False
     | Some kvs \<Rightarrow> exactReportKeys kvs AUDIT_REPORT_KEYS AUDIT_REPORT_KEYS
         \<and> map_of kvs ''schemaVersion'' = Some (JStr ''archon.audit-report/v1'')
         \<and> boundedText (map_of kvs ''scanId'') 512 \<and> isClassification (map_of kvs ''classification'')
         \<and> isFindings (map_of kvs ''findings'') \<and> boundedText (map_of kvs ''narrative'') 8000
         \<and> (case map_of kvs ''modelProvenance'' of None \<Rightarrow> False | Some p \<Rightarrow> isModelRuntimeProvenance p)
         \<and> isTrace (map_of kvs ''trace''))"

subsection \<open>Reports and their JSON\<close>

record TraceStep =
  tr_agent :: string
  tr_produced :: string

record AuditReport =
  ar_scanId :: string
  ar_classification :: Classification
  ar_findings :: "Finding list"
  ar_narrative :: string
  ar_modelProvenance :: ModelRuntimeProvenance
  ar_trace :: "TraceStep list"

fun finding_type_name :: "FindingType \<Rightarrow> string" where
  "finding_type_name F_contradiction = ''contradiction''"
| "finding_type_name F_lineage_gap = ''lineage_gap''"
| "finding_type_name F_governance_violation = ''governance_violation''"

fun severity_name :: "Severity \<Rightarrow> string" where
  "severity_name SEV_low = ''low''" | "severity_name SEV_medium = ''medium''" | "severity_name SEV_high = ''high''"

fun impact_name :: "Impact \<Rightarrow> string" where
  "impact_name IMP_none = ''none''" | "impact_name IMP_low = ''low''" | "impact_name IMP_medium = ''medium''"
| "impact_name IMP_high = ''high''" | "impact_name IMP_critical = ''critical''"

definition counts_json :: "(string \<times> nat) list \<Rightarrow> json" where
  "counts_json m = JObj (map (\<lambda>(k, n). (k, JNum (int n))) m)"

definition classification_json :: "Classification \<Rightarrow> json" where
  "classification_json c = JObj [(''totalEntities'', JNum (int (cls_totalEntities c))),
     (''withLineage'', JNum (int (cls_withLineage c))), (''sensitiveEntities'', JNum (int (cls_sensitiveEntities c))),
     (''domains'', counts_json (cls_domains c)), (''platforms'', counts_json (cls_platforms c))]"

definition audit_finding_json :: "Finding \<Rightarrow> json" where
  "audit_finding_json f = JObj ([(''type'', JStr (finding_type_name (fnd_type f))),
     (''severity'', JStr (severity_name (fnd_severity f))), (''subject'', JStr (fnd_subject f)),
     (''summary'', JStr (fnd_summary f)), (''detail'', fnd_detail f)]
     @ opt_field ''recommendation'' JStr (fnd_recommendation f))"

definition trace_json :: "TraceStep \<Rightarrow> json" where
  "trace_json t = JObj [(''agent'', JStr (tr_agent t)), (''produced'', JStr (tr_produced t))]"

definition report_json :: "AuditReport \<Rightarrow> json" where
  "report_json r = JObj [(''schemaVersion'', JStr ''archon.audit-report/v1''), (''scanId'', JStr (ar_scanId r)),
     (''classification'', classification_json (ar_classification r)),
     (''findings'', JArr (map audit_finding_json (ar_findings r))), (''narrative'', JStr (ar_narrative r)),
     (''modelProvenance'', model_provenance_json (ar_modelProvenance r)), (''trace'', JArr (map trace_json (ar_trace r)))]"

definition impact_json :: "BlastRadiusResult \<Rightarrow> json" where
  "impact_json b = JObj [(''rootUrn'', JStr (brr_rootUrn b)),
     (''downstream'', JArr (map (\<lambda>a. JObj [(''urn'', JStr (imp_urn a)), (''minHops'', JNum (imp_minHops a))]) (brr_downstream b))),
     (''maxHops'', JNum (brr_maxHops b)), (''truncated'', JBool (brr_truncated b)),
     (''impact'', JStr (impact_name (brr_impact b)))]"

subsection \<open>\<open>NarratorAgent.summarize\<close>\<close>

datatype PipelineError = HarvestThrew DataHubHarvestError | PolicyThrew GovernanceError | ProvenanceThrew
  | HistoryThrew JsTypeError | ClientThrew string | PlainThrew string

text \<open>A response of the language model: its metadata and the text of its first choice.\<close>

record ChatResponse =
  chat_id :: "json option"
  chat_model :: "json option"
  chat_usage :: "json option"
  chat_content :: "string option"

fun sev :: "Severity \<Rightarrow> int" where
  "sev SEV_high = 3" | "sev SEV_medium = 2" | "sev SEV_low = 1"

definition tally :: "Finding list \<Rightarrow> FindingType \<Rightarrow> nat" where
  "tally fs t = length (filter (\<lambda>f. fnd_type f = t) fs)"

definition newline :: string where "newline = [CHR 0x0A]"

definition narrator_prompt :: "Finding list \<Rightarrow> Classification \<Rightarrow> string" where
  "narrator_prompt findings c =
     (let evidence = ''EVIDENCE: contradictions='' @ show_nat (tally findings F_contradiction)
            @ '' lineage_gaps='' @ show_nat (tally findings F_lineage_gap)
            @ '' governance_violations='' @ show_nat (tally findings F_governance_violation);
          top = join newline (map (\<lambda>f. ''  - ['' @ finding_type_name (fnd_type f) @ ''/''
              @ severity_name (fnd_severity f) @ ''] '' @ fnd_summary f)
            (take 8 (js_sort (\<lambda>a b. sev (fnd_severity b) - sev (fnd_severity a)) findings))) in
      join newline [''CATALOG CLASSIFICATION: '' @ formatCount (cls_totalEntities c) ''entity'' @ '', ''
          @ show_nat (cls_withLineage c) @ '' with lineage, '' @ show_nat (cls_sensitiveEntities c)
          @ '' with sensitive fields.'', evidence, ''TOP FINDINGS:'', (if top = [] then ''  (none)'' else top), [],
        ''Write the executive summary now.''])"

definition provenance_of ::
    "LlmRuntimeIdentity \<Rightarrow> string \<Rightarrow> ChatResponse \<Rightarrow> int \<Rightarrow> PipelineError + ModelRuntimeProvenance" where
  "provenance_of runtime modelId res elapsed = rethrow ProvenanceThrew
     (createModelRuntimeProvenance runtime modelId
       \<lparr>prm_id = chat_id res, prm_model = chat_model res, prm_usage = chat_usage res\<rparr>
       (case runtime of DeterministicFixture \<Rightarrow> None | LiveProvider _ \<Rightarrow> Some elapsed))"

record Llm =
  llm_runtime :: LlmRuntimeIdentity
  llm_modelId :: string
  llm_chat :: "string \<Rightarrow> PipelineError + ChatResponse"
  llm_elapsed :: int

definition summarize :: "Llm \<Rightarrow> Finding list \<Rightarrow> Classification \<Rightarrow> PipelineError + (string \<times> ModelRuntimeProvenance)" where
  "summarize llm findings c =
     bind_result (llm_chat llm (narrator_prompt findings c)) (\<lambda>res.
     let text = trim (or_else (chat_content res) []);
         narrative = (if text = [] then ''(no summary produced)'' else text) in
     if length narrative > 8000 \<or> list_ex forbidden_char narrative
     then Inl (PlainThrew ''The model narration did not satisfy the bounded text contract.'')
     else map_result (Pair narrative) (provenance_of (llm_runtime llm) (llm_modelId llm) res (llm_elapsed llm)))"

subsection \<open>\<open>AuditPipeline.run\<close>\<close>

text \<open>An error of a component, as an error of the pipeline.\<close>

fun throws :: "('e \<Rightarrow> 'f) \<Rightarrow> 'e + 'a \<Rightarrow> 'f + 'a" where
  "throws f (Inl e) = Inl (f e)"
| "throws f (Inr a) = Inr a"

record AuditHarvest =
  hv_snapshot :: CatalogSnapshot
  hv_facts :: "AuditFact list"
  hv_versionHistories :: "AspectVersionHistory list"

record PipelineAgents =
  pa_env :: js_env
  pa_policy :: GovernancePolicy
  pa_prose :: finding_prose
  pa_llm :: Llm

text \<open>The identity of a finding: its type, its subject and the attribute it is about.\<close>

definition finding_key :: "Finding \<Rightarrow> FindingType \<times> string \<times> string" where
  "finding_key f = (fnd_type f, fnd_subject f, finding_attribute f)"

fun dedupe_findings_from :: "(FindingType \<times> string \<times> string) list \<Rightarrow> Finding list \<Rightarrow> Finding list" where
  "dedupe_findings_from seen [] = []"
| "dedupe_findings_from seen (f # fs) =
     (if finding_key f \<in> set seen then dedupe_findings_from seen fs
      else f # dedupe_findings_from (finding_key f # seen) fs)"

definition dedupeFindings :: "Finding list \<Rightarrow> Finding list" where
  "dedupeFindings fs = dedupe_findings_from [] fs"

text \<open>\<open>{ ...detail, blastRadius }\<close>\<close>

definition default_radius :: BlastRadiusOptions where
  "default_radius = \<lparr>bro_maxHops = None, bro_maxAssets = None\<rparr>"

definition with_blast_radius :: "CatalogSnapshot \<Rightarrow> Finding \<Rightarrow> PipelineError + Finding" where
  "with_blast_radius snapshot f =
     (case computeBlastRadius snapshot (fnd_subject f) default_radius of
        Inl e \<Rightarrow> Inl (HarvestThrew e)
      | Inr b \<Rightarrow> Inr (f\<lparr>fnd_detail := JObj (AList.update ''blastRadius'' (impact_json b)
          (or_else (own_fields (fnd_detail f)) []))\<rparr>))"

definition finding_order :: "js_env \<Rightarrow> Finding \<Rightarrow> Finding \<Rightarrow> int" where
  "finding_order E a b =
     (let s = sev (fnd_severity b) - sev (fnd_severity a);
          t = localeCompare E (finding_type_name (fnd_type a)) (finding_type_name (fnd_type b)) in
      if s \<noteq> 0 then s else if t \<noteq> 0 then t else localeCompare E (fnd_subject a) (fnd_subject b))"

definition pipeline_trace :: "Classification \<Rightarrow> nat \<Rightarrow> nat \<Rightarrow> nat \<Rightarrow> TraceStep list" where
  "pipeline_trace c lineage recovered governance =
     [\<lparr>tr_agent = ''classifier'', tr_produced = formatCount (cls_totalEntities c) ''entity'' @ '' classified''\<rparr>,
      \<lparr>tr_agent = ''lineage-analyzer'', tr_produced = formatCount lineage ''contradiction/lineage finding'' @ '' (''
        @ show_nat recovered @ '' recovered from aspect version history)''\<rparr>,
      \<lparr>tr_agent = ''governance-auditor'', tr_produced = formatCount governance ''governance finding''\<rparr>,
      \<lparr>tr_agent = ''narrator'', tr_produced = ''executive summary''\<rparr>]"

definition assertAuditReport :: "AuditReport \<Rightarrow> PipelineError + AuditReport" where
  "assertAuditReport r = (if isAuditReport (report_json r) then Inr r
     else Inl (PlainThrew ''Audit report is absent or does not satisfy archon.audit-report/v1.''))"

definition run_pipeline :: "PipelineAgents \<Rightarrow> PipelineError + AuditHarvest \<Rightarrow> PipelineError + AuditReport" where
  "run_pipeline A harvested =
     bind_result harvested (\<lambda>h.
     let snapshot = hv_snapshot h; classification = classify snapshot; factFindings = analyze_facts (pa_prose A) (pa_env A) (hv_facts h) in
     bind_result (throws HistoryThrew (analyzeVersionHistory (pa_prose A) (pa_env A) (hv_versionHistories h)))
       (\<lambda>historyFindings.
     let lineageFindings = dedupeFindings (factFindings @ historyFindings);
         recovered = tally historyFindings F_contradiction in
     bind_result (throws PolicyThrew (governance_audit (pa_policy A) snapshot))
       (\<lambda>governanceFindings.
     bind_result (collect (map (with_blast_radius snapshot) (lineageFindings @ governanceFindings))) (\<lambda>extended.
     let findings = js_sort (finding_order (pa_env A)) extended in
     bind_result (summarize (pa_llm A) findings classification) (\<lambda>(narrative, provenance).
     assertAuditReport
       \<lparr>ar_scanId = snap_scanId snapshot, ar_classification = classification, ar_findings = findings,
        ar_narrative = narrative, ar_modelProvenance = provenance,
        ar_trace = pipeline_trace classification (length lineageFindings) recovered (length governanceFindings)\<rparr>)))))"

text \<open>\<open>run\<close>: the deadline of the execution profile wins the race or it does not.\<close>

definition pipeline_run :: "PipelineAgents \<Rightarrow> bool \<Rightarrow> PipelineError + AuditHarvest \<Rightarrow> PipelineError + AuditReport" where
  "pipeline_run A late harvested =
     (if late then Inl (HarvestThrew (DataHubHarvestError PIPELINE_DEADLINE_EXCEEDED
        ''The audit pipeline exceeded its hosted execution deadline.''))
      else run_pipeline A harvested)"


subsection \<open>What a report holds\<close>

lemma throws_Inr [simp]: "throws f r = Inr a \<longleftrightarrow> r = Inr a"
  by (cases r) auto

lemma collect_map_all2: "collect (map f xs) = Inr ys \<longleftrightarrow> list_all2 (\<lambda>x y. f x = Inr y) xs ys"
  by (induction xs arbitrary: ys) (auto simp: list_all2_Cons1 collect_Inr_iff)

text \<open>A finding keeps what it says when its impact is added.\<close>

definition is_rule :: "string \<Rightarrow> RuleId \<Rightarrow> Finding \<Rightarrow> bool" where
  "is_rule subject rule f \<longleftrightarrow> fnd_type f = F_governance_violation \<and> fnd_subject f = subject
     \<and> obj_get (fnd_detail f) ''ruleId'' = Some (JStr (rule_name rule))"

lemma with_blast_radius_Inr:
  assumes "with_blast_radius snap f = Inr g" "\<exists>kvs. fnd_detail f = JObj kvs"
  shows "finding_key g = finding_key f" "is_rule s rule g = is_rule s rule f"
    "\<exists>b. computeBlastRadius snap (fnd_subject g) default_radius = Inr b
      \<and> obj_get (fnd_detail g) ''blastRadius'' = Some (impact_json b)"
  using assms by (auto simp: with_blast_radius_def finding_key_def finding_attribute_def is_rule_def update_conv'
      split: sum.splits)

lemma set_dedupe_findings: "finding_key ` set (dedupe_findings_from seen fs) = finding_key ` set fs - set seen"
  by (induction seen fs rule: dedupe_findings_from.induct) auto

lemma distinct_dedupe_findings: "distinct (map finding_key (dedupe_findings_from seen fs))"
proof (induction seen fs rule: dedupe_findings_from.induct)
  case (2 seen f fs)
  then show ?case using set_dedupe_findings [of "finding_key f # seen" fs] by auto
qed simp

lemma dedupe_findings_subset: "set (dedupe_findings_from seen fs) \<subseteq> set fs"
  by (induction seen fs rule: dedupe_findings_from.induct) auto

lemma governance_finding_fields [simp]:
  "fnd_type (governance_finding r) = F_governance_violation" "fnd_subject (governance_finding r) = gr_subject r"
  "is_rule s rule (governance_finding r) \<longleftrightarrow> gr_subject r = s \<and> gr_ruleId r = rule"
proof -
  have "rule_name a = rule_name b \<longleftrightarrow> a = b" for a b by (cases a; cases b) simp_all
  then show "is_rule s rule (governance_finding r) \<longleftrightarrow> gr_subject r = s \<and> gr_ruleId r = rule"
    by (auto simp: is_rule_def governance_finding_def)
qed (simp_all add: governance_finding_def)

lemma governance_audit_Inr:
  assumes "governance_audit p snap = Inr fs"
  shows "\<forall>f \<in> set fs. fnd_type f = F_governance_violation \<and> (\<exists>kvs. fnd_detail f = JObj kvs)"
    and "(\<exists>f \<in> set fs. is_rule s rule f) \<longleftrightarrow> (\<exists>e \<in> set (snap_entities snap). ent_urn e = s \<and> \<not> rule_holds p snap e rule)"
proof -
  obtain rs where rs: "governance_validate p snap = Inr rs" "fs = map governance_finding (filter (\<lambda>r. \<not> gr_passed r) rs)"
    using assms by (auto simp: governance_audit_def)
  have fields: "fnd_type f = F_governance_violation \<and> (\<exists>kvs. fnd_detail f = JObj kvs)" if "f \<in> set fs" for f
    using that by (auto simp: rs(2) governance_finding_def)
  then show "\<forall>f \<in> set fs. fnd_type f = F_governance_violation \<and> (\<exists>kvs. fnd_detail f = JObj kvs)" by blast
  have "map verdict rs = concat (map (\<lambda>e. map (\<lambda>r. (ent_urn e, r, rule_holds p snap e r)) [G1, G2, G3, G4, G5, G6])
      (snap_entities snap))"
    using validate_verdicts [of p snap] rs(1) by (simp split: if_splits)
  then have "(s, rule, False) \<in> verdict ` set rs \<longleftrightarrow>
      (\<exists>e \<in> set (snap_entities snap). (s, rule, False) \<in> set (map (\<lambda>r. (ent_urn e, r, rule_holds p snap e r)) [G1, G2, G3, G4, G5, G6]))"
    unfolding set_map [symmetric] by (simp only: set_concat set_map UN_iff image_image)
  also have "\<dots> \<longleftrightarrow> (\<exists>e \<in> set (snap_entities snap). ent_urn e = s \<and> \<not> rule_holds p snap e rule)"
    by (cases rule) (auto simp del: rule_holds.simps)
  finally have "(s, rule, False) \<in> verdict ` set rs \<longleftrightarrow> \<dots>" .
  moreover have "(\<exists>f \<in> set fs. is_rule s rule f) \<longleftrightarrow> (s, rule, False) \<in> verdict ` set rs"
    by (force simp: rs(2) verdict_def)
  ultimately show "(\<exists>f \<in> set fs. is_rule s rule f) \<longleftrightarrow> (\<exists>e \<in> set (snap_entities snap). ent_urn e = s \<and> \<not> rule_holds p snap e rule)"
    by blast
qed

text \<open>A comparison by two criteria, the second deciding ties of the first.\<close>

lemma comparator_then:
  assumes "comparator c" "comparator d"
  shows "comparator (\<lambda>a b. if c a b \<noteq> 0 then c a b else d a b)"
proof -
  have sym: "0 \<le> c a b \<longleftrightarrow> c b a \<le> 0" "0 \<le> d a b \<longleftrightarrow> d b a \<le> 0" for a b
    using assms by (simp_all add: comparator_def)
  have zero: "c a b = 0 \<longleftrightarrow> c b a = 0" for a b using sym(1) [of a b] sym(1) [of b a] by linarith
  have trans: "c a b \<le> 0 \<Longrightarrow> c b e \<le> 0 \<Longrightarrow> c a e \<le> 0" "d a b \<le> 0 \<Longrightarrow> d b e \<le> 0 \<Longrightarrow> d a e \<le> 0" for a b e
    using assms unfolding comparator_def by blast+
  have tied: "c a b = 0 \<and> c b e = 0" if "c a b \<le> 0" "c b e \<le> 0" "c a e = 0" for a b e
  proof -
    have "c e a \<le> 0" using that(3) zero [of a e] by simp
    then have "c b a \<le> 0" "c e b \<le> 0" using that trans(1) by blast+
    then show ?thesis using that(1,2) sym(1) [of a b] sym(1) [of b e] by linarith
  qed
  show ?thesis
  proof
    show "0 \<le> (if c a b \<noteq> 0 then c a b else d a b) \<longleftrightarrow> (if c b a \<noteq> 0 then c b a else d b a) \<le> 0" for a b
      using sym zero by auto
    show "(if c a e \<noteq> 0 then c a e else d a e) \<le> 0"
      if "(if c a b \<noteq> 0 then c a b else d a b) \<le> 0" "(if c b e \<noteq> 0 then c b e else d b e) \<le> 0" for a b e
    proof -
      have le: "c a b \<le> 0" "c b e \<le> 0" using that by (simp_all split: if_splits)
      have "d a e \<le> 0" if "c a e = 0"
        using tied [OF le that] that trans(2) [of a b e] \<open>(if c a b \<noteq> 0 then c a b else d a b) \<le> 0\<close>
          \<open>(if c b e \<noteq> 0 then c b e else d b e) \<le> 0\<close> by simp
      then show ?thesis using trans(1) [OF le] by simp
    qed
  qed
qed

lemma comparator_finding_order:
  assumes "consistent_collation E"
  shows "comparator (finding_order E)"
proof -
  have severity: "comparator (\<lambda>a b. sev (fnd_severity b) - sev (fnd_severity a))" by unfold_locales auto
  have collation: "comparator (\<lambda>a b. localeCompare E (f a) (f b))" for f :: "Finding \<Rightarrow> string"
    using assms comparator_key unfolding consistent_collation_def by blast
  show ?thesis
    using comparator_then [OF severity comparator_then [OF collation collation],
        of "\<lambda>f. finding_type_name (fnd_type f)" fnd_subject]
    by (simp add: finding_order_def [abs_def] Let_def)
qed

text \<open>The findings before the narration.\<close>

definition raw_findings :: "PipelineAgents \<Rightarrow> AuditHarvest \<Rightarrow> AuditFact list \<Rightarrow> Finding list \<Rightarrow> Finding list" where
  "raw_findings A h history governance = dedupeFindings (analyze_facts (pa_prose A) (pa_env A) (hv_facts h)
     @ toFindings (pa_prose A) history (auditConsistency (pa_env A) history history_options)) @ governance"

lemma run_pipeline_Inr:
  assumes "run_pipeline A (Inr h) = Inr r"
  obtains history governance extended where
    "history_facts (hv_versionHistories h) = Inr history"
    "governance_audit (pa_policy A) (hv_snapshot h) = Inr governance"
    "list_all2 (\<lambda>f g. with_blast_radius (hv_snapshot h) f = Inr g) (raw_findings A h history governance) extended"
    "ar_findings r = js_sort (finding_order (pa_env A)) extended" "isAuditReport (report_json r)"
    "ar_scanId r = snap_scanId (hv_snapshot h)" "ar_classification r = classify (hv_snapshot h)"
proof -
  have "\<exists>history governance extended. history_facts (hv_versionHistories h) = Inr history
      \<and> governance_audit (pa_policy A) (hv_snapshot h) = Inr governance
      \<and> collect (map (with_blast_radius (hv_snapshot h)) (raw_findings A h history governance)) = Inr extended
      \<and> ar_findings r = js_sort (finding_order (pa_env A)) extended \<and> isAuditReport (report_json r)
      \<and> ar_scanId r = snap_scanId (hv_snapshot h) \<and> ar_classification r = classify (hv_snapshot h)"
    using assms by (auto simp: run_pipeline_def Let_def analyzeVersionHistory_def raw_findings_def assertAuditReport_def
        split: prod.splits if_splits)
  then show thesis using that unfolding collect_map_all2 by blast
qed

text \<open>What the findings before the narration are about, and what adding the impact leaves.\<close>

lemma about_key: "about_conflict s a f \<longleftrightarrow> finding_key f = (F_contradiction, s, a)"
  "about_gap s f \<longleftrightarrow> (\<exists>a. finding_key f = (F_lineage_gap, s, a))"
  by (auto simp: about_conflict_def about_gap_def finding_key_def)

lemma raw_findings_objects:
  assumes "governance_audit p snap = Inr governance" "f \<in> set (raw_findings A h history governance)"
  shows "\<exists>kvs. fnd_detail f = JObj kvs"
proof (cases "f \<in> set governance")
  case False
  then have "f \<in> set (dedupeFindings (analyze_facts (pa_prose A) (pa_env A) (hv_facts h)
      @ toFindings (pa_prose A) history (auditConsistency (pa_env A) history history_options)))"
    using assms(2) by (simp add: raw_findings_def)
  then have "f \<in> set (analyze_facts (pa_prose A) (pa_env A) (hv_facts h))
      \<or> f \<in> set (toFindings (pa_prose A) history (auditConsistency (pa_env A) history history_options))"
    using dedupe_findings_subset unfolding dedupeFindings_def by (metis Un_iff set_append subsetD)
  then show ?thesis using toFindings_objects unfolding analyze_facts_def by blast
qed (use governance_audit_Inr(1) [OF assms(1)] in blast)

lemma all2_ex: "list_all2 R xs ys \<Longrightarrow> (\<And>x y. x \<in> set xs \<Longrightarrow> R x y \<Longrightarrow> P x = Q y) \<Longrightarrow>
    (\<exists>x \<in> set xs. P x) \<longleftrightarrow> (\<exists>y \<in> set ys. Q y)"
  by (induction rule: list_all2_induct) auto

lemma all2_map: "list_all2 R xs ys \<Longrightarrow> (\<And>x y. x \<in> set xs \<Longrightarrow> R x y \<Longrightarrow> f x = g y) \<Longrightarrow> map f xs = map g ys"
  by (induction rule: list_all2_induct) auto

lemma raw_findings_about:
  fixes h history
  assumes "governance_audit (pa_policy A) snap = Inr governance"
  defines "raw \<equiv> raw_findings A h history governance"
  shows "(\<exists>f \<in> set raw. about_conflict s a f) \<longleftrightarrow>
      flagged (pa_env A) (hv_facts h) default_audit s a \<or> flagged (pa_env A) history history_options s a"
    and "(\<exists>f \<in> set raw. about_gap s f) \<longleftrightarrow> s \<in> abs_subject ` set (absences (hv_facts h) @ absences history)"
    and "distinct (map finding_key (filter (\<lambda>f. fnd_type f \<noteq> F_governance_violation) raw))"
    and "(\<exists>f \<in> set raw. is_rule s rule f) \<longleftrightarrow>
      (\<exists>e \<in> set (snap_entities snap). ent_urn e = s \<and> \<not> rule_holds (pa_policy A) snap e rule)"
proof -
  let ?facts = "analyze_facts (pa_prose A) (pa_env A) (hv_facts h)"
  let ?hist = "toFindings (pa_prose A) history (auditConsistency (pa_env A) history history_options)"
  note governance = governance_audit_Inr [OF assms(1)]
  have keys: "finding_key ` set (dedupeFindings fs) = finding_key ` set fs" for fs
    by (simp add: dedupeFindings_def set_dedupe_findings)
  have by_key: "(\<exists>f \<in> set raw. k (finding_key f)) \<longleftrightarrow>
      (\<exists>f \<in> set ?facts. k (finding_key f)) \<or> (\<exists>f \<in> set ?hist. k (finding_key f))"
    if "\<And>s a. \<not> k (F_governance_violation, s, a)" for k
  proof -
    have none: "\<not> (\<exists>f \<in> set governance. k (finding_key f))" using governance(1) that by (auto simp: finding_key_def)
    have "(\<exists>f \<in> set (dedupeFindings (?facts @ ?hist)). k (finding_key f)) \<longleftrightarrow>
        (\<exists>x \<in> finding_key ` set (dedupeFindings (?facts @ ?hist)). k x)" by simp
    then show ?thesis using none unfolding keys raw_def raw_findings_def by (auto simp: bex_Un)
  qed
  show "(\<exists>f \<in> set raw. about_conflict s a f) \<longleftrightarrow>
      flagged (pa_env A) (hv_facts h) default_audit s a \<or> flagged (pa_env A) history history_options s a"
    using by_key [of "\<lambda>x. x = (F_contradiction, s, a)"] unfolding about_key(1) [symmetric]
    by (simp add: analyze_facts_conflict toFindings_conflict flagged_def)
  have gap: "(\<exists>f \<in> set (toFindings P fs (auditConsistency E fs opts)). about_gap s f) \<longleftrightarrow> s \<in> abs_subject ` set (absences fs)"
    for P fs E opts
    unfolding toFindings_gap by (auto simp: auditConsistency_def Let_def)
  show "(\<exists>f \<in> set raw. about_gap s f) \<longleftrightarrow> s \<in> abs_subject ` set (absences (hv_facts h) @ absences history)"
    using by_key [of "\<lambda>x. \<exists>a. x = (F_lineage_gap, s, a)"] unfolding about_key(2) [symmetric] analyze_facts_def gap
    by (simp add: image_Un)
  have lineage: "fnd_type f \<noteq> F_governance_violation" if "f \<in> set (dedupeFindings (?facts @ ?hist))" for f
    using that dedupe_findings_subset toFindings_types unfolding dedupeFindings_def analyze_facts_def
    by (metis FindingType.distinct(3,5) Un_iff empty_iff insert_iff set_append subsetD)
  then have "filter (\<lambda>f. fnd_type f \<noteq> F_governance_violation) raw = dedupeFindings (?facts @ ?hist)"
    using governance(1) by (simp add: raw_def raw_findings_def)
  then show "distinct (map finding_key (filter (\<lambda>f. fnd_type f \<noteq> F_governance_violation) raw))"
    by (simp add: dedupeFindings_def distinct_dedupe_findings)
  have "(\<exists>f \<in> set raw. is_rule s rule f) \<longleftrightarrow> (\<exists>f \<in> set governance. is_rule s rule f)"
    using lineage by (auto simp: raw_def raw_findings_def is_rule_def)
  then show "(\<exists>f \<in> set raw. is_rule s rule f) \<longleftrightarrow>
      (\<exists>e \<in> set (snap_entities snap). ent_urn e = s \<and> \<not> rule_holds (pa_policy A) snap e rule)"
    using governance(2) by simp
qed

lemma raw_findings_extended:
  assumes audit: "governance_audit (pa_policy A) snap = Inr governance"
    and all: "list_all2 (\<lambda>f g. with_blast_radius snap f = Inr g) (raw_findings A h history governance) extended"
  shows "distinct (map finding_key (filter (\<lambda>f. fnd_type f \<noteq> F_governance_violation) extended))"
    and "(\<exists>f \<in> set extended. about_conflict s a f) \<longleftrightarrow>
      flagged (pa_env A) (hv_facts h) default_audit s a \<or> flagged (pa_env A) history history_options s a"
    and "(\<exists>f \<in> set extended. about_gap s f) \<longleftrightarrow> s \<in> abs_subject ` set (absences (hv_facts h) @ absences history)"
    and "(\<exists>f \<in> set extended. is_rule s rule f) \<longleftrightarrow>
      (\<exists>e \<in> set (snap_entities snap). ent_urn e = s \<and> \<not> rule_holds (pa_policy A) snap e rule)"
    and "\<forall>f \<in> set extended. \<exists>b. computeBlastRadius snap (fnd_subject f) default_radius = Inr b
      \<and> obj_get (fnd_detail f) ''blastRadius'' = Some (impact_json b)"
proof -
  let ?raw = "raw_findings A h history governance"
  note objects = raw_findings_objects [OF audit]
  have key: "finding_key f = finding_key g" if "f \<in> set ?raw" "with_blast_radius snap f = Inr g" for f g
    using with_blast_radius_Inr(1) [OF that(2) objects [OF that(1)]] by simp
  note about = raw_findings_about [OF audit, where h = h and history = history]
  have "map finding_key (filter (\<lambda>f. fnd_type f \<noteq> F_governance_violation) xs)
      = filter (\<lambda>k. fst k \<noteq> F_governance_violation) (map finding_key xs)" for xs
    by (induction xs) (simp_all add: finding_key_def)
  moreover have "map finding_key ?raw = map finding_key extended" by (rule all2_map [OF all key])
  ultimately show "distinct (map finding_key (filter (\<lambda>f. fnd_type f \<noteq> F_governance_violation) extended))"
    using about(3) by simp
  have ex: "(\<exists>f \<in> set ?raw. k (finding_key f)) \<longleftrightarrow> (\<exists>f \<in> set extended. k (finding_key f))" for k
    by (rule all2_ex [OF all]) (simp add: key)
  show "(\<exists>f \<in> set extended. about_conflict s a f) \<longleftrightarrow>
      flagged (pa_env A) (hv_facts h) default_audit s a \<or> flagged (pa_env A) history history_options s a"
    using about(1) ex [of "\<lambda>x. x = (F_contradiction, s, a)"] unfolding about_key(1) by simp
  show "(\<exists>f \<in> set extended. about_gap s f) \<longleftrightarrow> s \<in> abs_subject ` set (absences (hv_facts h) @ absences history)"
    using about(2) ex [of "\<lambda>x. \<exists>a. x = (F_lineage_gap, s, a)"] unfolding about_key(2) by simp
  have "(\<exists>f \<in> set ?raw. is_rule s rule f) \<longleftrightarrow> (\<exists>f \<in> set extended. is_rule s rule f)"
    using with_blast_radius_Inr(2) objects by (intro all2_ex [OF all]) blast
  then show "(\<exists>f \<in> set extended. is_rule s rule f) \<longleftrightarrow>
      (\<exists>e \<in> set (snap_entities snap). ent_urn e = s \<and> \<not> rule_holds (pa_policy A) snap e rule)"
    using about(4) by simp
  show "\<forall>f \<in> set extended. \<exists>b. computeBlastRadius snap (fnd_subject f) default_radius = Inr b
      \<and> obj_get (fnd_detail f) ''blastRadius'' = Some (impact_json b)"
    using all with_blast_radius_Inr(3) objects unfolding list_all2_conv_all_nth all_set_conv_all_nth by (metis nth_mem)
qed

text \<open>
  C24: what an audit reports. The report meets the stored contract, names the scan and carries its classification; its
  findings are in the order of severity, type and subject. A conflict on an attribute of a subject is reported
  exactly when the facts or the recovered histories show it, and once even when both do; so is a missing
  upstream; a governance finding stands for a rule that does not hold of an entity with that URN. Every finding
  carries the blast radius of its own subject.
\<close>

theorem pipeline_report_exact:
  assumes "run_pipeline A (Inr h) = Inr r" "consistent_collation (pa_env A)"
  shows "isAuditReport (report_json r) \<and> ar_scanId r = snap_scanId (hv_snapshot h)
    \<and> ar_classification r = classify (hv_snapshot h)
    \<and> sorted_wrt (\<lambda>f g. finding_order (pa_env A) f g \<le> 0) (ar_findings r)
    \<and> distinct (map finding_key (filter (\<lambda>f. fnd_type f \<noteq> F_governance_violation) (ar_findings r)))
    \<and> (\<exists>history. history_facts (hv_versionHistories h) = Inr history
        \<and> (\<forall>s a. (\<exists>f \<in> set (ar_findings r). about_conflict s a f) \<longleftrightarrow>
             flagged (pa_env A) (hv_facts h) default_audit s a \<or> flagged (pa_env A) history history_options s a)
        \<and> (\<forall>s. (\<exists>f \<in> set (ar_findings r). about_gap s f) \<longleftrightarrow> s \<in> abs_subject ` set (absences (hv_facts h) @ absences history)))
    \<and> (\<forall>s rule. (\<exists>f \<in> set (ar_findings r). is_rule s rule f) \<longleftrightarrow>
         (\<exists>e \<in> set (snap_entities (hv_snapshot h)). ent_urn e = s \<and> \<not> rule_holds (pa_policy A) (hv_snapshot h) e rule))
    \<and> (\<forall>f \<in> set (ar_findings r). \<exists>b. computeBlastRadius (hv_snapshot h) (fnd_subject f) default_radius = Inr b
         \<and> obj_get (fnd_detail f) ''blastRadius'' = Some (impact_json b))"
proof -
  obtain history governance extended where run:
    "history_facts (hv_versionHistories h) = Inr history"
    "governance_audit (pa_policy A) (hv_snapshot h) = Inr governance"
    "list_all2 (\<lambda>f g. with_blast_radius (hv_snapshot h) f = Inr g) (raw_findings A h history governance) extended"
    "ar_findings r = js_sort (finding_order (pa_env A)) extended" "isAuditReport (report_json r)"
    "ar_scanId r = snap_scanId (hv_snapshot h)" "ar_classification r = classify (hv_snapshot h)"
    by (rule run_pipeline_Inr [OF assms(1)])
  note pieces = raw_findings_extended [OF run(2,3)]
  have "set (ar_findings r) = set extended" "mset (ar_findings r) = mset extended" unfolding run(4) by simp_all
  then have "distinct (map finding_key (filter (\<lambda>f. fnd_type f \<noteq> F_governance_violation) (ar_findings r)))"
    using pieces(1) by (metis mset_eq_imp_distinct_iff mset_filter mset_map)
  moreover have "sorted_wrt (\<lambda>f g. finding_order (pa_env A) f g \<le> 0) (ar_findings r)"
    unfolding run(4) by (rule comparator.sorted_js_sort [OF comparator_finding_order [OF assms(2)]])
  ultimately show ?thesis
    using run(1,5,6,7) pieces(2-) \<open>set (ar_findings r) = set extended\<close> by simp
qed

definition demo_fact :: AuditFact where
  "demo_fact = \<lparr>fct_id = ''f1'', fct_kind = K_lineage, fct_source = ''s1'', fct_scan = None, fct_sourceRef = None,
     fct_content = ''c'', fct_metadata = Some [(''record'', JStr ''u''),
       (''refs'', JArr [JStr ''raw''])], fct_createdAt = ''2026-01-01T00:00:00.000Z'', fct_importance = None\<rparr>"

definition demo_harvest :: AuditHarvest where
  "demo_harvest = \<lparr>hv_snapshot = \<lparr>snap_scanId = ''scan'', snap_entities = [], snap_knownUrns = [], snap_downstreamByRoot = []\<rparr>,
     hv_facts = [demo_fact], hv_versionHistories = []\<rparr>"

definition demo_llm :: Llm where
  "demo_llm = \<lparr>llm_runtime = DeterministicFixture, llm_modelId = ''fixture-model'',
     llm_chat = (\<lambda>_. Inr \<lparr>chat_id = None, chat_model = None, chat_usage = None, chat_content = Some ''Summary.''\<rparr>),
     llm_elapsed = 0\<rparr>"

definition demo_agents :: PipelineAgents where
  "demo_agents = \<lparr>pa_env = demo_env, pa_policy = DEFAULT_GOVERNANCE_POLICY,
     pa_prose = \<lparr>fp_stringify = (\<lambda>_. ''v''), fp_number = (\<lambda>_. ''1''), fp_confidence = (\<lambda>_. JNum 1), fp_rationale = (\<lambda>_ _. ''later'')\<rparr>,
     pa_llm = demo_llm\<rparr>"

definition demo_report :: AuditReport where
  "demo_report = \<lparr>ar_scanId = ''scan'', ar_classification = classify (hv_snapshot demo_harvest),
     ar_findings = [(absence_finding \<lparr>abs_subject = ''raw'', abs_referencedBy = [(''f1'', ''s1'')]\<rparr>)\<lparr>fnd_detail :=
       JObj [(''referencedBy'', JArr [JObj [(''factId'', JStr ''f1''), (''source'', JStr ''s1'')]]),
         (''blastRadius'', impact_json \<lparr>brr_rootUrn = ''raw'', brr_downstream = [], brr_maxHops = 3,
            brr_truncated = False, brr_impact = impactOf 0\<rparr>)]\<rparr>],
     ar_narrative = ''Summary.'', ar_modelProvenance = FixtureProvenance ''fixture-model'',
     ar_trace = pipeline_trace (classify (hv_snapshot demo_harvest)) 1 0 0\<rparr>"

lemma demo_facts: "analyze_facts (pa_prose demo_agents) demo_env [demo_fact] =
    [absence_finding \<lparr>abs_subject = ''raw'', abs_referencedBy = [(''f1'', ''s1'')]\<rparr>]"
  by code_simp

lemma demo_governance: "governance_audit DEFAULT_GOVERNANCE_POLICY (hv_snapshot demo_harvest) = Inr []"
  by code_simp

lemma demo_impact: "with_blast_radius (hv_snapshot demo_harvest)
    (absence_finding \<lparr>abs_subject = ''raw'', abs_referencedBy = [(''f1'', ''s1'')]\<rparr>) = Inr (hd (ar_findings demo_report))"
  by code_simp

lemma demo_summary: "summarize demo_llm findings c = Inr (''Summary.'', FixtureProvenance ''fixture-model'')"
proof -
  have "provenance_of DeterministicFixture ''fixture-model'' \<lparr>chat_id = None, chat_model = None, chat_usage = None,
      chat_content = Some ''Summary.''\<rparr> 0 = Inr (FixtureProvenance ''fixture-model'')"
    "trim ''Summary.'' = ''Summary.''" "\<not> list_ex forbidden_char ''Summary.''"
    by code_simp+
  then show ?thesis by (simp add: summarize_def demo_llm_def Let_def)
qed

lemma demo_report_ok: "isAuditReport (report_json demo_report)"
  by code_simp

lemma demo_parts:
  "pa_env demo_agents = demo_env" "pa_policy demo_agents = DEFAULT_GOVERNANCE_POLICY" "pa_llm demo_agents = demo_llm"
  "hv_facts demo_harvest = [demo_fact]" "hv_versionHistories demo_harvest = []"
  "snap_scanId (hv_snapshot demo_harvest) = ''scan''"
  by (simp_all add: demo_agents_def demo_harvest_def)

lemma demo_pipeline: "run_pipeline demo_agents (Inr demo_harvest) = Inr demo_report"
proof -
  let ?gap = "absence_finding \<lparr>abs_subject = ''raw'', abs_referencedBy = [(''f1'', ''s1'')]\<rparr>"
  have history: "history_facts [] = Inr []" "toFindings P [] (auditConsistency demo_env [] history_options) = []" for P
    by code_simp+
  have sorted: "js_sort c (ar_findings demo_report) = ar_findings demo_report" for c by (simp add: demo_report_def)
  have deduped: "dedupeFindings [f] = [f]" for f by (simp add: dedupeFindings_def)
  have findings: "[hd (ar_findings demo_report)] = ar_findings demo_report" by (simp add: demo_report_def)
  have report: "assertAuditReport \<lparr>ar_scanId = ''scan'', ar_classification = classify (hv_snapshot demo_harvest),
      ar_findings = ar_findings demo_report, ar_narrative = ''Summary.'',
      ar_modelProvenance = FixtureProvenance ''fixture-model'',
      ar_trace = pipeline_trace (classify (hv_snapshot demo_harvest)) 1 0 0\<rparr> = Inr demo_report"
    using demo_report_ok by (simp add: assertAuditReport_def demo_report_def)
  have counts: "length [?gap] = 1" "tally [] t = 0" "length ([] :: Finding list) = 0" for t by (simp_all add: tally_def)
  show ?thesis
    unfolding run_pipeline_def bind_result.simps Let_def demo_parts demo_facts analyzeVersionHistory_def history
      map_result.simps throws.simps append_Nil2 deduped demo_governance list.map demo_impact collect.simps findings sorted
      demo_summary prod.case counts report ..
qed

theorem pipeline_report_exact_witness:
  "\<exists>f \<in> set (ar_findings demo_report). about_gap ''raw'' f"
proof -
  have "consistent_collation (pa_env demo_agents)"
    by (simp add: consistent_collation_def demo_agents_def demo_env_def units.comparator_axioms)
  note exact = pipeline_report_exact [OF demo_pipeline this]
  have "''raw'' \<in> abs_subject ` set (absences (hv_facts demo_harvest) @ [])" by code_simp
  then show ?thesis using exact by auto
qed

end
