(* ===== verification/WorkerEvidence.thy ===== *)
theory WorkerEvidence
  imports WorkerMessages Report ControlLoop
begin

section \<open>Immutable evidence: \<open>src/worker/service.ts\<close> and the evidence types of \<open>src/worker/contracts.ts\<close>\<close>

text \<open>
  The documents the workers store under their digest, and what a worker requires of a stored audit before it
  asks for an approval or touches the catalog. A document read back from the store has the fields of its type;
  the report inside it is any JSON value.
\<close>

subsection \<open>Documents\<close>

datatype AuditManualReason = READ_ONLY_REQUEST | NO_ACTIONABLE_G6_FINDING | REMEDIATION_PRESTATE_UNAVAILABLE
  | POLICY_REJECTED_PROPOSAL

datatype RemediationEvidence = ActionableEvidence EvidenceDossierV1 RemediationPlanV1 ApprovalRequestV1
  | ManualOnlyEvidence AuditManualReason

record AuditEvidenceV1 =
  aev_schemaVersion :: string
  aev_executionId :: string
  aev_request :: AuditRequestV1
  aev_releaseSha :: string
  aev_report :: json
  aev_reportDigest :: string
  aev_remediation :: RemediationEvidence
  aev_createdAt :: string
  aev_digest :: string

record ExecutionEvidenceV1 =
  xev_executionId :: string
  xev_approvalId :: string
  xev_auditEvidenceDigest :: string
  xev_decision :: ApprovalDecisionV1
  xev_receipt :: ExecutionReceiptV1
  xev_createdAt :: string
  xev_digest :: string

text \<open>What the audit returns through its callback: with or without an approval to ask for.\<close>

record ApprovalAsked =
  ask_approvalId :: string
  ask_planDigest :: string
  ask_approvalRequestDigest :: string
  ask_requestedAt :: string
  ask_expiresAt :: string

record AuditCallbackOutputV2 =
  aco_reportDigest :: string
  aco_evidenceDigest :: string
  aco_result :: "AuditManualReason + ApprovalAsked"

record RemediationCallbackOutputV1 =
  rco_approvalId :: string
  rco_planDigest :: string
  rco_evidenceDigest :: string
  rco_receiptDigest :: string
  rco_executionEvidenceDigest :: string
  rco_outcome :: ExecutionOutcome

subsection \<open>Their JSON\<close>

fun with_fields :: "json \<Rightarrow> (string \<times> json) list \<Rightarrow> json" where
  "with_fields (JObj kvs) kvs2 = JObj (kvs @ kvs2)"
| "with_fields v kvs2 = v"

definition dossier_json :: "EvidenceDossierV1 \<Rightarrow> json" where
  "dossier_json d = with_fields (dossier_payload d)
     [(''dossierId'', JStr (dos_dossierId d)), (''digest'', JStr (dos_digest d))]"

definition plan_json :: "RemediationPlanV1 \<Rightarrow> json" where
  "plan_json p = with_fields (plan_payload p) [(''planId'', JStr (pln_planId p)), (''digest'', JStr (pln_digest p))]"

definition approval_request_json :: "ApprovalRequestV1 \<Rightarrow> json" where
  "approval_request_json r = with_fields (approval_request_payload r)
     [(''approvalId'', JStr (apr_approvalId r)), (''digest'', JStr (apr_digest r))]"

definition approval_decision_json :: "ApprovalDecisionV1 \<Rightarrow> json" where
  "approval_decision_json d = with_fields (approval_decision_payload d) [(''digest'', JStr (dec_digest d))]"

fun manual_reason_name :: "AuditManualReason \<Rightarrow> string" where
  "manual_reason_name READ_ONLY_REQUEST = ''READ_ONLY_REQUEST''"
| "manual_reason_name NO_ACTIONABLE_G6_FINDING = ''NO_ACTIONABLE_G6_FINDING''"
| "manual_reason_name REMEDIATION_PRESTATE_UNAVAILABLE = ''REMEDIATION_PRESTATE_UNAVAILABLE''"
| "manual_reason_name POLICY_REJECTED_PROPOSAL = ''POLICY_REJECTED_PROPOSAL''"

fun remediation_json :: "RemediationEvidence \<Rightarrow> json" where
  "remediation_json (ActionableEvidence d p r) = JObj [(''disposition'', JStr ''ACTIONABLE''), (''dossier'', dossier_json d),
     (''plan'', plan_json p), (''approvalRequest'', approval_request_json r)]"
| "remediation_json (ManualOnlyEvidence reason) = JObj [(''disposition'', JStr ''MANUAL_ONLY''),
     (''reason'', JStr (manual_reason_name reason))]"

definition evidence_payload :: "AuditEvidenceV1 \<Rightarrow> json" where
  "evidence_payload e = JObj [(''schemaVersion'', JStr (aev_schemaVersion e)), (''executionId'', JStr (aev_executionId e)),
     (''request'', JObj (request_fields (aev_request e))), (''releaseSha'', JStr (aev_releaseSha e)),
     (''report'', aev_report e), (''reportDigest'', JStr (aev_reportDigest e)),
     (''remediation'', remediation_json (aev_remediation e)), (''createdAt'', JStr (aev_createdAt e))]"

definition execution_evidence_payload :: "ExecutionEvidenceV1 \<Rightarrow> json" where
  "execution_evidence_payload e = JObj [(''schemaVersion'', JStr ''archon.execution-evidence/v1''),
     (''executionId'', JStr (xev_executionId e)), (''approvalId'', JStr (xev_approvalId e)),
     (''auditEvidenceDigest'', JStr (xev_auditEvidenceDigest e)), (''decision'', approval_decision_json (xev_decision e)),
     (''receipt'', receipt_json (xev_receipt e)), (''createdAt'', JStr (xev_createdAt e))]"

subsection \<open>Sealing and checking\<close>

definition MAX_EVIDENCE_BYTES :: nat where "MAX_EVIDENCE_BYTES = 5 * 1024 * 1024"

text \<open>\<open>bytes\<close> is the length of \<open>JSON.stringify\<close> of a value in UTF-8.\<close>

definition contentAddressedAuditEvidence ::
    "js_env \<Rightarrow> (json \<Rightarrow> nat) \<Rightarrow> AuditEvidenceV1 \<Rightarrow> thrown + AuditEvidenceV1" where
  "contentAddressedAuditEvidence E bytes e =
     (if bytes (evidence_payload e) > MAX_EVIDENCE_BYTES
      then Inl (WorkerContractError INVALID_EVIDENCE ''Audit evidence exceeds the worker limit.'')
      else Inr (e\<lparr>aev_digest := digest E (evidence_payload e)\<rparr>))"

definition contentAddressedExecutionEvidence ::
    "js_env \<Rightarrow> (json \<Rightarrow> nat) \<Rightarrow> ExecutionEvidenceV1 \<Rightarrow> thrown + ExecutionEvidenceV1" where
  "contentAddressedExecutionEvidence E bytes e =
     (if bytes (execution_evidence_payload e) > MAX_EVIDENCE_BYTES
      then Inl (WorkerContractError INVALID_EVIDENCE ''Execution evidence exceeds the worker limit.'')
      else Inr (e\<lparr>xev_digest := digest E (execution_evidence_payload e)\<rparr>))"

definition verifyAuditEvidence :: "js_env \<Rightarrow> AuditEvidenceV1 \<Rightarrow> string option \<Rightarrow> bool" where
  "verifyAuditEvidence E e expectedDigest \<longleftrightarrow>
     aev_schemaVersion e = ''archon.audit-evidence/v1''
     \<and> (\<forall>d. expectedDigest = Some d \<longrightarrow> aev_digest e = d)
     \<and> verifyDigest E (evidence_payload e) (aev_digest e)
     \<and> aev_reportDigest e = digest E (aev_report e)
     \<and> isAuditReport (aev_report e)
     \<and> (case aev_remediation e of
          ManualOnlyEvidence reason \<Rightarrow> True
        | ActionableEvidence dossier plan request \<Rightarrow>
            verifyEvidenceDossier E dossier \<and> verifyRemediationPlan E plan \<and> verifyApprovalRequest E request
            \<and> pln_dossierDigest plan = dos_digest dossier \<and> apr_dossierDigest request = dos_digest dossier
            \<and> apr_planDigest request = pln_digest plan
            \<and> apr_actionCatalogDigest request = pln_actionCatalogDigest plan
            \<and> apr_expectedBeforeDigest request = tp_digest (pln_expectedBefore plan))"

lemma sealed_evidence [simp]:
  "evidence_payload (e\<lparr>aev_digest := d\<rparr>) = evidence_payload e"
  "execution_evidence_payload (x\<lparr>xev_digest := d\<rparr>) = execution_evidence_payload x"
  by (simp_all add: evidence_payload_def execution_evidence_payload_def)

text \<open>A request sealed for a bound dossier and plan verifies and binds them.\<close>

lemma createApprovalRequest_Inr:
  assumes "createApprovalRequest E d p requestedAt expiresAt nonce = Inr r"
  shows "verifyEvidenceDossier E d \<and> verifyRemediationPlan E p \<and> verifyApprovalRequest E r
    \<and> pln_dossierDigest p = dos_digest d \<and> pln_policyDigest p = dos_policyDigest d
    \<and> apr_dossierDigest r = dos_digest d \<and> apr_planDigest r = pln_digest p
    \<and> apr_actionCatalogDigest r = pln_actionCatalogDigest p
    \<and> apr_expectedBeforeDigest r = tp_digest (pln_expectedBefore p)
    \<and> apr_requestedAt r = requestedAt \<and> apr_expiresAt r = expiresAt"
proof -
  have "instant E s l = Inr t \<longleftrightarrow> date_parse E s = Some t" for s l t by (simp add: instant_def split: option.split)
  with assms show ?thesis
    by (auto simp: createApprovalRequest_def seal_request_def verifyApprovalRequest_def approval_request_payload_def Let_def
        split: if_splits)
qed

end
