(* ===== verification/AuditService.thy ===== *)
theory AuditService
  imports WorkerEvidence
begin

section \<open>The audit and approval workers: \<open>AuditWorkerService\<close> and \<open>ApprovalHandoffService\<close> of \<open>src/worker/service.ts\<close>\<close>

text \<open>
  A service is a program of calls: to the checkpoint table, to DataHub for the harvest and the tag projection, to
  the clock and the source of nonces, to the evidence store and to the approval queue. The harvest's answer also
  says whether the pipeline's deadline passed first.
\<close>

datatype HandoffResult = H_CREATED | H_ALREADY_DURABLE

datatype audit_call = GetCheckpoint string string | HarvestAudit "string option" | AuditClock
  | ReadTags RemediationTarget | NewNonce | PutEvidence AuditEvidenceV1 | PutCheckpoint string string AuditCallbackOutputV2
  | GetEvidence string | PutHandoff ApprovalQueueMessageV1 ApprovalRequestV1

datatype audit_answer = CheckpointRead "AuditCallbackOutputV2 option" | Harvested bool "PipelineError + AuditHarvest"
  | Said string | TagsRead TagProjection | EvidenceStored | CheckpointStored AuditCallbackOutputV2
  | EvidenceRead AuditEvidenceV1 | HandedOff HandoffResult | Rejected thrown

type_synonym 'a audit_prog = "(audit_call, audit_answer, thrown + 'a) io"

text \<open>An error with nothing but a name, as the worker sees it; an answer of the wrong form counts as one.\<close>

definition named_error :: "string \<Rightarrow> thrown" where
  "named_error name = ServiceThrew \<lparr>aws_name = name, aws_status = None, aws_httpStatusCode = None,
     aws_retryable = False, aws_reasons = None\<rparr>"

fun rejection :: "audit_answer \<Rightarrow> thrown" where
  "rejection (Rejected e) = e"
| "rejection _ = named_error ''Error''"

fun pipeline_error_name :: "PipelineError \<Rightarrow> string" where
  "pipeline_error_name (HarvestThrew e) = ''DataHubHarvestError''"
| "pipeline_error_name (PolicyThrew (TypeError m)) = ''TypeError''"
| "pipeline_error_name (PolicyThrew (HarvestFailure e)) = ''DataHubHarvestError''"
| "pipeline_error_name ProvenanceThrew = ''ModelProvenanceError''"
| "pipeline_error_name (HistoryThrew JsTypeError) = ''TypeError''"
| "pipeline_error_name (HistoryThrew JsRangeError) = ''RangeError''"
| "pipeline_error_name (ClientThrew name) = name"
| "pipeline_error_name (PlainThrew m) = ''Error''"

subsection \<open>The candidate of an audit\<close>

definition asG6Candidate :: "js_env \<Rightarrow> Finding \<Rightarrow> (Finding \<times> string list \<times> string) option" where
  "asG6Candidate E f =
     (if fnd_type f \<noteq> F_governance_violation \<or> obj_get (fnd_detail f) ''ruleId'' \<noteq> Some (JStr ''G6'') then None
      else (case str_array_of (obj_get (fnd_detail f) ''unclassifiedFields'') of
          None \<Rightarrow> None
        | Some names \<Rightarrow>
            if names = [] \<or> list_ex (\<lambda>name. trim name = []) names then None
            else Some (f, names, hd (uniqueSorted E names))))"

fun urn_of :: "json \<Rightarrow> string option" where
  "urn_of v = str_of (obj_get v ''urn'')"

definition blastRadius :: "js_env \<Rightarrow> Finding \<Rightarrow> PartialBlastRadius" where
  "blastRadius E f =
     (let raw = or_else (obj_get (fnd_detail f) ''blastRadius'') JNull;
          downstream = (case obj_get raw ''downstream'' of Some (JArr vs) \<Rightarrow> List.map_filter urn_of vs | _ \<Rightarrow> []) in
      \<lparr>pbr_downstreamUrns = Some (uniqueSorted E downstream),
       pbr_truncated = Some (obj_get raw ''truncated'' = Some (JBool True) \<or> obj_get raw ''maxHops'' \<noteq> Some (JNum 3))\<rparr>)"

definition trustedPolicy :: "js_env \<Rightarrow> string + TrustedRemediationPolicyV1" where
  "trustedPolicy E = createTrustedRemediationPolicy E ''archon.g6.pii-classification.v1'' True ''urn:li:tag:PII''
     (Some [''urn:li:dataset:''])"

definition candidate_finding :: "Finding \<Rightarrow> string list \<Rightarrow> json" where
  "candidate_finding f names = JObj [(''type'', JStr ''governance_violation''),
     (''severity'', JStr (severity_name (fnd_severity f))), (''subject'', JStr (fnd_subject f)),
     (''ruleId'', JStr ''G6''), (''unclassifiedFields'', JArr (map JStr names))]"

definition planning_input ::
    "js_env \<Rightarrow> string \<Rightarrow> string \<Rightarrow> Finding \<times> string list \<times> string \<Rightarrow> TagProjection \<Rightarrow>
     TrustedRemediationPolicyV1 \<Rightarrow> PlanG6RemediationInput" where
  "planning_input E scanId createdAt c before policy = (case c of (f, names, columnPath) \<Rightarrow>
     \<lparr>pin_scanId = scanId, pin_finding = candidate_finding f names, pin_columnPath = columnPath, pin_before = before,
      pin_policy = policy, pin_observedAt = createdAt,
      pin_provenance = Some [\<lparr>pv_sourceKind = ''current_view'', pv_entityUrn = fnd_subject f, pv_aspect = ''schemaMetadata'',
        pv_aspectVersion = None, pv_pipelineName = None, pv_runId = None, pv_observedAt = createdAt,
        pv_valueDigest = tp_digest before\<rparr>],
      pin_blastRadius = Some (blastRadius E f)\<rparr>)"

definition APPROVAL_WINDOW_MS :: int where "APPROVAL_WINDOW_MS = 6 * 24 * 60 * 60 * 1000"

text \<open>\<open>new Date(Date.parse(createdAt) + APPROVAL_WINDOW_MS).toISOString()\<close>, which throws on an invalid date.\<close>

definition approval_expiry :: "js_env \<Rightarrow> string \<Rightarrow> string option" where
  "approval_expiry E createdAt = Option.bind (date_parse E createdAt) (\<lambda>t.
     if \<bar>t + APPROVAL_WINDOW_MS\<bar> \<le> MAX_TIME then Some (toISO (t + APPROVAL_WINDOW_MS)) else None)"

subsection \<open>\<open>AuditWorkerService.audit\<close>\<close>

record audit_options =
  aud_agents :: PipelineAgents
  aud_checkpoint :: bool
  aud_releaseSha :: string
  aud_bytes :: "json \<Rightarrow> nat"

abbreviation aud_env :: "audit_options \<Rightarrow> js_env" where
  "aud_env W \<equiv> pa_env (aud_agents W)"

definition unavailable :: RemediationEvidence where
  "unavailable = ManualOnlyEvidence REMEDIATION_PRESTATE_UNAVAILABLE"

text \<open>The body of the \<open>try\<close>: whatever throws inside leaves the audit without an action.\<close>

definition propose ::
    "js_env \<Rightarrow> string \<Rightarrow> string \<Rightarrow> Finding \<times> string list \<times> string \<Rightarrow> (audit_call, audit_answer, RemediationEvidence) io" where
  "propose E scanId createdAt c =
     Ask (ReadTags \<lparr>tg_entityUrn = fnd_subject (fst c), tg_columnPath = snd (snd c)\<rparr>) (\<lambda>answer. case answer of
       TagsRead before \<Rightarrow>
         (case bind_result (trustedPolicy E) (\<lambda>policy. planG6Remediation E (planning_input E scanId createdAt c before policy)) of
            Inl e \<Rightarrow> Return unavailable
          | Inr (MANUAL_ONLY reason) \<Rightarrow> Return (ManualOnlyEvidence POLICY_REJECTED_PROPOSAL)
          | Inr (ACTIONABLE dossier plan) \<Rightarrow>
              (case approval_expiry E createdAt of
                 None \<Rightarrow> Return unavailable
               | Some expiresAt \<Rightarrow> Ask NewNonce (\<lambda>answer. case answer of
                   Said nonce \<Rightarrow> (case createApprovalRequest E dossier plan createdAt expiresAt nonce of
                       Inl e \<Rightarrow> Return unavailable
                     | Inr request \<Rightarrow> Return (ActionableEvidence dossier plan request))
                 | _ \<Rightarrow> Return unavailable)))
     | _ \<Rightarrow> Return unavailable)"

definition remediation_of ::
    "js_env \<Rightarrow> AuditMode option \<Rightarrow> AuditReport \<Rightarrow> string \<Rightarrow> (audit_call, audit_answer, RemediationEvidence) io" where
  "remediation_of E mode report createdAt =
     (if mode = Some READ_ONLY then Return (ManualOnlyEvidence READ_ONLY_REQUEST)
      else (case List.map_filter (asG6Candidate E) (ar_findings report) of
          [] \<Rightarrow> Return (ManualOnlyEvidence NO_ACTIONABLE_G6_FINDING)
        | c # cs \<Rightarrow> propose E (ar_scanId report) createdAt c))"

definition callback_output :: "AuditEvidenceV1 \<Rightarrow> AuditCallbackOutputV2" where
  "callback_output e =
     \<lparr>aco_reportDigest = aev_reportDigest e, aco_evidenceDigest = aev_digest e,
      aco_result = (case aev_remediation e of
          ManualOnlyEvidence reason \<Rightarrow> Inl reason
        | ActionableEvidence dossier plan request \<Rightarrow> Inr
            \<lparr>ask_approvalId = apr_approvalId request, ask_planDigest = pln_digest plan,
             ask_approvalRequestDigest = apr_digest request, ask_requestedAt = apr_requestedAt request,
             ask_expiresAt = apr_expiresAt request\<rparr>)\<rparr>"

definition audit_evidence ::
    "audit_options \<Rightarrow> AuditQueueMessageV1 \<Rightarrow> AuditReport \<Rightarrow> RemediationEvidence \<Rightarrow> string \<Rightarrow> AuditEvidenceV1" where
  "audit_evidence W m report remediation createdAt =
     \<lparr>aev_schemaVersion = ''archon.audit-evidence/v1'', aev_executionId = aqm_executionId m,
      aev_request = aqm_request m, aev_releaseSha = aud_releaseSha W, aev_report = report_json report,
      aev_reportDigest = digest (aud_env W) (report_json report), aev_remediation = remediation,
      aev_createdAt = createdAt, aev_digest = []\<rparr>"

definition store_output ::
    "audit_options \<Rightarrow> AuditQueueMessageV1 \<Rightarrow> string \<Rightarrow> AuditCallbackOutputV2 \<Rightarrow> AuditCallbackOutputV2 audit_prog" where
  "store_output W m requestDigest out =
     (if aud_checkpoint W
      then Ask (PutCheckpoint (aqm_executionId m) requestDigest out) (\<lambda>answer. case answer of
          CheckpointStored out' \<Rightarrow> Return (Inr out') | r \<Rightarrow> Return (Inl (rejection r)))
      else Return (Inr out))"

definition record_audit ::
    "audit_options \<Rightarrow> AuditQueueMessageV1 \<Rightarrow> string \<Rightarrow> AuditReport \<Rightarrow> string \<Rightarrow> RemediationEvidence \<Rightarrow>
     AuditCallbackOutputV2 audit_prog" where
  "record_audit W m requestDigest report createdAt remediation =
     (case contentAddressedAuditEvidence (aud_env W) (aud_bytes W) (audit_evidence W m report remediation createdAt) of
        Inl e \<Rightarrow> Return (Inl e)
      | Inr evidence \<Rightarrow> Ask (PutEvidence evidence) (\<lambda>answer. case answer of
          EvidenceStored \<Rightarrow> store_output W m requestDigest (callback_output evidence) | r \<Rightarrow> Return (Inl (rejection r))))"

definition fresh_audit ::
    "audit_options \<Rightarrow> AuditQueueMessageV1 \<Rightarrow> string \<Rightarrow> AuditCallbackOutputV2 audit_prog" where
  "fresh_audit W m requestDigest =
     Ask (HarvestAudit (arq_query (aqm_request m))) (\<lambda>answer. case answer of
       Harvested late harvested \<Rightarrow>
         (case pipeline_run (aud_agents W) late harvested of
            Inl e \<Rightarrow> Return (Inl (named_error (pipeline_error_name e)))
          | Inr report \<Rightarrow> Ask AuditClock (\<lambda>answer. case answer of
              Said createdAt \<Rightarrow>
                io_bind (remediation_of (aud_env W) (arq_mode (aqm_request m)) report createdAt)
                  (record_audit W m requestDigest report createdAt)
            | r \<Rightarrow> Return (Inl (rejection r))))
     | r \<Rightarrow> Return (Inl (rejection r)))"

definition audit :: "audit_options \<Rightarrow> AuditQueueMessageV1 \<Rightarrow> AuditCallbackOutputV2 audit_prog" where
  "audit W m =
     (let requestDigest = digest (aud_env W) (JObj (request_fields (aqm_request m))) in
      if aud_checkpoint W
      then Ask (GetCheckpoint (aqm_executionId m) requestDigest) (\<lambda>answer. case answer of
          CheckpointRead (Some out) \<Rightarrow> Return (Inr out)
        | CheckpointRead None \<Rightarrow> fresh_audit W m requestDigest
        | r \<Rightarrow> Return (Inl (rejection r)))
      else fresh_audit W m requestDigest)"

subsection \<open>\<open>ApprovalHandoffService.handoffApproval\<close>\<close>

definition handoff_bound :: "js_env \<Rightarrow> ApprovalQueueMessageV1 \<Rightarrow> AuditEvidenceV1 \<Rightarrow> ApprovalRequestV1 option" where
  "handoff_bound E m e =
     (case aev_remediation e of
        ManualOnlyEvidence reason \<Rightarrow> None
      | ActionableEvidence dossier plan request \<Rightarrow>
          if verifyAuditEvidence E e (Some (pqm_evidenceDigest m)) \<and> aev_executionId e = pqm_executionId m
             \<and> pln_digest plan = pqm_planDigest m \<and> apr_approvalId request = pqm_approvalId m
             \<and> apr_digest request = pqm_approvalRequestDigest m \<and> apr_requestedAt request = pqm_requestedAt m
             \<and> apr_expiresAt request = pqm_expiresAt m
          then Some request else None)"

definition handoffApproval :: "js_env \<Rightarrow> ApprovalQueueMessageV1 \<Rightarrow> HandoffResult audit_prog" where
  "handoffApproval E m =
     Ask (GetEvidence (pqm_evidenceDigest m)) (\<lambda>answer. case answer of
       EvidenceRead e \<Rightarrow> (case handoff_bound E m e of
           None \<Rightarrow> Return (Inl (WorkerContractError INVALID_EVIDENCE
             ''Approval message is not bound to immutable audit evidence.''))
         | Some request \<Rightarrow> Ask (PutHandoff m request) (\<lambda>answer. case answer of
             HandedOff result \<Rightarrow> Return (Inr result) | r \<Rightarrow> Return (Inl (rejection r))))
     | r \<Rightarrow> Return (Inl (rejection r)))"

subsection \<open>What an audit stores and answers\<close>

text \<open>
  The evidence of a proposal: the plan adds the PII tag, and nothing else, to one column of a dataset whose tags
  were read during this audit and do not include it; the request binds dossier and plan and stays open for the window.
\<close>

definition proposal_sound ::
    "js_env \<Rightarrow> string \<Rightarrow> (audit_call \<times> audit_answer) list \<Rightarrow> RemediationEvidence \<Rightarrow> bool" where
  "proposal_sound E createdAt h x \<longleftrightarrow> (\<forall>d p r. x = ActionableEvidence d p r \<longrightarrow>
     verifyEvidenceDossier E d \<and> verifyRemediationPlan E p \<and> verifyApprovalRequest E r
     \<and> pln_dossierDigest p = dos_digest d \<and> apr_dossierDigest r = dos_digest d \<and> apr_planDigest r = pln_digest p
     \<and> apr_actionCatalogDigest r = pln_actionCatalogDigest p
     \<and> apr_expectedBeforeDigest r = tp_digest (pln_expectedBefore p)
     \<and> act_arguments (pln_action p) = \<lparr>arg_tag_urns = [''urn:li:tag:PII''],
         arg_entity_urns = [tg_entityUrn (dos_target d)], arg_column_paths = [tg_columnPath (dos_target d)]\<rparr>
     \<and> prefix ''urn:li:dataset:'' (tg_entityUrn (dos_target d))
     \<and> ''urn:li:tag:PII'' \<notin> set (tp_tags (pln_expectedBefore p))
     \<and> (ReadTags (dos_target d), TagsRead (pln_expectedBefore p)) \<in> set h
     \<and> apr_requestedAt r = createdAt \<and> approval_expiry E createdAt = Some (apr_expiresAt r))"

lemma proposal_manual [simp]: "proposal_sound E c h (ManualOnlyEvidence reason)" "proposal_sound E c h unavailable"
  by (simp_all add: proposal_sound_def unavailable_def)

lemma trusted_policy:
  assumes "trustedPolicy E = Inr policy"
  shows "pol_classificationTagUrn policy = ''urn:li:tag:PII''" "pol_allowedEntityUrnPrefixes policy = [''urn:li:dataset:'']"
  using assms unfolding trustedPolicy_def createTrustedRemediationPolicy_def Let_def
  by (auto simp: uniqueSorted_def dedupe_def split: if_splits)

lemma planned_for_column:
  assumes "hex_sha256 E" "consistent_collation E" "planG6Remediation E i = Inr (ACTIONABLE d p)"
    and "trustedPolicy E = Inr (pin_policy i)"
  shows "dos_target d = \<lparr>tg_entityUrn = tp_entityUrn (pin_before i), tg_columnPath = tp_columnPath (pin_before i)\<rparr>"
    "act_arguments (pln_action p) = \<lparr>arg_tag_urns = [''urn:li:tag:PII''],
       arg_entity_urns = [tp_entityUrn (pin_before i)], arg_column_paths = [tp_columnPath (pin_before i)]\<rparr>"
    "pln_expectedBefore p = pin_before i" "''urn:li:tag:PII'' \<notin> set (tp_tags (pin_before i))"
    "prefix ''urn:li:dataset:'' (tp_entityUrn (pin_before i))"
    "str_of (obj_get (pin_finding i) ''subject'') = Some (tp_entityUrn (pin_before i))"
    "pin_columnPath i = tp_columnPath (pin_before i)"
proof -
  have pl: "plannable E i" using assms(3) planG6_manual [of E i] by (cases "plannable E i") auto
  define f where "f = sanitizeFinding E (pin_finding i)"
  note dp = planG6_actionable [OF pl, folded f_def, unfolded assms(3), simplified]
  note c = pl [unfolded plannable_def Let_def, folded f_def] and policy = trusted_policy [OF assms(4)]
  show "dos_target d = \<lparr>tg_entityUrn = tp_entityUrn (pin_before i), tg_columnPath = tp_columnPath (pin_before i)\<rparr>"
    "act_arguments (pln_action p) = \<lparr>arg_tag_urns = [''urn:li:tag:PII''],
       arg_entity_urns = [tp_entityUrn (pin_before i)], arg_column_paths = [tp_columnPath (pin_before i)]\<rparr>"
    "pln_expectedBefore p = pin_before i" "''urn:li:tag:PII'' \<notin> set (tp_tags (pin_before i))"
    "prefix ''urn:li:dataset:'' (tp_entityUrn (pin_before i))"
    "pin_columnPath i = tp_columnPath (pin_before i)"
    using dp c policy by (auto simp: startsWith_iff)
  show "str_of (obj_get (pin_finding i) ''subject'') = Some (tp_entityUrn (pin_before i))"
    using c by (auto simp: isG6Finding_def f_def sanitizeFinding_def split: option.splits)
qed

lemma wp_propose:
  assumes "hex_sha256 E" "consistent_collation E" "\<And>h q. (\<forall>e. q \<noteq> PutEvidence e) \<Longrightarrow> P h q"
    and "\<And>x h'. proposal_sound E createdAt h' x \<Longrightarrow> set h \<subseteq> set h' \<Longrightarrow> R x h'"
  shows "wp P R (propose E scanId createdAt c) h"
proof -
  obtain f names col where c: "c = (f, names, col)" by (cases c) auto
  have sound: "proposal_sound E createdAt (h @ [(ReadTags \<lparr>tg_entityUrn = fnd_subject f, tg_columnPath = col\<rparr>, TagsRead before), x])
      (ActionableEvidence d p r)"
    if policy: "trustedPolicy E = Inr policy"
      and plan: "planG6Remediation E (planning_input E scanId createdAt c before policy) = Inr (ACTIONABLE d p)"
      and expiry: "approval_expiry E createdAt = Some e"
      and request: "createApprovalRequest E d p createdAt e nonce = Inr r" for policy d p e r before nonce x
  proof -
    note target = planned_for_column [OF assms(1,2) plan] policy
    have "tp_entityUrn before = fnd_subject f" "tp_columnPath before = col"
      using planned_for_column(6,7) [OF assms(1,2) plan] policy by (simp_all add: planning_input_def c candidate_finding_def)
    then show ?thesis
      using planned_for_column(1-5) [OF assms(1,2) plan] policy createApprovalRequest_Inr [OF request] expiry
      by (simp add: proposal_sound_def planning_input_def c)
  qed
  show ?thesis
    unfolding propose_def c fst_conv snd_conv
    using sound by (auto simp: c intro!: assms(3,4) split: audit_answer.split sum.split PlanningResult.split option.split)
qed

text \<open>The evidence an audit may store after the calls \<open>h\<close>.\<close>

definition audit_evidence_ok ::
    "audit_options \<Rightarrow> AuditQueueMessageV1 \<Rightarrow> (audit_call \<times> audit_answer) list \<Rightarrow> AuditEvidenceV1 \<Rightarrow> bool" where
  "audit_evidence_ok W m h e \<longleftrightarrow>
     verifyAuditEvidence (aud_env W) e (Some (aev_digest e))
     \<and> aev_executionId e = aqm_executionId m \<and> aev_request e = aqm_request m
     \<and> (\<exists>late harvested report. (HarvestAudit (arq_query (aqm_request m)), Harvested late harvested) \<in> set h
          \<and> pipeline_run (aud_agents W) late harvested = Inr report \<and> aev_report e = report_json report)
     \<and> (AuditClock, Said (aev_createdAt e)) \<in> set h
     \<and> (arq_mode (aqm_request m) = Some READ_ONLY \<longrightarrow> aev_remediation e = ManualOnlyEvidence READ_ONLY_REQUEST)
     \<and> proposal_sound (aud_env W) (aev_createdAt e) h (aev_remediation e)"

definition output_backed ::
    "audit_options \<Rightarrow> AuditQueueMessageV1 \<Rightarrow> (audit_call \<times> audit_answer) list \<Rightarrow> thrown + AuditCallbackOutputV2 \<Rightarrow> bool" where
  "output_backed W m h x \<longleftrightarrow> (\<forall>out. x = Inr out \<longrightarrow>
     (aud_checkpoint W \<and> (\<exists>k. (GetCheckpoint (aqm_executionId m) k, CheckpointRead (Some out)) \<in> set h))
     \<or> (\<exists>e. audit_evidence_ok W m h e \<and> (PutEvidence e, EvidenceStored) \<in> set h
          \<and> (if aud_checkpoint W
             then \<exists>k. (PutCheckpoint (aqm_executionId m) k (callback_output e), CheckpointStored out) \<in> set h
             else out = callback_output e)))"

definition stores_sound ::
    "audit_options \<Rightarrow> AuditQueueMessageV1 \<Rightarrow> (audit_call \<times> audit_answer) list \<Rightarrow> audit_call \<Rightarrow> bool" where
  "stores_sound W m h q \<longleftrightarrow> (\<forall>e. q = PutEvidence e \<longrightarrow> audit_evidence_ok W m h e)"

lemma proposal_grows: "proposal_sound E c h x \<Longrightarrow> set h \<subseteq> set h' \<Longrightarrow> proposal_sound E c h' x"
  unfolding proposal_sound_def by blast

lemma evidence_grows: "audit_evidence_ok W m h e \<Longrightarrow> set h \<subseteq> set h' \<Longrightarrow> audit_evidence_ok W m h' e"
  unfolding audit_evidence_ok_def using proposal_grows by blast

lemma backed_Inl [simp]: "output_backed W m h (Inl e)"
  by (simp add: output_backed_def)

lemma report_ok: "pipeline_run A late harvested = Inr r \<Longrightarrow> isAuditReport (report_json r)"
proof (cases harvested)
  case (Inr h)
  assume "pipeline_run A late harvested = Inr r"
  with Inr have "run_pipeline A (Inr h) = Inr r" by (simp add: pipeline_run_def split: if_splits)
  then show ?thesis by (rule run_pipeline_Inr)
qed (simp add: pipeline_run_def run_pipeline_def split: if_splits)

lemma evidence_sealed:
  assumes "hex_sha256 (aud_env W)" "pipeline_run (aud_agents W) late harvested = Inr report"
    and "(HarvestAudit (arq_query (aqm_request m)), Harvested late harvested) \<in> set h" "(AuditClock, Said createdAt) \<in> set h"
    and "arq_mode (aqm_request m) = Some READ_ONLY \<longrightarrow> x = ManualOnlyEvidence READ_ONLY_REQUEST"
    and "proposal_sound (aud_env W) createdAt h x"
    and "contentAddressedAuditEvidence (aud_env W) bytes (audit_evidence W m report x createdAt) = Inr e"
  shows "audit_evidence_ok W m h e"
proof -
  have e: "e = (audit_evidence W m report x createdAt)\<lparr>aev_digest :=
      digest (aud_env W) (evidence_payload (audit_evidence W m report x createdAt))\<rparr>"
    using assms(7) by (simp add: contentAddressedAuditEvidence_def split: if_splits)
  have fields: "aev_schemaVersion e = ''archon.audit-evidence/v1''" "aev_report e = report_json report"
    "aev_reportDigest e = digest (aud_env W) (report_json report)" "aev_remediation e = x" "aev_createdAt e = createdAt"
    "aev_executionId e = aqm_executionId m" "aev_request e = aqm_request m"
    by (simp_all add: e audit_evidence_def)
  have sealed: "verifyDigest (aud_env W) (evidence_payload e) (aev_digest e)"
    unfolding e sealed_evidence using assms(1) by simp
  have "verifyAuditEvidence (aud_env W) e (Some (aev_digest e))"
  proof (cases x)
    case (ActionableEvidence d p r)
    from assms(6) [unfolded proposal_sound_def, rule_format, OF ActionableEvidence] show ?thesis
      unfolding verifyAuditEvidence_def fields ActionableEvidence
      using sealed report_ok [OF assms(2)] by simp
  next
    case (ManualOnlyEvidence reason)
    then show ?thesis
      unfolding verifyAuditEvidence_def fields using sealed report_ok [OF assms(2)] by simp
  qed
  then show ?thesis
    using assms(2-6) unfolding audit_evidence_ok_def fields by blast
qed

lemma wp_record:
  assumes "hex_sha256 (aud_env W)" "pipeline_run (aud_agents W) late harvested = Inr report"
    and "(HarvestAudit (arq_query (aqm_request m)), Harvested late harvested) \<in> set h" "(AuditClock, Said createdAt) \<in> set h"
    and "arq_mode (aqm_request m) = Some READ_ONLY \<longrightarrow> x = ManualOnlyEvidence READ_ONLY_REQUEST"
    and "proposal_sound (aud_env W) createdAt h x"
  shows "wp (stores_sound W m) (\<lambda>x h. output_backed W m h x) (record_audit W m k report createdAt x) h"
proof (cases "contentAddressedAuditEvidence (aud_env W) (aud_bytes W) (audit_evidence W m report x createdAt)")
  case (Inr e)
  note sound = evidence_sealed [OF assms Inr]
  have later: "audit_evidence_ok W m (h @ hs) e" for hs by (rule evidence_grows [OF sound]) auto
  let ?put = "(PutEvidence e, EvidenceStored)" and ?saved = "\<lambda>out. (PutCheckpoint (aqm_executionId m) k (callback_output e), CheckpointStored out)"
  have plain: "output_backed W m (h @ [?put]) (Inr (callback_output e))" if "\<not> aud_checkpoint W"
    using that later [of "[?put]"] unfolding output_backed_def by auto
  have saved: "output_backed W m (h @ [?put, ?saved out]) (Inr out)" if "aud_checkpoint W" for out
    unfolding output_backed_def using that later [of "[?put, ?saved out]"] by (intro allI impI disjI2 exI [of _ e]) auto
  have "wp (stores_sound W m) (\<lambda>x h. output_backed W m h x) (store_output W m k (callback_output e)) (h @ [?put])"
    using plain saved by (auto simp: store_output_def stores_sound_def split: audit_answer.split)
  with sound show ?thesis
    unfolding record_audit_def Inr by (auto simp: stores_sound_def split: audit_answer.split)
qed (simp add: record_audit_def)

lemma wp_fresh:
  assumes "hex_sha256 (aud_env W)" "consistent_collation (aud_env W)"
  shows "wp (stores_sound W m) (\<lambda>x h. output_backed W m h x) (fresh_audit W m k) h"
proof -
  have "wp (stores_sound W m) (\<lambda>x h. output_backed W m h x) (io_bind (remediation_of (aud_env W) (arq_mode (aqm_request m)) report createdAt)
      (record_audit W m k report createdAt)) h'"
    if run: "pipeline_run (aud_agents W) late harvested = Inr report"
      and h': "h' = (h @ [(HarvestAudit (arq_query (aqm_request m)), Harvested late harvested)]) @ [(AuditClock, Said createdAt)]"
    for late harvested report createdAt h'
  proof -
    have mem: "(HarvestAudit (arq_query (aqm_request m)), Harvested late harvested) \<in> set h'" "(AuditClock, Said createdAt) \<in> set h'"
      by (simp_all add: h')
    note rec = wp_record [OF assms(1) run]
    show ?thesis
    proof (cases "arq_mode (aqm_request m) = Some READ_ONLY \<or> List.map_filter (asG6Candidate (aud_env W)) (ar_findings report) = []")
      case True
      then show ?thesis
        by (auto simp: remediation_of_def intro!: rec [OF mem])
    next
      case False
      then obtain c cs where c: "List.map_filter (asG6Candidate (aud_env W)) (ar_findings report) = c # cs"
        by (cases "List.map_filter (asG6Candidate (aud_env W)) (ar_findings report)") auto
      show ?thesis
        unfolding wp_bind remediation_of_def c using False
        by (auto simp: stores_sound_def intro!: wp_propose [OF assms] rec subsetD [OF _ mem(1)] subsetD [OF _ mem(2)])
    qed
  qed
  then show ?thesis
    unfolding fresh_audit_def by (auto simp: stores_sound_def split: audit_answer.split sum.split)
qed

lemma wp_audit:
  assumes "hex_sha256 (aud_env W)" "consistent_collation (aud_env W)"
  shows "wp (stores_sound W m) (\<lambda>x h. output_backed W m h x) (audit W m) []"
  using wp_fresh [OF assms] unfolding audit_def Let_def
  by (auto simp: stores_sound_def output_backed_def split: audit_answer.split option.split)

text \<open>The approval message the callback's output stands for.\<close>

definition approval_message :: "string \<Rightarrow> string \<Rightarrow> AuditCallbackOutputV2 \<Rightarrow> ApprovalQueueMessageV1 option" where
  "approval_message token execution out = (case aco_result out of
     Inl reason \<Rightarrow> None
   | Inr asked \<Rightarrow> Some \<lparr>pqm_taskToken = token, pqm_executionId = execution, pqm_approvalId = ask_approvalId asked,
       pqm_planDigest = ask_planDigest asked, pqm_evidenceDigest = aco_evidenceDigest out,
       pqm_approvalRequestDigest = ask_approvalRequestDigest asked, pqm_requestedAt = ask_requestedAt asked,
       pqm_expiresAt = ask_expiresAt asked\<rparr>)"

lemma handoff_of_output:
  assumes "audit_evidence_ok W m h e" "approval_message token (aqm_executionId m) (callback_output e) = Some msg"
  shows "\<exists>d p r. aev_remediation e = ActionableEvidence d p r \<and> handoff_bound (aud_env W) msg e = Some r"
  using assms
  by (cases "aev_remediation e") (auto simp: audit_evidence_ok_def approval_message_def callback_output_def handoff_bound_def)

text \<open>
  C9: an audit stores and answers only what it can back. Whatever the stores, DataHub, the model and the clock answer,
  every document it stores verifies under its own digest, belongs to the message's execution and request, and holds
  the report the pipeline made of this harvest; it offers an action only when one was asked for, for one column of a
  dataset whose tags were read in this audit, adding the PII tag that was not there, with a request open
  for six days. Its answer is that document's, stored before, or the checkpoint's; and an approval asked with
  that answer passes the handoff's check against the document.
\<close>

theorem audit_evidence_sound:
  assumes "hex_sha256 (aud_env W)" "consistent_collation (aud_env W)" "io_after (audit W m) calls = Some rest"
  shows "(\<forall>n < length calls. \<forall>e. fst (calls ! n) = PutEvidence e \<longrightarrow> audit_evidence_ok W m (take n calls) e
        \<and> (\<forall>token msg. approval_message token (aqm_executionId m) (callback_output e) = Some msg \<longrightarrow>
             (\<exists>d p r. aev_remediation e = ActionableEvidence d p r \<and> handoff_bound (aud_env W) msg e = Some r)))
    \<and> (\<forall>x. rest = Return x \<longrightarrow> output_backed W m calls x)"
proof -
  note wp = wp_after [OF wp_audit [OF assms(1,2)] assms(3)]
  have "audit_evidence_ok W m (take n calls) e" if "n < length calls" "fst (calls ! n) = PutEvidence e" for n e
    using wp that by (simp add: stores_sound_def)
  then show ?thesis using wp handoff_of_output by fastforce
qed

definition demo_audit_task :: AuditQueueMessageV1 where
  "demo_audit_task = \<lparr>aqm_taskToken = ''token'', aqm_executionId = ''run'',
     aqm_request = \<lparr>arq_requestId = ''request-1'', arq_requestedAt = ''2026-01-01T00:00:00.000Z'', arq_query = None,
       arq_mode = Some READ_ONLY\<rparr>\<rparr>"

definition demo_audit_options :: audit_options where
  "demo_audit_options = \<lparr>aud_agents = demo_agents, aud_checkpoint = False, aud_releaseSha = ''sha'', aud_bytes = (\<lambda>_. 0)\<rparr>"

theorem audit_evidence_sound_witness:
  "\<exists>e calls. returned (audit demo_audit_options demo_audit_task) calls (Inr (callback_output e))
     \<and> audit_evidence_ok demo_audit_options demo_audit_task (take 2 calls) e"
proof -
  let ?W = demo_audit_options and ?m = demo_audit_task and ?at = "''2026-01-01T00:00:00.000Z''"
  let ?u = "audit_evidence ?W ?m demo_report (ManualOnlyEvidence READ_ONLY_REQUEST) ?at"
  define e where "e = ?u\<lparr>aev_digest := digest demo_env (evidence_payload ?u)\<rparr>"
  let ?calls = "[(HarvestAudit None, Harvested False (Inr demo_harvest)), (AuditClock, Said ?at), (PutEvidence e, EvidenceStored)]"
  have env: "aud_agents ?W = demo_agents" "pa_env demo_agents = demo_env"
    by (simp_all add: demo_audit_options_def demo_parts)
  have hyps: "hex_sha256 (aud_env ?W)" "consistent_collation (aud_env ?W)"
    by (simp_all add: env)
  have sealed: "contentAddressedAuditEvidence (aud_env ?W) (aud_bytes ?W) ?u = Inr e"
    unfolding env e_def by (simp add: contentAddressedAuditEvidence_def demo_audit_options_def)
  have task: "arq_mode (aqm_request ?m) = Some READ_ONLY" "arq_query (aqm_request ?m) = None" "aud_checkpoint ?W = False"
    by (simp_all add: demo_audit_task_def demo_audit_options_def)
  have run: "io_after (audit ?W ?m) ?calls = Some (Return (Inr (callback_output e)))"
    unfolding audit_def fresh_audit_def Let_def remediation_of_def record_audit_def task
    using sealed by (simp add: env pipeline_run_def demo_pipeline store_output_def task)
  from audit_evidence_sound [OF hyps run]
  have "audit_evidence_ok ?W ?m (take 2 ?calls) e" by fastforce
  with run show ?thesis unfolding returned_def by blast
qed

end
