(* ===== verification/RemediationService.thy ===== *)
theory RemediationService
  imports WorkerEvidence LoopProperties
begin

section \<open>The remediation worker: \<open>RemediationWorkerService\<close> of \<open>src/worker/service.ts\<close>\<close>

text \<open>
  The worker reads the audit's evidence, requires that the message is bound to it, makes the decision out of the
  callback, and runs the control loop with a mutation client that first asserts the queue lease. The
  catalog, the journal, the stores, the clock and the lease are functions of an arbitrary world, as in the control
  loop; the calls of the mutation client and of the lease are noted.
\<close>

datatype mutation_event = LeaseChecked bool | Sent TagRequest MutationResult

record 'w remediation_ports =
  rmp_getEvidence :: "'w \<Rightarrow> string \<Rightarrow> (thrown + AuditEvidenceV1) \<times> 'w"
  rmp_putEvidence :: "'w \<Rightarrow> ExecutionEvidenceV1 \<Rightarrow> (thrown + unit) \<times> 'w"
  rmp_loop :: "'w ports"
  rmp_assertActive :: "('w \<Rightarrow> bool \<times> 'w) option"

text \<open>
  The mutation port of the loop. A lease that is not active throws a \<open>WorkerLeaseError\<close>, which to the loop is a
  failure that proves nothing.
\<close>

definition leased_add ::
    "'w remediation_ports \<Rightarrow> 'w \<times> mutation_event list \<Rightarrow> TagRequest \<Rightarrow> MutationResult \<times> 'w \<times> mutation_event list" where
  "leased_add R s q = (case rmp_assertActive R of
     None \<Rightarrow> let (x, w') = addTags (rmp_loop R) (fst s) q in (x, (w', snd s @ [Sent q x]))
   | Some assertActive \<Rightarrow>
       let (active, w1) = assertActive (fst s) in
       if \<not> active then (UnknownFailure, (w1, snd s @ [LeaseChecked False]))
       else let (x, w2) = addTags (rmp_loop R) w1 q in (x, (w2, snd s @ [LeaseChecked True, Sent q x])))"

definition on_world :: "('w \<Rightarrow> 'a \<times> 'w) \<Rightarrow> 'w \<times> mutation_event list \<Rightarrow> 'a \<times> 'w \<times> mutation_event list" where
  "on_world f s = (let (x, w') = f (fst s) in (x, (w', snd s)))"

definition leased_ports :: "'w remediation_ports \<Rightarrow> ('w \<times> mutation_event list) ports" where
  "leased_ports R =
     \<lparr>readTagProjection = (\<lambda>s t. on_world (\<lambda>w. readTagProjection (rmp_loop R) w t) s), addTags = leased_add R,
      clock = on_world (clock (rmp_loop R)), port_claim = (\<lambda>s i. on_world (\<lambda>w. port_claim (rmp_loop R) w i) s),
      port_resume = (\<lambda>s l. on_world (\<lambda>w. port_resume (rmp_loop R) w l) s),
      port_complete = (\<lambda>s l r. on_world (\<lambda>w. port_complete (rmp_loop R) w l r) s)\<rparr>"

definition remediation_bound ::
    "js_env \<Rightarrow> RemediationQueueMessageV1 \<Rightarrow> AuditEvidenceV1 \<Rightarrow> (EvidenceDossierV1 \<times> RemediationPlanV1 \<times> ApprovalRequestV1) option" where
  "remediation_bound E m e = (case aev_remediation e of
     ManualOnlyEvidence reason \<Rightarrow> None
   | ActionableEvidence dossier plan request \<Rightarrow>
       if verifyAuditEvidence E e (Some (rqm_evidenceDigest m)) \<and> aev_executionId e = rqm_executionId m
          \<and> pln_digest plan = rqm_planDigest m \<and> apr_approvalId request = rqm_approvalId m
       then Some (dossier, plan, request) else None)"

definition worker_execution_key :: "js_env \<Rightarrow> RemediationQueueMessageV1 \<Rightarrow> ApprovalDecisionV1 \<Rightarrow> string" where
  "worker_execution_key E m d = digest E (JObj [(''schemaVersion'', JStr ''archon.worker-execution-key/v1''),
     (''executionId'', JStr (rqm_executionId m)), (''approvalId'', JStr (rqm_approvalId m)),
     (''decisionDigest'', JStr (dec_digest d))])"

definition execution_input ::
    "js_env \<Rightarrow> RemediationQueueMessageV1 \<Rightarrow> EvidenceDossierV1 \<times> RemediationPlanV1 \<times> ApprovalRequestV1 \<Rightarrow>
     ApprovalDecisionV1 \<Rightarrow> ExecuteApprovedRemediationInput" where
  "execution_input E m artifacts d = (case artifacts of (dossier, plan, request) \<Rightarrow>
     \<lparr>ex_dossier = dossier, ex_plan = plan, ex_request = request, ex_decision = d,
      ex_idempotencyKey = worker_execution_key E m d\<rparr>)"

definition execution_evidence ::
    "RemediationQueueMessageV1 \<Rightarrow> AuditEvidenceV1 \<Rightarrow> ApprovalDecisionV1 \<Rightarrow> ExecutionReceiptV1 \<Rightarrow> ExecutionEvidenceV1" where
  "execution_evidence m e d r =
     \<lparr>xev_executionId = rqm_executionId m, xev_approvalId = rqm_approvalId m, xev_auditEvidenceDigest = aev_digest e,
      xev_decision = d, xev_receipt = r, xev_createdAt = rcp_completedAt r, xev_digest = []\<rparr>"

definition invalid_evidence :: "string \<Rightarrow> thrown" where
  "invalid_evidence message = WorkerContractError INVALID_EVIDENCE message"

text \<open>After the loop returned a receipt: check it, and seal the evidence of the execution.\<close>

definition seal_execution ::
    "js_env \<Rightarrow> (json \<Rightarrow> nat) \<Rightarrow> RemediationQueueMessageV1 \<Rightarrow> AuditEvidenceV1 \<Rightarrow> ApprovalDecisionV1 \<Rightarrow>
     ExecutionReceiptV1 \<Rightarrow> thrown + ExecutionEvidenceV1" where
  "seal_execution E bytes m e d r =
     (if verifyExecutionReceipt E r \<noteq> []
      then Inl (invalid_evidence ''The remediation receipt failed local integrity verification.'')
      else bind_result (contentAddressedExecutionEvidence E bytes (execution_evidence m e d r)) (\<lambda>x.
        if \<not> verifyDigest E (execution_evidence_payload x) (xev_digest x)
        then Inl (invalid_evidence ''Execution evidence could not be content-addressed.'')
        else Inr x))"

definition remediation_output ::
    "RemediationQueueMessageV1 \<Rightarrow> RemediationPlanV1 \<Rightarrow> AuditEvidenceV1 \<Rightarrow> ExecutionEvidenceV1 \<Rightarrow> RemediationCallbackOutputV1" where
  "remediation_output m p e x =
     \<lparr>rco_approvalId = rqm_approvalId m, rco_planDigest = pln_digest p, rco_evidenceDigest = aev_digest e,
      rco_receiptDigest = rcp_digest (xev_receipt x), rco_executionEvidenceDigest = xev_digest x,
      rco_outcome = rcp_outcome (xev_receipt x)\<rparr>"

text \<open>The result, the world, and what was done: the mutation calls, the loop's calls and the documents put.\<close>

record 'w remediation_run =
  rr_result :: "thrown + RemediationCallbackOutputV1"
  rr_world :: 'w
  rr_sent :: "mutation_event list"
  rr_events :: "event list"
  rr_puts :: "ExecutionEvidenceV1 list"

definition idle_run :: "thrown \<Rightarrow> 'w \<Rightarrow> 'w remediation_run" where
  "idle_run e w = \<lparr>rr_result = Inl e, rr_world = w, rr_sent = [], rr_events = [], rr_puts = []\<rparr>"

definition execute_bound ::
    "js_env \<Rightarrow> (json \<Rightarrow> nat) \<Rightarrow> 'w remediation_ports \<Rightarrow> RemediationQueueMessageV1 \<Rightarrow> AuditEvidenceV1 \<Rightarrow>
     EvidenceDossierV1 \<times> RemediationPlanV1 \<times> ApprovalRequestV1 \<Rightarrow> ApprovalDecisionV1 \<Rightarrow> 'w \<Rightarrow> 'w remediation_run" where
  "execute_bound E bytes R m e artifacts d w =
     (let (res, (w1, sent), events) = executeApprovedRemediation E (leased_ports R) (execution_input E m artifacts d) ((w, []), [])
      in case bind_result (case res of Inl err \<Rightarrow> Inl (LoopThrew err) | Inr r \<Rightarrow> Inr r) (seal_execution E bytes m e d) of
           Inl err \<Rightarrow> \<lparr>rr_result = Inl err, rr_world = w1, rr_sent = sent, rr_events = events, rr_puts = []\<rparr>
         | Inr x \<Rightarrow> let (put, w2) = rmp_putEvidence R w1 x in
             \<lparr>rr_result = map_result (\<lambda>_. remediation_output m (fst (snd artifacts)) e x) put, rr_world = w2,
              rr_sent = sent, rr_events = events, rr_puts = [x]\<rparr>)"

definition remediate ::
    "js_env \<Rightarrow> (json \<Rightarrow> nat) \<Rightarrow> 'w remediation_ports \<Rightarrow> RemediationQueueMessageV1 \<Rightarrow> 'w \<Rightarrow> 'w remediation_run" where
  "remediate E bytes R m w =
     (case rmp_getEvidence R w (rqm_evidenceDigest m) of
        (Inl err, w1) \<Rightarrow> idle_run err w1
      | (Inr e, w1) \<Rightarrow>
          (case remediation_bound E m e of
             None \<Rightarrow> idle_run (invalid_evidence ''Remediation message is not bound to immutable audit evidence.'') w1
           | Some artifacts \<Rightarrow>
               let c = rqm_approvalResult m in
               (case createApprovalDecision E (snd (snd artifacts)) (fst (snd artifacts)) (acb_decision c) (acb_approver c) (acb_decidedAt c) of
                  Inl err \<Rightarrow> idle_run (LoopThrew err) w1
                | Inr d \<Rightarrow> execute_bound E bytes R m e artifacts d w1)))"

subsection \<open>The calls of the mutation client\<close>

text \<open>
  Every \<open>addTags\<close> of the loop is one checked call of the client: with a lease it is sent only after the lease
  was found active, and otherwise not at all.
\<close>

definition has_lease :: "'w remediation_ports \<Rightarrow> bool" where
  "has_lease R \<longleftrightarrow> rmp_assertActive R \<noteq> None"

fun add_of :: "event \<Rightarrow> (TagRequest \<times> MutationResult) option" where
  "add_of (DidAdd q x) = Some (q, x)"
| "add_of _ = None"

definition checked_call :: "bool \<Rightarrow> TagRequest \<times> MutationResult \<Rightarrow> mutation_event list \<Rightarrow> bool" where
  "checked_call leased qx g \<longleftrightarrow> (if leased then g = [LeaseChecked True, Sent (fst qx) (snd qx)]
       \<or> g = [LeaseChecked False] \<and> snd qx = UnknownFailure
     else g = [Sent (fst qx) (snd qx)])"

definition mirrored :: "bool \<Rightarrow> event list \<Rightarrow> mutation_event list \<Rightarrow> bool" where
  "mirrored leased es l \<longleftrightarrow> (\<exists>gs. l = concat gs \<and> list_all2 (checked_call leased) (List.map_filter add_of es) gs)"

lemma mirrored_Nil [simp]: "mirrored leased [] []"
  by (simp add: mirrored_def)

lemma map_filter_append [simp]: "List.map_filter f (xs @ ys) = List.map_filter f xs @ List.map_filter f ys"
  by (induction xs) (auto split: option.splits)

lemma mirrored_add:
  assumes "mirrored leased es l" "checked_call leased (q, x) g"
  shows "mirrored leased (es @ [DidAdd q x]) (l @ g)"
proof -
  obtain gs where "l = concat gs" "list_all2 (checked_call leased) (List.map_filter add_of es) gs"
    using assms(1) by (auto simp: mirrored_def)
  then show ?thesis
    unfolding mirrored_def using assms(2) by (intro exI [of _ "gs @ [g]"]) (simp add: list_all2_appendI)
qed

lemma mirrored_other: "mirrored leased es l \<Longrightarrow> add_of e = None \<Longrightarrow> mirrored leased (es @ [e]) l"
  by (simp add: mirrored_def)

definition keeps :: "bool \<Rightarrow> ('w \<times> mutation_event list, 'a) prog \<Rightarrow> bool" where
  "keeps leased m \<longleftrightarrow> (\<forall>w l es. mirrored leased es l \<longrightarrow>
     (case m ((w, l), es) of (res, ((w', l'), es')) \<Rightarrow> mirrored leased es' l'))"

named_theorems keeps_rules

lemma keeps_pure [keeps_rules]: "keeps b (ret a)" "keeps b (throw e)" "keeps b (lift_result r)"
  by (simp_all add: keeps_def ret_def throw_def lift_result_def)

lemma keeps_and_then [keeps_rules]: "keeps b m \<Longrightarrow> (\<And>a. keeps b (f a)) \<Longrightarrow> keeps b (and_then m f)"
proof -
  assume m: "keeps b m" and f: "\<And>a. keeps b (f a)"
  have "case and_then m f ((w, l), es) of (res, ((w', l'), es')) \<Rightarrow> mirrored b es' l'" if "mirrored b es l" for w l es
  proof -
    obtain res w1 l1 es1 where run: "m ((w, l), es) = (res, ((w1, l1), es1))" by (metis surj_pair)
    then have "mirrored b es1 l1" using m [unfolded keeps_def, rule_format, OF that, of w] run by simp
    then show ?thesis using f run by (cases res) (auto simp: and_then_def keeps_def)
  qed
  then show ?thesis by (simp add: keeps_def)
qed

lemma keeps_on_world:
  assumes "\<And>x. add_of (ev x) = None"
  shows "keeps b (call (on_world f) ev)"
  by (auto simp: keeps_def call_def on_world_def mirrored_other [OF _ assms] split: prod.splits)

lemma keeps_calls [keeps_rules]:
  "keeps b (do_read (leased_ports R) t)" "keeps b (do_clock (leased_ports R))" "keeps b (do_claim (leased_ports R) i)"
  "keeps b (do_resume (leased_ports R) l)" "keeps b (do_complete (leased_ports R) l r)"
  unfolding do_read_def do_clock_def do_claim_def do_resume_def do_complete_def leased_ports_def
  by (auto intro!: keeps_on_world keeps_and_then keeps_pure)

lemma keeps_add [keeps_rules]: "keeps (has_lease R) (do_add (leased_ports R) q)"
proof -
  have "mirrored (has_lease R) (es @ [DidAdd q x]) l'"
    if "mirrored (has_lease R) es l" "leased_add R (w, l) q = (x, (w', l'))" for w l es x w' l'
    using that by (auto simp: has_lease_def leased_add_def checked_call_def intro!: mirrored_add split: option.splits prod.splits if_splits)
  then show ?thesis
    by (auto simp: keeps_def do_add_def call_def leased_ports_def split: prod.splits)
qed

lemma keeps_terminal [keeps_rules]: "keeps b (terminalReceipt E (leased_ports R) i n st t)"
  unfolding terminalReceipt_def by (intro keeps_rules)

lemma keeps_execute: "keeps (has_lease R) (executeApprovedRemediation E (leased_ports R) i)"
proof -
  have after: "keeps b (after_mutation E (leased_ports R) i n st cur m)" for b n st cur m
    unfolding after_mutation_def by (intro keeps_rules) (auto intro!: keeps_rules split: option.split)
  have mut: "keeps (has_lease R) (mutate E (leased_ports R) i n st cur)" for n st cur
    unfolding mutate_def by (intro keeps_rules) (auto intro!: keeps_rules after split: MutationResult.split)
  have proceed: "keeps (has_lease R) (proceed E (leased_ports R) i n st)" for n st
    unfolding proceed_def by (auto intro!: keeps_rules mut split: option.split)
  have reconcile: "keeps (has_lease R) (reconcile E (leased_ports R) i n st)" for n st
    unfolding reconcile_def by (auto intro!: keeps_rules proceed split: option.split)
  show ?thesis
    unfolding executeApprovedRemediation_def by (auto intro!: keeps_rules proceed reconcile split: ExecutionClaim.split)
qed

text \<open>A decision made of a callback: who may decide, and when.\<close>

lemma createApprovalDecision_Inr:
  assumes "createApprovalDecision E r p decision approver decidedAt = Inr d"
  shows "dec_decision d = decision \<and> dec_decidedAt d = decidedAt \<and> au_authenticated approver
    \<and> ''DataSteward'' \<in> set (au_roles approver)
    \<and> au_subject (dec_approver d) = au_subject approver \<and> au_issuer (dec_approver d) = au_issuer approver"
  using assms unfolding createApprovalDecision_def seal_decision_def Let_def by (auto split: if_splits)

lemma remediation_bound_Some:
  "remediation_bound E m e = Some (d, p, r) \<longleftrightarrow> aev_remediation e = ActionableEvidence d p r
     \<and> verifyAuditEvidence E e (Some (rqm_evidenceDigest m)) \<and> aev_executionId e = rqm_executionId m
     \<and> pln_digest p = rqm_planDigest m \<and> apr_approvalId r = rqm_approvalId m"
  by (auto simp: remediation_bound_def split: RemediationEvidence.split)

lemma seal_execution_Inr:
  assumes "seal_execution E bytes m e d r = Inr x"
  shows "verifyExecutionReceipt E r = [] \<and> verifyDigest E (execution_evidence_payload x) (xev_digest x)
    \<and> xev_receipt x = r \<and> xev_decision x = d \<and> xev_auditEvidenceDigest x = aev_digest e
    \<and> xev_executionId x = rqm_executionId m \<and> xev_approvalId x = rqm_approvalId m"
  using assms
  by (auto simp: seal_execution_def contentAddressedExecutionEvidence_def execution_evidence_def split: if_splits)

lemma no_write_adds: "no_write es \<Longrightarrow> List.map_filter add_of es = []"
  by (induction es) (auto split: option.splits elim!: add_of.elims)

lemma one_write:
  assumes "executeApprovedRemediation E (leased_ports R) i ((w, []), []) = (res, ((w', sent), es))" "Sent q x \<in> set sent"
  shows "sent = (if has_lease R then [LeaseChecked True, Sent q x] else [Sent q x])
    \<and> q = mutationRequest (ex_plan i) \<and> dec_decision (ex_decision i) = APPROVE
    \<and> approvalArtifactsValid E (ex_dossier i) (ex_plan i) (ex_request i) (ex_decision i)
    \<and> (\<exists>st cur. DidClock st \<in> set es \<and> DidRead (dos_target (ex_dossier i)) (Some cur) \<in> set es
         \<and> tp_digest cur = tp_digest (pln_expectedBefore (ex_plan i))
         \<and> date_leq (date_parse E (dec_decidedAt (ex_decision i))) (date_parse E st)
         \<and> date_leq (date_parse E st) (date_parse E (apr_expiresAt (ex_request i))))"
proof -
  have "mirrored (has_lease R) es sent"
    using keeps_execute [of R E i, unfolded keeps_def, rule_format, OF mirrored_Nil, of w] assms(1) by simp
  then obtain gs where gs: "sent = concat gs" "list_all2 (checked_call (has_lease R)) (List.map_filter add_of es) gs"
    by (auto simp: mirrored_def)
  from gs(1) assms(2) obtain g where g: "g \<in> set gs" "Sent q x \<in> set g" by auto
  from gs(2) g(1) obtain qx where qx: "qx \<in> set (List.map_filter add_of es)" "checked_call (has_lease R) qx g"
    by (metis in_set_conv_nth list_all2_conv_all_nth)
  have "qx = (q, x)" using qx(2) g(2) by (cases qx) (auto simp: checked_call_def split: if_splits)
  then have "DidAdd q x \<in> set es" using qx(1) by (auto simp: List.map_filter_def elim!: add_of.elims)
  then obtain pre post where es: "es = pre @ DidAdd q x # post" by (auto simp: in_set_conv_decomp)
  note guarded = write_guarded [OF assms(1) es]
  then have "List.map_filter add_of es = [(q, x)]" by (simp add: es no_write_adds)
  then have "gs = [g]" "checked_call (has_lease R) (q, x) g" using gs(2) g(1) qx(2) \<open>qx = (q, x)\<close>
    by (auto simp: list_all2_Cons1)
  then have "sent = (if has_lease R then [LeaseChecked True, Sent q x] else [Sent q x])"
    using gs(1) g(2) by (auto simp: checked_call_def split: if_splits)
  with guarded es show ?thesis by fastforce
qed

text \<open>A run that sent something or has an output went through every check before the loop.\<close>

lemma remediate_executed:
  assumes "rr_sent (remediate E bytes R m w) \<noteq> [] \<or> (\<exists>out. rr_result (remediate E bytes R m w) = Inr out)"
  obtains e w1 d p r dec where "fst (rmp_getEvidence R w (rqm_evidenceDigest m)) = Inr e"
    "remediation_bound E m e = Some (d, p, r)"
    "createApprovalDecision E r p (acb_decision (rqm_approvalResult m)) (acb_approver (rqm_approvalResult m))
       (acb_decidedAt (rqm_approvalResult m)) = Inr dec"
    "remediate E bytes R m w = execute_bound E bytes R m e (d, p, r) dec w1"
proof -
  obtain got w1 where fetched: "rmp_getEvidence R w (rqm_evidenceDigest m) = (got, w1)" by (metis surj_pair)
  have idle: "rr_sent (idle_run err w') = []" "rr_result (idle_run err w') = Inl err" for err and w' :: 'a
    by (simp_all add: idle_run_def)
  obtain e where e: "got = Inr e" using assms fetched by (cases got) (auto simp: remediate_def idle)
  obtain d p r where bound: "remediation_bound E m e = Some (d, p, r)"
    using assms fetched e by (cases "remediation_bound E m e") (auto simp: remediate_def idle)
  obtain dec where decided: "createApprovalDecision E r p (acb_decision (rqm_approvalResult m))
      (acb_approver (rqm_approvalResult m)) (acb_decidedAt (rqm_approvalResult m)) = Inr dec"
    using assms fetched e bound
    by (cases "createApprovalDecision E r p (acb_decision (rqm_approvalResult m)) (acb_approver (rqm_approvalResult m))
        (acb_decidedAt (rqm_approvalResult m))") (auto simp: remediate_def idle Let_def)
  have "remediate E bytes R m w = execute_bound E bytes R m e (d, p, r) dec w1"
    unfolding remediate_def fetched by (simp add: e bound decided)
  with fetched e bound decided show thesis by (intro that) simp_all
qed

lemma execute_bound_run:
  assumes run_def: "run = execute_bound E bytes R m e artifacts dec w"
  obtains res w2 where "executeApprovedRemediation E (leased_ports R) (execution_input E m artifacts dec) ((w, []), [])
      = (res, ((w2, rr_sent run), rr_events run))"
    "\<And>out. rr_result run = Inr out \<Longrightarrow> \<exists>r x. seal_execution E bytes m e dec r = Inr x \<and> rr_puts run = [x]
       \<and> out = remediation_output m (fst (snd artifacts)) e x"
proof -
  obtain res w2 sent events where exec: "executeApprovedRemediation E (leased_ports R) (execution_input E m artifacts dec)
      ((w, []), []) = (res, ((w2, sent), events))" by (metis surj_pair)
  define judged where "judged = bind_result (case res of Inl err \<Rightarrow> Inl (LoopThrew err) | Inr r \<Rightarrow> Inr r) (seal_execution E bytes m e dec)"
  have run: "run = (case judged of
      Inl err \<Rightarrow> \<lparr>rr_result = Inl err, rr_world = w2, rr_sent = sent, rr_events = events, rr_puts = []\<rparr>
    | Inr x \<Rightarrow> let (put, w3) = rmp_putEvidence R w2 x in
        \<lparr>rr_result = map_result (\<lambda>_. remediation_output m (fst (snd artifacts)) e x) put, rr_world = w3,
         rr_sent = sent, rr_events = events, rr_puts = [x]\<rparr>)"
    unfolding run_def execute_bound_def exec judged_def by simp
  have "rr_sent run = sent" "rr_events run = events" unfolding run by (auto split: sum.split prod.split)
  moreover have "\<exists>r x. seal_execution E bytes m e dec r = Inr x \<and> rr_puts run = [x]
      \<and> out = remediation_output m (fst (snd artifacts)) e x" if "rr_result run = Inr out" for out
  proof (cases judged)
    case (Inr x)
    then have "\<exists>r. seal_execution E bytes m e dec r = Inr x" by (auto simp: judged_def)
    with Inr that show ?thesis unfolding run by (auto split: prod.splits)
  qed (use that run in simp)
  ultimately show thesis using exec that by blast
qed

text \<open>
  C8: the worker writes only what was audited and approved. If the mutation client is called, it is called once, right
  after the lease was found active when there is one, with the request of the plan in the evidence that the store
  returned, whose digest, execution, plan and approval are those of the message; every artifact verifies, a
  DataSteward approved, within the window, and the catalog was read in the approved state. An output means the
  evidence of the execution was put, verifies, and holds a valid receipt whose outcome it reports.
\<close>

theorem remediation_is_bound:
  assumes "remediate E bytes R m w = run"
  shows "(\<forall>q x. Sent q x \<in> set (rr_sent run) \<longrightarrow>
      rr_sent run = (if has_lease R then [LeaseChecked True, Sent q x] else [Sent q x])
      \<and> acb_decision (rqm_approvalResult m) = APPROVE \<and> au_authenticated (acb_approver (rqm_approvalResult m))
      \<and> ''DataSteward'' \<in> set (au_roles (acb_approver (rqm_approvalResult m)))
      \<and> (\<exists>e d p r st cur. fst (rmp_getEvidence R w (rqm_evidenceDigest m)) = Inr e
          \<and> verifyAuditEvidence E e (Some (rqm_evidenceDigest m)) \<and> aev_executionId e = rqm_executionId m
          \<and> aev_remediation e = ActionableEvidence d p r \<and> pln_digest p = rqm_planDigest m
          \<and> apr_approvalId r = rqm_approvalId m \<and> q = mutationRequest p
          \<and> DidClock st \<in> set (rr_events run) \<and> DidRead (dos_target d) (Some cur) \<in> set (rr_events run)
          \<and> tp_digest cur = tp_digest (pln_expectedBefore p)
          \<and> date_leq (date_parse E (apr_requestedAt r)) (date_parse E (acb_decidedAt (rqm_approvalResult m)))
          \<and> date_leq (date_parse E (acb_decidedAt (rqm_approvalResult m))) (date_parse E st)
          \<and> date_leq (date_parse E st) (date_parse E (apr_expiresAt r))))
    \<and> (\<forall>out. rr_result run = Inr out \<longrightarrow> (\<exists>e x. rr_puts run = [x]
        \<and> fst (rmp_getEvidence R w (rqm_evidenceDigest m)) = Inr e \<and> xev_auditEvidenceDigest x = aev_digest e
        \<and> verifyDigest E (execution_evidence_payload x) (xev_digest x) \<and> verifyExecutionReceipt E (xev_receipt x) = []
        \<and> xev_executionId x = rqm_executionId m \<and> xev_approvalId x = rqm_approvalId m
        \<and> out = \<lparr>rco_approvalId = rqm_approvalId m, rco_planDigest = rqm_planDigest m,
            rco_evidenceDigest = rqm_evidenceDigest m, rco_receiptDigest = rcp_digest (xev_receipt x),
            rco_executionEvidenceDigest = xev_digest x, rco_outcome = rcp_outcome (xev_receipt x)\<rparr>))"
proof (intro conjI allI impI)
  let ?c = "rqm_approvalResult m"
  fix q x assume sent: "Sent q x \<in> set (rr_sent run)"
  then have "rr_sent (remediate E bytes R m w) \<noteq> []" unfolding assms by auto
  then obtain e w1 d p r dec where e: "fst (rmp_getEvidence R w (rqm_evidenceDigest m)) = Inr e"
    "remediation_bound E m e = Some (d, p, r)"
    "createApprovalDecision E r p (acb_decision ?c) (acb_approver ?c) (acb_decidedAt ?c) = Inr dec"
    "remediate E bytes R m w = execute_bound E bytes R m e (d, p, r) dec w1" by (rule remediate_executed [OF disjI1])
  obtain res w2 where exec: "executeApprovedRemediation E (leased_ports R) (execution_input E m (d, p, r) dec) ((w1, []), [])
      = (res, ((w2, rr_sent run), rr_events run))"
    using execute_bound_run [OF assms [symmetric, unfolded e(4)]] by metis
  from one_write [OF exec sent] e(1) e(2) [unfolded remediation_bound_Some] createApprovalDecision_Inr [OF e(3)]
  show "rr_sent run = (if has_lease R then [LeaseChecked True, Sent q x] else [Sent q x])"
    "acb_decision ?c = APPROVE" "au_authenticated (acb_approver ?c)" "''DataSteward'' \<in> set (au_roles (acb_approver ?c))"
    "\<exists>e d p r st cur. fst (rmp_getEvidence R w (rqm_evidenceDigest m)) = Inr e
          \<and> verifyAuditEvidence E e (Some (rqm_evidenceDigest m)) \<and> aev_executionId e = rqm_executionId m
          \<and> aev_remediation e = ActionableEvidence d p r \<and> pln_digest p = rqm_planDigest m
          \<and> apr_approvalId r = rqm_approvalId m \<and> q = mutationRequest p
          \<and> DidClock st \<in> set (rr_events run) \<and> DidRead (dos_target d) (Some cur) \<in> set (rr_events run)
          \<and> tp_digest cur = tp_digest (pln_expectedBefore p)
          \<and> date_leq (date_parse E (apr_requestedAt r)) (date_parse E (acb_decidedAt ?c))
          \<and> date_leq (date_parse E (acb_decidedAt ?c)) (date_parse E st)
          \<and> date_leq (date_parse E st) (date_parse E (apr_expiresAt r))"
    by (auto simp: execution_input_def approvalArtifactsValid_def)
next
  fix out assume result: "rr_result run = Inr out"
  then have "\<exists>out. rr_result (remediate E bytes R m w) = Inr out" unfolding assms by blast
  then obtain e w1 d p r dec where e: "fst (rmp_getEvidence R w (rqm_evidenceDigest m)) = Inr e"
    "remediation_bound E m e = Some (d, p, r)" "remediate E bytes R m w = execute_bound E bytes R m e (d, p, r) dec w1"
    by (rule remediate_executed [OF disjI2])
  obtain rcp x where "seal_execution E bytes m e dec rcp = Inr x" "rr_puts run = [x]" "out = remediation_output m p e x"
    using execute_bound_run [OF assms [symmetric, unfolded e(3)]] result by (metis fst_conv snd_conv)
  then show "\<exists>e x. rr_puts run = [x]
        \<and> fst (rmp_getEvidence R w (rqm_evidenceDigest m)) = Inr e \<and> xev_auditEvidenceDigest x = aev_digest e
        \<and> verifyDigest E (execution_evidence_payload x) (xev_digest x) \<and> verifyExecutionReceipt E (xev_receipt x) = []
        \<and> xev_executionId x = rqm_executionId m \<and> xev_approvalId x = rqm_approvalId m
        \<and> out = \<lparr>rco_approvalId = rqm_approvalId m, rco_planDigest = rqm_planDigest m,
            rco_evidenceDigest = rqm_evidenceDigest m, rco_receiptDigest = rcp_digest (xev_receipt x),
            rco_executionEvidenceDigest = xev_digest x, rco_outcome = rcp_outcome (xev_receipt x)\<rparr>"
    using e(1) e(2) [unfolded remediation_bound_Some] seal_execution_Inr
    by (auto simp: remediation_output_def verifyAuditEvidence_def)
qed

text \<open>A world that remembers whether the tag was added, with a lease that is active.\<close>

definition demo_evidence :: AuditEvidenceV1 where
  "demo_evidence = \<lparr>aev_schemaVersion = ''archon.audit-evidence/v1'', aev_executionId = ''run'',
     aev_request = \<lparr>arq_requestId = ''request-1'', arq_requestedAt = ''2026-01-01T00:00:00.000Z'', arq_query = None, arq_mode = None\<rparr>,
     aev_releaseSha = ''sha'', aev_report = report_json demo_report, aev_reportDigest = demo_digest,
     aev_remediation = ActionableEvidence demo_dossier demo_plan demo_request,
     aev_createdAt = ''2026-01-01T00:00:00.000Z'', aev_digest = demo_digest\<rparr>"

definition demo_remediation :: RemediationQueueMessageV1 where
  "demo_remediation = \<lparr>rqm_taskToken = ''token'', rqm_executionId = ''run'', rqm_approvalId = apr_approvalId demo_request,
     rqm_planDigest = demo_digest, rqm_evidenceDigest = demo_digest,
     rqm_approvalResult = \<lparr>acb_approvalId = apr_approvalId demo_request, acb_decision = APPROVE,
       acb_approver = \<lparr>au_subject = ''alice'', au_issuer = ''idp'', au_roles = [''DataSteward''], au_authenticated = True\<rparr>,
       acb_decidedAt = ''2026-01-01T00:05:00.000Z''\<rparr>\<rparr>"

definition demo_remediation_ports :: "bool remediation_ports" where
  "demo_remediation_ports = \<lparr>rmp_getEvidence = (\<lambda>w d. (Inr demo_evidence, w)), rmp_putEvidence = (\<lambda>w x. (Inr (), w)),
     rmp_loop = \<lparr>readTagProjection = (\<lambda>w t. (Some (if w then demo_after else demo_before), w)),
       addTags = (\<lambda>w q. (Acked demo_ack, True)), clock = (\<lambda>w. (''2026-01-01T00:10:00.000Z'', w)),
       port_claim = (\<lambda>w i. (Inr (CLAIMED 1), w)), port_resume = (\<lambda>w l. (Inr True, w)),
       port_complete = (\<lambda>w l r. (Inr (), w))\<rparr>,
     rmp_assertActive = Some (\<lambda>w. (True, w))\<rparr>"

lemma demo_job_bound: "remediation_bound demo_env demo_remediation demo_evidence = Some (demo_dossier, demo_plan, demo_request)"
  unfolding remediation_bound_Some
  using demo_report_ok verifyDigest_digest [OF hex_demo_env, of "evidence_payload demo_evidence"]
  by (simp add: demo_evidence_def demo_remediation_def verifyAuditEvidence_def)

lemma demo_decided:
  "createApprovalDecision demo_env demo_request demo_plan (acb_decision (rqm_approvalResult demo_remediation))
     (acb_approver (rqm_approvalResult demo_remediation)) (acb_decidedAt (rqm_approvalResult demo_remediation))
   = Inr demo_decision"
  by (simp add: createApprovalDecision_def demo_remediation_def demo_decision_def instant_def demo_dates trim_def is_ws_def
      uniqueSorted_def dedupe_def)

lemma demo_leased_run:
  "\<exists>res es. executeApprovedRemediation demo_env (leased_ports demo_remediation_ports)
     (execution_input demo_env demo_remediation (demo_dossier, demo_plan, demo_request) demo_decision) ((False, []), [])
   = (res, ((True, [LeaseChecked True, Sent (mutationRequest demo_plan) (Acked demo_ack)]), es))"
proof -
  let ?i = "execution_input demo_env demo_remediation (demo_dossier, demo_plan, demo_request) demo_decision"
  have key: "trim demo_digest \<noteq> []" unfolding demo_digest_def by code_simp
  have i: "ex_dossier ?i = demo_dossier" "ex_plan ?i = demo_plan" "ex_request ?i = demo_request" "ex_decision ?i = demo_decision"
    "ex_idempotencyKey ?i = demo_digest"
    by (simp_all add: execution_input_def worker_execution_key_def)
  have r: "issue demo_env ?i c d (judged demo_env ?i demo_before demo_ack demo_after) = Inr (seal_receipt demo_env
      (receipt_input demo_env ?i c d (judged demo_env ?i demo_before demo_ack demo_after)))" for c d
    by (subst issue_cases) (simp_all add: executable_def i key)
  show ?thesis
    by (simp add: run_eval demo_dates i key r leased_ports_def demo_remediation_ports_def leased_add_def on_world_def)
qed

theorem remediation_is_bound_witness:
  "rr_sent (remediate demo_env (\<lambda>_. 0) demo_remediation_ports demo_remediation False)
     = [LeaseChecked True, Sent (mutationRequest demo_plan) (Acked demo_ack)]
   \<and> (\<exists>d p r. aev_remediation demo_evidence = ActionableEvidence d p r \<and> mutationRequest demo_plan = mutationRequest p)"
proof -
  have fetched: "rmp_getEvidence demo_remediation_ports w d = (Inr demo_evidence, w)" for w d
    by (simp add: demo_remediation_ports_def)
  have "remediate demo_env (\<lambda>_. 0) demo_remediation_ports demo_remediation False
      = execute_bound demo_env (\<lambda>_. 0) demo_remediation_ports demo_remediation demo_evidence
          (demo_dossier, demo_plan, demo_request) demo_decision False"
    unfolding remediate_def fetched by (simp add: demo_job_bound demo_decided)
  then have sent: "rr_sent (remediate demo_env (\<lambda>_. 0) demo_remediation_ports demo_remediation False)
      = [LeaseChecked True, Sent (mutationRequest demo_plan) (Acked demo_ack)]"
    using demo_leased_run by (auto simp: execute_bound_def Let_def split: sum.split prod.split)
  with remediation_is_bound [OF refl, of demo_env "\<lambda>_. 0" demo_remediation_ports demo_remediation False] fetched
  show ?thesis by fastforce
qed

end
