(* ===== verification/Drift.thy ===== *)
theory Drift
  imports VersionHistory JsonFields "HOL-Library.AList"
begin

section \<open>Drift between two harvests: \<open>detectDrift\<close> of \<open>src/datahub/version-history.ts\<close>\<close>

text \<open>
  Two harvests of the current view are compared attribute by attribute. The source keeps a \<open>Map\<close> keyed by the
  subject and the attribute around the separator U+241F; no character of the model is that separator, so the
  key is the pair of the two. A \<open>Map\<close> is the list of its entries in insertion order.
\<close>

record Drift =
  dr_subject :: string
  dr_attribute :: string
  dr_from :: json
  dr_to :: json

definition falsy :: "json \<Rightarrow> bool" where
  "falsy v \<longleftrightarrow> v = JNull \<or> v = JBool False \<or> v = JNum 0 \<or> v = JStr []"

definition drift_subject :: "AuditFact \<Rightarrow> string option" where
  "drift_subject f = (case meta f ''record'' of
      None \<Rightarrow> nonempty_ref (fct_sourceRef f)
    | Some v \<Rightarrow> if v = JNull then nonempty_ref (fct_sourceRef f) else if falsy v then None else Some (js_text v))"

definition scalarAttrs :: "AuditFact \<Rightarrow> (string \<times> json) list" where
  "scalarAttrs f = (case fct_metadata f of None \<Rightarrow> [] | Some md \<Rightarrow>
     filter (\<lambda>kv. fst kv \<notin> RESERVED_KEYS \<and> scalar (snd kv)) (own_key_order md))"

definition index_facts :: "AuditFact list \<Rightarrow> ((string \<times> string) \<times> json) list" where
  "index_facts facts = fold (\<lambda>f m. case drift_subject f of None \<Rightarrow> m
     | Some subject \<Rightarrow> fold (\<lambda>(attr, val) m. AList.update (subject, attr) val m) (scalarAttrs f) m) facts []"

definition drift_cmp :: "Drift \<Rightarrow> Drift \<Rightarrow> int" where
  "drift_cmp a b = (if dr_subject a \<noteq> dr_subject b then (if dr_subject a < dr_subject b then -1 else 1)
     else if dr_attribute a < dr_attribute b then -1
     else if dr_attribute a > dr_attribute b then 1 else 0)"

definition drift_of :: "((string \<times> string) \<times> json) list \<Rightarrow> (string \<times> string) \<times> json \<Rightarrow> Drift option" where
  "drift_of before = (\<lambda>(key, to). case map_of before key of None \<Rightarrow> None
     | Some old \<Rightarrow> if stringify old = stringify to then None
         else Some \<lparr>dr_subject = fst key, dr_attribute = snd key, dr_from = old, dr_to = to\<rparr>)"

definition detectDrift :: "AuditFact list \<Rightarrow> AuditFact list \<Rightarrow> Drift list" where
  "detectDrift prior current =
     js_sort drift_cmp (List.map_filter (drift_of (index_facts prior)) (index_facts current))"

subsection \<open>What drift is\<close>

text \<open>A fact states a value for an attribute of its subject; the last fact to do so has a harvest's last word on it.\<close>

definition states :: "AuditFact \<Rightarrow> string \<Rightarrow> string \<Rightarrow> json \<Rightarrow> bool" where
  "states f s a v \<longleftrightarrow> drift_subject f = Some s \<and> (\<exists>md. fct_metadata f = Some md \<and> (a, v) \<in> set md)
     \<and> a \<notin> {''record'', ''refs''} \<and> scalar v"

definition last_stated :: "AuditFact list \<Rightarrow> string \<Rightarrow> string \<Rightarrow> json \<Rightarrow> bool" where
  "last_stated facts s a v \<longleftrightarrow> (\<exists>pre f post. facts = pre @ f # post \<and> states f s a v \<and> (\<forall>g \<in> set post. \<forall>w. \<not> states g s a w))"

interpretation drifts: comparator drift_cmp
  by unfold_locales (auto simp: drift_cmp_def split: if_splits)

lemma fold_update:
  "map_of (fold (\<lambda>(a, v) m. AList.update (s, a) v m) kvs m) (s', a') =
     (if s' = s then case map_of (rev kvs) a' of Some v \<Rightarrow> Some v | None \<Rightarrow> map_of m (s', a') else map_of m (s', a'))"
  by (induction kvs arbitrary: m) (auto simp: update_conv' map_add_def split: option.splits)

lemma distinct_fold_update:
  "distinct (map fst m) \<Longrightarrow> distinct (map fst (fold (\<lambda>(a, v) m. AList.update (s, a) v m) kvs m))"
  by (induction kvs arbitrary: m) (auto simp: distinct_update)

lemma distinct_index: "distinct (map fst (index_facts facts))"
  unfolding index_facts_def
  by (induction facts rule: rev_induct) (simp_all add: distinct_fold_update split: option.split)

lemma scalarAttrs_states:
  assumes "\<forall>md. fct_metadata f = Some md \<longrightarrow> distinct (map fst md)" "drift_subject f = Some s"
  shows "map_of (rev (scalarAttrs f)) a = Some v \<longleftrightarrow> states f s a v"
proof (cases "fct_metadata f")
  case None
  then show ?thesis by (simp add: scalarAttrs_def states_def)
next
  case (Some md)
  have "mset (map fst (own_key_order md)) = mset (map fst md)" by simp
  then have "distinct (map fst (own_key_order md))"
    using assms(1) Some mset_eq_imp_distinct_iff by blast
  then have "distinct (map fst (rev (scalarAttrs f)))"
    by (auto simp: scalarAttrs_def Some distinct_map_filter rev_map [symmetric])
  then have "map_of (rev (scalarAttrs f)) a = Some v \<longleftrightarrow> (a, v) \<in> set (scalarAttrs f)"
    using map_of_eq_Some_iff by fastforce
  also have "\<dots> \<longleftrightarrow> states f s a v"
    using mset_eq_setD [OF mset_own_key_order [of md]] assms(2)
    by (auto simp: scalarAttrs_def Some states_def RESERVED_KEYS_def)
  finally show ?thesis .
qed

lemma last_stated_snoc:
  "last_stated (facts @ [f]) s a v \<longleftrightarrow> states f s a v \<or> (\<forall>w. \<not> states f s a w) \<and> last_stated facts s a v"
proof
  assume "last_stated (facts @ [f]) s a v"
  then obtain pre g post where g: "facts @ [f] = pre @ g # post" "states g s a v" "\<forall>h \<in> set post. \<forall>w. \<not> states h s a w"
    unfolding last_stated_def by blast
  show "states f s a v \<or> (\<forall>w. \<not> states f s a w) \<and> last_stated facts s a v"
  proof (cases post rule: rev_cases)
    case Nil
    with g show ?thesis by simp
  next
    case (snoc post' h)
    with g(1) have "facts = pre @ g # post'" "h = f" by simp_all
    with g(2,3) snoc show ?thesis unfolding last_stated_def by auto
  qed
next
  assume "states f s a v \<or> (\<forall>w. \<not> states f s a w) \<and> last_stated facts s a v"
  then show "last_stated (facts @ [f]) s a v"
  proof
    assume "states f s a v"
    then show ?thesis unfolding last_stated_def by (intro exI [of _ facts] exI [of _ f] exI [of _ "[]"]) simp
  next
    assume none: "(\<forall>w. \<not> states f s a w) \<and> last_stated facts s a v"
    then obtain pre g post where "facts = pre @ g # post" "states g s a v" "\<forall>h \<in> set post. \<forall>w. \<not> states h s a w"
      unfolding last_stated_def by blast
    with none show ?thesis
      unfolding last_stated_def by (intro exI [of _ pre] exI [of _ g] exI [of _ "post @ [f]"]) auto
  qed
qed

lemma index_last:
  "objects facts \<Longrightarrow> map_of (index_facts facts) (s, a) = Some v \<longleftrightarrow> last_stated facts s a v"
proof (induction facts arbitrary: v rule: rev_induct)
  case Nil
  then show ?case by (simp add: index_facts_def last_stated_def)
next
  case (snoc f facts)
  have f: "\<forall>md. fct_metadata f = Some md \<longrightarrow> distinct (map fst md)" and IH: "map_of (index_facts facts) (s, a) = Some v \<longleftrightarrow> last_stated facts s a v" for v
    using snoc by (simp_all add: objects_def)
  have step: "map_of (index_facts (facts @ [f])) (s, a) = (if drift_subject f = Some s
      then case map_of (rev (scalarAttrs f)) a of Some v \<Rightarrow> Some v | None \<Rightarrow> map_of (index_facts facts) (s, a)
      else map_of (index_facts facts) (s, a))"
    by (auto simp: index_facts_def fold_update split: option.split)
  show ?case
  proof (cases "drift_subject f = Some s")
    case True
    note one = scalarAttrs_states [OF f True, of a]
    have "map_of (rev (scalarAttrs f)) a = None \<longleftrightarrow> (\<forall>w. \<not> states f s a w)"
      using one by (metis not_None_eq option.distinct(1))
    then show ?thesis
      unfolding step last_stated_snoc IH [symmetric] one [symmetric] using True by (auto split: option.split)
  next
    case False
    then have "\<not> states f s a w" for w by (simp add: states_def)
    with False IH [of v] show ?thesis unfolding step last_stated_snoc by simp
  qed
qed

definition drift_key :: "Drift \<Rightarrow> string \<times> string" where
  "drift_key d = (dr_subject d, dr_attribute d)"

lemma strictly_sorted:
  "distinct (map drift_key ds) \<Longrightarrow> sorted_wrt (\<lambda>a b. drift_cmp a b \<le> 0) ds \<Longrightarrow>
     sorted_wrt (\<lambda>d d'. dr_subject d < dr_subject d' \<or> dr_subject d = dr_subject d' \<and> dr_attribute d < dr_attribute d') ds"
  by (induction ds) (fastforce simp: drift_cmp_def drift_key_def split: if_splits)+

lemma drift_of_key: "drift_of m e = Some d \<Longrightarrow> drift_key d = fst e"
  by (auto simp: drift_key_def drift_of_def split: prod.splits option.splits if_splits)

lemma drift_of_iff: "drift_of m e = Some d \<longleftrightarrow>
    map_of m (drift_key d) = Some (dr_from d) \<and> e = (drift_key d, dr_to d) \<and> dr_from d \<noteq> dr_to d"
  by (cases e; cases "map_of m (fst e)"; cases d) (auto simp: drift_of_def drift_key_def stringify_inj)

lemma map_filter_Cons: "List.map_filter f (x # xs) = (case f x of None \<Rightarrow> [] | Some y \<Rightarrow> [y]) @ List.map_filter f xs"
  by (simp add: List.map_filter_def split: option.split)

lemma mem_map_filter: "y \<in> set (List.map_filter f xs) \<longleftrightarrow> (\<exists>x \<in> set xs. f x = Some y)"
  by (induction xs) (auto simp: map_filter_Cons List.map_filter_def split: option.split)

lemma distinct_drifts:
  "distinct (map fst es) \<Longrightarrow> distinct (map drift_key (List.map_filter (drift_of m) es))"
proof (induction es)
  case (Cons e es)
  have "drift_key ` set (List.map_filter (drift_of m) es) \<subseteq> fst ` set es"
    using drift_of_key [of m] by (force simp: List.map_filter_def)
  with Cons.prems have "fst e \<notin> drift_key ` set (List.map_filter (drift_of m) es)" by auto
  with Cons show ?case by (cases "drift_of m e") (simp_all add: map_filter_Cons drift_of_key)
qed (simp add: List.map_filter_def)

text \<open>
  C20: drift is exactly the set of attributes that both harvests state and on whose value their last words
  differ, each with its old and new value. The list names every attribute of a subject once, in the order of
  subjects and then of attributes, so it does not depend on the order of unrelated facts.
\<close>

theorem drift_exact:
  assumes "objects prior" and "objects current"
  shows "(\<forall>d. d \<in> set (detectDrift prior current) \<longleftrightarrow>
      last_stated prior (dr_subject d) (dr_attribute d) (dr_from d)
      \<and> last_stated current (dr_subject d) (dr_attribute d) (dr_to d) \<and> dr_from d \<noteq> dr_to d)
   \<and> sorted_wrt (\<lambda>d d'. dr_subject d < dr_subject d' \<or> dr_subject d = dr_subject d' \<and> dr_attribute d < dr_attribute d')
       (detectDrift prior current)"
proof
  show "\<forall>d. d \<in> set (detectDrift prior current) \<longleftrightarrow>
      last_stated prior (dr_subject d) (dr_attribute d) (dr_from d)
      \<and> last_stated current (dr_subject d) (dr_attribute d) (dr_to d) \<and> dr_from d \<noteq> dr_to d"
  proof
    fix d :: Drift
    have "d \<in> set (detectDrift prior current) \<longleftrightarrow>
        (\<exists>e \<in> set (index_facts current). drift_of (index_facts prior) e = Some d)"
      by (simp add: detectDrift_def mem_map_filter)
    also have "\<dots> \<longleftrightarrow> map_of (index_facts prior) (drift_key d) = Some (dr_from d)
        \<and> map_of (index_facts current) (drift_key d) = Some (dr_to d) \<and> dr_from d \<noteq> dr_to d"
      unfolding drift_of_iff using map_of_eq_Some_iff [OF distinct_index] by auto
    finally show "d \<in> set (detectDrift prior current) \<longleftrightarrow>
      last_stated prior (dr_subject d) (dr_attribute d) (dr_from d)
      \<and> last_stated current (dr_subject d) (dr_attribute d) (dr_to d) \<and> dr_from d \<noteq> dr_to d"
      unfolding drift_key_def index_last [OF assms(1)] index_last [OF assms(2)] .
  qed
  have "mset (map drift_key (detectDrift prior current))
      = mset (map drift_key (List.map_filter (drift_of (index_facts prior)) (index_facts current)))"
    by (simp add: detectDrift_def)
  then have "distinct (map drift_key (detectDrift prior current))"
    using distinct_drifts [OF distinct_index] mset_eq_imp_distinct_iff by blast
  moreover have "sorted_wrt (\<lambda>a b. drift_cmp a b \<le> 0) (detectDrift prior current)"
    unfolding detectDrift_def by (rule drifts.sorted_js_sort)
  ultimately show "sorted_wrt (\<lambda>d d'. dr_subject d < dr_subject d' \<or> dr_subject d = dr_subject d' \<and> dr_attribute d < dr_attribute d')
       (detectDrift prior current)"
    by (rule strictly_sorted)
qed

definition demo_drift_fact :: "string \<Rightarrow> AuditFact" where
  "demo_drift_fact owner = \<lparr>fct_id = ''f'', fct_kind = K_ownership, fct_source = ''scan'', fct_scan = None, fct_sourceRef = None,
     fct_content = [], fct_metadata = Some [(''record'', JStr ''urn:a''), (''owner'', JStr owner)],
     fct_createdAt = [], fct_importance = None\<rparr>"

theorem drift_exact_witness:
  "\<lparr>dr_subject = ''urn:a'', dr_attribute = ''owner'', dr_from = JStr ''old'', dr_to = JStr ''new''\<rparr>
     \<in> set (detectDrift [demo_drift_fact ''old''] [demo_drift_fact ''new''])"
proof -
  have "objects [demo_drift_fact owner]" for owner by (simp add: objects_def demo_drift_fact_def)
  note exact = drift_exact [OF this [of "''old''"] this [of "''new''"]]
  have "states (demo_drift_fact owner) ''urn:a'' ''owner'' (JStr owner)" for owner
    by (simp add: states_def demo_drift_fact_def drift_subject_def meta_def falsy_def)
  then have "last_stated [demo_drift_fact owner] ''urn:a'' ''owner'' (JStr owner)" for owner
    unfolding last_stated_def by (intro exI [of _ "[]"] exI [of _ "demo_drift_fact owner"] exI [of _ "[]"]) simp
  with exact show ?thesis by simp
qed

end
