(* ===== verification/HarvestPolicy.thy ===== *)
theory HarvestPolicy
  imports Catalog
begin

section \<open>Budgets of a live harvest: \<open>src/datahub/harvest-policy.ts\<close>\<close>

text \<open>
  The fixed limits of the two hosted execution paths, the deadline around an operation, and the pool that runs an
  operation on every item with a bound on how many are in flight. JavaScript runs one piece of code at a
  time: between two awaits a worker of the pool is not interrupted, so each of its stretches is one step.
\<close>

subsection \<open>The policies\<close>

datatype AuditExecutionProfile = Synchronous_preview | Async_worker

record LiveHarvestPolicy =
  hp_maxEntities :: nat
  hp_schemaFieldPageSize :: nat
  hp_maxSchemaFieldsPerEntity :: nat
  hp_maxSchemaFieldPages :: nat
  hp_schemaCompletionConcurrency :: nat
  hp_maxLineageResultsPerDirection :: nat
  hp_maxLineageRelations :: nat
  hp_maxHistoricalVersions :: nat
  hp_lineageConcurrency :: nat
  hp_historyConcurrency :: nat
  hp_operationTimeoutMs :: nat
  hp_harvestDeadlineMs :: nat
  hp_pipelineDeadlineMs :: nat

fun harvestPolicy :: "AuditExecutionProfile \<Rightarrow> LiveHarvestPolicy" where
  "harvestPolicy Synchronous_preview =
     \<lparr>hp_maxEntities = 1, hp_schemaFieldPageSize = 100, hp_maxSchemaFieldsPerEntity = 500,
      hp_maxSchemaFieldPages = 10, hp_schemaCompletionConcurrency = 1, hp_maxLineageResultsPerDirection = 50,
      hp_maxLineageRelations = 100, hp_maxHistoricalVersions = 2, hp_lineageConcurrency = 2,
      hp_historyConcurrency = 4, hp_operationTimeoutMs = 4000, hp_harvestDeadlineMs = 18000,
      hp_pipelineDeadlineMs = 25000\<rparr>"
| "harvestPolicy Async_worker =
     \<lparr>hp_maxEntities = 25, hp_schemaFieldPageSize = 100, hp_maxSchemaFieldsPerEntity = 5000,
      hp_maxSchemaFieldPages = 100, hp_schemaCompletionConcurrency = 4, hp_maxLineageResultsPerDirection = 50,
      hp_maxLineageRelations = 2500, hp_maxHistoricalVersions = 12, hp_lineageConcurrency = 8,
      hp_historyConcurrency = 8, hp_operationTimeoutMs = 10000, hp_harvestDeadlineMs = 75 * 60000,
      hp_pipelineDeadlineMs = 90 * 60000\<rparr>"

definition requireDirectHistoryCapability :: "string option \<Rightarrow> DataHubHarvestError + string" where
  "requireDirectHistoryCapability gmsUrl = (case map_option trim gmsUrl of
      Some (c # cs) \<Rightarrow> Inr (c # cs)
    | _ \<Rightarrow> Inl (DataHubHarvestError HISTORY_CAPABILITY_REQUIRED
        ''Live hosted audits require a direct DataHub GMS endpoint for complete aspect history.''))"

definition deadlineMessage :: "DataHubHarvestErrorCode \<Rightarrow> string" where
  "deadlineMessage code = (if code = PIPELINE_DEADLINE_EXCEEDED
     then ''The audit pipeline exceeded its hosted execution deadline.''
     else ''The DataHub harvest exceeded its hosted execution deadline.'')"

text \<open>Whether the signal of a timeout, joined with a parent signal when there is one, is aborted at an instant.\<close>

definition deadlineSignal :: "int \<Rightarrow> int \<Rightarrow> bool option \<Rightarrow> int \<Rightarrow> bool" where
  "deadlineSignal timeoutMs started parent now \<longleftrightarrow> parent = Some True \<or> now \<ge> started + timeoutMs"

definition deadline_error :: "DataHubHarvestErrorCode \<Rightarrow> DataHubHarvestError" where
  "deadline_error code = DataHubHarvestError code (deadlineMessage code)"

subsection \<open>\<open>waitWithinDeadline\<close>\<close>

text \<open>
  The promise is settled by the first of its callbacks to run. An error is the deadline's or the operation's own.
\<close>

datatype 'a wait_event = OnAbort | OnValue 'a

fun finish :: "'b option \<Rightarrow> 'b \<Rightarrow> 'b option" where
  "finish (Some settled) outcome = Some settled"
| "finish None outcome = Some outcome"

fun wait_outcome :: "DataHubHarvestErrorCode \<Rightarrow> ('e + 'a) wait_event \<Rightarrow> (DataHubHarvestError + 'e) + 'a" where
  "wait_outcome code OnAbort = Inl (Inl (deadline_error code))"
| "wait_outcome code (OnValue (Inl e)) = Inl (Inr e)"
| "wait_outcome code (OnValue (Inr a)) = Inr a"

text \<open>How the promise is settled after the callbacks that have run; \<open>None\<close> while it is pending.\<close>

definition waitWithinDeadline ::
    "bool \<Rightarrow> DataHubHarvestErrorCode \<Rightarrow> ('e + 'a) wait_event list \<Rightarrow> ((DataHubHarvestError + 'e) + 'a) option" where
  "waitWithinDeadline aborted code events =
     (if aborted then Some (Inl (Inl (deadline_error code)))
      else fold (\<lambda>ev settled. finish settled (wait_outcome code ev)) events None)"

lemma wait_first: "waitWithinDeadline False code (ev # events) = Some (wait_outcome code ev)"
proof -
  have "fold (\<lambda>ev settled. finish settled (wait_outcome code ev)) events (Some x) = Some x" for x
    by (induction events) simp_all
  then show ?thesis by (simp add: waitWithinDeadline_def)
qed

subsection \<open>\<open>mapWithConcurrency\<close>\<close>

text \<open>
  A worker of the pool awaits the operation on one item, or has returned. \<open>pool_unstarted\<close> counts the
  workers the loop of \<open>Array.from\<close> has still to start; all of them are started before any operation settles.
\<close>

datatype pool_worker = Awaiting nat | Ended

record ('r, 'e) pool =
  pool_output :: "'r option list"
  pool_cursor :: nat
  pool_failure :: "(DataHubHarvestError + 'e) option"
  pool_workers :: "pool_worker list"
  pool_unstarted :: nat
  pool_aborted :: bool

text \<open>One turn of the loop of \<open>worker\<close>, up to the next await or the return.\<close>

definition next_item :: "('r, 'e) pool \<Rightarrow> pool_worker \<times> ('r, 'e) pool" where
  "next_item p =
     (if pool_failure p \<noteq> None then (Ended, p)
      else if pool_aborted p
      then (Ended, p\<lparr>pool_failure := Some (Inl (deadline_error HARVEST_DEADLINE_EXCEEDED))\<rparr>)
      else (if pool_cursor p \<ge> length (pool_output p) then Ended else Awaiting (pool_cursor p),
            p\<lparr>pool_cursor := Suc (pool_cursor p)\<rparr>))"

definition start_worker :: "('r, 'e) pool \<Rightarrow> ('r, 'e) pool" where
  "start_worker p = (let (w, p') = next_item p in
     p'\<lparr>pool_workers := pool_workers p' @ [w], pool_unstarted := pool_unstarted p' - 1\<rparr>)"

definition settle_value :: "nat \<Rightarrow> nat \<Rightarrow> 'r \<Rightarrow> ('r, 'e) pool \<Rightarrow> ('r, 'e) pool" where
  "settle_value w i r p = (let (w', p') = next_item (p\<lparr>pool_output := (pool_output p)[i := Some r]\<rparr>) in
     p'\<lparr>pool_workers := (pool_workers p')[w := w']\<rparr>)"

definition settle_error :: "nat \<Rightarrow> 'e \<Rightarrow> ('r, 'e) pool \<Rightarrow> ('r, 'e) pool" where
  "settle_error w e p = p\<lparr>pool_failure := (case pool_failure p of None \<Rightarrow> Some (Inr e) | f \<Rightarrow> f),
     pool_workers := (pool_workers p)[w := Ended]\<rparr>"

text \<open>
  A step of the event loop: the signal aborts, the next worker is started, or the operation some worker awaits
  settles. \<open>ans i x\<close> says that the operation on item \<open>i\<close> may settle with \<open>x\<close>.
\<close>

inductive pool_step :: "(nat \<Rightarrow> 'e + 'r \<Rightarrow> bool) \<Rightarrow> ('r, 'e) pool \<Rightarrow> ('r, 'e) pool \<Rightarrow> bool" for ans where
  signal_aborts: "\<not> pool_aborted p \<Longrightarrow> pool_step ans p (p\<lparr>pool_aborted := True\<rparr>)"
| worker_starts: "pool_unstarted p > 0 \<Longrightarrow> pool_step ans p (start_worker p)"
| value_settles: "pool_unstarted p = 0 \<Longrightarrow> w < length (pool_workers p) \<Longrightarrow> pool_workers p ! w = Awaiting i \<Longrightarrow>
    ans i (Inr r) \<Longrightarrow> pool_step ans p (settle_value w i r p)"
| error_settles: "pool_unstarted p = 0 \<Longrightarrow> w < length (pool_workers p) \<Longrightarrow> pool_workers p ! w = Awaiting i \<Longrightarrow>
    ans i (Inl e) \<Longrightarrow> pool_step ans p (settle_error w e p)"

text \<open>
  \<open>concurrency\<close> is \<open>None\<close> when it is not a finite number; \<open>RangeError\<close> is the exception for one that is
  not a positive integer.
\<close>

datatype RangeError = RangeError string

definition positive_integer :: "rat option \<Rightarrow> nat option" where
  "positive_integer c = (case c of None \<Rightarrow> None | Some q \<Rightarrow>
     (case quotient_of q of (a, b) \<Rightarrow> if b \<noteq> 1 \<or> a < 1 then None else Some (nat a)))"

definition mapWithConcurrency :: "'t list \<Rightarrow> rat option \<Rightarrow> bool \<Rightarrow> RangeError + ('r, 'e) pool" where
  "mapWithConcurrency items concurrency aborted = (case positive_integer concurrency of
      None \<Rightarrow> Inl (RangeError ''concurrency must be a positive integer'')
    | Some c \<Rightarrow> Inr \<lparr>pool_output = replicate (length items) None, pool_cursor = 0, pool_failure = None,
        pool_workers = [], pool_unstarted = min c (length items), pool_aborted = aborted\<rparr>)"

text \<open>\<open>await Promise.all(workers)\<close> is over when every worker has returned; then the failure is thrown or the output returned.\<close>

definition pool_result :: "('r, 'e) pool \<Rightarrow> ((DataHubHarvestError + 'e) + 'r option list) option" where
  "pool_result p = (if pool_unstarted p = 0 \<and> list_all (\<lambda>w. w = Ended) (pool_workers p)
     then Some (case pool_failure p of Some f \<Rightarrow> Inl f | None \<Rightarrow> Inr (pool_output p)) else None)"

subsection \<open>The invariant of the pool\<close>

text \<open>
  \<open>aw w i\<close>: worker \<open>w\<close> awaits item \<open>i\<close>; \<open>ended\<close>: some worker has returned. No item is awaited twice or
  after it has settled; the output holds only what the operations settled with; while nothing has failed every
  item up to the cursor is done or awaited, and a worker has returned only if none was left.
\<close>

definition pool_inv :: "(nat \<Rightarrow> 'e + 'r \<Rightarrow> bool) \<Rightarrow> nat \<Rightarrow> (nat \<Rightarrow> nat \<Rightarrow> bool) \<Rightarrow> bool \<Rightarrow> ('r, 'e) pool \<Rightarrow> bool" where
  "pool_inv ans n aw ended p \<longleftrightarrow> length (pool_output p) = n
     \<and> bi_unique aw
     \<and> (\<forall>w i. aw w i \<longrightarrow> i < n \<and> i < pool_cursor p \<and> pool_output p ! i = None)
     \<and> (\<forall>i r. i < n \<and> pool_output p ! i = Some r \<longrightarrow> i < pool_cursor p \<and> ans i (Inr r))
     \<and> (pool_failure p = None \<longrightarrow> (\<forall>i < n. i < pool_cursor p \<and> pool_output p ! i = None \<longrightarrow> (\<exists>w. aw w i))
          \<and> (ended \<longrightarrow> n \<le> pool_cursor p))
     \<and> (\<forall>f. pool_failure p = Some (Inl f) \<longrightarrow> pool_aborted p \<and> f = deadline_error HARVEST_DEADLINE_EXCEEDED)
     \<and> (\<forall>e. pool_failure p = Some (Inr e) \<longrightarrow> (\<exists>i < n. ans i (Inl e)))"

definition awaits :: "('r, 'e) pool \<Rightarrow> nat \<Rightarrow> nat \<Rightarrow> bool" where
  "awaits p w i \<longleftrightarrow> w < length (pool_workers p) \<and> pool_workers p ! w = Awaiting i"

definition pool_ok :: "(nat \<Rightarrow> 'e + 'r \<Rightarrow> bool) \<Rightarrow> nat \<Rightarrow> nat \<Rightarrow> ('r, 'e) pool \<Rightarrow> bool" where
  "pool_ok ans n c p \<longleftrightarrow> length (pool_workers p) + pool_unstarted p = min c n
     \<and> pool_inv ans n (awaits p) (Ended \<in> set (pool_workers p)) p"

lemma next_item_workers:
  "next_item p = (x, p') \<Longrightarrow> pool_workers p' = pool_workers p \<and> pool_unstarted p' = pool_unstarted p"
  by (auto simp: next_item_def split: if_splits)

lemma pool_inv_frame [simp]:
  "pool_inv ans n aw ended (p\<lparr>pool_workers := ws\<rparr>) = pool_inv ans n aw ended p"
  "pool_inv ans n aw ended (p\<lparr>pool_unstarted := k\<rparr>) = pool_inv ans n aw ended p"
  by (simp_all add: pool_inv_def)

lemma pool_inv_next:
  assumes p: "pool_inv ans n aw ended p" and free: "\<forall>i. \<not> aw k i" and step: "next_item p = (x, p')"
  shows "pool_inv ans n (\<lambda>w i. aw w i \<or> w = k \<and> x = Awaiting i) (ended \<or> x = Ended) p'"
proof -
  have n: "length (pool_output p) = n" using p by (simp add: pool_inv_def)
  consider "pool_failure p \<noteq> None" "x = Ended" "p' = p"
    | "pool_failure p = None" "pool_aborted p" "x = Ended"
        "p' = p\<lparr>pool_failure := Some (Inl (deadline_error HARVEST_DEADLINE_EXCEEDED))\<rparr>"
    | "pool_failure p = None" "n \<le> pool_cursor p" "x = Ended" "p' = p\<lparr>pool_cursor := Suc (pool_cursor p)\<rparr>"
    | "pool_failure p = None" "pool_cursor p < n" "x = Awaiting (pool_cursor p)" "p' = p\<lparr>pool_cursor := Suc (pool_cursor p)\<rparr>"
    using step unfolding next_item_def n by (auto split: if_splits)
  then show ?thesis
  proof cases
    case 4
    have new: "pool_output p ! pool_cursor p = None" "\<forall>w. \<not> aw w (pool_cursor p)"
      using p 4(2) unfolding pool_inv_def by (metis less_irrefl option.exhaust, metis less_irrefl)
    have one: "bi_unique aw"
      and open_items: "\<forall>w i. aw w i \<longrightarrow> i < n \<and> i < pool_cursor p \<and> pool_output p ! i = None"
      and known: "\<forall>i < n. i < pool_cursor p \<and> pool_output p ! i = None \<longrightarrow> (\<exists>w. aw w i)" "\<not> ended"
      and rest: "\<forall>i r. i < n \<and> pool_output p ! i = Some r \<longrightarrow> i < pool_cursor p \<and> ans i (Inr r)"
      using p 4(1,2) by (auto simp: pool_inv_def)
    have "bi_unique (\<lambda>w i. aw w i \<or> w = k \<and> pool_cursor p = i)"
      using one new(2) free unfolding bi_unique_def by blast
    moreover have "\<forall>w i. aw w i \<or> w = k \<and> pool_cursor p = i \<longrightarrow> i < n \<and> i < Suc (pool_cursor p) \<and> pool_output p ! i = None"
      using open_items new(1) 4(2) less_SucI by blast
    moreover have "\<forall>i < n. i < Suc (pool_cursor p) \<and> pool_output p ! i = None \<longrightarrow> (\<exists>w. aw w i \<or> w = k \<and> pool_cursor p = i)"
      using known(1) by (metis less_Suc_eq)
    ultimately show ?thesis
      using rest n known(2) unfolding pool_inv_def 4 by (simp add: 4(1) less_SucI)
  next
    case 1
    with p show ?thesis by (auto simp: pool_inv_def)
  next
    case 2
    with p show ?thesis by (simp add: pool_inv_def)
  next
    case 3
    with p show ?thesis by (simp add: pool_inv_def less_SucI)
  qed
qed

lemma pool_inv_without:
  assumes "pool_inv ans n aw ended p"
  shows "bi_unique (\<lambda>w j. aw w j \<and> w \<noteq> k)"
    "\<forall>w j. aw w j \<and> w \<noteq> k \<longrightarrow> j < n \<and> j < pool_cursor p \<and> pool_output p ! j = None"
  using assms unfolding pool_inv_def bi_unique_def by blast+

lemma pool_inv_settle:
  assumes "pool_inv ans n aw ended p" "aw k i" "ans i (Inr r)"
  shows "pool_inv ans n (\<lambda>w j. aw w j \<and> w \<noteq> k) ended (p\<lparr>pool_output := (pool_output p)[i := Some r]\<rparr>)"
proof -
  have i: "i < n" "length (pool_output p) = n" "i < pool_cursor p" using assms(1,2) by (simp_all add: pool_inv_def)
  have other: "w \<noteq> k \<longleftrightarrow> j \<noteq> i" if "aw w j" for w j
    using assms(1,2) that unfolding pool_inv_def bi_unique_def by blast
  have "(\<exists>w. aw w j) \<longleftrightarrow> (\<exists>w. aw w j \<and> w \<noteq> k)" if "j \<noteq> i" for j using other that by blast
  then have known: "pool_failure p = None \<Longrightarrow> j < n \<Longrightarrow> j < pool_cursor p \<Longrightarrow> j \<noteq> i \<Longrightarrow> pool_output p ! j = None
      \<Longrightarrow> \<exists>w. aw w j \<and> w \<noteq> k" for j
    using assms(1) unfolding pool_inv_def by blast
  show ?thesis
    using assms(1,3) i pool_inv_without [OF assms(1), of k] other known
    by (simp add: pool_inv_def nth_list_update)
qed

lemma pool_inv_error:
  assumes "pool_inv ans n aw ended p" "aw k i" "ans i (Inl e)"
  shows "pool_inv ans n (\<lambda>w j. aw w j \<and> w \<noteq> k) True
    (p\<lparr>pool_failure := (case pool_failure p of None \<Rightarrow> Some (Inr e) | Some f \<Rightarrow> Some f)\<rparr>)"
proof -
  have "i < n" using assms(1,2) by (simp add: pool_inv_def)
  then have "\<exists>i < n. ans i (Inl e)" using assms(3) by blast
  then show ?thesis
    using assms(1) pool_inv_without [OF assms(1), of k]
    by (cases "pool_failure p") (simp_all add: pool_inv_def)
qed

lemma ended_update:
  assumes "w < length ws" "ws ! w = Awaiting i"
  shows "Ended \<in> set (ws[w := x]) \<longleftrightarrow> Ended \<in> set ws \<or> x = Ended"
proof -
  define a b where "a = take w ws" "b = drop (Suc w) ws"
  have "ws = a @ Awaiting i # b" "ws[w := x] = a @ x # b"
    using assms id_take_nth_drop [OF assms(1)] by (simp_all add: a_b_def upd_conv_take_nth_drop)
  then show ?thesis by auto
qed

lemma pool_ok_step:
  assumes "pool_step ans p p'" "pool_ok ans n c p"
  shows "pool_ok ans n c p'"
proof -
  have inv: "pool_inv ans n (awaits p) (Ended \<in> set (pool_workers p)) p"
    and size: "length (pool_workers p) + pool_unstarted p = min c n" using assms(2) by (auto simp: pool_ok_def)
  from assms(1) show ?thesis
  proof (cases rule: pool_step.cases)
    case signal_aborts
    then have "awaits p' = awaits p" by (intro ext) (simp add: awaits_def)
    with assms(2) signal_aborts show ?thesis by (simp add: pool_ok_def pool_inv_def)
  next
    case worker_starts
    obtain x q where q: "next_item p = (x, q)" by (cases "next_item p")
    have p': "p' = q\<lparr>pool_workers := pool_workers p @ [x], pool_unstarted := pool_unstarted p - 1\<rparr>"
      using q next_item_workers [OF q] worker_starts by (simp add: start_worker_def)
    have "awaits p' = (\<lambda>w i. awaits p w i \<or> w = length (pool_workers p) \<and> x = Awaiting i)"
      by (intro ext) (auto simp: p' awaits_def nth_append)
    moreover have "Ended \<in> set (pool_workers p') \<longleftrightarrow> Ended \<in> set (pool_workers p) \<or> x = Ended" by (auto simp: p')
    moreover have "\<forall>i. \<not> awaits p (length (pool_workers p)) i" by (simp add: awaits_def)
    ultimately show ?thesis
      using pool_inv_next [OF inv _ q, of "length (pool_workers p)"] size worker_starts(2) by (simp add: pool_ok_def p')
  next
    case (value_settles w i r)
    let ?p = "p\<lparr>pool_output := (pool_output p)[i := Some r]\<rparr>"
    obtain x q where q: "next_item ?p = (x, q)" by (cases "next_item ?p")
    have p': "p' = q\<lparr>pool_workers := (pool_workers p)[w := x]\<rparr>"
      using q next_item_workers [OF q] value_settles(1) by (simp add: settle_value_def)
    have aw: "awaits p w i" using value_settles by (simp add: awaits_def)
    have "awaits p' = (\<lambda>v j. (awaits p v j \<and> v \<noteq> w) \<or> v = w \<and> x = Awaiting j)"
      using value_settles(3) by (intro ext) (auto simp: p' awaits_def nth_list_update)
    moreover have "Ended \<in> set (pool_workers p') \<longleftrightarrow> Ended \<in> set (pool_workers p) \<or> x = Ended"
      using ended_update [OF value_settles(3,4)] by (simp add: p')
    ultimately show ?thesis
      using pool_inv_next [OF pool_inv_settle [OF inv aw value_settles(5)] _ q, of w] size next_item_workers [OF q]
      by (simp add: pool_ok_def p')
  next
    case (error_settles w i e)
    have aw: "awaits p w i" using error_settles by (simp add: awaits_def)
    have "awaits p' = (\<lambda>v j. awaits p v j \<and> v \<noteq> w)"
      using error_settles(1,3) by (intro ext) (auto simp: settle_error_def awaits_def nth_list_update)
    moreover have "Ended \<in> set (pool_workers p')"
      using error_settles(1,3) by (simp add: settle_error_def set_update_memI)
    ultimately show ?thesis
      using pool_inv_error [OF inv aw error_settles(5)] size error_settles(1) by (simp add: pool_ok_def settle_error_def)
  qed
qed

lemma pool_ok_initial:
  assumes "mapWithConcurrency items concurrency aborted = Inr p" "positive_integer concurrency = Some c"
  shows "pool_ok ans (length items) c p" "pool_unstarted p = min c (length items)" "pool_cursor p = 0" "c > 0"
proof -
  show "pool_ok ans (length items) c p" "pool_unstarted p = min c (length items)" "pool_cursor p = 0"
    using assms by (auto simp: mapWithConcurrency_def pool_ok_def pool_inv_def awaits_def bi_unique_def)
  show "c > 0" using assms(2) by (auto simp: positive_integer_def split: option.splits prod.splits if_splits)
qed

lemma pool_ok_reached: "(pool_step ans)\<^sup>*\<^sup>* p p' \<Longrightarrow> pool_ok ans n c p \<Longrightarrow> pool_ok ans n c p'"
  by (induction rule: rtranclp_induct) (auto intro: pool_ok_step)

lemma pool_ok_result:
  assumes "pool_ok ans n c p" "c > 0" "pool_result p = Some (Inr out)"
  shows "length out = n \<and> (\<forall>i < n. \<exists>r. out ! i = Some r \<and> ans i (Inr r))"
proof -
  have all: "list_all (\<lambda>w. w = Ended) (pool_workers p)" "pool_unstarted p = 0" "pool_failure p = None" "out = pool_output p"
    using assms(3) by (auto simp: pool_result_def split: if_splits option.splits)
  have inv: "pool_inv ans n (awaits p) (Ended \<in> set (pool_workers p)) p" "length (pool_workers p) = min c n"
    using assms(1) all(2) by (auto simp: pool_ok_def)
  have idle: "\<not> awaits p w i" for w i using all(1) by (auto simp: awaits_def list_all_length)
  have all_taken: "n \<le> pool_cursor p" if "n > 0"
  proof -
    have "length (pool_workers p) > 0" unfolding inv(2) using that assms(2) by simp
    with all(1) have "Ended \<in> set (pool_workers p)" by (cases "pool_workers p") auto
    with inv(1) all(3) show ?thesis by (simp add: pool_inv_def)
  qed
  have "\<exists>r. out ! i = Some r \<and> ans i (Inr r)" if "i < n" for i
  proof -
    have "i < pool_cursor p" using all_taken that by linarith
    moreover have "\<forall>i < n. i < pool_cursor p \<and> pool_output p ! i = None \<longrightarrow> (\<exists>w. awaits p w i)"
      using inv(1) all(3) by (simp add: pool_inv_def)
    ultimately have "pool_output p ! i \<noteq> None" using idle that by metis
    then obtain r where "pool_output p ! i = Some r" by blast
    moreover have "\<forall>i r. i < n \<and> pool_output p ! i = Some r \<longrightarrow> ans i (Inr r)"
      using inv(1) by (simp add: pool_inv_def)
    ultimately show ?thesis using all(4) that by blast
  qed
  with inv(1) all(4) show ?thesis by (simp add: pool_inv_def)
qed

subsection \<open>Bounds and termination\<close>

definition in_flight :: "('r, 'e) pool \<Rightarrow> nat" where
  "in_flight p = length (filter (\<lambda>w. w \<noteq> Ended) (pool_workers p))"

definition pool_measure :: "nat \<Rightarrow> ('r, 'e) pool \<Rightarrow> nat" where
  "pool_measure n p = (if pool_aborted p then 0 else 1) + pool_unstarted p + in_flight p + (n - pool_cursor p)"

lemma in_flight_update:
  assumes "w < length ws" "ws ! w = Awaiting i"
  shows "length (filter (\<lambda>w. w \<noteq> Ended) (ws[w := x])) + (if x = Ended then 1 else 0) = length (filter (\<lambda>w. w \<noteq> Ended) ws)"
proof -
  define a b where "a = take w ws" "b = drop (Suc w) ws"
  have "ws = a @ Awaiting i # b" "ws[w := x] = a @ x # b"
    using assms id_take_nth_drop [OF assms(1)] by (simp_all add: a_b_def upd_conv_take_nth_drop)
  then show ?thesis by simp
qed

lemma next_item_progress:
  assumes "next_item p = (x, q)" "length (pool_output p) = n"
  shows "(if x = Ended then 0 else 1) + (n - pool_cursor q) \<le> n - pool_cursor p" "pool_aborted q = pool_aborted p"
  using assms by (auto simp: next_item_def split: if_splits)

lemma pool_measure_step:
  assumes "pool_step ans p p'" "length (pool_output p) = n"
  shows "pool_measure n p' < pool_measure n p"
  using assms(1)
proof (cases rule: pool_step.cases)
  case signal_aborts
  then show ?thesis by (simp add: pool_measure_def in_flight_def)
next
  case worker_starts
  obtain x q where q: "next_item p = (x, q)" by (cases "next_item p")
  show ?thesis
    using next_item_progress [OF q assms(2)] next_item_workers [OF q] worker_starts q
    by (auto simp: pool_measure_def in_flight_def start_worker_def split: if_splits)
next
  case (value_settles w i r)
  let ?p = "p\<lparr>pool_output := (pool_output p)[i := Some r]\<rparr>"
  obtain x q where q: "next_item ?p = (x, q)" by (cases "next_item ?p")
  have more: "(if x = Ended then 0 else 1) + (n - pool_cursor q) \<le> n - pool_cursor p" "pool_aborted q = pool_aborted p"
    using next_item_progress [OF q, of n] assms(2) by auto
  have "in_flight p' + (if x = Ended then 1 else 0) = in_flight p" "pool_cursor p' = pool_cursor q"
      "pool_unstarted p' = pool_unstarted p" "pool_aborted p' = pool_aborted p"
    using in_flight_update [OF value_settles(3,4), of x] next_item_workers [OF q] q more(2) value_settles(1)
    by (simp_all add: settle_value_def in_flight_def)
  then show ?thesis using more(1) unfolding pool_measure_def by (cases "x = Ended") auto
next
  case (error_settles w i e)
  have "in_flight p' + 1 = in_flight p"
    using in_flight_update [OF error_settles(3,4), of Ended] error_settles(1) by (simp add: settle_error_def in_flight_def)
  then show ?thesis using error_settles(1) by (simp add: pool_measure_def settle_error_def)
qed

lemma pool_steps:
  assumes "(pool_step ans ^^ k) p q" "pool_ok ans n c p"
  shows "pool_ok ans n c q \<and> k + pool_measure n q \<le> pool_measure n p"
  using assms
proof (induction k arbitrary: q)
  case (Suc k)
  then obtain q' where "(pool_step ans ^^ k) p q'" "pool_step ans q' q" by auto
  with Suc.IH [of q'] Suc.prems(2) have ok: "pool_ok ans n c q'" "k + pool_measure n q' \<le> pool_measure n p" by auto
  have "length (pool_output q') = n" using ok(1) by (simp add: pool_ok_def pool_inv_def)
  with pool_measure_step [OF \<open>pool_step ans q' q\<close>] have "pool_measure n q' > pool_measure n q" by blast
  with ok pool_ok_step [OF \<open>pool_step ans q' q\<close> ok(1)] show ?case by auto
qed simp

text \<open>
  C21: the pool runs an operation on every item whatever the order in which the operations settle. At most
  \<open>concurrency\<close> operations are in flight, each on another item; it is over after at most
  \<open>1 + min concurrency n + n\<close> steps of the event loop, and as long as it is not, a worker can still be started or awaits
  an operation. It then returns the value of every item's operation at the item's place, or throws: the
  deadline's error only if the signal was aborted, an operation's error only if that operation failed.
\<close>

theorem pool_sound:
  assumes "mapWithConcurrency items concurrency aborted = Inr p" "positive_integer concurrency = Some c"
    and "(pool_step ans ^^ k) p q"
  shows "k \<le> 1 + min c (length items) + length items \<and> in_flight q \<le> c \<and> bi_unique (awaits q)
    \<and> (case pool_result q of
         None \<Rightarrow> pool_unstarted q > 0 \<or> (\<exists>w i. awaits q w i \<and> i < length items)
       | Some (Inr out) \<Rightarrow> length out = length items \<and> (\<forall>i < length items. \<exists>r. out ! i = Some r \<and> ans i (Inr r))
       | Some (Inl (Inl f)) \<Rightarrow> pool_aborted q \<and> f = deadline_error HARVEST_DEADLINE_EXCEEDED
       | Some (Inl (Inr e)) \<Rightarrow> \<exists>i < length items. ans i (Inl e))"
proof -
  note start = pool_ok_initial [OF assms(1,2)]
  have q: "pool_ok ans (length items) c q" "k + pool_measure (length items) q \<le> pool_measure (length items) p"
    using pool_steps [OF assms(3) start(1)] by auto
  have inv: "pool_inv ans (length items) (awaits q) (Ended \<in> set (pool_workers q)) q"
    and size: "length (pool_workers q) \<le> min c (length items)" using q(1) by (auto simp: pool_ok_def)
  have "in_flight p = 0" using start(1,2) by (auto simp: pool_ok_def in_flight_def)
  then have "k \<le> 1 + min c (length items) + length items"
    using q(2) start(2,3) unfolding pool_measure_def by (auto split: if_splits)
  moreover have "in_flight q \<le> c"
    using size length_filter_le [of "\<lambda>w. w \<noteq> Ended" "pool_workers q"] unfolding in_flight_def by linarith
  moreover have "\<exists>w i. awaits q w i \<and> i < length items" if waiting: "\<not> list_all (\<lambda>w. w = Ended) (pool_workers q)"
  proof -
    obtain w where "w < length (pool_workers q)" "pool_workers q ! w \<noteq> Ended"
      using waiting unfolding list_all_length by blast
    then obtain i where "awaits q w i" by (cases "pool_workers q ! w") (auto simp: awaits_def)
    with inv show ?thesis unfolding pool_inv_def by blast
  qed
  moreover have "pool_failure q = Some (Inl f) \<longrightarrow> pool_aborted q \<and> f = deadline_error HARVEST_DEADLINE_EXCEEDED"
      "pool_failure q = Some (Inr e) \<longrightarrow> (\<exists>i < length items. ans i (Inl e))" "bi_unique (awaits q)" for f e
    using inv by (simp_all add: pool_inv_def)
  ultimately show ?thesis
    using pool_ok_result [OF q(1) start(4)]
    by (auto simp: pool_result_def split: option.split sum.split)
qed

theorem pool_sound_witness:
  "\<exists>p q. mapWithConcurrency [''a''] (Some 1) False = Inr p
    \<and> (pool_step (\<lambda>i x. x = (Inr (i + 7) :: string + nat)) ^^ 2) p q
    \<and> pool_result q = Some (Inr [Some 7]) \<and> in_flight q \<le> 1"
proof -
  define ans where "ans = (\<lambda>i x. x = (Inr (i + 7) :: string + nat))"
  define p :: "(nat, string) pool" where "p = \<lparr>pool_output = [None], pool_cursor = 0, pool_failure = None,
    pool_workers = [], pool_unstarted = 1, pool_aborted = False\<rparr>"
  have start: "mapWithConcurrency [''a''] (Some 1) False = Inr p" "positive_integer (Some 1) = Some 1"
    by (simp_all add: mapWithConcurrency_def positive_integer_def p_def)
  define q where "q = settle_value 0 0 7 (start_worker p)"
  have started: "pool_unstarted (start_worker p) = 0" "pool_workers (start_worker p) = [Awaiting 0]"
    by (simp_all add: p_def start_worker_def next_item_def)
  have s1: "pool_step ans p (start_worker p)" by (rule worker_starts) (simp add: p_def)
  have s2: "pool_step ans (start_worker p) q"
    unfolding q_def by (rule value_settles) (simp_all only: started, simp_all add: ans_def)
  have run: "(pool_step ans ^^ 2) p q"
    unfolding numeral_2_eq_2 using s1 s2 by (auto simp: relcompp_apply)
  have "pool_result q = Some (Inr [Some 7])"
    by (simp add: q_def p_def settle_value_def start_worker_def next_item_def pool_result_def)
  moreover from this pool_sound [OF start run] have "in_flight q \<le> 1" by simp
  ultimately show ?thesis using start(1) run unfolding ans_def by blast
qed

end
