(* ===== verification/AuditCheckpoint.thy ===== *)
theory AuditCheckpoint
  imports DynamoProperties WorkerEvidence
begin

section \<open>The durable result of an audit: \<open>DynamoAuditResultCheckpoint\<close> of \<open>src/worker/aws-adapters.ts\<close>\<close>

text \<open>
  A redelivered audit must answer what the first one answered. The answer is kept in one item of the table,
  written on the condition that there is none; reading it back checks that it belongs to the same request and
  has exactly the fields of an answer.
\<close>

subsection \<open>Reading a stored answer\<close>

definition manual_reason_of :: "string \<Rightarrow> AuditManualReason option" where
  "manual_reason_of s =
     (if s = ''READ_ONLY_REQUEST'' then Some READ_ONLY_REQUEST
      else if s = ''NO_ACTIONABLE_G6_FINDING'' then Some NO_ACTIONABLE_G6_FINDING
      else if s = ''REMEDIATION_PRESTATE_UNAVAILABLE'' then Some REMEDIATION_PRESTATE_UNAVAILABLE
      else if s = ''POLICY_REJECTED_PROPOSAL'' then Some POLICY_REJECTED_PROPOSAL else None)"

text \<open>\<open>REPLAY_INSTANT_PATTERN\<close>, read by position.\<close>

definition two_digits :: "nat \<Rightarrow> nat \<Rightarrow> string \<Rightarrow> bool" where
  "two_digits low high s \<longleftrightarrow> list_all is_digit s \<and> low \<le> read_nat 0 s \<and> read_nat 0 s \<le> high"

definition replay_pattern :: "string \<Rightarrow> bool" where
  "replay_pattern s \<longleftrightarrow> length s = 24 \<and> list_all is_digit (slice 0 4 s) \<and> slice 4 5 s = ''-''
     \<and> two_digits 1 12 (slice 5 7 s) \<and> slice 7 8 s = ''-'' \<and> two_digits 1 31 (slice 8 10 s)
     \<and> slice 10 11 s = ''T'' \<and> two_digits 0 23 (slice 11 13 s) \<and> slice 13 14 s = '':''
     \<and> two_digits 0 59 (slice 14 16 s) \<and> slice 16 17 s = '':'' \<and> two_digits 0 59 (slice 17 19 s)
     \<and> slice 19 20 s = ''.'' \<and> list_all is_digit (slice 20 23 s) \<and> slice 23 24 s = ''Z''"

definition isCanonicalReplayInstant :: "js_env \<Rightarrow> string \<Rightarrow> bool" where
  "isCanonicalReplayInstant E s \<longleftrightarrow> replay_pattern s \<and> exact_instant E s \<noteq> None"

definition replay_digest :: "json option \<Rightarrow> string option" where
  "replay_digest v = (case str_of v of Some s \<Rightarrow> if is_sha256 s then Some s else None | None \<Rightarrow> None)"

definition replay_instant :: "js_env \<Rightarrow> json option \<Rightarrow> string option" where
  "replay_instant E v = (case str_of v of Some s \<Rightarrow> if isCanonicalReplayInstant E s then Some s else None | None \<Rightarrow> None)"

definition replay_approval_id :: "json option \<Rightarrow> string option" where
  "replay_approval_id v = (case str_of v of Some s \<Rightarrow> if is_identifier s then Some s else None | None \<Rightarrow> None)"

definition BASE_KEYS :: "string list" where
  "BASE_KEYS = [''schemaVersion'', ''requiresApproval'', ''reportDigest'', ''evidenceDigest'']"

definition APPROVAL_KEYS :: "string list" where
  "APPROVAL_KEYS = [''approvalId'', ''planDigest'', ''approvalRequestDigest'', ''approvalRequestedAt'', ''approvalExpiresAt'']"

definition output_keys :: "(string \<times> json) list \<Rightarrow> string list \<Rightarrow> bool" where
  "output_keys kvs expected \<longleftrightarrow> length kvs = length expected \<and> list_all (\<lambda>kv. fst kv \<in> set expected) kvs"

definition approval_asked_of :: "js_env \<Rightarrow> (string \<times> json) list \<Rightarrow> ApprovalAsked option" where
  "approval_asked_of E kvs =
     (if \<not> output_keys kvs (BASE_KEYS @ APPROVAL_KEYS) then None
      else (case (replay_approval_id (map_of kvs ''approvalId''), replay_digest (map_of kvs ''planDigest''),
          replay_digest (map_of kvs ''approvalRequestDigest''), replay_instant E (map_of kvs ''approvalRequestedAt''),
          replay_instant E (map_of kvs ''approvalExpiresAt'')) of
        (Some approvalId, Some planDigest, Some requestDigest, Some requestedAt, Some expiresAt) \<Rightarrow>
          if the (date_parse E expiresAt) \<le> the (date_parse E requestedAt) then None
          else Some \<lparr>ask_approvalId = approvalId, ask_planDigest = planDigest, ask_approvalRequestDigest = requestDigest,
            ask_requestedAt = requestedAt, ask_expiresAt = expiresAt\<rparr>
      | _ \<Rightarrow> None))"

definition output_of_fields :: "js_env \<Rightarrow> (string \<times> json) list \<Rightarrow> AuditCallbackOutputV2 option" where
  "output_of_fields E kvs =
     (case (map_of kvs ''requiresApproval'', replay_digest (map_of kvs ''reportDigest''), replay_digest (map_of kvs ''evidenceDigest'')) of
        (Some (JBool requiresApproval), Some report, Some evidence) \<Rightarrow>
          if map_of kvs ''schemaVersion'' \<noteq> Some (JStr ''archon.audit-result/v2'') then None
          else if requiresApproval
          then map_option (\<lambda>a. \<lparr>aco_reportDigest = report, aco_evidenceDigest = evidence, aco_result = Inr a\<rparr>)
            (approval_asked_of E kvs)
          else if \<not> output_keys kvs (BASE_KEYS @ [''manualOnlyReason'']) then None
          else map_option (\<lambda>r. \<lparr>aco_reportDigest = report, aco_evidenceDigest = evidence, aco_result = Inl r\<rparr>)
            (Option.bind (str_of (map_of kvs ''manualOnlyReason'')) manual_reason_of)
      | _ \<Rightarrow> None)"

definition auditOutput :: "js_env \<Rightarrow> worker_host \<Rightarrow> string option \<Rightarrow> AuditCallbackOutputV2 option" where
  "auditOutput E H value = (if \<not> truthy value then None else
     (case jsonParse H (the value) of Some (JObj kvs) \<Rightarrow> output_of_fields E kvs | _ \<Rightarrow> None))"

subsection \<open>The checkpoint\<close>

definition output_fields :: "AuditCallbackOutputV2 \<Rightarrow> (string \<times> json) list" where
  "output_fields out =
     [(''schemaVersion'', JStr ''archon.audit-result/v2''), (''requiresApproval'', JBool (\<not> isl (aco_result out))),
      (''reportDigest'', JStr (aco_reportDigest out)), (''evidenceDigest'', JStr (aco_evidenceDigest out))]
     @ (case aco_result out of
          Inl reason \<Rightarrow> [(''manualOnlyReason'', JStr (manual_reason_name reason))]
        | Inr a \<Rightarrow> [(''approvalId'', JStr (ask_approvalId a)), (''planDigest'', JStr (ask_planDigest a)),
            (''approvalRequestDigest'', JStr (ask_approvalRequestDigest a)), (''approvalRequestedAt'', JStr (ask_requestedAt a)),
            (''approvalExpiresAt'', JStr (ask_expiresAt a))])"

definition output_json :: "AuditCallbackOutputV2 \<Rightarrow> json" where
  "output_json out = JObj (output_fields out)"

definition checkpoint_key :: "string \<Rightarrow> item_key" where
  "checkpoint_key ex = (''AUDIT#'' @ ex, ''RESULT'')"

definition checkpoint_item :: "int \<Rightarrow> string \<Rightarrow> string \<Rightarrow> AuditCallbackOutputV2 \<Rightarrow> item" where
  "checkpoint_item now ex requestDigest out = new_item (checkpoint_key ex)
     [(''requestDigest'', S requestDigest), (''output'', S (canonical_text (output_json out))),
      (''evidenceDigest'', S (aco_evidenceDigest out)), (''createdAt'', S (toISO now)),
      (''expiresAt'', N (nowEpoch now + JOURNAL_TTL_SECONDS))]"

definition checkpoint_get ::
    "js_env \<Rightarrow> worker_host \<Rightarrow> string \<Rightarrow> string \<Rightarrow> AuditCallbackOutputV2 option db" where
  "checkpoint_get E H ex requestDigest =
     db_bind (get_item (checkpoint_key ex)) (\<lambda>i. Return (
       if i = None then Inr None
       else if stringAttribute i ''requestDigest'' \<noteq> Some requestDigest
       then Inl (WorkerContractError INVALID_EVIDENCE ''Audit execution id is already bound to a different request.'')
       else (case auditOutput E H (stringAttribute i ''output'') of
           None \<Rightarrow> Inl (WorkerContractError INVALID_EVIDENCE ''Durable audit result is malformed.'')
         | Some out \<Rightarrow> Inr (Some out))))"

definition checkpoint_put ::
    "js_env \<Rightarrow> worker_host \<Rightarrow> int \<Rightarrow> string \<Rightarrow> string \<Rightarrow> AuditCallbackOutputV2 \<Rightarrow> AuditCallbackOutputV2 db" where
  "checkpoint_put E H now ex requestDigest out =
     Ask (PutItem (checkpoint_key ex) (checkpoint_item now ex requestDigest out) absent) (\<lambda>response.
       case response of
         Failed e \<Rightarrow>
           if \<not> isConditionalFailure e then Return (Inl (ServiceThrew e))
           else db_bind (checkpoint_get E H ex requestDigest) (\<lambda>existing. Return (case existing of
               None \<Rightarrow> Inl (WorkerContractError INVALID_EVIDENCE
                 ''Audit checkpoint conflict did not resolve to a durable result.'')
             | Some out' \<Rightarrow> Inr out'))
       | _ \<Rightarrow> Return (Inr out))"

subsection \<open>An answer survives the table\<close>

text \<open>The answers the audit gives: digests, an identifier and canonical instants in order.\<close>

definition valid_output :: "js_env \<Rightarrow> AuditCallbackOutputV2 \<Rightarrow> bool" where
  "valid_output E out \<longleftrightarrow> is_sha256 (aco_reportDigest out) \<and> is_sha256 (aco_evidenceDigest out)
     \<and> (\<forall>a. aco_result out = Inr a \<longrightarrow> is_identifier (ask_approvalId a) \<and> is_sha256 (ask_planDigest a)
          \<and> is_sha256 (ask_approvalRequestDigest a) \<and> isCanonicalReplayInstant E (ask_requestedAt a)
          \<and> isCanonicalReplayInstant E (ask_expiresAt a)
          \<and> the (date_parse E (ask_requestedAt a)) < the (date_parse E (ask_expiresAt a)))"

lemma manual_reason_of_name [simp]: "manual_reason_of (manual_reason_name r) = Some r"
  by (cases r) (simp_all add: manual_reason_of_def)

lemma output_of_permuted:
  assumes "valid_output E out" "mset kvs = mset (output_fields out)"
  shows "output_of_fields E kvs = Some out"
proof -
  have distinct: "distinct (map fst (output_fields out))"
    by (cases "aco_result out") (simp_all add: output_fields_def)
  note lookups = mset_fields [OF assms(2) distinct]
  have keys: "output_keys kvs ks \<longleftrightarrow> length (output_fields out) = length ks \<and> list_all (\<lambda>kv. fst kv \<in> set ks) (output_fields out)" for ks
    unfolding output_keys_def list_all_iff using mset_eq_setD [OF assms(2)] mset_eq_length [OF assms(2)] by simp
  show ?thesis
  proof (cases "aco_result out")
    case (Inl reason)
    with assms(1) show ?thesis
      unfolding output_of_fields_def lookups(1) keys
      by (cases out) (simp add: valid_output_def replay_digest_def output_fields_def BASE_KEYS_def)
  next
    case (Inr a)
    with assms(1) show ?thesis
      unfolding output_of_fields_def approval_asked_of_def lookups(1) keys
      by (cases out) (simp add: valid_output_def replay_digest_def replay_instant_def replay_approval_id_def
          output_fields_def BASE_KEYS_def APPROVAL_KEYS_def)
  qed
qed

lemma canon_output: "\<exists>kvs. canon (output_json out) = JObj kvs \<and> mset kvs = mset (output_fields out)"
proof -
  have "canon_fields (output_fields out) = output_fields out"
    by (cases "aco_result out") (simp_all add: output_fields_def)
  moreover have "filter_mset (\<lambda>kv. fst kv \<noteq> ''__proto__'') (mset (output_fields out)) = mset (output_fields out)"
    by (cases "aco_result out") (simp_all add: output_fields_def)
  ultimately show ?thesis by (simp add: output_json_def mset_assign_all)
qed

lemma stored_output:
  assumes "valid_output E out" "jsonParse H (canonical_text (output_json out)) = Some (canon (output_json out))"
  shows "auditOutput E H (Some (canonical_text (output_json out))) = Some out"
proof -
  obtain kvs where kvs: "canon (output_json out) = JObj kvs" "mset kvs = mset (output_fields out)"
    using canon_output by blast
  have "canonical_text (output_json out) \<noteq> []" using kind_hd by (simp add: canonical_text_def)
  then show ?thesis
    using output_of_permuted [OF assms(1) kvs(2)] assms(2) kvs(1) by (simp add: auditOutput_def)
qed

subsection \<open>Several workers on one table\<close>

datatype checkpoint_op = ReadResult string string | WriteResult int string string AuditCallbackOutputV2

fun op_binding :: "checkpoint_op \<Rightarrow> string \<times> string" where
  "op_binding (ReadResult ex rd) = (ex, rd)"
| "op_binding (WriteResult now ex rd out) = (ex, rd)"

fun checkpoint_program :: "js_env \<Rightarrow> worker_host \<Rightarrow> checkpoint_op \<Rightarrow> AuditCallbackOutputV2 option db" where
  "checkpoint_program E H (ReadResult ex rd) = checkpoint_get E H ex rd"
| "checkpoint_program E H (WriteResult now ex rd out) =
     db_bind (checkpoint_put E H now ex rd out) (\<lambda>out. Return (Inr (Some out)))"

text \<open>The requests of an operation: reads, and the one conditional write.\<close>

definition checkpoint_request :: "checkpoint_op \<Rightarrow> db_request \<Rightarrow> bool" where
  "checkpoint_request op q \<longleftrightarrow> q = GetItem (checkpoint_key (fst (op_binding op)))
     \<or> (\<exists>now ex rd out. op = WriteResult now ex rd out
          \<and> q = PutItem (checkpoint_key ex) (checkpoint_item now ex rd out) absent)"

lemma get_requests: "all_requests (checkpoint_request op) (checkpoint_get E H (fst (op_binding op)) rd)"
  unfolding checkpoint_get_def get_item_def
  by (intro all_requests_db_bind) (auto simp: checkpoint_request_def split: db_response.split)

lemma checkpoint_requests: "all_requests (checkpoint_request op) (checkpoint_program E H op)"
proof (cases op)
  case (ReadResult ex rd)
  with get_requests [of op E H rd] show ?thesis by simp
next
  case (WriteResult now ex rd out)
  have "all_requests (checkpoint_request op) (db_bind (checkpoint_get E H ex rd) (\<lambda>x. Return (f x)))" for f :: "_ \<Rightarrow> thrown + 'a"
    using get_requests [of op E H rd] WriteResult by (intro all_requests_db_bind) simp_all
  then have "all_requests (checkpoint_request op) (checkpoint_put E H now ex rd out)"
    unfolding checkpoint_put_def WriteResult by (auto simp: checkpoint_request_def split: db_response.split)
  then show ?thesis unfolding WriteResult by (auto intro!: all_requests_db_bind)
qed

text \<open>What an operation that answers has seen.\<close>

definition saw_result :: "js_env \<Rightarrow> worker_host \<Rightarrow> string \<Rightarrow> string \<Rightarrow> AuditCallbackOutputV2 \<Rightarrow> db_request \<times> db_response \<Rightarrow> bool" where
  "saw_result E H ex rd out e \<longleftrightarrow> (\<exists>it. e = (GetItem (checkpoint_key ex), Found (Some it))
     \<and> stringAttribute (Some it) ''requestDigest'' = Some rd \<and> auditOutput E H (stringAttribute (Some it) ''output'') = Some out)"

lemma returned_bind_pure:
  "returned (db_bind p (\<lambda>a. Return (g a))) es (Inr b) \<longleftrightarrow> (\<exists>a. returned p es (Inr a) \<and> g a = Inr b)"
proof -
  have "returned (case x of Inl e \<Rightarrow> Return (Inl e) | Inr a \<Rightarrow> Return (g a)) es' (Inr b) \<longleftrightarrow>
      es' = [] \<and> (\<exists>a. x = Inr a \<and> g a = Inr b)" for x es'
    by (cases x) auto
  then show ?thesis unfolding db_bind_def returned_bind by (metis append_Nil2)
qed

lemma returned_checkpoint_get:
  assumes "returned (checkpoint_get E H ex rd) es (Inr (Some out))"
  shows "\<exists>e \<in> set es. saw_result E H ex rd out e"
proof -
  obtain i where i: "returned (get_item (checkpoint_key ex)) es (Inr i)" "i \<noteq> None"
    "stringAttribute i ''requestDigest'' = Some rd" "auditOutput E H (stringAttribute i ''output'') = Some out"
    using assms by (auto simp: checkpoint_get_def returned_bind_pure split: if_splits option.splits)
  from i(1) obtain r es' where es: "es = (GetItem (checkpoint_key ex), r) # es'"
    "returned (case r of Found i \<Rightarrow> Return (Inr i) | Failed e \<Rightarrow> Return (Inl (ServiceThrew e)) | Done \<Rightarrow> Return (Inr None)) es' (Inr i)"
    by (auto simp: get_item_def returned_Ask)
  with i(2) have "r = Found i" by (cases r) auto
  with es(1) i(2-4) show ?thesis by (auto simp: saw_result_def)
qed

lemma returned_checkpoint_put:
  assumes "returned (checkpoint_put E H now ex rd out) es (Inr out')"
  shows "(\<exists>e \<in> set es. saw_result E H ex rd out' e)
    \<or> out' = out \<and> (\<exists>r. (PutItem (checkpoint_key ex) (checkpoint_item now ex rd out) absent, r) \<in> set es \<and> (\<forall>e. r \<noteq> Failed e))"
proof -
  obtain r es' where es: "es = (PutItem (checkpoint_key ex) (checkpoint_item now ex rd out) absent, r) # es'"
    using assms by (auto simp: checkpoint_put_def returned_Ask)
  show ?thesis
  proof (cases r)
    case (Failed e)
    with assms es show ?thesis
      using returned_checkpoint_get [of E H ex rd es' out']
      by (auto simp: checkpoint_put_def returned_Ask returned_bind_pure split: if_splits option.splits)
  qed (use assms es in \<open>auto simp: checkpoint_put_def returned_Ask\<close>)
qed

lemma absent_item: "holds absent i \<longleftrightarrow> (\<forall>it. i = Some it \<longrightarrow> it ''pk'' = None \<and> it ''sk'' = None)"
  by (cases i) (simp_all add: absent_def)

lemma system_requests_of:
  assumes "system_run serve prog d run d'" "\<And>w. all_requests (P w) (prog w)" "(w, e) \<in> set run"
  shows "P w (fst e)"
proof -
  obtain p where "io_after (prog w) (part w run) = Some p" using assms(1) by (auto simp: system_run_def)
  with all_requests_after [OF assms(2)] have "\<forall>e \<in> set (part w run). P w (fst e)" by blast
  moreover have "e \<in> set (part w run)" using assms(3) by (force simp: part_def)
  ultimately show ?thesis by blast
qed

lemma served_middle:
  assumes "served serve d es d'" "(q, r) \<in> set es"
  obtains es1 es2 d1 d2 where "es = es1 @ (q, r) # es2" "served serve d es1 d1" "serve d1 q r d2" "served serve d2 es2 d'"
proof -
  obtain es1 es2 where "es = es1 @ (q, r) # es2" using split_list [OF assms(2)] by blast
  with assms(1) that show thesis by (auto simp: served_append served_Cons)
qed

lemma written_item:
  "checkpoint_request op (PutItem k it c) \<Longrightarrow> it ''pk'' \<noteq> None \<and> c = absent"
  by (auto simp: checkpoint_request_def checkpoint_item_def new_item_def)

context conditional_store
begin

text \<open>No request of an operation touches an item that is there.\<close>

lemma checkpoint_keeps:
  assumes "S d q r d'" "checkpoint_request op q" "items d k = Some it" "it ''pk'' \<noteq> None"
  shows "items d' k = Some it"
  using step_cases [OF assms(1)] assms(2-4)
  by (auto simp: checkpoint_request_def absent_item split: if_splits)

lemma checkpoint_persists:
  assumes "served S d es d'" "\<forall>e \<in> set es. \<exists>op. checkpoint_request op (fst e)" "items d k = Some it" "it ''pk'' \<noteq> None"
  shows "items d' k = Some it"
  using assms by (induction rule: served.induct) (auto intro: checkpoint_keeps)

text \<open>Where an item came from.\<close>

lemma checkpoint_origin:
  assumes "served S d es d'" "\<forall>e \<in> set es. \<exists>op. checkpoint_request op (fst e)" "items d' k = Some it"
  shows "items d k = Some it \<or> (\<exists>e \<in> set es. fst e = PutItem k it absent)"
  using assms
proof (induction rule: served.induct)
  case (served_cons d q r d1 es d')
  then consider "items d1 k = Some it" | "\<exists>e \<in> set es. fst e = PutItem k it absent" by auto
  then show ?case
  proof cases
    case 1
    obtain op where "checkpoint_request op q" using served_cons.prems by auto
    with step_cases [OF served_cons.hyps(1)] 1 show ?thesis
      by (auto simp: checkpoint_request_def split: if_splits)
  qed auto
qed simp

lemma saw_final:
  assumes "served S d es d'" "\<forall>e \<in> set es. \<exists>op. checkpoint_request op (fst e)"
    and "\<forall>k it. items d k = Some it \<longrightarrow> it ''pk'' \<noteq> None" "e \<in> set es" "saw_result E H ex rd out e"
  shows "\<exists>it. items d' (checkpoint_key ex) = Some it \<and> stringAttribute (Some it) ''requestDigest'' = Some rd
    \<and> auditOutput E H (stringAttribute (Some it) ''output'') = Some out"
proof -
  obtain it where it: "e = (GetItem (checkpoint_key ex), Found (Some it))" "stringAttribute (Some it) ''requestDigest'' = Some rd"
    "auditOutput E H (stringAttribute (Some it) ''output'') = Some out" using assms(5) by (auto simp: saw_result_def)
  obtain es1 es2 d1 d2 where m: "es = es1 @ e # es2" "served S d es1 d1" "S d1 (GetItem (checkpoint_key ex)) (Found (Some it)) d2"
    "served S d2 es2 d'" using served_middle [OF assms(1)] assms(4) unfolding it(1) by metis
  have now: "items d1 (checkpoint_key ex) = Some it" "items d2 = items d1" using read [OF m(3)] by auto
  have requests: "\<forall>e \<in> set es1. \<exists>op. checkpoint_request op (fst e)" "\<forall>e \<in> set es2. \<exists>op. checkpoint_request op (fst e)"
    using assms(2) m(1) by auto
  have "it ''pk'' \<noteq> None"
    using checkpoint_origin [OF m(2) requests(1) now(1)]
  proof
    assume "\<exists>e \<in> set es1. fst e = PutItem (checkpoint_key ex) it absent"
    with requests(1) show ?thesis using written_item by metis
  qed (use assms(3) in blast)
  then have "items d' (checkpoint_key ex) = Some it"
    using checkpoint_persists [OF m(4) requests(2)] now by simp
  with it show ?thesis by blast
qed

lemma put_final:
  assumes "served S d es d'" "\<forall>e \<in> set es. \<exists>op. checkpoint_request op (fst e)"
    and "(PutItem (checkpoint_key ex) (checkpoint_item now ex rd out) absent, r) \<in> set es" "\<forall>e. r \<noteq> Failed e"
  shows "items d' (checkpoint_key ex) = Some (checkpoint_item now ex rd out)"
proof -
  let ?q = "PutItem (checkpoint_key ex) (checkpoint_item now ex rd out) absent"
  obtain es1 es2 d1 d2 where m: "es = es1 @ (?q, r) # es2" "served S d es1 d1" "S d1 ?q r d2"
    "served S d2 es2 d'" using served_middle [OF assms(1,3)] by metis
  have "items d2 (checkpoint_key ex) = Some (checkpoint_item now ex rd out)"
    using step_cases [OF m(3)] m(3) assms(4) read [of d1 ?q _ d2] by (cases r) auto
  then show ?thesis
    using checkpoint_persists [OF m(4)] assms(2) m(1) by (simp add: checkpoint_item_def new_item_def)
qed

lemma answered_final:
  assumes sys: "system_run S (\<lambda>w. checkpoint_program E H (op w)) d run d'"
    and keyed: "\<forall>k it. items d k = Some it \<longrightarrow> it ''pk'' \<noteq> None"
    and survives: "\<And>w now ex rd out. op w = WriteResult now ex rd out \<Longrightarrow>
      valid_output E out \<and> jsonParse H (canonical_text (output_json out)) = Some (canon (output_json out))"
    and ret: "returned (checkpoint_program E H (op w)) (part w run) (Inr (Some out))" and b: "op_binding (op w) = (ex, rd)"
  shows "\<exists>it. items d' (checkpoint_key ex) = Some it \<and> stringAttribute (Some it) ''requestDigest'' = Some rd
    \<and> auditOutput E H (stringAttribute (Some it) ''output'') = Some out"
proof -
  have s: "served S d (map snd run) d'" using sys by (simp add: system_run_def)
  have requests: "\<forall>e \<in> set (map snd run). \<exists>op. checkpoint_request op (fst e)"
  proof
    fix e assume "e \<in> set (map snd run)"
    then obtain w' where "(w', e) \<in> set run" by auto
    from system_requests_of [OF sys checkpoint_requests this]
    show "\<exists>op. checkpoint_request op (fst e)" ..
  qed
  have own: "set (part w run) \<subseteq> set (map snd run)" by (auto simp: part_def)
  consider e where "e \<in> set (part w run)" "saw_result E H ex rd out e"
    | now r where "op w = WriteResult now ex rd out" "(PutItem (checkpoint_key ex) (checkpoint_item now ex rd out) absent, r) \<in> set (part w run)"
        "\<forall>e. r \<noteq> Failed e"
  proof (cases "op w")
    case (ReadResult ex' rd')
    with ret b that(1) returned_checkpoint_get [of E H ex rd "part w run" out] show thesis by auto
  next
    case (WriteResult now ex' rd' out')
    with b ret have "returned (checkpoint_put E H now ex rd out') (part w run) (Inr out)"
      by (auto simp: returned_bind_pure)
    with returned_checkpoint_put [OF this] WriteResult b that show thesis by auto
  qed
  then show ?thesis
  proof cases
    case 1
    with saw_final [OF s requests keyed, of e] own show ?thesis by blast
  next
    case 2
    with put_final [OF s requests, of ex now rd out r] own
    have "items d' (checkpoint_key ex) = Some (checkpoint_item now ex rd out)" by blast
    moreover have "auditOutput E H (Some (canonical_text (output_json out))) = Some out"
      using survives [OF 2(1)] stored_output by blast
    ultimately show ?thesis by (simp add: checkpoint_item_def new_item_def stringAttribute_def)
  qed
qed

end

text \<open>
  C10: workers that run the same audit agree on its answer. Against a table with DynamoDB's documented behaviour,
  responses lost and requests of any number of workers interleaved as they may, all operations on one execution
  that answer answer the same, for the same request, and it is an answer one of them was asked to
  record: the first to arrive. An execution bound to another request is refused.
\<close>

theorem checkpoint_agreement:
  assumes "conditional_store serve items" and "items d = (\<lambda>_. None)"
    and "system_run serve (\<lambda>w. checkpoint_program E H (op w)) d run d'"
    and "\<And>w now ex rd out. op w = WriteResult now ex rd out \<Longrightarrow>
      valid_output E out \<and> jsonParse H (canonical_text (output_json out)) = Some (canon (output_json out))"
    and "returned (checkpoint_program E H (op w)) (part w run) (Inr (Some out))"
    and "returned (checkpoint_program E H (op w')) (part w' run) (Inr (Some out'))"
    and "fst (op_binding (op w)) = fst (op_binding (op w'))"
  shows "out = out' \<and> op_binding (op w) = op_binding (op w')
    \<and> (\<exists>u now. op u = WriteResult now (fst (op_binding (op w))) (snd (op_binding (op w))) out)"
proof -
  obtain ex rd rd' where b: "op_binding (op w) = (ex, rd)" "op_binding (op w') = (ex, rd')"
    using assms(7) by (metis prod.collapse)
  have answered: "\<exists>it. items d' (checkpoint_key ex) = Some it \<and> stringAttribute (Some it) ''requestDigest'' = Some rd
      \<and> auditOutput E H (stringAttribute (Some it) ''output'') = Some out"
    if "returned (checkpoint_program E H (op w)) (part w run) (Inr (Some out))" "op_binding (op w) = (ex, rd)" for w rd out
    using conditional_store.answered_final [OF assms(1,3) _ assms(4) that] assms(2) by simp
  obtain it where it: "items d' (checkpoint_key ex) = Some it" "stringAttribute (Some it) ''requestDigest'' = Some rd"
    "auditOutput E H (stringAttribute (Some it) ''output'') = Some out" using answered [OF assms(5) b(1)] by blast
  with answered [OF assms(6) b(2)] have same: "out = out'" "rd = rd'" by auto
  have s: "served serve d (map snd run) d'" using assms(3) by (simp add: system_run_def)
  have own: "checkpoint_request (op u) (fst e)" if "(u, e) \<in> set run" for u e
    using system_requests_of [OF assms(3) checkpoint_requests that] .
  then have "\<forall>e \<in> set (map snd run). \<exists>op. checkpoint_request op (fst e)" by fastforce
  from conditional_store.checkpoint_origin [OF assms(1) s this it(1)] obtain u r where
    u: "(u, PutItem (checkpoint_key ex) it absent, r) \<in> set run" using assms(2) by auto
  from own [OF this] obtain now ex' rd'' out'' where w: "op u = WriteResult now ex' rd'' out''"
    "checkpoint_key ex = checkpoint_key ex'" "it = checkpoint_item now ex' rd'' out''"
    by (auto simp: checkpoint_request_def)
  have "auditOutput E H (stringAttribute (Some it) ''output'') = Some out''"
    using stored_output assms(4) [OF w(1)] by (simp add: w(3) checkpoint_item_def new_item_def stringAttribute_def)
  moreover have "rd'' = rd" using it(2) by (simp add: w(3) checkpoint_item_def new_item_def stringAttribute_def)
  ultimately show ?thesis using same b w(1,2) it(3) by (auto simp: checkpoint_key_def)
qed

subsection \<open>Two workers\<close>

definition demo_output :: AuditCallbackOutputV2 where
  "demo_output = \<lparr>aco_reportDigest = demo_digest, aco_evidenceDigest = demo_digest, aco_result = Inl READ_ONLY_REQUEST\<rparr>"

definition demo_output_host :: worker_host where
  "demo_output_host = \<lparr>jsonParse = (\<lambda>s. if s = canonical_text (output_json demo_output)
     then Some (canon (output_json demo_output)) else None), urlParse = (\<lambda>_. None)\<rparr>"

definition demo_checkpoint_ops :: "nat \<Rightarrow> checkpoint_op" where
  "demo_checkpoint_ops w = (if w = 0 then WriteResult 0 ''x'' demo_digest demo_output else WriteResult 1 ''x'' demo_digest demo_output)"

definition demo_put :: "int \<Rightarrow> db_request" where
  "demo_put now = PutItem (checkpoint_key ''x'') (checkpoint_item now ''x'' demo_digest demo_output) absent"

definition demo_checkpoint_run :: "(nat \<times> db_request \<times> db_response) list" where
  "demo_checkpoint_run = [(0, demo_put 0, Done), (1, demo_put 1, Failed demo_condition_failed),
     (1, GetItem (checkpoint_key ''x''), Found (Some (checkpoint_item 0 ''x'' demo_digest demo_output)))]"

lemma demo_checkpoint_parts:
  "part 0 demo_checkpoint_run = [(demo_put 0, Done)]"
  "part 1 demo_checkpoint_run = [(demo_put 1, Failed demo_condition_failed),
     (GetItem (checkpoint_key ''x''), Found (Some (checkpoint_item 0 ''x'' demo_digest demo_output)))]"
  "w \<noteq> 0 \<Longrightarrow> w \<noteq> 1 \<Longrightarrow> part w demo_checkpoint_run = []"
  by (simp_all add: demo_checkpoint_run_def part_def)

lemma demo_valid_output:
  "valid_output demo_env demo_output
   \<and> jsonParse demo_output_host (canonical_text (output_json demo_output)) = Some (canon (output_json demo_output))"
  by (simp add: valid_output_def demo_output_def demo_output_host_def)

lemma demo_stored:
  "auditOutput demo_env demo_output_host (stringAttribute (Some (checkpoint_item 0 ''x'' demo_digest demo_output)) ''output'') = Some demo_output"
  "stringAttribute (Some (checkpoint_item 0 ''x'' demo_digest demo_output)) ''requestDigest'' = Some demo_digest"
  using stored_output demo_valid_output by (simp_all add: checkpoint_item_def new_item_def stringAttribute_def)

lemma demo_checkpoint_returned:
  "returned (checkpoint_program demo_env demo_output_host (demo_checkpoint_ops 0)) (part 0 demo_checkpoint_run) (Inr (Some demo_output))"
  "returned (checkpoint_program demo_env demo_output_host (demo_checkpoint_ops 1)) (part 1 demo_checkpoint_run) (Inr (Some demo_output))"
  unfolding demo_checkpoint_parts
  by (simp_all add: demo_checkpoint_ops_def demo_put_def checkpoint_put_def checkpoint_get_def get_item_def db_bind_def
      returned_Ask demo_conditional demo_stored)

lemma demo_checkpoint_system:
  "system_run table_answers (\<lambda>w. checkpoint_program demo_env demo_output_host (demo_checkpoint_ops w)) (\<lambda>_. None) demo_checkpoint_run
     [checkpoint_key ''x'' \<mapsto> checkpoint_item 0 ''x'' demo_digest demo_output]"
proof -
  have "io_after (checkpoint_program demo_env demo_output_host (demo_checkpoint_ops w)) (part w demo_checkpoint_run) \<noteq> None" for w
    using demo_checkpoint_returned demo_checkpoint_parts(3) [of w] by (cases "w = 0"; cases "w = 1") (auto simp: returned_def)
  moreover have "served table_answers (\<lambda>_. None) (map snd demo_checkpoint_run)
      [checkpoint_key ''x'' \<mapsto> checkpoint_item 0 ''x'' demo_digest demo_output]"
    by (auto simp: demo_checkpoint_run_def served_Cons table_answers_def demo_put_def absent_item demo_conditional
        checkpoint_item_def checkpoint_key_def new_item_def)
  ultimately show ?thesis by (simp add: system_run_def)
qed

theorem checkpoint_agreement_witness:
  "demo_output = demo_output \<and> (\<exists>u now. demo_checkpoint_ops u = WriteResult now ''x'' demo_digest demo_output)"
proof -
  have ops: "valid_output demo_env out
      \<and> jsonParse demo_output_host (canonical_text (output_json out)) = Some (canon (output_json out))"
    if "demo_checkpoint_ops w = WriteResult now ex rd out" for w now ex rd out
    using that demo_valid_output by (auto simp: demo_checkpoint_ops_def split: if_splits)
  show ?thesis
    using checkpoint_agreement [OF table.conditional_store_axioms refl demo_checkpoint_system ops demo_checkpoint_returned]
    by (simp add: demo_checkpoint_ops_def)
qed

end
