(* ===== verification/EvidenceStore.thy ===== *)
theory EvidenceStore
  imports AuditCheckpoint RemediationService
begin

section \<open>Immutable evidence: \<open>S3ImmutableEvidenceStore\<close> of \<open>src/worker/aws-adapters.ts\<close>\<close>

text \<open>
  Evidence documents are objects named by their digest. A document is written only if its name is free; when
  it is not, the bytes there must be the same. A text stands for the bytes of its UTF-8 encoding. The headers beside the
  object (content type, checksum, metadata) are left out.
\<close>

datatype evidence_document = AuditDocument AuditEvidenceV1 | ExecutionDocument ExecutionEvidenceV1

datatype object_request = PutObject string string | GetObject string

datatype object_response = ObjectStored | ObjectBody string | ObjectEmpty | ObjectFailed AwsError

type_synonym 'a store_prog = "(object_request, object_response, thrown + 'a) io"

definition MAX_STORED_EVIDENCE_BYTES :: nat where "MAX_STORED_EVIDENCE_BYTES = 6 * 1024 * 1024"

fun document_json :: "evidence_document \<Rightarrow> json" where
  "document_json (AuditDocument e) = with_fields (evidence_payload e) [(''digest'', JStr (aev_digest e))]"
| "document_json (ExecutionDocument x) = with_fields (execution_evidence_payload x) [(''digest'', JStr (xev_digest x))]"

definition evidenceKey :: "string \<Rightarrow> string \<Rightarrow> string" where
  "evidenceKey k d = ''v1/'' @ k @ ''/sha256/'' @ drop (length ''sha256:'') d @ ''.json''"

fun document_key :: "evidence_document \<Rightarrow> string" where
  "document_key (AuditDocument e) = evidenceKey (if aev_schemaVersion e = ''archon.audit-evidence/v1'' then ''audit'' else ''execution'')
     (aev_digest e)"
| "document_key (ExecutionDocument x) = evidenceKey ''execution'' (xev_digest x)"

definition bodyText :: "object_response \<Rightarrow> thrown + string" where
  "bodyText r = (case r of
     ObjectBody text \<Rightarrow> if utf8_length text > MAX_STORED_EVIDENCE_BYTES
       then Inl (WorkerContractError INVALID_EVIDENCE ''Stored evidence exceeds the read limit.'') else Inr text
   | ObjectFailed e \<Rightarrow> Inl (ServiceThrew e)
   | _ \<Rightarrow> Inl (WorkerContractError INVALID_EVIDENCE ''Evidence object has no body.''))"

definition readText :: "string \<Rightarrow> string store_prog" where
  "readText k = Ask (GetObject k) (\<lambda>r. Return (bodyText r))"

definition store_put :: "evidence_document \<Rightarrow> unit store_prog" where
  "store_put doc = (let k = document_key doc; body = canonical_text (document_json doc) in
     Ask (PutObject k body) (\<lambda>r. case r of
       ObjectFailed e \<Rightarrow>
         if \<not> isConditionalFailure e then Return (Inl (ServiceThrew e))
         else io_bind (readText k) (\<lambda>existing. Return (bind_result existing (\<lambda>text.
           if text \<noteq> body then Inl (WorkerContractError INVALID_EVIDENCE
             ''A content-addressed evidence key already contains different bytes.'') else Inr ())))
     | _ \<Rightarrow> Return (Inr ())))"

text \<open>\<open>view\<close> reads a JSON value at the type of a document; \<open>None\<close> when a field is not there or of another kind.\<close>

definition evidence_of_text ::
    "js_env \<Rightarrow> worker_host \<Rightarrow> (json \<Rightarrow> AuditEvidenceV1 option) \<Rightarrow> string \<Rightarrow> string \<Rightarrow> thrown + AuditEvidenceV1" where
  "evidence_of_text E H view expectedDigest text = (case jsonParse H text of
     None \<Rightarrow> Inl (WorkerContractError INVALID_EVIDENCE ''Stored audit evidence is not JSON.'')
   | Some parsed \<Rightarrow> (case view parsed of
       Some e \<Rightarrow> if verifyAuditEvidence E e (Some expectedDigest) then Inr e
         else Inl (WorkerContractError INVALID_EVIDENCE ''Stored audit evidence failed digest or artifact verification.'')
     | None \<Rightarrow> Inl (WorkerContractError INVALID_EVIDENCE ''Stored audit evidence failed digest or artifact verification.'')))"

definition getAuditEvidence ::
    "js_env \<Rightarrow> worker_host \<Rightarrow> (json \<Rightarrow> AuditEvidenceV1 option) \<Rightarrow> string \<Rightarrow> AuditEvidenceV1 store_prog" where
  "getAuditEvidence E H view expectedDigest =
     io_bind (readText (evidenceKey ''audit'' expectedDigest)) (\<lambda>r. Return (bind_result r (evidence_of_text E H view expectedDigest)))"

subsection \<open>What an object store is assumed to do\<close>

text \<open>
  The documented behaviour of S3 with \<open>If-None-Match: *\<close>: a write succeeds only under a free name, a read returns
  the bytes of the object, a refused write changes nothing, and after any other failure the write may or may not
  have happened.
\<close>

locale object_store =
  fixes S :: "('d, object_request, object_response) service"
    and held :: "'d \<Rightarrow> string \<Rightarrow> string option"
  assumes stored: "S d (PutObject k b) r d' \<Longrightarrow> (\<forall>e. r \<noteq> ObjectFailed e) \<Longrightarrow>
      held d k = None \<and> held d' = (held d)(k \<mapsto> b)"
    and body: "S d (GetObject k) r d' \<Longrightarrow> held d' = held d \<and> (\<forall>b. r = ObjectBody b \<longrightarrow> held d k = Some b)"
    and not_written: "S d (PutObject k b) (ObjectFailed e) d' \<Longrightarrow>
      held d' = held d \<or> \<not> isConditionalFailure e \<and> held d k = None \<and> held d' = (held d)(k \<mapsto> b)"
begin

lemma object_kept:
  assumes "S d q r d'" "held d k = Some b"
  shows "held d' k = Some b"
proof (cases q)
  case (PutObject k' b')
  have "held d' = held d \<or> held d k' = None \<and> held d' = (held d)(k' \<mapsto> b')"
    using assms(1) stored [of d k' b' r d'] not_written [of d k' b' _ d'] unfolding PutObject by (cases r) blast+
  then show ?thesis using assms(2) by auto
next
  case (GetObject k')
  then show ?thesis using assms body by simp
qed

lemma object_persists:
  "served S d es d' \<Longrightarrow> held d k = Some b \<Longrightarrow> held d' k = Some b"
  by (induction rule: served.induct) (auto intro: object_kept)

lemma body_final:
  assumes "served S d es d'" "(GetObject k, ObjectBody b) \<in> set es"
  shows "held d' k = Some b"
proof -
  obtain es1 es2 d1 d2 where m: "S d1 (GetObject k) (ObjectBody b) d2" "served S d2 es2 d'"
    using served_middle [OF assms] by metis
  from body [OF m(1)] object_persists [OF m(2)] show ?thesis by simp
qed

lemma put_object_final:
  assumes "served S d es d'" "(PutObject k b, r) \<in> set es" "\<forall>e. r \<noteq> ObjectFailed e"
  shows "held d' k = Some b"
proof -
  obtain es1 es2 d1 d2 where m: "S d1 (PutObject k b) r d2" "served S d2 es2 d'"
    using served_middle [OF assms(1,2)] by metis
  from stored [OF m(1) assms(3)] object_persists [OF m(2)] show ?thesis by simp
qed

end

lemma returned_readText:
  assumes "returned (readText k) es (Inr text)"
  shows "(GetObject k, ObjectBody text) \<in> set es"
proof -
  obtain r where r: "es = [(GetObject k, r)]" "bodyText r = Inr text"
    using assms by (auto simp: readText_def returned_Ask)
  then have "r = ObjectBody text" by (cases r) (auto simp: bodyText_def split: if_splits)
  with r(1) show ?thesis by simp
qed

lemma returned_store_put:
  assumes "returned (store_put doc) es (Inr ())"
  shows "(\<exists>r. (PutObject (document_key doc) (canonical_text (document_json doc)), r) \<in> set es \<and> (\<forall>e. r \<noteq> ObjectFailed e))
    \<or> (GetObject (document_key doc), ObjectBody (canonical_text (document_json doc))) \<in> set es"
proof -
  let ?q = "PutObject (document_key doc) (canonical_text (document_json doc))"
  obtain r es' where es: "es = (?q, r) # es'" using assms by (auto simp: store_put_def Let_def returned_Ask)
  show ?thesis
  proof (cases r)
    case (ObjectFailed e)
    obtain existing where existing: "returned (readText (document_key doc)) es' existing"
      "Inr () = bind_result existing (\<lambda>text. if text \<noteq> canonical_text (document_json doc)
         then Inl (WorkerContractError INVALID_EVIDENCE ''A content-addressed evidence key already contains different bytes.'')
         else Inr ())"
      using assms unfolding es ObjectFailed
      by (auto simp: store_put_def Let_def returned_Ask returned_bind split: if_splits)
    then have "existing = Inr (canonical_text (document_json doc))"
      by (cases existing) (auto split: if_splits)
    with existing(1) have "returned (readText (document_key doc)) es' (Inr (canonical_text (document_json doc)))" by simp
    with returned_readText [of "document_key doc" es' "canonical_text (document_json doc)"] es show ?thesis by simp
  qed (use es in auto)
qed

lemma returned_getAuditEvidence:
  assumes "returned (getAuditEvidence E H view dg) es (Inr e)"
  shows "\<exists>text. (GetObject (evidenceKey ''audit'' dg), ObjectBody text) \<in> set es \<and> evidence_of_text E H view dg text = Inr e"
proof -
  obtain r where r: "returned (readText (evidenceKey ''audit'' dg)) es r"
    "Inr e = bind_result r (evidence_of_text E H view dg)"
    using assms unfolding getAuditEvidence_def returned_bind by auto
  then obtain stored where "r = Inr stored" "evidence_of_text E H view dg stored = Inr e" by (cases r) auto
  with returned_readText r(1) show ?thesis by blast
qed

subsection \<open>Writers and readers\<close>

datatype store_op = PutDocument evidence_document | GetAudit string

datatype store_result = DocumentStored | AuditRead AuditEvidenceV1

fun store_program :: "js_env \<Rightarrow> worker_host \<Rightarrow> (json \<Rightarrow> AuditEvidenceV1 option) \<Rightarrow> store_op \<Rightarrow> store_result store_prog" where
  "store_program E H view (PutDocument doc) = io_bind (store_put doc) (\<lambda>r. Return (map_result (\<lambda>_. DocumentStored) r))"
| "store_program E H view (GetAudit dg) = io_bind (getAuditEvidence E H view dg) (\<lambda>r. Return (map_result AuditRead r))"

lemma returned_mapped:
  "returned (io_bind p (\<lambda>r. Return (map_result f r))) es (Inr b) \<longleftrightarrow> (\<exists>a. returned p es (Inr a) \<and> b = f a)"
  unfolding returned_bind by (metis append_Nil2 map_result_Inr returned_Return)

text \<open>
  C11: the evidence store never changes what it holds, keeps every document whose storing was acknowledged, byte for
  byte, and never hands out evidence it did not verify: whoever reads audit evidence by its digest gets the
  evidence stored under it, verified against it; if storing audit evidence with this digest was acknowledged, to any
  worker and whatever else was running, it is that evidence.
\<close>

theorem evidence_immutable:
  assumes "object_store serve held" and "system_run serve (\<lambda>w. store_program E H view (op w)) d run d'"
  shows "(\<forall>k b. held d k = Some b \<longrightarrow> held d' k = Some b)
    \<and> (\<forall>w doc. op w = PutDocument doc \<longrightarrow> returned (store_program E H view (op w)) (part w run) (Inr DocumentStored) \<longrightarrow>
         held d' (document_key doc) = Some (canonical_text (document_json doc)))
    \<and> (\<forall>w dg e. op w = GetAudit dg \<longrightarrow> returned (store_program E H view (op w)) (part w run) (Inr (AuditRead e)) \<longrightarrow>
         verifyAuditEvidence E e (Some dg)
         \<and> (\<exists>text. held d' (evidenceKey ''audit'' dg) = Some text \<and> evidence_of_text E H view dg text = Inr e))
    \<and> (\<forall>w dg e u e'. op w = GetAudit dg \<longrightarrow> returned (store_program E H view (op w)) (part w run) (Inr (AuditRead e)) \<longrightarrow>
         op u = PutDocument (AuditDocument e') \<longrightarrow> returned (store_program E H view (op u)) (part u run) (Inr DocumentStored) \<longrightarrow>
         aev_schemaVersion e' = ''archon.audit-evidence/v1'' \<longrightarrow> aev_digest e' = dg \<longrightarrow>
         Option.bind (jsonParse H (canonical_text (document_json (AuditDocument e')))) view = Some e' \<longrightarrow> e = e')"
    (is "?kept \<and> ?puts \<and> ?gets \<and> ?same")
proof -
  have s: "served serve d (map snd run) d'" using assms(2) by (simp add: system_run_def)
  have own: "set (part w run) \<subseteq> set (map snd run)" for w by (auto simp: part_def)
  have ?kept using object_store.object_persists [OF assms(1) s] by blast
  moreover have puts: ?puts
  proof (intro allI impI)
    fix w doc assume w: "op w = PutDocument doc" "returned (store_program E H view (op w)) (part w run) (Inr DocumentStored)"
    then have "returned (store_put doc) (part w run) (Inr ())" by (auto simp: returned_mapped)
    from returned_store_put [OF this] own [of w]
    show "held d' (document_key doc) = Some (canonical_text (document_json doc))"
      using object_store.put_object_final [OF assms(1) s] object_store.body_final [OF assms(1) s] by blast
  qed
  moreover have gets: ?gets
  proof (intro allI impI)
    fix w dg e assume w: "op w = GetAudit dg" "returned (store_program E H view (op w)) (part w run) (Inr (AuditRead e))"
    then have "returned (getAuditEvidence E H view dg) (part w run) (Inr e)" by (auto simp: returned_mapped)
    from returned_getAuditEvidence [OF this] obtain b where
      b: "(GetObject (evidenceKey ''audit'' dg), ObjectBody b) \<in> set (part w run)" "evidence_of_text E H view dg b = Inr e" by blast
    moreover have "verifyAuditEvidence E e (Some dg)"
      using b(2) by (auto simp: evidence_of_text_def split: option.splits if_splits)
    ultimately show "verifyAuditEvidence E e (Some dg)
         \<and> (\<exists>text. held d' (evidenceKey ''audit'' dg) = Some text \<and> evidence_of_text E H view dg text = Inr e)"
      using object_store.body_final [OF assms(1) s] own [of w] by blast
  qed
  moreover have ?same
  proof (intro allI impI)
    fix w dg e u e' assume w: "op w = GetAudit dg" "returned (store_program E H view (op w)) (part w run) (Inr (AuditRead e))"
      and u: "op u = PutDocument (AuditDocument e')" "returned (store_program E H view (op u)) (part u run) (Inr DocumentStored)"
      and e': "aev_schemaVersion e' = ''archon.audit-evidence/v1''" "aev_digest e' = dg"
      and view: "Option.bind (jsonParse H (canonical_text (document_json (AuditDocument e')))) view = Some e'"
    have "held d' (evidenceKey ''audit'' dg) = Some (canonical_text (document_json (AuditDocument e')))"
      using puts [rule_format, OF u] e' by simp
    then have "evidence_of_text E H view dg (canonical_text (document_json (AuditDocument e'))) = Inr e"
      using gets [rule_format, OF w] by auto
    with view show "e = e'" by (auto simp: evidence_of_text_def split: option.splits if_splits)
  qed
  ultimately show ?thesis by blast
qed

subsection \<open>A store\<close>

text \<open>The documented behaviour itself, with every answer a store may give.\<close>

definition store_answers :: "(string \<Rightarrow> string option, object_request, object_response) service" where
  "store_answers d q r d' \<longleftrightarrow> (case q of
     PutObject k b \<Rightarrow> (case r of
         ObjectFailed e \<Rightarrow> d' = d \<or> \<not> isConditionalFailure e \<and> d k = None \<and> d' = d(k \<mapsto> b)
       | _ \<Rightarrow> d k = None \<and> d' = d(k \<mapsto> b))
   | GetObject k \<Rightarrow> d' = d \<and> (\<forall>b. r = ObjectBody b \<longrightarrow> d k = Some b))"

interpretation store: object_store store_answers "\<lambda>d. d"
  by unfold_locales (auto simp: store_answers_def split: object_response.splits)

definition demo_store_run :: "(nat \<times> object_request \<times> object_response) list" where
  "demo_store_run = [(0, PutObject (document_key (AuditDocument demo_evidence))
     (canonical_text (document_json (AuditDocument demo_evidence))), ObjectStored)]"

theorem evidence_immutable_witness:
  "\<exists>d. system_run store_answers (\<lambda>w :: nat. store_program demo_env demo_output_host (\<lambda>_. None) (PutDocument (AuditDocument demo_evidence)))
     (\<lambda>_. None) demo_store_run d
   \<and> d (document_key (AuditDocument demo_evidence)) = Some (canonical_text (document_json (AuditDocument demo_evidence)))"
proof -
  let ?op = "\<lambda>w :: nat. PutDocument (AuditDocument demo_evidence)"
  let ?d = "[document_key (AuditDocument demo_evidence) \<mapsto> canonical_text (document_json (AuditDocument demo_evidence))]"
  have parts: "part 0 demo_store_run = map snd demo_store_run" "w \<noteq> 0 \<Longrightarrow> part w demo_store_run = []" for w
    by (simp_all add: demo_store_run_def part_def)
  have ret: "returned (store_program demo_env demo_output_host (\<lambda>_. None) (?op 0)) (part 0 demo_store_run) (Inr DocumentStored)"
    unfolding parts by (simp add: demo_store_run_def store_put_def Let_def returned_Ask)
  have "io_after (store_program demo_env demo_output_host (\<lambda>_. None) (?op w)) (part w demo_store_run) \<noteq> None" for w
    using ret parts(2) [of w] by (cases "w = 0") (auto simp: returned_def)
  then have run: "system_run store_answers (\<lambda>w. store_program demo_env demo_output_host (\<lambda>_. None) (?op w)) (\<lambda>_. None) demo_store_run ?d"
    by (simp add: system_run_def demo_store_run_def served_Cons store_answers_def)
  from evidence_immutable [OF store.object_store_axioms run] ret run show ?thesis by blast
qed

end
