(* ===== verification/AgentLoop.thy ===== *)
theory AgentLoop
  imports Report
begin

section \<open>The agent loop: \<open>src/ap/loop.ts\<close>\<close>

text \<open>
  A language model chooses among the read-only tools, one tool a step. What the model and the catalog
  answer is arbitrary: both are ports that answer from a world and change it. A reply of the model is its
  response, the name of the first tool it calls, and the time the call took. Of a call to the model only the user
  message is kept, the rest being constant; the query of the harvest is fixed for a run; \<open>onStop\<close> receives a
  log message and is left out.
\<close>

datatype LoopStopReason = EMITTED_FINDINGS | NO_PROGRESS_FALLBACK | MAX_STEPS_FALLBACK

record AuditTraceStep =
  ats_step :: nat
  ats_tool :: string
  ats_observation :: string

record AuditRunResult =
  arr_disposition :: string
  arr_findings :: "Finding list"
  arr_trace :: "AuditTraceStep list"
  arr_modelProvenance :: "ModelRuntimeProvenance list"
  arr_stopReason :: LoopStopReason

record LoopState =
  lst_harvested :: bool
  lst_consistencyDone :: bool
  lst_governanceDone :: bool
  lst_findings :: "Finding list"
  lst_snapshot :: "CatalogSnapshot option"
  lst_facts :: "AuditFact list option"

record LoopAgents =
  lag_env :: js_env
  lag_policy :: GovernancePolicy
  lag_prose :: finding_prose
  lag_runtime :: LlmRuntimeIdentity
  lag_modelId :: string

record ModelReply =
  mr_response :: ChatResponse
  mr_tool :: "string option"
  mr_elapsed :: int

record 'w loop_ports =
  lp_chat :: "'w \<Rightarrow> string \<Rightarrow> (PipelineError + ModelReply) \<times> 'w"
  lp_harvest :: "'w \<Rightarrow> (PipelineError + AuditHarvest) \<times> 'w"

definition AUTONOMOUS :: "string list" where
  "AUTONOMOUS = [''harvest_catalog'', ''run_consistency_audit'', ''run_governance_audit'']"

definition initial_loop_state :: LoopState where
  "initial_loop_state = \<lparr>lst_harvested = False, lst_consistencyDone = False, lst_governanceDone = False,
     lst_findings = [], lst_snapshot = None, lst_facts = None\<rparr>"

definition loop_signature :: "LoopState \<Rightarrow> string" where
  "loop_signature s = bool_text (lst_harvested s) @ ''|'' @ bool_text (lst_consistencyDone s) @ ''|''
     @ bool_text (lst_governanceDone s) @ ''|'' @ show_nat (length (lst_findings s))"

definition arrow :: string where
  "arrow = map char_of [226 :: nat, 134, 146]"

definition loop_message :: "AuditTraceStep list \<Rightarrow> LoopState \<Rightarrow> string" where
  "loop_message tr s =
     (let steps = (if tr = [] then ''  (none yet '' @ em_dash @ '' start with harvest_catalog)''
            else join newline (map (\<lambda>t. ''  '' @ show_nat (ats_step t) @ ''. '' @ ats_tool t @ newline
              @ ''     '' @ arrow @ '' '' @ ats_observation t) tr));
          evidence = ''EVIDENCE: harvested='' @ bool_text (lst_harvested s)
            @ '' consistency_done='' @ bool_text (lst_consistencyDone s)
            @ '' governance_done='' @ bool_text (lst_governanceDone s)
            @ '' findings='' @ show_nat (length (lst_findings s)) in
      join newline [''STEPS SO FAR:'', steps, [], evidence, [], ''Choose the next tool now.''])"

subsection \<open>The tools\<close>

definition harvest_tool :: "'w loop_ports \<Rightarrow> LoopState \<Rightarrow> 'w \<Rightarrow> (PipelineError + (string \<times> LoopState)) \<times> 'w" where
  "harvest_tool P s w = (case lp_harvest P w of
      (Inl e, w') \<Rightarrow> (Inl e, w')
    | (Inr h, w') \<Rightarrow>
        (Inr (''harvested '' @ formatCount (length (snap_entities (hv_snapshot h))) ''entity'' @ '' (''
            @ formatCount (cls_withLineage (classify (hv_snapshot h))) ''lineage-bearing entity'' @ '')'',
          s\<lparr>lst_snapshot := Some (hv_snapshot h), lst_facts := Some (hv_facts h), lst_harvested := True\<rparr>), w'))"

definition consistency_tool :: "LoopAgents \<Rightarrow> LoopState \<Rightarrow> string \<times> LoopState" where
  "consistency_tool A s =
     (if \<not> lst_harvested s then (''cannot audit before harvest_catalog'', s)
      else let found = analyze_facts (lag_prose A) (lag_env A) (or_else (lst_facts s) []) in
        (''self-audit found '' @ formatCount (length found) ''contradiction/lineage finding'',
         s\<lparr>lst_findings := lst_findings s @ found, lst_consistencyDone := True\<rparr>))"

definition governance_tool :: "LoopAgents \<Rightarrow> LoopState \<Rightarrow> PipelineError + (string \<times> LoopState)" where
  "governance_tool A s =
     (if \<not> lst_harvested s then Inr (''cannot audit before harvest_catalog'', s)
      else bind_result (case lst_snapshot s of None \<Rightarrow> Inr []
          | Some snapshot \<Rightarrow> throws PolicyThrew (governance_audit (lag_policy A) snapshot)) (\<lambda>found.
        Inr (''governance audit found '' @ formatCount (length found) ''violation'',
          s\<lparr>lst_findings := lst_findings s @ found, lst_governanceDone := True\<rparr>)))"

definition execute_tool ::
    "LoopAgents \<Rightarrow> 'w loop_ports \<Rightarrow> string \<Rightarrow> LoopState \<Rightarrow> 'w \<Rightarrow> (PipelineError + (string \<times> LoopState)) \<times> 'w" where
  "execute_tool A P name s w =
     (if name = ''harvest_catalog'' then harvest_tool P s w
      else if name = ''run_consistency_audit'' then (Inr (consistency_tool A s), w)
      else if name = ''run_governance_audit'' then (governance_tool A s, w)
      else (Inr (''unknown tool '' @ name, s), w))"

subsection \<open>The loop\<close>

definition loop_result ::
    "LoopState \<Rightarrow> AuditTraceStep list \<Rightarrow> ModelRuntimeProvenance list \<Rightarrow> LoopStopReason \<Rightarrow> AuditRunResult" where
  "loop_result s tr mp reason = \<lparr>arr_disposition = ''pending'', arr_findings = lst_findings s, arr_trace = tr,
     arr_modelProvenance = mp, arr_stopReason = reason\<rparr>"

text \<open>The steps from number \<open>step\<close> on, of which \<open>n\<close> are left.\<close>

fun loop_steps ::
    "LoopAgents \<Rightarrow> 'w loop_ports \<Rightarrow> nat \<Rightarrow> nat \<Rightarrow> LoopState \<Rightarrow> AuditTraceStep list \<Rightarrow> ModelRuntimeProvenance list \<Rightarrow> nat
     \<Rightarrow> 'w \<Rightarrow> (PipelineError + AuditRunResult) \<times> 'w" where
  "loop_steps A P step 0 s tr mp noProgress w = (Inr (loop_result s tr mp MAX_STEPS_FALLBACK), w)"
| "loop_steps A P step (Suc n) s tr mp noProgress w =
     (case lp_chat P w (loop_message tr s) of
        (Inl e, w1) \<Rightarrow> (Inl e, w1)
      | (Inr reply, w1) \<Rightarrow>
          (case provenance_of (lag_runtime A) (lag_modelId A) (mr_response reply) (mr_elapsed reply) of
             Inl e \<Rightarrow> (Inl e, w1)
           | Inr p \<Rightarrow>
               let name = or_else (mr_tool reply) [] in
               if name = ''emit_findings'' then (Inr (loop_result s tr (mp @ [p]) EMITTED_FINDINGS), w1)
               else if name = ''flag_for_review'' then (Inr (loop_result s tr (mp @ [p]) NO_PROGRESS_FALLBACK), w1)
               else if name \<in> set AUTONOMOUS then
                 (case execute_tool A P name s w1 of
                    (Inl e, w2) \<Rightarrow> (Inl e, w2)
                  | (Inr (observation, s'), w2) \<Rightarrow>
                      let tr' = tr @ [\<lparr>ats_step = step, ats_tool = name, ats_observation = observation\<rparr>] in
                      if loop_signature s' = loop_signature s then
                        if Suc noProgress \<ge> 2 then (Inr (loop_result s' tr' (mp @ [p]) NO_PROGRESS_FALLBACK), w2)
                        else loop_steps A P (Suc step) n s' tr' (mp @ [p]) (Suc noProgress) w2
                      else loop_steps A P (Suc step) n s' tr' (mp @ [p]) noProgress w2)
               else if Suc noProgress \<ge> 2 then (Inr (loop_result s tr (mp @ [p]) NO_PROGRESS_FALLBACK), w1)
               else loop_steps A P (Suc step) n s tr (mp @ [p]) (Suc noProgress) w1))"

text \<open>\<open>maxSteps\<close> is an integer between 3 and 12 whatever the option says, 6 by default.\<close>

definition loop_max_steps :: "int option \<Rightarrow> nat" where
  "loop_max_steps maxSteps = nat (min 12 (max 3 (or_else maxSteps 6)))"

definition loop_run ::
    "LoopAgents \<Rightarrow> 'w loop_ports \<Rightarrow> int option \<Rightarrow> 'w \<Rightarrow> (PipelineError + AuditRunResult) \<times> 'w" where
  "loop_run A P maxSteps w = loop_steps A P 1 (loop_max_steps maxSteps) initial_loop_state [] [] 0 w"

subsection \<open>What a run returns\<close>

lemma show_nat_eq [simp]: "show_nat m = show_nat n \<longleftrightarrow> m = n"
  by (metis read_show_nat)

lemma loop_signature_eq:
  "loop_signature s = loop_signature t \<longleftrightarrow> lst_harvested s = lst_harvested t \<and> lst_consistencyDone s = lst_consistencyDone t
     \<and> lst_governanceDone s = lst_governanceDone t \<and> length (lst_findings s) = length (lst_findings t)"
  by (auto simp: loop_signature_def bool_text_def split: if_splits)

text \<open>A finding of the consistency audit or of the governance audit of a harvest the catalog answered with.\<close>

definition harvests :: "'w loop_ports \<Rightarrow> AuditHarvest set" where
  "harvests P = {h. \<exists>w w'. lp_harvest P w = (Inr h, w')}"

definition audited :: "LoopAgents \<Rightarrow> 'w loop_ports \<Rightarrow> Finding \<Rightarrow> bool" where
  "audited A P f \<longleftrightarrow> (\<exists>h \<in> harvests P. f \<in> set (analyze_facts (lag_prose A) (lag_env A) (hv_facts h))
     \<or> (\<exists>gs. governance_audit (lag_policy A) (hv_snapshot h) = Inr gs \<and> f \<in> set gs))"

lemma auditedI:
  "h \<in> harvests P \<Longrightarrow> f \<in> set (analyze_facts (lag_prose A) (lag_env A) (hv_facts h)) \<Longrightarrow> audited A P f"
  "h \<in> harvests P \<Longrightarrow> governance_audit (lag_policy A) (hv_snapshot h) = Inr gs \<Longrightarrow> f \<in> set gs \<Longrightarrow> audited A P f"
  by (auto simp: audited_def)

definition loop_invariant :: "LoopAgents \<Rightarrow> 'w loop_ports \<Rightarrow> LoopState \<Rightarrow> bool" where
  "loop_invariant A P s \<longleftrightarrow> (\<forall>f \<in> set (lst_findings s). audited A P f)
     \<and> (lst_harvested s \<longrightarrow> (\<exists>h \<in> harvests P. lst_snapshot s = Some (hv_snapshot h) \<and> lst_facts s = Some (hv_facts h)))"

lemma throws_eq_Inr [simp]: "throws f r = Inr a \<longleftrightarrow> r = Inr a"
  by (cases r) auto

lemma execute_invariant:
  assumes "loop_invariant A P s" "execute_tool A P name s w = (Inr (observation, s'), w')"
  shows "loop_invariant A P s'"
proof (cases "name = ''harvest_catalog''")
  case True
  with assms(2) obtain h where "lp_harvest P w = (Inr h, w')"
    "s' = s\<lparr>lst_snapshot := Some (hv_snapshot h), lst_facts := Some (hv_facts h), lst_harvested := True\<rparr>"
    by (auto simp: execute_tool_def harvest_tool_def split: prod.splits sum.splits)
  then show ?thesis using assms(1) by (auto simp: loop_invariant_def harvests_def)
next
  case False
  then show ?thesis
    using assms by (auto simp: execute_tool_def consistency_tool_def governance_tool_def loop_invariant_def Let_def
        intro: auditedI split: if_splits)
qed

text \<open>
  A run asks the model at most \<open>n\<close> times and keeps one record of provenance for each call; its findings are
  those of the audits, pending; and the reason \<open>MAX_STEPS_FALLBACK\<close> is given only after all steps.
\<close>

lemma loop_steps_result:
  assumes "loop_invariant A P s" "loop_steps A P step n s tr mp noProgress w = (Inr r, w')"
  shows "(\<forall>f \<in> set (arr_findings r). audited A P f) \<and> arr_disposition r = ''pending''
    \<and> length (arr_modelProvenance r) \<le> length mp + n \<and> length (arr_trace r) \<le> length tr + n
    \<and> (arr_stopReason r = MAX_STEPS_FALLBACK \<longrightarrow> length (arr_modelProvenance r) = length mp + n)"
  using assms
proof (induction A P step n s tr mp noProgress w rule: loop_steps.induct)
  case (1 A P step s tr mp noProgress w)
  then show ?case by (auto simp: loop_result_def loop_invariant_def)
next
  case (2 A P step n s tr mp noProgress w)
  obtain reply w1 p where call: "lp_chat P w (loop_message tr s) = (Inr reply, w1)"
    "provenance_of (lag_runtime A) (lag_modelId A) (mr_response reply) (mr_elapsed reply) = Inr p"
    using "2.prems"(2) by (auto split: prod.splits sum.splits)
  let ?name = "or_else (mr_tool reply) []"
  note IH = "2.IH" [OF call(1) [symmetric] refl call(2) refl]
  consider "?name = ''emit_findings'' \<or> ?name = ''flag_for_review''"
    | "?name \<notin> {''emit_findings'', ''flag_for_review''}" "?name \<in> set AUTONOMOUS"
    | "?name \<notin> {''emit_findings'', ''flag_for_review''}" "?name \<notin> set AUTONOMOUS" by blast
  then show ?case
  proof cases
    case 1
    then show ?thesis using "2.prems" call by (auto simp: loop_result_def loop_invariant_def)
  next
    case 2
    then obtain observation s' w2 where ex: "execute_tool A P ?name s w1 = (Inr (observation, s'), w2)"
      using "2.prems"(2) call by (auto simp: Let_def split: prod.splits sum.splits)
    from execute_invariant [OF "2.prems"(1) ex] have inv: "loop_invariant A P s'" .
    have name: "?name \<noteq> ''emit_findings''" "?name \<noteq> ''flag_for_review''" using 2(1) by simp_all
    note IH = IH(1,2) [OF name 2(2) ex [symmetric] refl refl refl]
    show ?thesis
    proof (cases "loop_signature s' = loop_signature s")
      case True
      then show ?thesis
        using IH(1) [OF True _ inv] "2.prems"(2) call name 2(2) ex inv
        by (cases noProgress) (auto simp: loop_result_def loop_invariant_def Let_def)
    next
      case False
      then show ?thesis
        using IH(2) [OF False inv] "2.prems"(2) call name 2(2) ex by (auto simp: Let_def)
    qed
  next
    case 3
    then have name: "?name \<noteq> ''emit_findings''" "?name \<noteq> ''flag_for_review''" by simp_all
    show ?thesis
      using IH(3) [OF name 3(2) _ "2.prems"(1)] "2.prems" call name 3(2)
      by (cases noProgress) (auto simp: loop_result_def loop_invariant_def Let_def)
  qed
qed

lemma loop_run_result:
  assumes "loop_run A P maxSteps w = (Inr r, w')"
  shows "(\<forall>f \<in> set (arr_findings r). audited A P f) \<and> arr_disposition r = ''pending''
    \<and> length (arr_modelProvenance r) \<le> loop_max_steps maxSteps \<and> loop_max_steps maxSteps \<le> 12
    \<and> (arr_stopReason r = MAX_STEPS_FALLBACK \<longrightarrow> length (arr_modelProvenance r) = loop_max_steps maxSteps)"
proof -
  have "loop_invariant A P initial_loop_state" by (simp add: loop_invariant_def initial_loop_state_def)
  from loop_steps_result [OF this assms [unfolded loop_run_def]] show ?thesis by (simp add: loop_max_steps_def)
qed

subsection \<open>A repeated audit counts as progress\<close>

text \<open>
  The no-progress guard is meant for a read tool that is run again. It compares the number of findings, and an
  audit that found something adds the same findings again, so the repetition counts as progress.
\<close>

lemma repeated_audit_is_progress:
  assumes "lst_harvested s" and "consistency_tool A s = (observation1, s1)" and "consistency_tool A s1 = (observation2, s2)"
  defines "found \<equiv> analyze_facts (lag_prose A) (lag_env A) (or_else (lst_facts s) [])"
  shows "lst_findings s2 = lst_findings s @ found @ found" and "loop_signature s2 = loop_signature s1 \<longleftrightarrow> found = []"
  using assms(1-3) by (auto simp: consistency_tool_def Let_def found_def loop_signature_eq)

text \<open>A model that calls the given tools in turn, over a catalog that answers with one harvest.\<close>

definition scripted_reply :: "string list \<Rightarrow> ModelReply" where
  "scripted_reply names = \<lparr>mr_response = \<lparr>chat_id = None, chat_model = None, chat_usage = None, chat_content = None\<rparr>,
     mr_tool = Some (hd names), mr_elapsed = 0\<rparr>"

definition scripted_ports :: "AuditHarvest \<Rightarrow> string list loop_ports" where
  "scripted_ports h = \<lparr>lp_chat = (\<lambda>names m. (Inr (scripted_reply names), tl names)), lp_harvest = (\<lambda>names. (Inr h, names))\<rparr>"

lemma duplicated_findings_emitted:
  assumes "lag_runtime A = DeterministicFixture" "lag_modelId A = ''m''"
    and "found = analyze_facts (lag_prose A) (lag_env A) (hv_facts h)" "found \<noteq> []"
  shows "\<exists>r. loop_run A (scripted_ports h) None
      [''harvest_catalog'', ''run_consistency_audit'', ''run_consistency_audit'', ''emit_findings''] = (Inr r, [])
    \<and> arr_findings r = found @ found \<and> arr_stopReason r = EMITTED_FINDINGS"
proof -
  have p: "provenance_of DeterministicFixture ''m'' (mr_response (scripted_reply names)) 0 = Inr (FixtureProvenance ''m'')" for names
    by (simp add: provenance_of_def createModelRuntimeProvenance_def, code_simp)
  have names: "mr_tool (scripted_reply (n # ns)) = Some n" "mr_elapsed (scripted_reply ns) = 0" for n ns
    by (simp_all add: scripted_reply_def)
  have "loop_max_steps None = Suc (Suc (Suc (Suc (Suc (Suc 0)))))" by (simp add: loop_max_steps_def)
  then show ?thesis
    using assms(4)
    by (simp add: loop_run_def scripted_ports_def p names AUTONOMOUS_def execute_tool_def harvest_tool_def consistency_tool_def
        initial_loop_state_def loop_signature_eq loop_result_def assms(1-3) Let_def)
qed

end
