(* ===== verification/Spec2Isabelle.thy ===== *)
theory Spec2Isabelle
  imports LoopProperties Rollback RuntimeSession Governance BlastRadius SelfAudit VersionHistory
    DynamoProperties QueueWorker Provenance LineageAnalyzer Report AuditService RemediationService
    Drift HarvestPolicy AuditCheckpoint EvidenceStore AgentLoop
begin

text \<open>
  Archon for DataHub audits a metadata catalog and, with a person's approval, makes one kind of change to
  it: adding a classification tag to a sensitive column. This library models the program's own logic as
  executable definitions and proves what makes it correct. The TypeScript under \<open>src/\<close> is what is
  modelled; file names below are relative to it.

  The parts and their theories, in the order of their imports.

  \<^item> \<open>Prelude\<close>, \<open>JsDate\<close>: what the sources use of JavaScript (strings as lists of code units,
    \<open>trim\<close>, stable \<open>sort\<close>, \<open>Set\<close>, property order, base64url, \<open>Date.parse\<close>). Parts of the language
    that depend on its implementation are fields of a record \<open>js_env\<close>: the collation \<open>localeCompare\<close>,
    SHA-256, and \<open>Date.parse\<close> outside the format of \<open>toISOString\<close>. \<open>text/format-count.ts\<close> is here too.
  \<^item> \<open>Integrity\<close> (\<open>remediation/integrity.ts\<close>): \<open>normalize\<close> over an explicit heap of objects, so that
    sharing and cycles are visible; \<open>canonicalize\<close> returns exactly on the finite JSON trees, and
    canonical texts are equal exactly when the data are.
  \<^item> \<open>Contracts\<close> (\<open>remediation/contracts.ts\<close>): the artifacts of the governed write as records, and the
    JSON their digests are taken over.
  \<^item> \<open>Planner\<close> (\<open>remediation/planner.ts\<close>), \<open>Receipt\<close> (\<open>remediation/receipt.ts\<close>): which action a plan
    may carry, what a receipt proves, what a digest binds.
  \<^item> \<open>Journal\<close>, \<open>ControlLoop\<close>, \<open>LoopTraces\<close>, \<open>LoopProperties\<close> (\<open>remediation/control-loop.ts\<close>):
    the execution of an approved plan against arbitrary ports. The ports (clock, reader, tag mutation) are
    functions of everything that happened before; the journal is the locale \<open>execution_journal\<close>, interpreted on
    \<open>InMemoryExecutionJournal\<close>. An execution yields the list of its port calls, and the safety
    properties speak about that trace for every behaviour of the ports.
  \<^item> \<open>Rollback\<close> (\<open>remediation/rollback.ts\<close>): undoing a verified execution, against the same kind of ports.
  \<^item> \<open>RuntimeProfile\<close>, \<open>RuntimeSession\<close> (\<open>datahub/runtime-profile.ts\<close>,
    \<open>datahub/runtime-session.ts\<close>): selecting the catalog backend, and the lease of a session on it as a state
    machine that refines an abstract one over states and event names.
  \<^item> \<open>Catalog\<close> (\<open>datahub/models.ts\<close>, \<open>types.ts\<close>), \<open>Governance\<close> (\<open>governance/validator.ts\<close>,
    \<open>agents/governance-auditor.ts\<close>, \<open>agents/classifier.ts\<close>), \<open>BlastRadius\<close>
    (\<open>datahub/blast-radius.ts\<close>), \<open>Harvest\<close> and \<open>Consistency\<close> (\<open>audit/harvest.ts\<close>,
    \<open>audit/consistency.ts\<close>), \<open>SelfAudit\<close>: the audits. The verdicts, the impact of an asset and the
    reported conflicts are characterised by specifications that do not mention the algorithms: the rules as
    predicates on entities, distances in the lineage graph, disagreements between source reports.
  \<^item> \<open>VersionHistory\<close>, \<open>Drift\<close> (\<open>datahub/version-history.ts\<close>,
    with \<open>JsonFields\<close> for its fields of stored JSON): the facts recovered from stored versions, and the
    difference between two harvests.
  \<^item> \<open>HarvestPolicy\<close> (\<open>datahub/harvest-policy.ts\<close>): the pool of concurrent workers as a step relation over every
    interleaving, and the deadline around an operation.
  \<^item> \<open>Provenance\<close>, \<open>LineageAnalyzer\<close>, \<open>Report\<close> (\<open>llm/provenance.ts\<close>, \<open>agents/lineage-analyzer.ts\<close>,
    \<open>agents/narrator.ts\<close>, \<open>pipeline/pipeline.ts\<close>): the record of a model call, findings from the
    self-audit, and the pipeline that composes the audits into a report.
  \<^item> \<open>AgentLoop\<close> (\<open>ap/loop.ts\<close>): the bounded loop in which a model chooses among the read-only tools; its findings
    are those of audits that ran, each model call leaves one record, and a repeated audit repeats its findings.
  \<^item> \<open>Requests\<close>: programs that send requests to a service, and their interleavings. The AWS code is
    modelled with them.
  \<^item> \<open>AwsErrors\<close>, \<open>DynamoJournal\<close>, \<open>DynamoProperties\<close> (\<open>worker/aws-adapters.ts\<close>): the durable journal on a
    table of conditional writes (the locale \<open>conditional_store\<close>, interpreted on an executable table whose responses may be
    lost). Every interleaving of its operations is a run of the in-memory journal that explains each answer.
  \<^item> \<open>WorkerMessages\<close> (\<open>worker/contracts.ts\<close>), \<open>QueueWorker\<close> (\<open>AwsQueueWorker\<close>, \<open>CallbackLease\<close> of
    \<open>worker/aws-adapters.ts\<close>): the queue messages with their parsers, and the processing of a delivery under a lease.
  \<^item> \<open>WorkerEvidence\<close>, \<open>AuditService\<close>, \<open>RemediationService\<close> (\<open>worker/service.ts\<close>): the evidence documents and the three
    services of the workers; \<open>AuditCheckpoint\<close>, \<open>EvidenceStore\<close> (\<open>worker/aws-adapters.ts\<close>): where their answers
    and documents are kept.
  \<^item> \<open>HonestRun\<close>: a run of the control loop that writes and is verified, under a digest that tells the states apart.

  Bounds and termination. No definition uses fuel, except that \<open>run_polls\<close> takes the number of polls. The control loop and the
  session machine are straight-line; \<open>normalize\<close> recurses over the finite heap, and a cyclic value is the error the source
  throws; the lineage search terminates because each round shrinks the set of unseen nodes or the queue; programs of
  requests are finite trees. Integers are mathematical integers where the sources stay below \<open>2 ^ 53\<close> and check it
  (\<open>Number.isSafeInteger\<close>), and exact rationals stand for the floating-point confidences of the recommender.

  Idealisations, each stated where it is made. The table and the object store keep what was written: the deletion of items
  after \<open>expiresAt\<close> is outside the model, so the journal's properties are those of runs shorter than the retention.
  Background renewals of a lease appear as what they left in it when the operation ended: nothing, an error, or a renewal in
  flight, which the next assertion joins. The two reads of \<open>claim\<close> are sent in the order of the source. Log
  lines are left out.

  What modelling found is stated as theorems about the code as it is: \<open>tampered_rollback_executes\<close>,
  \<open>unsealed_readback_unrecorded\<close>, \<open>plan_verifier_ignores_extra_targets\<close>, \<open>digest_ignores_proto\<close>,
  \<open>audit_depends_on_order\<close>, \<open>repeated_audit_is_progress\<close>.

  Not modelled: the clients of DataHub over MCP and GraphQL with the mapping of their responses
  (\<open>datahub/mcp-client*.ts\<close>, \<open>live-mappers.ts\<close>, \<open>mutation-client*.ts\<close>,
  \<open>version-history-reader.ts\<close>, \<open>tag-projection-reader-live.ts\<close>), the language-model clients
  (\<open>llm/client.ts\<close>, \<open>llm/fake.ts\<close>), the entry points and configuration of the workers, the HTTP and MCP servers, the exporters, the evaluation
  harness, the web console, the infrastructure with its lambdas, and the scripts. They are input and output around this core:
  the definitions take what these parts deliver as arguments, and nothing is assumed of it beyond the stated hypotheses.
\<close>

end
